(* ===== verification/HD_Prelude.thy ===== *)
theory HD_Prelude
  imports Main "HOL-Library.Word"
begin

text \<open>
  The prelude of the HyperDisk development: the machine types of the C and C++ sources, the
  NTSTATUS values the drivers exchange, memory faults as values of a result type, byte buffers
  with checked reads and writes, and the little-endian layout of integers that the packed
  structs of the protocol and of the on-disk formats share.
\<close>

unbundle bit_operations_syntax

section \<open>Collections of rewrite rules\<close>

named_theorems hd_simps \<open>unfoldings shared by the component proofs\<close>
named_theorems hd_len \<open>lengths of encoded structures\<close>

section \<open>Machine types\<close>

type_synonym u8 = "8 word"
type_synonym u16 = "16 word"
type_synonym u32 = "32 word"
type_synonym u64 = "64 word"
type_synonym NTSTATUS = "32 word"

text \<open>A \<^verbatim>\<open>char\<close> string as the bytes of its characters, and a zero-terminated one.\<close>

definition bytes_of_string :: "string \<Rightarrow> u8 list" where
  "bytes_of_string s = map (\<lambda>c. of_nat (of_char c :: nat)) s"

lemma length_bytes_of_string [hd_len, simp]: "length (bytes_of_string s) = length s"
  by (simp add: bytes_of_string_def)

definition crlf :: string where
  "crlf = [CHR 0x0D, CHR 0x0A]"

section \<open>NTSTATUS\<close>

text \<open>
  An NTSTATUS is a signed 32-bit value; \<^verbatim>\<open>NT_SUCCESS\<close> is its sign test (it is spelled out in
  \<^verbatim>\<open>tools/hd_ld.c\<close>). The names are the ones the sources return.
\<close>

definition NT_SUCCESS :: "NTSTATUS \<Rightarrow> bool" where
  "NT_SUCCESS s \<longleftrightarrow> 0 \<le> sint s"

abbreviation STATUS_SUCCESS :: NTSTATUS where "STATUS_SUCCESS \<equiv> 0x00000000"
abbreviation STATUS_PENDING :: NTSTATUS where "STATUS_PENDING \<equiv> 0x00000103"
abbreviation STATUS_BUFFER_OVERFLOW :: NTSTATUS where "STATUS_BUFFER_OVERFLOW \<equiv> 0x80000005"
abbreviation STATUS_NOT_IMPLEMENTED :: NTSTATUS where "STATUS_NOT_IMPLEMENTED \<equiv> 0xC0000002"
abbreviation STATUS_INVALID_PARAMETER :: NTSTATUS where "STATUS_INVALID_PARAMETER \<equiv> 0xC000000D"
abbreviation STATUS_NO_SUCH_DEVICE :: NTSTATUS where "STATUS_NO_SUCH_DEVICE \<equiv> 0xC000000E"
abbreviation STATUS_INVALID_DEVICE_REQUEST :: NTSTATUS
  where "STATUS_INVALID_DEVICE_REQUEST \<equiv> 0xC0000010"
abbreviation STATUS_BUFFER_TOO_SMALL :: NTSTATUS where "STATUS_BUFFER_TOO_SMALL \<equiv> 0xC0000023"
abbreviation STATUS_REVISION_MISMATCH :: NTSTATUS where "STATUS_REVISION_MISMATCH \<equiv> 0xC0000059"
abbreviation STATUS_INSUFFICIENT_RESOURCES :: NTSTATUS
  where "STATUS_INSUFFICIENT_RESOURCES \<equiv> 0xC000009A"
abbreviation STATUS_DEVICE_NOT_READY :: NTSTATUS where "STATUS_DEVICE_NOT_READY \<equiv> 0xC00000A3"
abbreviation STATUS_NOT_SUPPORTED :: NTSTATUS where "STATUS_NOT_SUPPORTED \<equiv> 0xC00000BB"
abbreviation STATUS_DATA_NOT_ACCEPTED :: NTSTATUS where "STATUS_DATA_NOT_ACCEPTED \<equiv> 0xC000021B"
abbreviation STATUS_NOT_FOUND :: NTSTATUS where "STATUS_NOT_FOUND \<equiv> 0xC0000225"

lemma NT_SUCCESS_numerals [simp]:
  "NT_SUCCESS STATUS_SUCCESS" "NT_SUCCESS STATUS_PENDING"
  "\<not> NT_SUCCESS STATUS_BUFFER_OVERFLOW" "\<not> NT_SUCCESS STATUS_NOT_IMPLEMENTED"
  "\<not> NT_SUCCESS STATUS_INVALID_PARAMETER" "\<not> NT_SUCCESS STATUS_NO_SUCH_DEVICE"
  "\<not> NT_SUCCESS STATUS_INVALID_DEVICE_REQUEST" "\<not> NT_SUCCESS STATUS_BUFFER_TOO_SMALL"
  "\<not> NT_SUCCESS STATUS_REVISION_MISMATCH" "\<not> NT_SUCCESS STATUS_INSUFFICIENT_RESOURCES"
  "\<not> NT_SUCCESS STATUS_DEVICE_NOT_READY" "\<not> NT_SUCCESS STATUS_NOT_SUPPORTED"
  "\<not> NT_SUCCESS STATUS_DATA_NOT_ACCEPTED" "\<not> NT_SUCCESS STATUS_NOT_FOUND"
  by (simp_all add: NT_SUCCESS_def)

section \<open>Faults as values\<close>

text \<open>
  What C leaves undefined and the kernel turns into a bug check: an access outside a buffer, a
  division by zero, a shift by the width or more, a null dereference, a second completion of a
  request. A definition that can do one of these returns a value of the sum type below.
\<close>

datatype fault = OutOfBounds | DivideByZero | ShiftTooLarge | SignedOverflow | NullDereference | DoubleCompletion

type_synonym 'a res = "fault + 'a"

definition rbind :: "'a res \<Rightarrow> ('a \<Rightarrow> 'b res) \<Rightarrow> 'b res" where
  "rbind m f = (case m of Inl e \<Rightarrow> Inl e | Inr a \<Rightarrow> f a)"

lemma rbind_simps [simp]: "rbind (Inl e) f = Inl e" "rbind (Inr a) f = f a"
  by (simp_all add: rbind_def)

lemma rbind_Inr_iff: "rbind m f = Inr b \<longleftrightarrow> (\<exists>a. m = Inr a \<and> f a = Inr b)"
  by (cases m) simp_all

lemma rbind_assoc: "rbind (rbind m f) g = rbind m (\<lambda>a. rbind (f a) g)"
  by (cases m) simp_all

lemma rbind_split:
  "P (rbind m f) \<longleftrightarrow> (\<forall>e. m = Inl e \<longrightarrow> P (Inl e)) \<and> (\<forall>a. m = Inr a \<longrightarrow> P (f a))"
  by (cases m) simp_all

section \<open>Byte buffers\<close>

text \<open>
  \<^verbatim>\<open>memcpy\<close> out of a buffer and into a buffer. Both fault when the range leaves the buffer.
\<close>

definition mem_read :: "'a list \<Rightarrow> nat \<Rightarrow> nat \<Rightarrow> 'a list res" where
  "mem_read buf off n = (if off + n \<le> length buf then Inr (take n (drop off buf)) else Inl OutOfBounds)"

definition mem_write :: "'a list \<Rightarrow> nat \<Rightarrow> 'a list \<Rightarrow> 'a list res" where
  "mem_write buf off src =
     (if off + length src \<le> length buf
      then Inr (take off buf @ src @ drop (off + length src) buf) else Inl OutOfBounds)"

lemma mem_read_Inr [simp]: "off + n \<le> length buf \<Longrightarrow> mem_read buf off n = Inr (take n (drop off buf))"
  by (simp add: mem_read_def)

lemma mem_read_Inr_iff:
  "mem_read buf off n = Inr xs \<longleftrightarrow> off + n \<le> length buf \<and> xs = take n (drop off buf)"
  by (auto simp: mem_read_def)

lemma mem_write_Inr [simp]:
  "off + length src \<le> length buf \<Longrightarrow>
   mem_write buf off src = Inr (take off buf @ src @ drop (off + length src) buf)"
  by (simp add: mem_write_def)

lemma mem_write_Inr_iff:
  "mem_write buf off src = Inr xs \<longleftrightarrow>
   off + length src \<le> length buf \<and> xs = take off buf @ src @ drop (off + length src) buf"
  by (auto simp: mem_write_def)

lemma mem_write_length: "mem_write buf off src = Inr buf' \<Longrightarrow> length buf' = length buf"
  by (auto simp: mem_write_Inr_iff)

lemma mem_read_write:
  assumes "mem_write buf off src = Inr buf'"
  shows "mem_read buf' off (length src) = Inr src"
  using assms by (auto simp: mem_write_Inr_iff mem_read_def)

text \<open>One element of a vector.\<close>

definition vec_at :: "'a list \<Rightarrow> nat \<Rightarrow> 'a res" where
  "vec_at xs i = (if i < length xs then Inr (xs ! i) else Inl OutOfBounds)"

lemma vec_at_Inr [simp]: "i < length xs \<Longrightarrow> vec_at xs i = Inr (xs ! i)"
  by (simp add: vec_at_def)

section \<open>Little-endian integers\<close>

text \<open>
  \<^verbatim>\<open>buf[off++] = (x >> (i * 8)) & 0xFF\<close> for \<open>i < n\<close>, and the loop
  \<^verbatim>\<open>x |= (uintN_t)data[off++] << (i * 8)\<close> that reads it back. A packed struct member on the
  x86-64 targets has the same bytes.
\<close>

definition le_bytes :: "nat \<Rightarrow> 'a::len word \<Rightarrow> u8 list" where
  "le_bytes n x = map (\<lambda>i. ucast (drop_bit (i * 8) x)) [0..<n]"

definition le_word :: "nat \<Rightarrow> u8 list \<Rightarrow> 'a::len word" where
  "le_word n bs = fold (\<lambda>i acc. acc OR push_bit (i * 8) (ucast (bs ! i))) [0..<n] 0"

lemma length_le_bytes [hd_len, simp]: "length (le_bytes n x) = n"
  by (simp add: le_bytes_def)

lemma nth_le_bytes [simp]: "i < n \<Longrightarrow> le_bytes n x ! i = ucast (drop_bit (i * 8) x)"
  by (simp add: le_bytes_def)

lemma le_word_0 [simp]: "le_word 0 bs = 0"
  by (simp add: le_word_def)

lemma le_word_Suc:
  "le_word (Suc n) bs = le_word n bs OR push_bit (n * 8) (ucast (bs ! n))"
  by (simp add: le_word_def)

lemma bit_le_word:
  "bit (le_word n bs :: 'a::len word) k \<longleftrightarrow>
   k < LENGTH('a) \<and> k div 8 < n \<and> bit (bs ! (k div 8)) (k mod 8)"
proof (induction n)
  case 0
  show ?case by simp
next
  case (Suc n)
  have split: "n * 8 \<le> k \<and> bit (bs ! n) (k - n * 8) \<longleftrightarrow> k div 8 = n \<and> bit (bs ! (k div 8)) (k mod 8)"
  proof
    assume a: "n * 8 \<le> k \<and> bit (bs ! n) (k - n * 8)"
    then have lt: "k - n * 8 < 8" using bit_imp_le_length by fastforce
    from a have le: "n * 8 \<le> k" by simp
    from le lt have q: "k div 8 = n" by (intro div_nat_eqI) simp_all
    then have r: "k mod 8 = k - n * 8" using minus_div_mult_eq_mod [of k 8] by simp
    from a q r show "k div 8 = n \<and> bit (bs ! (k div 8)) (k mod 8)" by simp
  next
    assume a: "k div 8 = n \<and> bit (bs ! (k div 8)) (k mod 8)"
    then have q: "k div 8 = n" by simp
    then have le: "n * 8 \<le> k" using div_times_less_eq_dividend [of k 8] by simp
    from q have r: "k mod 8 = k - n * 8" using minus_div_mult_eq_mod [of k 8] by simp
    from a q le r show "n * 8 \<le> k \<and> bit (bs ! n) (k - n * 8)" by simp
  qed
  show ?case
    using split
    by (auto simp: le_word_Suc bit_or_iff bit_push_bit_iff bit_ucast_iff Suc.IH less_Suc_eq)
qed

lemma le_word_le_bytes:
  "LENGTH('a::len) \<le> n * 8 \<Longrightarrow> le_word n (le_bytes n x) = (x :: 'a word)"
proof (rule bit_eqI)
  fix k
  assume len: "LENGTH('a) \<le> n * 8" and "possible_bit TYPE('a word) k"
  then have k: "k < LENGTH('a)" by simp
  with len have d: "k div 8 < n" by (simp add: less_mult_imp_div_less)
  have m: "k div 8 * 8 + k mod 8 = k" by simp
  show "bit (le_word n (le_bytes n x) :: 'a word) k \<longleftrightarrow> bit x k"
    using k d m by (simp add: bit_le_word bit_ucast_iff bit_drop_bit_eq)
qed

lemma le_bytes_le_word:
  assumes "length bs = n" and "n * 8 \<le> LENGTH('a::len)"
  shows "le_bytes n (le_word n bs :: 'a word) = bs"
proof (rule nth_equalityI)
  show "length (le_bytes n (le_word n bs :: 'a word)) = length bs" using assms by simp
next
  fix i
  assume "i < length (le_bytes n (le_word n bs :: 'a word))"
  then have i: "i < n" by simp
  show "le_bytes n (le_word n bs :: 'a word) ! i = bs ! i"
  proof (rule bit_eqI)
    fix k
    assume "possible_bit TYPE(8 word) k"
    then have k: "k < 8" by simp
    with i assms(2) have b: "i * 8 + k < LENGTH('a)" by linarith
    have e: "(i * 8 + k) div 8 = i" "(i * 8 + k) mod 8 = k" using k by simp_all
    show "bit (le_bytes n (le_word n bs :: 'a word) ! i) k = bit (bs ! i) k"
      using i k b e by (simp add: bit_ucast_iff bit_drop_bit_eq bit_le_word)
  qed
qed

lemma le_word_take: "n \<le> m \<Longrightarrow> le_word n (take m bs) = le_word n bs"
  unfolding le_word_def by (rule fold_cong) auto

lemma le_word_append: "n \<le> length xs \<Longrightarrow> le_word n (xs @ ys) = le_word n xs"
  unfolding le_word_def by (rule fold_cong) (auto simp: nth_append)

lemma le_bytes_inj:
  "LENGTH('a::len) \<le> n * 8 \<Longrightarrow> le_bytes n x = le_bytes n y \<Longrightarrow> x = (y :: 'a word)"
  by (metis le_word_le_bytes)

section \<open>Lists\<close>

lemma drop_append_exact: "n = length xs \<Longrightarrow> drop n (xs @ ys) = ys"
  by simp

lemma take_append_exact: "n = length xs \<Longrightarrow> take n (xs @ ys) = xs"
  by simp

lemma mod_differs: "i < n \<Longrightarrow> n < i + k \<Longrightarrow> i mod k \<noteq> n mod (k :: nat)"
  by (metis add_diff_inverse_nat less_imp_not_less mod_eq_dvd_iff_nat nat_add_left_cancel_less nat_dvd_not_less order.strict_implies_order zero_less_diff)

section \<open>Ranges of machine words\<close>

lemma unat_of_nat_u32: "m < 2 ^ 32 \<Longrightarrow> unat (of_nat m :: u32) = m"
  by (simp add: unat_of_nat take_bit_nat_eq_self)

lemma unat_of_nat_u64: "m < 2 ^ 64 \<Longrightarrow> unat (of_nat m :: u64) = m"
  by (simp add: unat_of_nat take_bit_nat_eq_self)

lemma unat_less_u8: "unat (x :: u8) < 256"
  using unsigned_less [of x, where ?'a = nat] by simp

lemma unat_less_u16: "unat (x :: u16) < 65536"
  using unsigned_less [of x, where ?'a = nat] by simp

lemma unat_less_u32: "unat (x :: u32) < 4294967296"
  using unsigned_less [of x, where ?'a = nat] by simp

lemma unat_less_u64: "unat (x :: u64) < 18446744073709551616"
  using unsigned_less [of x, where ?'a = nat] by simp

lemma unat_ucast_u32_u64 [simp]: "unat (ucast (x :: u32) :: u64) = unat x"
proof -
  have "unat x < 2 ^ 64" using unat_less_u32 [of x] by simp
  then show ?thesis by (simp add: unsigned_ucast_eq take_bit_nat_eq_self)
qed

lemma unat_succ_mod:
  "unat x + 1 < 2 ^ LENGTH('a) \<Longrightarrow> unat ((x + 1) mod m :: 'a::len word) = (unat x + 1) mod unat m"
  by (simp add: unat_mod_distrib unat_word_ariths)

section \<open>Folding a fallible operation\<close>

primrec res_fold :: "('s \<Rightarrow> 'b \<Rightarrow> 's res) \<Rightarrow> 's \<Rightarrow> 'b list \<Rightarrow> 's res" where
  "res_fold f s [] = Inr s"
| "res_fold f s (b # bs) = rbind (f s b) (\<lambda>s'. res_fold f s' bs)"

lemma res_fold_append: "res_fold f s (xs @ ys) = rbind (res_fold f s xs) (\<lambda>s'. res_fold f s' ys)"
  by (induction xs arbitrary: s) (simp_all add: rbind_assoc)

section \<open>The last elements of a list\<close>

definition lastn :: "nat \<Rightarrow> 'a list \<Rightarrow> 'a list" where
  "lastn n xs = drop (length xs - n) xs"

lemma length_lastn [simp]: "length (lastn n xs) = min n (length xs)"
  by (simp add: lastn_def min_def)

lemma lastn_short [simp]: "length xs \<le> n \<Longrightarrow> lastn n xs = xs"
  by (simp add: lastn_def)

lemma lastn_append_lastn: "lastn n (lastn n xs @ ys) = lastn n (xs @ ys)"
  by (cases "length xs \<le> n") (simp_all add: lastn_def add.commute)

end
