(* ===== verification/HD_Crc32c.thy ===== *)
theory HD_Crc32c
  imports HD_Prelude
begin

text \<open>
  CRC-32C (Castagnoli), of which the sources hold six copies: a table-driven one in
  \<^verbatim>\<open>tools/bootdiag/main.c\<close>, in \<^verbatim>\<open>client/common/hd_frame_codec.cpp\<close>, in
  \<^verbatim>\<open>tools/replay_recorder/replay_recorder.cpp\<close> and in \<^verbatim>\<open>client/overlay_mgr/wal_enhanced.cpp\<close>, and a bit-by-bit one in
  \<^verbatim>\<open>client/boot_agent/boot_meta.cpp\<close> and in \<^verbatim>\<open>client/blackbox/blackbox_recorder.cpp\<close>.
  The theory proves the copies equal to one reference and shows what the reference detects.
\<close>

section \<open>The table\<close>

text \<open>One round of the inner loop, in the two forms the sources write it.\<close>

definition crc_round :: "u32 \<Rightarrow> u32" where
  "crc_round crc = (if crc AND 1 \<noteq> 0 then drop_bit 1 crc XOR 0x82F63B78 else drop_bit 1 crc)"

definition crc_round_masked :: "u32 \<Rightarrow> u32" where
  "crc_round_masked crc = drop_bit 1 crc XOR (if crc AND 1 \<noteq> 0 then 0x82F63B78 else 0)"

record crc_state =
  crc32c_table :: "u32 list"
  crc32c_table_init :: bool

text \<open>The static storage before the first call: a zero table and a false flag.\<close>

definition crc_state_static :: crc_state where
  "crc_state_static = \<lparr>crc32c_table = replicate 256 0, crc32c_table_init = False\<rparr>"

definition crc32c_init_table :: "crc_state \<Rightarrow> crc_state" where
  "crc32c_init_table st =
     (if crc32c_table_init st then st
      else \<lparr>crc32c_table = map (\<lambda>i. (crc_round ^^ 8) (of_nat i)) [0..<256],
             crc32c_table_init = True\<rparr>)"

definition EnsureCrc32cInit :: "crc_state \<Rightarrow> crc_state" where
  "EnsureCrc32cInit st =
     (if crc32c_table_init st then st
      else \<lparr>crc32c_table = map (\<lambda>i. (crc_round ^^ 8) (of_nat i)) [0..<256],
             crc32c_table_init = True\<rparr>)"

definition InitCrc32cTable :: "crc_state \<Rightarrow> crc_state" where
  "InitCrc32cTable st =
     (if crc32c_table_init st then st
      else \<lparr>crc32c_table = map (\<lambda>i. (crc_round_masked ^^ 8) (of_nat i)) [0..<256],
             crc32c_table_init = True\<rparr>)"

definition replay_EnsureCrc32cInit :: "crc_state \<Rightarrow> crc_state" where
  "replay_EnsureCrc32cInit st =
     (if crc32c_table_init st then st
      else \<lparr>crc32c_table = map (\<lambda>i. (crc_round ^^ 8) (of_nat i)) [0..<256],
             crc32c_table_init = True\<rparr>)"

section \<open>The six routines\<close>

text \<open>The loop body of the table-driven routines; \<open>tbl\<close> is the table.\<close>

definition crc_table_step :: "u32 list \<Rightarrow> u8 \<Rightarrow> u32 \<Rightarrow> u32" where
  "crc_table_step tbl b crc = drop_bit 8 crc XOR tbl ! unat ((crc XOR ucast b) AND 0xFF)"

definition bootdiag_compute_crc32c :: "crc_state \<Rightarrow> u8 list \<Rightarrow> u32 \<times> crc_state" where
  "bootdiag_compute_crc32c st data =
     (let st' = crc32c_init_table st
      in (fold (crc_table_step (crc32c_table st')) data 0xFFFFFFFF XOR 0xFFFFFFFF, st'))"

definition FrameCodec_ComputeCrc32C :: "crc_state \<Rightarrow> u8 list \<Rightarrow> u32 \<times> crc_state" where
  "FrameCodec_ComputeCrc32C st data =
     (let st' = EnsureCrc32cInit st
      in (fold (crc_table_step (crc32c_table st')) data 0xFFFFFFFF XOR 0xFFFFFFFF, st'))"

definition replay_ComputeCrc32C :: "crc_state \<Rightarrow> u8 list \<Rightarrow> u32 \<times> crc_state" where
  "replay_ComputeCrc32C st data =
     (let st' = replay_EnsureCrc32cInit st
      in (fold (crc_table_step (crc32c_table st')) data 0xFFFFFFFF XOR 0xFFFFFFFF, st'))"

definition wal_ComputeCrc32c :: "crc_state \<Rightarrow> u8 list \<Rightarrow> u32 \<times> crc_state" where
  "wal_ComputeCrc32c st data =
     (let st' = InitCrc32cTable st
      in (fold (\<lambda>b crc. crc32c_table st' ! unat ((crc XOR ucast b) AND 0xFF) XOR drop_bit 8 crc)
            data 0xFFFFFFFF XOR 0xFFFFFFFF, st'))"

definition boot_meta_Crc32c :: "u8 list \<Rightarrow> u32" where
  "boot_meta_Crc32c data =
     fold (\<lambda>b crc. (crc_round_masked ^^ 8) (crc XOR ucast b)) data 0xFFFFFFFF XOR 0xFFFFFFFF"

definition blackbox_ComputeCrc32C :: "u8 list \<Rightarrow> u32" where
  "blackbox_ComputeCrc32C data =
     fold (\<lambda>b crc. (crc_round_masked ^^ 8) (crc XOR ucast b)) data 0xFFFFFFFF XOR 0xFFFFFFFF"

section \<open>The reference\<close>

definition crc_step :: "u8 \<Rightarrow> u32 \<Rightarrow> u32" where
  "crc_step b crc = (crc_round ^^ 8) (crc XOR ucast b)"

definition crc32c :: "u8 list \<Rightarrow> u32" where
  "crc32c data = fold crc_step data 0xFFFFFFFF XOR 0xFFFFFFFF"

lemma crc_round_masked_eq: "crc_round_masked = crc_round"
  by (auto simp: crc_round_masked_def crc_round_def)

subsection \<open>Linearity\<close>

lemma xor_right_cancel: "a XOR x = b XOR x \<longleftrightarrow> a = b" for a b x :: u32
  by (auto simp: bit_eq_iff bit_xor_iff)

lemma xor_left_cancel: "x XOR a = x XOR b \<longleftrightarrow> a = b" for a b x :: u32
  by (auto simp: bit_eq_iff bit_xor_iff)

lemma xor_eq_0_iff: "x XOR y = 0 \<longleftrightarrow> x = y" for x y :: u32
  by (auto simp: bit_eq_iff bit_xor_iff)

lemma xor_cancel_inner: "p XOR k XOR (q XOR k) = p XOR q" for p q k :: u32
  by (auto simp: bit_eq_iff bit_xor_iff)

lemma and_one_nonzero_iff: "x AND 1 \<noteq> 0 \<longleftrightarrow> bit x 0" for x :: u32
  by (simp add: and_one_eq odd_iff_mod_2_eq_one bit_0)

lemma crc_round_alt: "crc_round x = (if bit x 0 then drop_bit 1 x XOR 0x82F63B78 else drop_bit 1 x)"
  by (simp only: crc_round_def and_one_nonzero_iff)

lemma crc_round_xor: "crc_round (x XOR y) = crc_round x XOR crc_round y"
  by (simp add: crc_round_alt bit_xor_iff drop_bit_xor xor_cancel_inner)
     (simp add: ac_simps)

lemma crc_round_0 [simp]: "crc_round 0 = 0"
  by (simp add: crc_round_alt)

lemma crc_rounds_xor: "(crc_round ^^ n) (x XOR y) = (crc_round ^^ n) x XOR (crc_round ^^ n) y"
  by (induction n) (simp_all add: crc_round_xor)

text \<open>Rounds on a value whose low bits are clear only shift.\<close>

lemma crc_rounds_high: "(\<And>i. i < n \<Longrightarrow> \<not> bit x i) \<Longrightarrow> (crc_round ^^ n) x = drop_bit n x"
proof (induction n)
  case 0
  show ?case by simp
next
  case (Suc n)
  then have "(crc_round ^^ n) x = drop_bit n x" by simp
  then have "(crc_round ^^ Suc n) x = crc_round (drop_bit n x)" by simp
  also have "\<dots> = drop_bit 1 (drop_bit n x)"
    using Suc.prems[of n] by (simp add: crc_round_alt bit_drop_bit_eq)
  finally show ?case by simp
qed

lemma crc_rounds_split:
  "(crc_round ^^ 8) x = drop_bit 8 x XOR (crc_round ^^ 8) (x AND 0xFF)"
proof -
  have m: "(0xFF :: u32) = mask 8" by (simp add: mask_eq_exp_minus_1)
  have x: "x = (x AND NOT 0xFF) XOR (x AND 0xFF)"
    by (rule bit_eqI) (auto simp: bit_simps)
  have "(crc_round ^^ 8) (x AND NOT 0xFF) = drop_bit 8 (x AND NOT 0xFF)"
    by (rule crc_rounds_high) (auto simp: m bit_simps)
  also have "\<dots> = drop_bit 8 x"
    by (rule bit_eqI) (auto simp: m bit_simps dest: bit_imp_le_length)
  finally have h: "(crc_round ^^ 8) (x AND NOT 0xFF) = drop_bit 8 x" .
  have "(crc_round ^^ 8) x = (crc_round ^^ 8) ((x AND NOT 0xFF) XOR (x AND 0xFF))"
    using x by simp
  then show ?thesis by (simp only: crc_rounds_xor h)
qed

lemma drop_bit_8_xor_byte: "drop_bit 8 (crc XOR ucast b) = drop_bit 8 crc" for b :: u8 and crc :: u32
  by (rule bit_eqI) (auto simp: bit_simps dest: bit_imp_le_length)

subsection \<open>The table lookup computes eight rounds\<close>

definition crc_table_ref :: "u32 list" where
  "crc_table_ref = map (\<lambda>i. (crc_round ^^ 8) (of_nat i)) [0..<256]"

lemma byte_index_less: "unat ((x :: u32) AND 0xFF) < 256"
proof -
  have "x AND 0xFF \<le> 0xFF" by (rule word_and_le1)
  then have "unat (x AND 0xFF) \<le> unat (0xFF :: u32)" by (simp only: word_le_nat_alt)
  then show ?thesis by simp
qed

lemma crc_table_ref_nth: "crc_table_ref ! unat ((x :: u32) AND 0xFF) = (crc_round ^^ 8) (x AND 0xFF)"
  using byte_index_less[of x] by (simp add: crc_table_ref_def del: funpow.simps)

lemma crc_table_step_ref: "crc_table_step crc_table_ref = crc_step"
proof (intro ext)
  fix b crc
  show "crc_table_step crc_table_ref b crc = crc_step b crc"
    unfolding crc_table_step_def crc_step_def crc_table_ref_nth
    by (subst (2) crc_rounds_split) (simp only: drop_bit_8_xor_byte)
qed


lemma crc_table_init_ref:
  "crc32c_table (crc32c_init_table st) = (if crc32c_table_init st then crc32c_table st else crc_table_ref)"
  "crc32c_table (EnsureCrc32cInit st) = (if crc32c_table_init st then crc32c_table st else crc_table_ref)"
  "crc32c_table (replay_EnsureCrc32cInit st) = (if crc32c_table_init st then crc32c_table st else crc_table_ref)"
  "crc32c_table (InitCrc32cTable st) = (if crc32c_table_init st then crc32c_table st else crc_table_ref)"
  by (simp_all add: crc32c_init_table_def EnsureCrc32cInit_def replay_EnsureCrc32cInit_def InitCrc32cTable_def crc_table_ref_def
      crc_round_masked_eq)

text \<open>The static storage is either untouched or holds the whole table.\<close>

definition crc_state_ok :: "crc_state \<Rightarrow> bool" where
  "crc_state_ok st \<longleftrightarrow> (crc32c_table_init st \<longrightarrow> crc32c_table st = crc_table_ref)"

lemma crc_state_ok_static [simp]: "crc_state_ok crc_state_static"
  by (simp add: crc_state_ok_def crc_state_static_def)

lemma crc_state_ok_init [simp]:
  "crc_state_ok st \<Longrightarrow> crc_state_ok (crc32c_init_table st)"
  "crc_state_ok st \<Longrightarrow> crc_state_ok (EnsureCrc32cInit st)"
  "crc_state_ok st \<Longrightarrow> crc_state_ok (replay_EnsureCrc32cInit st)"
  "crc_state_ok st \<Longrightarrow> crc_state_ok (InitCrc32cTable st)"
  by (simp_all add: crc_state_ok_def crc_table_init_ref)

lemma wal_loop_body:
  "(\<lambda>b crc. tbl ! unat ((crc XOR ucast b) AND 0xFF) XOR drop_bit 8 crc) = crc_table_step tbl"
  by (intro ext) (simp add: crc_table_step_def ac_simps)

section \<open>The six routines agree with the reference\<close>

lemma bootdiag_crc_ref: "crc_state_ok st \<Longrightarrow> fst (bootdiag_compute_crc32c st xs) = crc32c xs"
  by (simp add: bootdiag_compute_crc32c_def Let_def crc_table_init_ref crc_state_ok_def crc32c_def
      crc_table_step_ref)

lemma frame_crc_ref: "crc_state_ok st \<Longrightarrow> fst (FrameCodec_ComputeCrc32C st xs) = crc32c xs"
  by (simp add: FrameCodec_ComputeCrc32C_def Let_def crc_table_init_ref crc_state_ok_def crc32c_def
      crc_table_step_ref)

lemma replay_crc_ref: "crc_state_ok st \<Longrightarrow> fst (replay_ComputeCrc32C st xs) = crc32c xs"
  by (simp add: replay_ComputeCrc32C_def Let_def crc_table_init_ref crc_state_ok_def crc32c_def
      crc_table_step_ref)

lemma wal_crc_ref: "crc_state_ok st \<Longrightarrow> fst (wal_ComputeCrc32c st xs) = crc32c xs"
  by (simp add: wal_ComputeCrc32c_def Let_def crc_table_init_ref crc_state_ok_def crc32c_def
      crc_table_step_ref wal_loop_body)

lemma bitwise_step_ref: "(\<lambda>b crc. (crc_round_masked ^^ 8) (crc XOR ucast b)) = crc_step"
  by (intro ext) (simp only: crc_step_def crc_round_masked_eq)

lemma boot_meta_crc_ref: "boot_meta_Crc32c xs = crc32c xs"
  by (simp only: boot_meta_Crc32c_def bitwise_step_ref crc32c_def)

lemma blackbox_crc_ref: "blackbox_ComputeCrc32C xs = crc32c xs"
  by (simp only: blackbox_ComputeCrc32C_def bitwise_step_ref crc32c_def)

section \<open>What the reference detects\<close>

lemma crc_round_eq_0: "crc_round x = 0 \<longleftrightarrow> x = 0"
proof
  assume z: "crc_round x = 0"
  have nb: "\<not> bit x 0"
  proof
    assume "bit x 0"
    then have "bit (crc_round x) 31"
      by (simp add: crc_round_alt bit_xor_iff bit_drop_bit_eq) (use bit_imp_le_length in fastforce)
    with z show False by simp
  qed
  then have d: "drop_bit 1 x = 0" using z by (simp add: crc_round_alt)
  show "x = 0"
  proof (rule bit_eqI)
    fix n
    have "\<not> bit x (Suc m)" for m
    proof -
      have "bit x (Suc m) = bit (drop_bit 1 x) m" by (simp add: bit_drop_bit_eq)
      then show ?thesis using d by simp
    qed
    then show "bit x n = bit 0 n" using nb by (cases n) auto
  qed
qed simp

lemma crc_rounds_inj: "(crc_round ^^ n) x = (crc_round ^^ n) y \<Longrightarrow> x = y"
proof -
  assume "(crc_round ^^ n) x = (crc_round ^^ n) y"
  then have "(crc_round ^^ n) (x XOR y) = 0" by (simp add: crc_rounds_xor)
  moreover have "(crc_round ^^ n) z = 0 \<Longrightarrow> z = 0" for z
    by (induction n) (simp_all add: crc_round_eq_0)
  ultimately show "x = y" using xor_eq_0_iff by blast
qed

lemma crc_fold_inj: "fold crc_step xs a = fold crc_step xs b \<Longrightarrow> a = b"
proof (induction xs arbitrary: a b)
  case (Cons x xs)
  then have "crc_step x a = crc_step x b" by simp
  then have "a XOR ucast x = b XOR ucast x" unfolding crc_step_def by (rule crc_rounds_inj)
  then show ?case by (simp only: xor_right_cancel)
qed simp

text \<open>Up to four bytes are absorbed as one little-endian word.\<close>

lemma crc_rounds_push:
  fixes b :: u8
  assumes "k + 8 \<le> 32"
  shows "(crc_round ^^ k) (push_bit k (ucast b)) = ucast b"
proof -
  have "(crc_round ^^ k) (push_bit k (ucast b)) = drop_bit k (push_bit k (ucast b :: u32))"
    by (rule crc_rounds_high) (simp add: bit_push_bit_iff)
  also have "\<dots> = ucast b"
    using assms by (intro bit_eqI) (auto simp: bit_simps dest: bit_imp_le_length)
  finally show ?thesis .
qed

lemma le_word_snoc_xor:
  assumes "length ws = n"
  shows "(le_word (Suc n) (ws @ [b]) :: u32) = le_word n ws XOR push_bit (n * 8) (ucast b)"
proof -
  have "(le_word n ws :: u32) AND push_bit (n * 8) (ucast b) = 0"
    by (rule bit_eqI) (auto simp: bit_simps bit_le_word)
  then have "(le_word n ws :: u32) OR push_bit (n * 8) (ucast b) = le_word n ws XOR push_bit (n * 8) (ucast b)"
    by (auto simp: bit_eq_iff bit_and_iff bit_or_iff bit_xor_iff)
  with assms show ?thesis by (simp add: le_word_Suc le_word_append nth_append)
qed

lemma crc_fold_window:
  "length ws = n \<Longrightarrow> n \<le> 4 \<Longrightarrow> fold crc_step ws c = (crc_round ^^ (n * 8)) (c XOR le_word n ws)"
proof (induction n arbitrary: ws)
  case 0
  then show ?case by simp
next
  case (Suc n)
  then obtain vs b where ws: "ws = vs @ [b]" and len: "length vs = n"
    by (metis length_Suc_conv_rev)
  have "fold crc_step ws c = (crc_round ^^ 8) ((crc_round ^^ (n * 8)) (c XOR le_word n vs) XOR ucast b)"
    using Suc.IH[OF len] Suc.prems by (simp add: ws crc_step_def[of b])
  also have "ucast b = (crc_round ^^ (n * 8)) (push_bit (n * 8) (ucast b))"
    using Suc.prems by (subst crc_rounds_push) simp_all
  also have "(crc_round ^^ (n * 8)) (c XOR le_word n vs) XOR \<dots> =
      (crc_round ^^ (n * 8)) (c XOR le_word (Suc n) ws)"
    by (simp only: crc_rounds_xor[symmetric] ws le_word_snoc_xor[OF len] xor.assoc)
  also have "(crc_round ^^ 8) \<dots> = (crc_round ^^ (Suc n * 8)) (c XOR le_word (Suc n) ws)"
    by (simp only: mult_Suc funpow_add comp_apply)
  finally show ?case .
qed

lemma crc32c_detects_window:
  assumes "length w = length w'" and "length w \<le> 4" and "w \<noteq> w'"
  shows "crc32c (xs @ w @ ys) \<noteq> crc32c (xs @ w' @ ys)"
proof
  assume eq: "crc32c (xs @ w @ ys) = crc32c (xs @ w' @ ys)"
  let ?a = "fold crc_step xs 0xFFFFFFFF"
  from eq have "fold crc_step ys (fold crc_step w ?a) = fold crc_step ys (fold crc_step w' ?a)"
    by (simp only: crc32c_def fold_append comp_apply xor_right_cancel)
  then have "fold crc_step w ?a = fold crc_step w' ?a" by (rule crc_fold_inj)
  then have "(crc_round ^^ (length w * 8)) (?a XOR le_word (length w) w)
           = (crc_round ^^ (length w * 8)) (?a XOR le_word (length w) w')"
    using assms(1,2) by (simp only: crc_fold_window)
  then have "?a XOR le_word (length w) w = ?a XOR le_word (length w) w'" by (rule crc_rounds_inj)
  then have "(le_word (length w) w :: u32) = le_word (length w) w'"
    by (simp only: xor_left_cancel)
  then have "le_bytes (length w) (le_word (length w) w :: u32) = le_bytes (length w) (le_word (length w) w' :: u32)"
    by simp
  then show False using assms by (simp add: le_bytes_le_word)
qed


text \<open>A list in which a window is replaced by another of the same length.\<close>

lemma window_eqs:
  assumes "D = xs @ w @ ys" and "D' = xs @ w' @ ys" and "length w = length w'"
  shows "n \<le> length xs \<Longrightarrow> take n D' = take n D"
    and "length xs + length w \<le> n \<Longrightarrow> drop n D' = drop n D"
    and "length D' = length D"
    and "length xs + length w \<le> n \<Longrightarrow> \<exists>z. take n D = xs @ w @ z \<and> take n D' = xs @ w' @ z"
    and "n \<le> length xs \<Longrightarrow> \<exists>z. drop n D = z @ w @ ys \<and> drop n D' = z @ w' @ ys \<and> length z = length xs - n"
  using assms by auto

text \<open>A record of \<open>n\<close> bytes followed by their checksum: damage within the bytes or within the checksum.\<close>

lemma crc_field_detects:
  assumes d: "D = xs @ w @ ys" "D' = xs @ w' @ ys" and w: "length w = length w'" "length w \<le> 4" "w \<noteq> w'"
    and stored: "take 4 (drop n D) = le_bytes 4 (crc32c (take n D))" and len: "n + 4 \<le> length D"
    and f: "length xs + length w \<le> n \<or> n \<le> length xs \<and> length xs + length w \<le> n + 4"
  shows "crc32c (take n D') \<noteq> le_word 4 (take 4 (drop n D'))"
proof (cases "length xs + length w \<le> n")
  case True
  then obtain z where z: "take n D = xs @ w @ z" "take n D' = xs @ w' @ z" using window_eqs(4) [OF d w(1)] by blast
  have "crc32c (take n D') \<noteq> crc32c (take n D)"
    using crc32c_detects_window [of w' w xs z] w by (simp add: z)
  then show ?thesis using stored by (simp add: window_eqs(2) [OF d w(1) True] le_word_le_bytes)
next
  case False
  then have i: "n \<le> length xs" and j: "length xs + length w \<le> n + 4" using f by auto
  obtain z where z: "drop n D = z @ w @ ys" "drop n D' = z @ w' @ ys" "length z = length xs - n"
    using window_eqs(5) [OF d w(1) i] by blast
  have "take 4 (drop n D') \<noteq> take 4 (drop n D)"
    using w j i z(3) by (simp add: z(1,2))
  moreover have "le_bytes 4 (le_word 4 (take 4 (drop n D')) :: u32) = take 4 (drop n D')"
    using len window_eqs(3) [OF d w(1)] by (intro le_bytes_le_word) simp_all
  ultimately have "le_word 4 (take 4 (drop n D')) \<noteq> crc32c (take n D)" using stored by metis
  then show ?thesis unfolding window_eqs(1) [OF d w(1) i] by simp
qed

section \<open>The interface the formats rely on\<close>

text \<open>
  A checksum routine is any function that computes the reference. The clients of the routines
  (frames, log entries, boot.meta, the black box, GPT headers) use only the lemmas proved here.
\<close>

locale crc_routine =
  fixes crc :: "u8 list \<Rightarrow> u32"
  assumes crc_reference: "crc xs = crc32c xs"
begin

lemma detects_window:
  "length w = length w' \<Longrightarrow> length w \<le> 4 \<Longrightarrow> w \<noteq> w' \<Longrightarrow> crc (xs @ w @ ys) \<noteq> crc (xs @ w' @ ys)"
  by (simp add: crc_reference crc32c_detects_window)

lemma detects_byte:
  assumes "i < length xs" and "b \<noteq> xs ! i"
  shows "crc (xs[i := b]) \<noteq> crc xs"
proof -
  have "crc (take i xs @ [b] @ drop (Suc i) xs) \<noteq> crc (take i xs @ [xs ! i] @ drop (Suc i) xs)"
    using assms by (intro detects_window) auto
  then show ?thesis
    using assms(1) by (simp add: upd_conv_take_nth_drop id_take_nth_drop[symmetric])
qed

end

interpretation bootdiag_crc: crc_routine "\<lambda>xs. fst (bootdiag_compute_crc32c crc_state_static xs)"
  by unfold_locales (simp add: bootdiag_crc_ref)

interpretation frame_crc: crc_routine "\<lambda>xs. fst (FrameCodec_ComputeCrc32C crc_state_static xs)"
  by unfold_locales (simp add: frame_crc_ref)

interpretation replay_crc: crc_routine "\<lambda>xs. fst (replay_ComputeCrc32C crc_state_static xs)"
  by unfold_locales (simp add: replay_crc_ref)

interpretation wal_crc: crc_routine "\<lambda>xs. fst (wal_ComputeCrc32c crc_state_static xs)"
  by unfold_locales (simp add: wal_crc_ref)

interpretation boot_meta_crc: crc_routine boot_meta_Crc32c
  by unfold_locales (rule boot_meta_crc_ref)

interpretation blackbox_crc: crc_routine blackbox_ComputeCrc32C
  by unfold_locales (rule blackbox_crc_ref)

section \<open>Properties\<close>


lemma crc_rounds_8:
  "(crc_round ^^ 8) x =
   crc_round (crc_round (crc_round (crc_round (crc_round (crc_round (crc_round (crc_round x)))))))"
  by (simp add: numeral_eq_Suc)

text \<open>The check value of CRC-32C, which the repository's unit test also expects.\<close>

lemma crc32c_check: "crc32c (bytes_of_string ''123456789'') = 0xE3069283"
  by (simp add: crc32c_def bytes_of_string_def crc_step_def crc_rounds_8 crc_round_def)


text \<open>
  The checksum detects every corruption confined to four consecutive bytes, whatever the
  bytes around it: in particular a torn or overwritten 32-bit word.
\<close>

theorem crc_detects_four_bytes:
  assumes "length w = length w'" and "length w \<le> 4" and "w \<noteq> w'"
  shows "fst (wal_ComputeCrc32c crc_state_static (xs @ w @ ys))
       \<noteq> fst (wal_ComputeCrc32c crc_state_static (xs @ w' @ ys))"
  using assms by (rule wal_crc.detects_window)

theorem crc_detects_four_bytes_witness:
  "fst (wal_ComputeCrc32c crc_state_static ([1, 2] @ [3, 4, 5, 6] @ [7]))
   \<noteq> fst (wal_ComputeCrc32c crc_state_static ([1, 2] @ [0, 0, 0, 0] @ [7]))"
  by (rule crc_detects_four_bytes) simp_all

end
