(* ===== verification/HD_FrameLayout.thy ===== *)
theory HD_FrameLayout
  imports HD_Prelude
begin

text \<open>
  The 40-byte frame header. \<^verbatim>\<open>struct FrameHeader\<close> of \<^verbatim>\<open>client/common/hd_frame_codec.h\<close> is packed;
  \<^verbatim>\<open>HD_NET_FRAME_HEADER\<close> of \<^verbatim>\<open>driver/net/net_driver.h\<close> has the same members in the same
  order, naturally aligned, so both have the layout given here. The codec of each side is built
  on the two functions of this theory.
\<close>

record frame_fields =
  fh_magic :: u32
  fh_version :: u16
  fh_opcode :: u8
  fh_flags :: u8
  fh_request_id :: u32
  fh_payload_len :: u32
  fh_image_id :: u64
  fh_block_offset :: u64
  fh_block_count :: u32
  fh_layer_id :: u8
  fh_reserved0 :: u8
  fh_reserved1 :: u8
  fh_reserved2 :: u8

definition frame_bytes :: "frame_fields \<Rightarrow> u8 list" where
  "frame_bytes h =
     le_bytes 4 (fh_magic h) @ le_bytes 2 (fh_version h) @ [fh_opcode h, fh_flags h]
     @ le_bytes 4 (fh_request_id h) @ le_bytes 4 (fh_payload_len h)
     @ le_bytes 8 (fh_image_id h) @ le_bytes 8 (fh_block_offset h)
     @ le_bytes 4 (fh_block_count h)
     @ [fh_layer_id h, fh_reserved0 h, fh_reserved1 h, fh_reserved2 h]"

definition frame_of_bytes :: "u8 list \<Rightarrow> frame_fields" where
  "frame_of_bytes bs =
     \<lparr>fh_magic = le_word 4 bs, fh_version = le_word 2 (drop 4 bs),
      fh_opcode = bs ! 6, fh_flags = bs ! 7,
      fh_request_id = le_word 4 (drop 8 bs), fh_payload_len = le_word 4 (drop 12 bs),
      fh_image_id = le_word 8 (drop 16 bs), fh_block_offset = le_word 8 (drop 24 bs),
      fh_block_count = le_word 4 (drop 32 bs),
      fh_layer_id = bs ! 36, fh_reserved0 = bs ! 37, fh_reserved1 = bs ! 38, fh_reserved2 = bs ! 39\<rparr>"

lemma length_frame_bytes [hd_len, simp]: "length (frame_bytes h) = 40"
  by (simp add: frame_bytes_def)

lemma frame_of_bytes_append:
  "length bs = 40 \<Longrightarrow> frame_of_bytes (bs @ rest) = frame_of_bytes bs"
  by (simp add: frame_of_bytes_def le_word_append nth_append)

lemma frame_of_frame_bytes: "frame_of_bytes (frame_bytes h) = h"
proof -
  have "frame_of_bytes (frame_bytes h) =
     \<lparr>fh_magic = le_word 4 (le_bytes 4 (fh_magic h)), fh_version = le_word 2 (le_bytes 2 (fh_version h)),
      fh_opcode = fh_opcode h, fh_flags = fh_flags h,
      fh_request_id = le_word 4 (le_bytes 4 (fh_request_id h)),
      fh_payload_len = le_word 4 (le_bytes 4 (fh_payload_len h)),
      fh_image_id = le_word 8 (le_bytes 8 (fh_image_id h)),
      fh_block_offset = le_word 8 (le_bytes 8 (fh_block_offset h)),
      fh_block_count = le_word 4 (le_bytes 4 (fh_block_count h)),
      fh_layer_id = fh_layer_id h, fh_reserved0 = fh_reserved0 h,
      fh_reserved1 = fh_reserved1 h, fh_reserved2 = fh_reserved2 h\<rparr>"
    by (simp add: frame_of_bytes_def frame_bytes_def le_word_append nth_append)
  then show ?thesis by (simp add: le_word_le_bytes)
qed

text \<open>The first 32 bytes hold every member but the block count, the layer and the padding.\<close>

lemma frame_bytes_prefix32:
  "take 32 (frame_bytes h) =
     le_bytes 4 (fh_magic h) @ le_bytes 2 (fh_version h) @ [fh_opcode h, fh_flags h]
     @ le_bytes 4 (fh_request_id h) @ le_bytes 4 (fh_payload_len h)
     @ le_bytes 8 (fh_image_id h) @ le_bytes 8 (fh_block_offset h)"
  by (simp add: frame_bytes_def)

end
