(* ===== verification/HD_FrameCodec.thy ===== *)
theory HD_FrameCodec
  imports HD_FrameLayout HD_Crc32c
begin

text \<open>
  The client's frame codec, \<^verbatim>\<open>client/common/hd_frame_codec.{h,cpp}\<close>: header construction and
  validation, and the copy of header and payload into and out of a caller's buffer. Buffers are
  byte lists and every \<^verbatim>\<open>memcpy\<close> is checked, so an access the C++ leaves undefined is the value
  \<^const>\<open>Inl\<close>. Lengths are 32-bit words and their sums wrap, as in the source.
\<close>

section \<open>Constants and opcodes\<close>

definition FRAME_MAGIC :: u32 where "FRAME_MAGIC = 0x48444B47"
definition FRAME_VERSION :: u16 where "FRAME_VERSION = 0x0001"
definition FRAME_HDR_SIZE :: u32 where "FRAME_HDR_SIZE = 40"

datatype Opcode =
    BLOCK_READ_REQ | BLOCK_READ_RSP | BLOCK_WRITE_REQ | BLOCK_WRITE_RSP
  | HEARTBEAT | HEARTBEAT_ACK | CACHE_INVALIDATE | PREFETCH_PUSH
  | VECTOR_READ_REQ | VECTOR_READ_RSP | VECTOR_WRITE_REQ | VECTOR_WRITE_RSP | ERROR_RSP

fun opcode_value :: "Opcode \<Rightarrow> u8" where
  "opcode_value BLOCK_READ_REQ = 0x01"
| "opcode_value BLOCK_READ_RSP = 0x02"
| "opcode_value BLOCK_WRITE_REQ = 0x03"
| "opcode_value BLOCK_WRITE_RSP = 0x04"
| "opcode_value HEARTBEAT = 0x10"
| "opcode_value HEARTBEAT_ACK = 0x11"
| "opcode_value CACHE_INVALIDATE = 0x20"
| "opcode_value PREFETCH_PUSH = 0x30"
| "opcode_value VECTOR_READ_REQ = 0x40"
| "opcode_value VECTOR_READ_RSP = 0x41"
| "opcode_value VECTOR_WRITE_REQ = 0x42"
| "opcode_value VECTOR_WRITE_RSP = 0x43"
| "opcode_value ERROR_RSP = 0xFF"

text \<open>An enum of fixed underlying type holds any byte; the switch has a default.\<close>

definition OpcodeName :: "u8 \<Rightarrow> string" where
  "OpcodeName op =
     (if op = opcode_value BLOCK_READ_REQ then ''BLOCK_READ_REQ''
      else if op = opcode_value BLOCK_READ_RSP then ''BLOCK_READ_RSP''
      else if op = opcode_value BLOCK_WRITE_REQ then ''BLOCK_WRITE_REQ''
      else if op = opcode_value BLOCK_WRITE_RSP then ''BLOCK_WRITE_RSP''
      else if op = opcode_value HEARTBEAT then ''HEARTBEAT''
      else if op = opcode_value HEARTBEAT_ACK then ''HEARTBEAT_ACK''
      else if op = opcode_value CACHE_INVALIDATE then ''CACHE_INVALIDATE''
      else if op = opcode_value PREFETCH_PUSH then ''PREFETCH_PUSH''
      else if op = opcode_value VECTOR_READ_REQ then ''VECTOR_READ_REQ''
      else if op = opcode_value VECTOR_READ_RSP then ''VECTOR_READ_RSP''
      else if op = opcode_value VECTOR_WRITE_REQ then ''VECTOR_WRITE_REQ''
      else if op = opcode_value VECTOR_WRITE_RSP then ''VECTOR_WRITE_RSP''
      else if op = opcode_value ERROR_RSP then ''ERROR_RSP''
      else ''UNKNOWN'')"

section \<open>Headers\<close>

type_synonym FrameHeader = frame_fields

definition EncodeHeader ::
  "Opcode \<Rightarrow> u8 \<Rightarrow> u32 \<Rightarrow> u32 \<Rightarrow> u64 \<Rightarrow> u64 \<Rightarrow> u32 \<Rightarrow> u8 \<Rightarrow> FrameHeader" where
  "EncodeHeader opcode flags request_id payload_len image_id block_offset block_count layer_id =
     \<lparr>fh_magic = FRAME_MAGIC, fh_version = FRAME_VERSION, fh_opcode = opcode_value opcode,
      fh_flags = flags, fh_request_id = request_id, fh_payload_len = payload_len,
      fh_image_id = image_id, fh_block_offset = block_offset, fh_block_count = block_count,
      fh_layer_id = layer_id, fh_reserved0 = 0, fh_reserved1 = 0, fh_reserved2 = 0\<rparr>"

definition ValidateHeader :: "FrameHeader \<Rightarrow> bool" where
  "ValidateHeader hdr =
     (if fh_magic hdr \<noteq> FRAME_MAGIC then False
      else if fh_version hdr \<noteq> FRAME_VERSION then False
      else if fh_opcode hdr = 0 then False
      else True)"

definition ComputeFrameCrc :: "crc_state \<Rightarrow> FrameHeader \<Rightarrow> u32 \<times> crc_state" where
  "ComputeFrameCrc st hdr = FrameCodec_ComputeCrc32C st (frame_bytes hdr)"

section \<open>Frames\<close>

text \<open>
  \<^verbatim>\<open>EncodeFrame(buffer, buf_size, hdr, payload, payload_len, total_len)\<close>: the result, the buffer
  afterwards and \<^verbatim>\<open>total_len\<close>. A null payload is \<^const>\<open>None\<close>.
\<close>

definition EncodeFrame ::
  "u8 list \<Rightarrow> u32 \<Rightarrow> FrameHeader \<Rightarrow> u8 list option \<Rightarrow> u32 \<Rightarrow> (bool \<times> u8 list \<times> u32) res" where
  "EncodeFrame buffer buf_size hdr payload payload_len =
     (let total_len = FRAME_HDR_SIZE + payload_len in
      if buf_size < total_len then Inr (False, buffer, total_len)
      else rbind (mem_write buffer 0 (frame_bytes hdr)) (\<lambda>buf1.
        (case payload of
           None \<Rightarrow> Inr (True, buf1, total_len)
         | Some p \<Rightarrow>
             (if 0 < payload_len
              then rbind (mem_read p 0 (unat payload_len)) (\<lambda>src.
                   rbind (mem_write buf1 (unat FRAME_HDR_SIZE) src) (\<lambda>buf2.
                   Inr (True, buf2, total_len)))
              else Inr (True, buf1, total_len)))))"

text \<open>
  \<^verbatim>\<open>DecodeFrame(buffer, buf_len, hdr, payload, max_payload_len, payload_len)\<close>: the result and the
  three output arguments, which keep their old values until the code assigns them.
\<close>

definition DecodeFrame ::
  "u8 list \<Rightarrow> u32 \<Rightarrow> FrameHeader \<Rightarrow> u8 list option \<Rightarrow> u32 \<Rightarrow> u32
   \<Rightarrow> (bool \<times> FrameHeader \<times> u8 list option \<times> u32) res" where
  "DecodeFrame buffer buf_len hdr0 payload max_payload_len payload_len0 =
     (if buf_len < FRAME_HDR_SIZE then Inr (False, hdr0, payload, payload_len0)
      else rbind (mem_read buffer 0 (unat FRAME_HDR_SIZE)) (\<lambda>hb.
        let hdr = frame_of_bytes hb in
        if \<not> ValidateHeader hdr then Inr (False, hdr, payload, payload_len0)
        else let payload_len = fh_payload_len hdr in
        if buf_len < FRAME_HDR_SIZE + payload_len then Inr (False, hdr, payload, payload_len)
        else if max_payload_len < payload_len then Inr (False, hdr, payload, payload_len)
        else (case payload of
                None \<Rightarrow> Inr (True, hdr, None, payload_len)
              | Some p \<Rightarrow>
                  (if 0 < payload_len
                   then rbind (mem_read buffer (unat FRAME_HDR_SIZE) (unat payload_len)) (\<lambda>src.
                        rbind (mem_write p 0 src) (\<lambda>p'. Inr (True, hdr, Some p', payload_len)))
                   else Inr (True, hdr, Some p, payload_len)))))"

section \<open>Lemmas\<close>

lemma FRAME_HDR_SIZE_simps [simp]: "unat FRAME_HDR_SIZE = 40" "FRAME_HDR_SIZE = 40"
  by (simp_all add: FRAME_HDR_SIZE_def)

lemma ValidateHeader_iff:
  "ValidateHeader hdr \<longleftrightarrow>
   fh_magic hdr = FRAME_MAGIC \<and> fh_version hdr = FRAME_VERSION \<and> fh_opcode hdr \<noteq> 0"
  by (simp add: ValidateHeader_def)

lemma opcode_value_nonzero [simp]: "opcode_value op \<noteq> 0"
  by (cases op) simp_all

lemma opcode_value_inj: "opcode_value a = opcode_value b \<longleftrightarrow> a = b"
  by (cases a; cases b) simp_all

lemma ValidateHeader_EncodeHeader [simp]:
  "ValidateHeader (EncodeHeader op fl rid plen img off cnt lay)"
  by (simp add: ValidateHeader_iff EncodeHeader_def)

text \<open>The sum of the header size and a length, when it does not wrap and when it does.\<close>

lemma unat_hdr_plus: "unat l + 40 < 2 ^ 32 \<Longrightarrow> unat (40 + l :: u32) = 40 + unat l"
  by (simp add: unat_word_ariths)

lemma unat_hdr_plus_wrap:
  assumes "2 ^ 32 \<le> unat l + 40"
  shows "unat (40 + l :: u32) = unat l + 40 - 2 ^ 32" "unat (40 + l :: u32) < 40"
proof -
  have l: "unat l < 2 ^ 32" using unat_less_u32 [of l] by simp
  have "unat (40 + l :: u32) = (40 + unat l) mod 2 ^ 32" by (simp add: unat_word_ariths)
  also have "\<dots> = 40 + unat l - 2 ^ 32"
    using assms l by (simp add: mod_if)
  finally show a: "unat (40 + l :: u32) = unat l + 40 - 2 ^ 32" by simp
  show "unat (40 + l :: u32) < 40" using a l by simp
qed


lemma mem_read_prefix: "n \<le> length buf \<Longrightarrow> mem_read buf 0 n = Inr (take n buf)"
  by simp

lemma EncodeFrame_ok:
  assumes fits: "40 + length p \<le> unat buf_size" and buf: "unat buf_size \<le> length buffer"
    and len: "unat plen = length p"
  shows "EncodeFrame buffer buf_size hdr (Some p) plen =
           Inr (True, frame_bytes hdr @ p @ drop (40 + length p) buffer, 40 + plen)"
proof -
  have t: "unat (40 + plen :: u32) = 40 + length p"
    using fits len unat_less_u32 [of buf_size] by (simp add: unat_hdr_plus)
  then have "\<not> buf_size < 40 + plen" using fits by (simp add: word_less_nat_alt)
  moreover have "\<not> 0 < plen \<Longrightarrow> p = []" using len by (simp add: word_gt_0)
  moreover have "drop (length p + 40) buffer = drop (40 + length p) buffer" by (simp add: add.commute)
  ultimately show ?thesis
    using fits buf len
    by (auto simp: EncodeFrame_def Let_def mem_write_def mem_read_def)
qed

lemma DecodeFrame_ok:
  assumes v: "ValidateHeader hdr" and len: "unat (fh_payload_len hdr) = length p"
    and fits: "40 + length p \<le> unat buf_len" and pre: "take (40 + length p) buffer = frame_bytes hdr @ p"
    and mx: "length p \<le> unat mx" "unat mx \<le> length out"
  shows "DecodeFrame buffer buf_len h0 (Some out) mx l0 =
           Inr (True, hdr, Some (p @ drop (length p) out), fh_payload_len hdr)"
proof -
  have t: "unat (40 + fh_payload_len hdr :: u32) = 40 + length p"
    using fits len unat_less_u32 [of buf_len] by (simp add: unat_hdr_plus)
  have c: "\<not> buf_len < 40" "\<not> buf_len < 40 + fh_payload_len hdr" "\<not> mx < fh_payload_len hdr"
    using fits t mx len by (simp_all add: word_less_nat_alt)
  have lb: "40 + length p \<le> length buffer" using arg_cong [OF pre, of length] by simp
  have h: "take 40 buffer = frame_bytes hdr"
    using arg_cong [OF pre, of "take 40"] by simp
  have q: "take (length p) (drop 40 buffer) = p"
    using arg_cong [OF pre, of "drop 40"] by (simp add: drop_take)
  have "\<not> 0 < fh_payload_len hdr \<Longrightarrow> p = []" using len by (simp add: word_gt_0)
  then show ?thesis
    using c lb h q v len mx
    by (auto simp: DecodeFrame_def Let_def mem_read_def mem_write_def frame_of_frame_bytes)
qed

lemma DecodeFrame_no_fault:
  assumes buf: "unat buf_len \<le> length buffer" and out: "unat mx \<le> length out"
    and mx: "unat mx + 40 < 2 ^ 32"
  shows "\<exists>ok hdr pl l. DecodeFrame buffer buf_len h0 (Some out) mx l0 = Inr (ok, hdr, pl, l)"
proof (cases "buf_len < 40")
  case False
  let ?h = "frame_of_bytes (take 40 buffer)"
  have lb: "40 \<le> length buffer" using False buf by (simp add: word_less_nat_alt)
  show ?thesis
  proof (cases "mx < fh_payload_len ?h \<or> buf_len < 40 + fh_payload_len ?h")
    case True
    then show ?thesis using False lb by (auto simp: DecodeFrame_def Let_def)
  next
    case ok: False
    then have "unat (fh_payload_len ?h) \<le> unat mx" by (simp add: word_less_nat_alt)
    moreover from this have "40 + unat (fh_payload_len ?h) \<le> unat buf_len"
      using ok mx unat_hdr_plus [of "fh_payload_len ?h"] by (simp add: word_less_nat_alt)
    ultimately show ?thesis
      using ok False lb buf out by (auto simp: DecodeFrame_def Let_def)
  qed
qed (auto simp: DecodeFrame_def)

lemma DecodeFrame_True_D:
  assumes dec: "DecodeFrame buffer buf_len h0 (Some out) mx l0 = Inr (True, hdr, pl, l)"
    and mx: "unat mx + 40 < 2 ^ 32"
  shows "hdr = frame_of_bytes (take 40 buffer)" "ValidateHeader hdr" "l = fh_payload_len hdr"
    "40 + unat l \<le> unat buf_len" "unat l \<le> unat mx"
    "pl = Some (take (unat l) (drop 40 buffer) @ drop (unat l) out)"
proof -
  let ?h = "frame_of_bytes (take 40 buffer)"
  have c: "\<not> buf_len < 40" "ValidateHeader ?h" "\<not> buf_len < 40 + fh_payload_len ?h"
     "\<not> mx < fh_payload_len ?h" and h: "hdr = ?h" and l: "l = fh_payload_len ?h"
    using dec by (auto simp: DecodeFrame_def Let_def rbind_Inr_iff mem_read_Inr_iff split: if_splits)
  show "hdr = ?h" "ValidateHeader hdr" "l = fh_payload_len hdr" using c h l by simp_all
  show m: "unat l \<le> unat mx" using c l by (simp add: word_less_nat_alt)
  then show "40 + unat l \<le> unat buf_len"
    using c l mx unat_hdr_plus [of l] by (simp add: word_less_nat_alt)
  show "pl = Some (take (unat l) (drop 40 buffer) @ drop (unat l) out)"
    using dec by (auto simp: DecodeFrame_def Let_def rbind_Inr_iff mem_read_Inr_iff mem_write_Inr_iff
        word_gt_0 split: if_splits)
qed

section \<open>Properties\<close>

text \<open>
  C3. A frame written by \<^verbatim>\<open>EncodeFrame\<close> is read back by \<^verbatim>\<open>DecodeFrame\<close>: for a valid header whose
  payload length is the length of the payload, and buffers large enough for both, encoding
  succeeds without a fault, reports exactly 40 + payload bytes, and decoding those bytes alone
  returns the same header, the same payload and the same length.
\<close>

theorem frame_roundtrip:
  assumes "ValidateHeader hdr" and "unat (fh_payload_len hdr) = length p"
    and "40 + length p \<le> unat buf_size" and "unat buf_size \<le> length buffer"
    and "length p \<le> unat mx" and "unat mx \<le> length out"
  shows "\<exists>buf' total. EncodeFrame buffer buf_size hdr (Some p) (fh_payload_len hdr) = Inr (True, buf', total)
           \<and> unat total = 40 + length p \<and> length buf' = length buffer
           \<and> DecodeFrame (take (unat total) buf') total h0 (Some out) mx l0
               = Inr (True, hdr, Some (p @ drop (length p) out), fh_payload_len hdr)"
proof (intro exI conjI)
  let ?buf' = "frame_bytes hdr @ p @ drop (40 + length p) buffer"
  show "EncodeFrame buffer buf_size hdr (Some p) (fh_payload_len hdr)
          = Inr (True, ?buf', 40 + fh_payload_len hdr)"
    using assms by (intro EncodeFrame_ok) auto
  show t: "unat (40 + fh_payload_len hdr) = 40 + length p"
    using assms unat_less_u32 [of buf_size] by (simp add: unat_hdr_plus)
  show "length ?buf' = length buffer" using assms by simp
  show "DecodeFrame (take (unat (40 + fh_payload_len hdr)) ?buf') (40 + fh_payload_len hdr) h0
          (Some out) mx l0 = Inr (True, hdr, Some (p @ drop (length p) out), fh_payload_len hdr)"
    using assms t by (intro DecodeFrame_ok) simp_all
qed

theorem frame_roundtrip_witness:
  "\<exists>buf' total. EncodeFrame (replicate 64 0) 64 (EncodeHeader BLOCK_READ_RSP 0 7 3 1 8 1 0)
       (Some [10, 20, 30]) 3 = Inr (True, buf', total) \<and> unat total = 43 \<and> length buf' = 64
     \<and> DecodeFrame (take (unat total) buf') total (EncodeHeader HEARTBEAT 0 0 0 0 0 0 0)
         (Some [0, 0, 0, 0]) 4 0
         = Inr (True, EncodeHeader BLOCK_READ_RSP 0 7 3 1 8 1 0, Some [10, 20, 30, 0], 3)"
  using frame_roundtrip [of "EncodeHeader BLOCK_READ_RSP 0 7 3 1 8 1 0" "[10, 20, 30]" 64
      "replicate 64 0" 4 "[0, 0, 0, 0]" "EncodeHeader HEARTBEAT 0 0 0 0 0 0 0" 0]
  by (simp add: EncodeHeader_def ValidateHeader_def)

text \<open>
  C10. \<^verbatim>\<open>DecodeFrame\<close> is safe on arbitrary received bytes: if the two capacities it is given are
  true of the buffers and the payload capacity is below 2^32 - 40, no input makes it read or
  write out of bounds, and when it accepts, the header is valid, header and payload lie within
  the received bytes, and the payload handed out is exactly the bytes after the header.
\<close>

theorem decode_frame_safe:
  assumes "unat buf_len \<le> length buffer" and "unat mx \<le> length out" and "unat mx + 40 < 2 ^ 32"
  shows "\<exists>ok hdr pl l. DecodeFrame buffer buf_len h0 (Some out) mx l0 = Inr (ok, hdr, pl, l)
           \<and> (ok \<longrightarrow> ValidateHeader hdr \<and> l = fh_payload_len hdr \<and> 40 + unat l \<le> unat buf_len
               \<and> unat l \<le> unat mx \<and> pl = Some (take (unat l) (drop 40 buffer) @ drop (unat l) out))"
proof -
  obtain ok hdr pl l where r: "DecodeFrame buffer buf_len h0 (Some out) mx l0 = Inr (ok, hdr, pl, l)"
    using DecodeFrame_no_fault [OF assms, of h0 l0] by auto
  then show ?thesis using DecodeFrame_True_D [OF _ assms(3)] by (cases ok) auto
qed

theorem decode_frame_safe_witness:
  "\<exists>ok hdr pl l. DecodeFrame (replicate 50 0xFF) 50 (EncodeHeader HEARTBEAT 0 0 0 0 0 0 0)
       (Some (replicate 8 0)) 8 0 = Inr (ok, hdr, pl, l)
     \<and> (ok \<longrightarrow> ValidateHeader hdr \<and> l = fh_payload_len hdr \<and> 40 + unat l \<le> 50
         \<and> unat l \<le> 8 \<and> pl = Some (take (unat l) (drop 40 (replicate 50 0xFF)) @ drop (unat l) (replicate 8 0)))"
  using decode_frame_safe [of 50 "replicate 50 0xFF" 8 "replicate 8 0" "EncodeHeader HEARTBEAT 0 0 0 0 0 0 0" 0]
  by simp

text \<open>
  The length check of \<^verbatim>\<open>EncodeFrame\<close> is defeated by a payload length within 40 of 2^32: the
  32-bit sum wraps below 40, the check passes for every buffer that holds a header, and the
  copy runs out of bounds of every buffer shorter than 4 GiB.
\<close>

theorem encode_frame_length_wraps:
  assumes "2 ^ 32 \<le> unat plen + 40" and "40 \<le> unat buf_size" and "unat buf_size \<le> length buffer"
    and "length buffer < 2 ^ 32 - 40"
  shows "EncodeFrame buffer buf_size hdr (Some p) plen = Inl OutOfBounds"
proof -
  have "\<not> buf_size < 40 + plen"
    using unat_hdr_plus_wrap(2) [OF assms(1)] assms(2) by (simp add: word_less_nat_alt)
  moreover have "0 < plen" using assms(1) by (cases "plen = 0") (simp_all add: word_gt_0)
  ultimately show ?thesis
    using assms by (auto simp: EncodeFrame_def Let_def mem_read_def mem_write_def)
qed

theorem encode_frame_length_wraps_witness:
  "EncodeFrame (replicate 64 0) 64 (EncodeHeader BLOCK_WRITE_REQ 0 1 0xFFFFFFF0 0 0 0 0)
     (Some [1, 2, 3]) 0xFFFFFFF0 = Inl OutOfBounds"
  using encode_frame_length_wraps [where plen = "0xFFFFFFF0" and buf_size = 64 and buffer = "replicate 64 0"] by simp

end
