(* ===== verification/HD_Protocol.thy ===== *)
theory HD_Protocol
  imports HD_FrameCodec
begin

text \<open>
  The wire structures of \<^verbatim>\<open>client/include/hd_protocol.h\<close> and the payloads of
  \<^verbatim>\<open>client/common/hd_frame_codec.h\<close>, packed and little endian: a struct is a list of members with their widths, and
  one law says that packing and unpacking are inverse. The structs of the two headers that share a purpose have
  the same members and are given once.
\<close>

section \<open>Constants and codes\<close>

definition HD_BLOCK_SIZE :: u32 where "HD_BLOCK_SIZE = 4096"
definition HD_CHUNK_SIZE :: u32 where "HD_CHUNK_SIZE = 64 * 1024"
definition HD_FRAME_HDR_SIZE :: u32 where "HD_FRAME_HDR_SIZE = 32"
definition HD_PROTO_MAGIC :: u32 where "HD_PROTO_MAGIC = 0x48444B47"
definition HD_PROTO_VERSION :: u16 where "HD_PROTO_VERSION = 0x0001"

datatype FrameType =
  FT_BLOCK_READ_REQ | FT_BLOCK_READ_RSP | FT_BLOCK_WRITE_REQ | FT_BLOCK_WRITE_RSP | FT_HEARTBEAT | FT_HEARTBEAT_ACK
| FT_CACHE_INVALIDATE | FT_PREFETCH_PUSH | FT_ERROR_RSP

fun frame_type_value :: "FrameType \<Rightarrow> u8" where
  "frame_type_value FT_BLOCK_READ_REQ = 0x01"
| "frame_type_value FT_BLOCK_READ_RSP = 0x02"
| "frame_type_value FT_BLOCK_WRITE_REQ = 0x03"
| "frame_type_value FT_BLOCK_WRITE_RSP = 0x04"
| "frame_type_value FT_HEARTBEAT = 0x10"
| "frame_type_value FT_HEARTBEAT_ACK = 0x11"
| "frame_type_value FT_CACHE_INVALIDATE = 0x20"
| "frame_type_value FT_PREFETCH_PUSH = 0x30"
| "frame_type_value FT_ERROR_RSP = 0xFF"

datatype LayerType = LT_OS | LT_DRIVER | LT_APP | LT_OVERLAY

fun layer_type_value :: "LayerType \<Rightarrow> u8" where
  "layer_type_value LT_OS = 0"
| "layer_type_value LT_DRIVER = 1"
| "layer_type_value LT_APP = 2"
| "layer_type_value LT_OVERLAY = 3"

datatype WritePolicy = RAM_OVERLAY | NVME_OVERLAY | PERSISTENT_USER | READ_ONLY | SNAPSHOT | HYBRID

fun write_policy_value :: "WritePolicy \<Rightarrow> u8" where
  "write_policy_value RAM_OVERLAY = 0"
| "write_policy_value NVME_OVERLAY = 1"
| "write_policy_value PERSISTENT_USER = 2"
| "write_policy_value READ_ONLY = 3"
| "write_policy_value SNAPSHOT = 4"
| "write_policy_value HYBRID = 5"

datatype QoSLevel = P0_VDISK_IO | P1_WRITEBACK | P2_PREFETCH | P3_UPDATE

fun qos_value :: "QoSLevel \<Rightarrow> u8" where
  "qos_value P0_VDISK_IO = 0"
| "qos_value P1_WRITEBACK = 1"
| "qos_value P2_PREFETCH = 2"
| "qos_value P3_UPDATE = 3"

definition FLAG_COMPRESSED :: u8 where "FLAG_COMPRESSED = 0x01"
definition FLAG_URGENT :: u8 where "FLAG_URGENT = 0x02"
definition FLAG_CACHED :: u8 where "FLAG_CACHED = 0x04"

section \<open>Packed structures\<close>

text \<open>A member is its width in bytes and its value as an unsigned number of 64 bits; signed members hold their bit pattern.\<close>

definition pack :: "(nat \<times> u64) list \<Rightarrow> u8 list" where
  "pack fs = concat (List.map (\<lambda>(n, x). le_bytes n x) fs)"

fun unpack :: "nat list \<Rightarrow> u8 list \<Rightarrow> u64 list" where
  "unpack [] bs = []"
| "unpack (n # ns) bs = le_word n bs # unpack ns (drop n bs)"

definition member_fits :: "nat \<times> u64 \<Rightarrow> bool" where
  "member_fits f \<longleftrightarrow> take_bit (fst f * 8) (snd f) = snd f"

lemma le_word_le_bytes_fits: "take_bit (n * 8) x = x \<Longrightarrow> le_word n (le_bytes n x) = (x :: u64)"
proof (rule bit_eqI)
  fix k
  assume f: "take_bit (n * 8) x = x" and "possible_bit TYPE(u64) k"
  then have k: "k < 64" by simp
  have m: "k div 8 * 8 + k mod 8 = k" by simp
  have "bit x k \<longleftrightarrow> k < n * 8 \<and> bit x k" by (subst (1 2) f [symmetric]) (auto simp: bit_take_bit_iff)
  moreover have "k div 8 < n \<longleftrightarrow> k < n * 8" by (simp add: div_less_iff_less_mult)
  ultimately show "bit (le_word n (le_bytes n x) :: u64) k \<longleftrightarrow> bit x k"
    using k m by (auto simp: bit_le_word bit_ucast_iff bit_drop_bit_eq)
qed

lemma length_pack: "length (pack fs) = sum_list (List.map fst fs)"
  by (induction fs) (auto simp: pack_def)

lemma unpack_pack: "list_all member_fits fs \<Longrightarrow> unpack (List.map fst fs) (pack fs @ rest) = List.map snd fs"
proof (induction fs)
  case (Cons f fs)
  obtain n x where f: "f = (n, x)" by (cases f)
  then have "le_word n (pack (f # fs) @ rest) = x"
    using Cons.prems by (simp add: pack_def le_word_append le_word_le_bytes_fits member_fits_def)
  moreover have "drop n (pack (f # fs) @ rest) = pack fs @ rest" by (simp add: pack_def f)
  ultimately show ?case using Cons f by simp
qed simp

lemma fits_ucast:
  assumes "LENGTH('a::len) \<le> n * 8"
  shows "member_fits (n, ucast (x :: 'a word))"
proof -
  have "bit x k \<Longrightarrow> k < n * 8" for k using bit_imp_le_length [of x k] assms by linarith
  then show ?thesis by (auto simp: member_fits_def intro!: bit_eqI simp: bit_take_bit_iff bit_ucast_iff)
qed

lemma member_fits_simps [simp]:
  "member_fits (Suc 0, ucast (a :: u8))" "member_fits (4, ucast (c :: u32))" "member_fits (8, d)"
  using fits_ucast [of 8 d] by (simp_all add: fits_ucast)

lemma unpack_members: "list_all member_fits fs \<Longrightarrow> ns = List.map fst fs \<Longrightarrow> unpack ns (pack fs @ rest) = List.map snd fs"
  by (simp add: unpack_pack)

section \<open>Messages\<close>

text \<open>One record per struct, its members in order, and its bytes; \<open>status\<close> is the bit pattern of a signed number.\<close>

record BlockReadReq =
  rrq_image_id :: u64
  rrq_block_offset :: u64
  rrq_block_count :: u32
  rrq_layer_id :: u8

definition BlockReadReq_members :: "BlockReadReq \<Rightarrow> (nat \<times> u64) list" where
  "BlockReadReq_members m = [(8, rrq_image_id m), (8, rrq_block_offset m), (4, ucast (rrq_block_count m)), (1, ucast (rrq_layer_id m))]"

definition BlockReadReq_bytes :: "BlockReadReq \<Rightarrow> u8 list" where
  "BlockReadReq_bytes m = pack (BlockReadReq_members m)"

definition BlockReadReq_of_bytes :: "u8 list \<Rightarrow> BlockReadReq" where
  "BlockReadReq_of_bytes bs =
     (let vs = unpack [8, 8, 4, 1] bs in
      \<lparr>rrq_image_id = vs ! 0, rrq_block_offset = vs ! 1, rrq_block_count = ucast (vs ! 2), rrq_layer_id = ucast (vs ! 3)\<rparr>)"

record BlockReadRsp =
  rrs_image_id :: u64
  rrs_block_offset :: u64
  rrs_block_count :: u32
  rrs_status :: u32

definition BlockReadRsp_members :: "BlockReadRsp \<Rightarrow> (nat \<times> u64) list" where
  "BlockReadRsp_members m = [(8, rrs_image_id m), (8, rrs_block_offset m), (4, ucast (rrs_block_count m)), (4, ucast (rrs_status m))]"

definition BlockReadRsp_bytes :: "BlockReadRsp \<Rightarrow> u8 list" where
  "BlockReadRsp_bytes m = pack (BlockReadRsp_members m)"

definition BlockReadRsp_of_bytes :: "u8 list \<Rightarrow> BlockReadRsp" where
  "BlockReadRsp_of_bytes bs =
     (let vs = unpack [8, 8, 4, 4] bs in
      \<lparr>rrs_image_id = vs ! 0, rrs_block_offset = vs ! 1, rrs_block_count = ucast (vs ! 2), rrs_status = ucast (vs ! 3)\<rparr>)"

record BlockWriteReq =
  wrq_image_id :: u64
  wrq_block_offset :: u64
  wrq_block_count :: u32
  wrq_layer_id :: u8
  wrq_policy :: u8

definition BlockWriteReq_members :: "BlockWriteReq \<Rightarrow> (nat \<times> u64) list" where
  "BlockWriteReq_members m = [(8, wrq_image_id m), (8, wrq_block_offset m), (4, ucast (wrq_block_count m)), (1, ucast (wrq_layer_id m)), (1, ucast (wrq_policy m))]"

definition BlockWriteReq_bytes :: "BlockWriteReq \<Rightarrow> u8 list" where
  "BlockWriteReq_bytes m = pack (BlockWriteReq_members m)"

definition BlockWriteReq_of_bytes :: "u8 list \<Rightarrow> BlockWriteReq" where
  "BlockWriteReq_of_bytes bs =
     (let vs = unpack [8, 8, 4, 1, 1] bs in
      \<lparr>wrq_image_id = vs ! 0, wrq_block_offset = vs ! 1, wrq_block_count = ucast (vs ! 2), wrq_layer_id = ucast (vs ! 3), wrq_policy = ucast (vs ! 4)\<rparr>)"

record BlockWriteRsp =
  wrs_image_id :: u64
  wrs_block_offset :: u64
  wrs_status :: u32

definition BlockWriteRsp_members :: "BlockWriteRsp \<Rightarrow> (nat \<times> u64) list" where
  "BlockWriteRsp_members m = [(8, wrs_image_id m), (8, wrs_block_offset m), (4, ucast (wrs_status m))]"

definition BlockWriteRsp_bytes :: "BlockWriteRsp \<Rightarrow> u8 list" where
  "BlockWriteRsp_bytes m = pack (BlockWriteRsp_members m)"

definition BlockWriteRsp_of_bytes :: "u8 list \<Rightarrow> BlockWriteRsp" where
  "BlockWriteRsp_of_bytes bs =
     (let vs = unpack [8, 8, 4] bs in
      \<lparr>wrs_image_id = vs ! 0, wrs_block_offset = vs ! 1, wrs_status = ucast (vs ! 2)\<rparr>)"

record HeartbeatMsg =
  hbm_terminal_id :: u64
  hbm_timestamp :: u64
  hbm_cache_hit_rate :: u32
  hbm_pending_io :: u32

definition HeartbeatMsg_members :: "HeartbeatMsg \<Rightarrow> (nat \<times> u64) list" where
  "HeartbeatMsg_members m = [(8, hbm_terminal_id m), (8, hbm_timestamp m), (4, ucast (hbm_cache_hit_rate m)), (4, ucast (hbm_pending_io m))]"

definition HeartbeatMsg_bytes :: "HeartbeatMsg \<Rightarrow> u8 list" where
  "HeartbeatMsg_bytes m = pack (HeartbeatMsg_members m)"

definition HeartbeatMsg_of_bytes :: "u8 list \<Rightarrow> HeartbeatMsg" where
  "HeartbeatMsg_of_bytes bs =
     (let vs = unpack [8, 8, 4, 4] bs in
      \<lparr>hbm_terminal_id = vs ! 0, hbm_timestamp = vs ! 1, hbm_cache_hit_rate = ucast (vs ! 2), hbm_pending_io = ucast (vs ! 3)\<rparr>)"

record HeartbeatAckPayload =
  hba_server_timestamp :: u64
  hba_active_connections :: u32
  hba_server_load :: u32

definition HeartbeatAckPayload_members :: "HeartbeatAckPayload \<Rightarrow> (nat \<times> u64) list" where
  "HeartbeatAckPayload_members m = [(8, hba_server_timestamp m), (4, ucast (hba_active_connections m)), (4, ucast (hba_server_load m))]"

definition HeartbeatAckPayload_bytes :: "HeartbeatAckPayload \<Rightarrow> u8 list" where
  "HeartbeatAckPayload_bytes m = pack (HeartbeatAckPayload_members m)"

definition HeartbeatAckPayload_of_bytes :: "u8 list \<Rightarrow> HeartbeatAckPayload" where
  "HeartbeatAckPayload_of_bytes bs =
     (let vs = unpack [8, 4, 4] bs in
      \<lparr>hba_server_timestamp = vs ! 0, hba_active_connections = ucast (vs ! 1), hba_server_load = ucast (vs ! 2)\<rparr>)"

text \<open>The error message is a number and an array of 128 characters.\<close>

record ErrorRspPayload =
  err_error_code :: u32
  err_error_msg :: "u8 list"

definition ErrorRspPayload_bytes :: "ErrorRspPayload \<Rightarrow> u8 list" where
  "ErrorRspPayload_bytes m = le_bytes 4 (err_error_code m) @ err_error_msg m"

definition ErrorRspPayload_of_bytes :: "u8 list \<Rightarrow> ErrorRspPayload" where
  "ErrorRspPayload_of_bytes bs = \<lparr>err_error_code = le_word 4 bs, err_error_msg = take 128 (drop 4 bs)\<rparr>"

lemma ucast_back [simp]: "ucast (ucast (x :: u32) :: u64) = x" "ucast (ucast (y :: u8) :: u64) = y"
  by (auto intro!: bit_eqI simp: bit_ucast_iff)

lemma BlockReadReq_roundtrip: "length (BlockReadReq_bytes m) = 21 \<and> BlockReadReq_of_bytes (BlockReadReq_bytes m @ rest) = m"
  by (simp add: BlockReadReq_bytes_def BlockReadReq_of_bytes_def BlockReadReq_members_def length_pack unpack_members Let_def del: unpack.simps)

lemma BlockReadRsp_roundtrip: "length (BlockReadRsp_bytes m) = 24 \<and> BlockReadRsp_of_bytes (BlockReadRsp_bytes m @ rest) = m"
  by (simp add: BlockReadRsp_bytes_def BlockReadRsp_of_bytes_def BlockReadRsp_members_def length_pack unpack_members Let_def del: unpack.simps)

lemma BlockWriteReq_roundtrip: "length (BlockWriteReq_bytes m) = 22 \<and> BlockWriteReq_of_bytes (BlockWriteReq_bytes m @ rest) = m"
  by (simp add: BlockWriteReq_bytes_def BlockWriteReq_of_bytes_def BlockWriteReq_members_def length_pack unpack_members Let_def del: unpack.simps)

lemma BlockWriteRsp_roundtrip: "length (BlockWriteRsp_bytes m) = 20 \<and> BlockWriteRsp_of_bytes (BlockWriteRsp_bytes m @ rest) = m"
  by (simp add: BlockWriteRsp_bytes_def BlockWriteRsp_of_bytes_def BlockWriteRsp_members_def length_pack unpack_members Let_def del: unpack.simps)

lemma HeartbeatMsg_roundtrip: "length (HeartbeatMsg_bytes m) = 24 \<and> HeartbeatMsg_of_bytes (HeartbeatMsg_bytes m @ rest) = m"
  by (simp add: HeartbeatMsg_bytes_def HeartbeatMsg_of_bytes_def HeartbeatMsg_members_def length_pack unpack_members Let_def del: unpack.simps)

lemma HeartbeatAckPayload_roundtrip: "length (HeartbeatAckPayload_bytes m) = 16 \<and> HeartbeatAckPayload_of_bytes (HeartbeatAckPayload_bytes m @ rest) = m"
  by (simp add: HeartbeatAckPayload_bytes_def HeartbeatAckPayload_of_bytes_def HeartbeatAckPayload_members_def length_pack unpack_members Let_def del: unpack.simps)

lemma ErrorRspPayload_roundtrip:
  "length (err_error_msg m) = 128 \<Longrightarrow>
     length (ErrorRspPayload_bytes m) = 132 \<and> ErrorRspPayload_of_bytes (ErrorRspPayload_bytes m @ rest) = m"
  by (simp add: ErrorRspPayload_bytes_def ErrorRspPayload_of_bytes_def le_word_append le_word_le_bytes)

section \<open>Properties\<close>

text \<open>Every message of the wire protocol is read back from its bytes, whatever follows them, and the packed sizes are
  those of the structures: 21, 24, 22, 20, 24, 16 and 132 bytes; the error text is the 128 characters of its array.\<close>

theorem protocol_messages_roundtrip:
  assumes "length (err_error_msg e) = 128"
  shows "BlockReadReq_of_bytes (BlockReadReq_bytes a @ rest) = a \<and> BlockReadRsp_of_bytes (BlockReadRsp_bytes b @ rest) = b \<and>
    BlockWriteReq_of_bytes (BlockWriteReq_bytes c @ rest) = c \<and> BlockWriteRsp_of_bytes (BlockWriteRsp_bytes d @ rest) = d \<and>
    HeartbeatMsg_of_bytes (HeartbeatMsg_bytes h @ rest) = h \<and> HeartbeatAckPayload_of_bytes (HeartbeatAckPayload_bytes k @ rest) = k \<and>
    ErrorRspPayload_of_bytes (ErrorRspPayload_bytes e @ rest) = e \<and>
    List.map length [BlockReadReq_bytes a, BlockReadRsp_bytes b, BlockWriteReq_bytes c, BlockWriteRsp_bytes d,
      HeartbeatMsg_bytes h, HeartbeatAckPayload_bytes k, ErrorRspPayload_bytes e] = [21, 24, 22, 20, 24, 16, 132]"
  using assms by (simp add: BlockReadReq_roundtrip BlockReadRsp_roundtrip BlockWriteReq_roundtrip BlockWriteRsp_roundtrip
      HeartbeatMsg_roundtrip HeartbeatAckPayload_roundtrip ErrorRspPayload_roundtrip)

theorem protocol_messages_roundtrip_witness:
  "ErrorRspPayload_of_bytes (ErrorRspPayload_bytes \<lparr>err_error_code = 5, err_error_msg = replicate 128 0\<rparr> @ [1]) =
     \<lparr>err_error_code = 5, err_error_msg = replicate 128 0\<rparr>"
  using protocol_messages_roundtrip [of "\<lparr>err_error_code = 5, err_error_msg = replicate 128 0\<rparr>" undefined "[1]"]
  by simp

text \<open>The codes of \<^verbatim>\<open>hd_protocol.h\<close> are those of the codec under the same names, which adds the four vector requests; the
  magic numbers and versions agree, but the constant for the header size is eight bytes short of the structure.\<close>

fun opcode_of_frame_type :: "FrameType \<Rightarrow> Opcode" where
  "opcode_of_frame_type FT_BLOCK_READ_REQ = BLOCK_READ_REQ"
| "opcode_of_frame_type FT_BLOCK_READ_RSP = BLOCK_READ_RSP"
| "opcode_of_frame_type FT_BLOCK_WRITE_REQ = BLOCK_WRITE_REQ"
| "opcode_of_frame_type FT_BLOCK_WRITE_RSP = BLOCK_WRITE_RSP"
| "opcode_of_frame_type FT_HEARTBEAT = HEARTBEAT"
| "opcode_of_frame_type FT_HEARTBEAT_ACK = HEARTBEAT_ACK"
| "opcode_of_frame_type FT_CACHE_INVALIDATE = CACHE_INVALIDATE"
| "opcode_of_frame_type FT_PREFETCH_PUSH = PREFETCH_PUSH"
| "opcode_of_frame_type FT_ERROR_RSP = ERROR_RSP"

lemma frame_type_is_opcode: "opcode_value (opcode_of_frame_type t) = frame_type_value t"
  by (cases t) simp_all

lemma frame_types_missing:
  "(\<exists>t. frame_type_value t = opcode_value op) \<longleftrightarrow> op \<notin> {VECTOR_READ_REQ, VECTOR_READ_RSP, VECTOR_WRITE_REQ, VECTOR_WRITE_RSP}"
proof
  assume "\<exists>t. frame_type_value t = opcode_value op"
  then obtain t where "opcode_of_frame_type t = op" by (auto simp: frame_type_is_opcode [symmetric] opcode_value_inj)
  then show "op \<notin> {VECTOR_READ_REQ, VECTOR_READ_RSP, VECTOR_WRITE_REQ, VECTOR_WRITE_RSP}" by (cases t) auto
next
  assume "op \<notin> {VECTOR_READ_REQ, VECTOR_READ_RSP, VECTOR_WRITE_REQ, VECTOR_WRITE_RSP}"
  then have "\<exists>t. opcode_of_frame_type t = op" by (cases op) (auto intro: opcode_of_frame_type.simps)
  then show "\<exists>t. frame_type_value t = opcode_value op" by (metis frame_type_is_opcode)
qed

lemma proto_header:
  "HD_PROTO_MAGIC = FRAME_MAGIC" "HD_PROTO_VERSION = FRAME_VERSION" "length (frame_bytes h) = unat HD_FRAME_HDR_SIZE + 8"
  by (simp_all add: HD_PROTO_MAGIC_def FRAME_MAGIC_def HD_PROTO_VERSION_def FRAME_VERSION_def HD_FRAME_HDR_SIZE_def)

end
