(* ===== verification/HD_Serial.thy ===== *)
theory HD_Serial
  imports HD_Prelude
begin

text \<open>
  The serial debug log shared by the drivers, \<^verbatim>\<open>driver/common/hd_serial.{h,c}\<close>: a 16550 UART that
  is polled before each byte, and a 4096-byte ring buffer that keeps what was written.

  The UART is not code of this repository: the \<^verbatim>\<open>n\<close>-th read of its line status register returns
  \<^verbatim>\<open>lsr n\<close> for a parameter \<^verbatim>\<open>lsr\<close>, and the writes to its ports are recorded in order.
\<close>

section \<open>State\<close>

definition HD_COM1_BASE :: u32 where "HD_COM1_BASE = 0x3F8"
definition HD_SERIAL_BUF_SIZE :: u32 where "HD_SERIAL_BUF_SIZE = 4096"

record uart =
  port_reads :: nat
  port_writes :: "(u32 \<times> u8) list"

record HD_SERIAL_DEBUG =
  ComBase :: u32
  Initialized :: bool
  RingBuffer :: "u8 list"
  RingHead :: u32
  RingTail :: u32
  sd_uart :: uart

definition WRITE_PORT_UCHAR :: "u32 \<Rightarrow> u8 \<Rightarrow> uart \<Rightarrow> uart" where
  "WRITE_PORT_UCHAR port b u = u\<lparr>port_writes := port_writes u @ [(port, b)]\<rparr>"

section \<open>Operations\<close>

text \<open>
  The polling loop of \<^verbatim>\<open>HdSerialWriteByte\<close>: the port is read before the counter is tested. The
  value is the number of port reads made so far and what is left of the counter.
\<close>

function wait_ready :: "(nat \<Rightarrow> u8) \<Rightarrow> nat \<Rightarrow> nat \<Rightarrow> nat \<times> nat" where
  "wait_ready lsr rd timeout =
     (if lsr rd AND 0x20 \<noteq> 0 \<or> timeout = 0 then (Suc rd, timeout)
      else wait_ready lsr (Suc rd) (timeout - 1))"
  by pat_completeness auto
termination by (relation "measure (\<lambda>(_, _, t). t)") auto

declare wait_ready.simps [simp del]

definition HdSerialWriteByte :: "(nat \<Rightarrow> u8) \<Rightarrow> u32 \<Rightarrow> u8 \<Rightarrow> uart \<Rightarrow> uart" where
  "HdSerialWriteByte lsr base b u =
     (let (rd, timeout) = wait_ready lsr (port_reads u) 100000;
          u1 = u\<lparr>port_reads := rd\<rparr>
      in if 0 < timeout then WRITE_PORT_UCHAR base b u1 else u1)"

definition HdSerialWriteChar :: "(nat \<Rightarrow> u8) \<Rightarrow> HD_SERIAL_DEBUG \<Rightarrow> u8 \<Rightarrow> HD_SERIAL_DEBUG res" where
  "HdSerialWriteChar lsr s ch =
     (if \<not> Initialized s then Inr s
      else let s1 = s\<lparr>sd_uart := HdSerialWriteByte lsr (ComBase s) ch (sd_uart s)\<rparr> in
      rbind (mem_write (RingBuffer s1) (unat (RingHead s1)) [ch]) (\<lambda>rb.
      let head = (RingHead s1 + 1) mod HD_SERIAL_BUF_SIZE;
          tail = (if head = RingTail s1 then (RingTail s1 + 1) mod HD_SERIAL_BUF_SIZE else RingTail s1)
      in Inr (s1\<lparr>RingBuffer := rb, RingHead := head, RingTail := tail\<rparr>)))"

text \<open>A C string is the list of its bytes; the loop stops at a null byte.\<close>

fun write_string_loop :: "(nat \<Rightarrow> u8) \<Rightarrow> HD_SERIAL_DEBUG \<Rightarrow> u8 list \<Rightarrow> HD_SERIAL_DEBUG res" where
  "write_string_loop lsr s [] = Inr s"
| "write_string_loop lsr s (c # cs) =
     (if c = 0 then Inr s
      else rbind (HdSerialWriteChar lsr s c) (\<lambda>s'. write_string_loop lsr s' cs))"

definition HdSerialWriteString :: "(nat \<Rightarrow> u8) \<Rightarrow> HD_SERIAL_DEBUG \<Rightarrow> u8 list \<Rightarrow> HD_SERIAL_DEBUG res" where
  "HdSerialWriteString lsr s str = (if \<not> Initialized s then Inr s else write_string_loop lsr s str)"

definition HdSerialInitialize :: "(nat \<Rightarrow> u8) \<Rightarrow> HD_SERIAL_DEBUG \<Rightarrow> HD_SERIAL_DEBUG res" where
  "HdSerialInitialize lsr s =
     (let base = HD_COM1_BASE;
          u = WRITE_PORT_UCHAR (base + 4) 0x0B
             (WRITE_PORT_UCHAR (base + 2) 0xC7
             (WRITE_PORT_UCHAR (base + 3) 0x03
             (WRITE_PORT_UCHAR (base + 1) 0x00
             (WRITE_PORT_UCHAR (base + 0) 0x01
             (WRITE_PORT_UCHAR (base + 3) 0x80
             (WRITE_PORT_UCHAR (base + 1) 0x00 (sd_uart s)))))));
          s1 = s\<lparr>ComBase := base, Initialized := True, RingHead := 0, RingTail := 0, sd_uart := u\<rparr>
      in HdSerialWriteString lsr s1
           (bytes_of_string ''[HyperDisk] COM1 serial debug initialized'' @ [13, 10]))"

text \<open>\<^verbatim>\<open>while (tail != head)\<close> of the dump ends only if both indices are in range.\<close>

partial_function (option) dump_loop ::
  "(nat \<Rightarrow> u8) \<Rightarrow> u32 \<Rightarrow> u8 list \<Rightarrow> u32 \<Rightarrow> u32 \<Rightarrow> uart \<Rightarrow> uart res option" where
  "dump_loop lsr base ring tail head u =
     (if tail = head then Some (Inr u)
      else (case mem_read ring (unat tail) 1 of
              Inl e \<Rightarrow> Some (Inl e)
            | Inr bs \<Rightarrow> dump_loop lsr base ring ((tail + 1) mod HD_SERIAL_BUF_SIZE) head
                          (HdSerialWriteByte lsr base (hd bs) u)))"

definition HdSerialDumpRingBuffer :: "(nat \<Rightarrow> u8) \<Rightarrow> HD_SERIAL_DEBUG \<Rightarrow> HD_SERIAL_DEBUG res option" where
  "HdSerialDumpRingBuffer lsr s =
     (if \<not> Initialized s then Some (Inr s)
      else map_option (\<lambda>r. rbind r (\<lambda>u. Inr (s\<lparr>sd_uart := u\<rparr>)))
             (dump_loop lsr (ComBase s) (RingBuffer s) (RingTail s) (RingHead s) (sd_uart s)))"

section \<open>Invariant and contents\<close>

definition serial_ok :: "HD_SERIAL_DEBUG \<Rightarrow> bool" where
  "serial_ok s \<longleftrightarrow> Initialized s \<and> length (RingBuffer s) = 4096
     \<and> unat (RingHead s) < 4096 \<and> unat (RingTail s) < 4096"

definition ring_len :: "nat \<Rightarrow> nat \<Rightarrow> nat" where
  "ring_len head tail = (head + 4096 - tail) mod 4096"

definition ring_list :: "u8 list \<Rightarrow> nat \<Rightarrow> nat \<Rightarrow> u8 list" where
  "ring_list ring tail n = map (\<lambda>i. ring ! ((tail + i) mod 4096)) [0..<n]"

definition ring_contents :: "HD_SERIAL_DEBUG \<Rightarrow> u8 list" where
  "ring_contents s =
     ring_list (RingBuffer s) (unat (RingTail s)) (ring_len (unat (RingHead s)) (unat (RingTail s)))"

section \<open>Lemmas on the ring\<close>

lemma succ_mod_if: "h < 4096 \<Longrightarrow> (h + 1) mod 4096 = (if h = 4095 then 0 else h + 1)" for h :: nat
  by simp

lemma add_mod_if:
  "t < 4096 \<Longrightarrow> i < 4096 \<Longrightarrow> (t + i) mod 4096 = (if t + i < 4096 then t + i else t + i - 4096)"
  for t :: nat
  by (simp add: mod_if)

lemma ring_len_if:
  "h < 4096 \<Longrightarrow> t < 4096 \<Longrightarrow> ring_len h t = (if t \<le> h then h - t else h + 4096 - t)"
  by (simp add: ring_len_def mod_if)

lemmas ring_arith = succ_mod_if add_mod_if ring_len_if

lemma ring_len_less [simp]: "ring_len h t < 4096"
  by (simp add: ring_len_def)

lemma ring_head: "h < 4096 \<Longrightarrow> t < 4096 \<Longrightarrow> (t + ring_len h t) mod 4096 = h"
  by (simp add: ring_len_if mod_if)

lemma ring_len_succ:
  assumes "h < 4096" "t < 4096" "(h + 1) mod 4096 \<noteq> t"
  shows "ring_len ((h + 1) mod 4096) t = ring_len h t + 1"
  using assms by (cases "h = 4095") (auto simp: ring_len_if)

lemma ring_len_full:
  assumes "h < 4096" "t < 4096" "(h + 1) mod 4096 = t"
  shows "ring_len h t = 4095" "ring_len t ((t + 1) mod 4096) = 4095"
  using assms by (cases "h = 4095"; cases "t = 4095"; force simp: ring_len_if)+

lemma ring_len_eq_0_iff: "h < 4096 \<Longrightarrow> t < 4096 \<Longrightarrow> ring_len h t = 0 \<longleftrightarrow> h = t"
  by (auto simp: ring_len_if)

lemma ring_len_tail:
  "h < 4096 \<Longrightarrow> t < 4096 \<Longrightarrow> h \<noteq> t \<Longrightarrow> ring_len h t = Suc (ring_len h ((t + 1) mod 4096))"
  by (cases "t = 4095") (auto simp: ring_len_if)

lemma length_ring_list [simp]: "length (ring_list r t n) = n"
  by (simp add: ring_list_def)

lemma ring_list_Suc:
  "ring_list r t (Suc n) = r ! (t mod 4096) # ring_list r ((t + 1) mod 4096) n"
proof -
  have "(t + Suc i) mod 4096 = ((t + 1) mod 4096 + i) mod 4096" for i by (simp add: mod_simps)
  then show ?thesis
    by (simp only: ring_list_def upt_conv_Cons [of 0 "Suc n"] zero_less_Suc map_Suc_upt [symmetric]
        list.map map_map comp_def) simp
qed

lemma ring_index_distinct:
  "t < 4096 \<Longrightarrow> i < n \<Longrightarrow> n < 4096 \<Longrightarrow> (t + i) mod 4096 \<noteq> (t + n) mod (4096 :: nat)"
  by (simp add: add_mod_if) linarith

lemma ring_list_update:
  assumes "n < 4096" "length r = 4096" "t < 4096"
  shows "ring_list (r[(t + n) mod 4096 := c]) t (Suc n) = ring_list r t n @ [c]"
proof -
  have "map (\<lambda>i. r[(t + n) mod 4096 := c] ! ((t + i) mod 4096)) [0..<n]
        = map (\<lambda>i. r ! ((t + i) mod 4096)) [0..<n]"
    using assms ring_index_distinct [of t _ n, THEN not_sym] by (intro map_cong) auto
  then show ?thesis using assms by (simp add: ring_list_def)
qed

section \<open>The ring buffer is a bounded log\<close>

text \<open>
  What a client of a bounded log relies on: putting a byte succeeds, keeps the invariant, and
  the contents become the last \<^verbatim>\<open>cap\<close> of the old contents followed by the byte.
\<close>

locale bounded_log =
  fixes inv :: "'s \<Rightarrow> bool" and contents :: "'s \<Rightarrow> 'b list"
    and put :: "'s \<Rightarrow> 'b \<Rightarrow> 's res" and cap :: nat
  assumes put_law: "inv s \<Longrightarrow> \<exists>s'. put s b = Inr s' \<and> inv s' \<and> contents s' = lastn cap (contents s @ [b])"
    and contents_le: "inv s \<Longrightarrow> length (contents s) \<le> cap"
begin

lemma puts_contents:
  "inv s \<Longrightarrow> \<exists>s'. res_fold put s bs = Inr s' \<and> inv s' \<and> contents s' = lastn cap (contents s @ bs)"
proof (induction bs arbitrary: s)
  case Nil
  then show ?case using contents_le by simp
next
  case (Cons b bs)
  obtain s' where s': "put s b = Inr s'" "inv s'" "contents s' = lastn cap (contents s @ [b])"
    using put_law Cons.prems by blast
  from Cons.IH [OF s'(2)] s' show ?case by (auto simp: lastn_append_lastn)
qed

end

lemma write_char_law:
  assumes "serial_ok s"
  shows "\<exists>s'. HdSerialWriteChar lsr s c = Inr s' \<and> serial_ok s'
           \<and> ring_contents s' = lastn 4095 (ring_contents s @ [c])"
proof -
  define h t where "h = unat (RingHead s)" and "t = unat (RingTail s)"
  have ok: "Initialized s" "length (RingBuffer s) = 4096" "h < 4096" "t < 4096"
    using assms by (simp_all add: serial_ok_def h_def t_def)
  define r where "r = (RingBuffer s)[h := c]"
  have wr: "mem_write (RingBuffer s) (unat (RingHead s)) [c] = Inr r"
    using ok by (simp add: mem_write_def r_def h_def upd_conv_take_nth_drop)
  have hd1: "unat ((RingHead s + 1) mod HD_SERIAL_BUF_SIZE) = (h + 1) mod 4096"
    using ok by (simp add: unat_succ_mod HD_SERIAL_BUF_SIZE_def h_def)
  have tl1: "unat ((RingTail s + 1) mod HD_SERIAL_BUF_SIZE) = (t + 1) mod 4096"
    using ok by (simp add: unat_succ_mod HD_SERIAL_BUF_SIZE_def t_def)
  have hr: "(t + ring_len h t) mod 4096 = h" using ok ring_head by simp
  have rl: "ring_list r t (Suc (ring_len h t)) = ring_contents s @ [c]"
    using ring_list_update [of "ring_len h t" "RingBuffer s" t c] ok hr
    by (simp add: r_def ring_contents_def h_def t_def)
  show ?thesis
  proof (cases "(h + 1) mod 4096 = t")
    case False
    then have "(RingHead s + 1) mod HD_SERIAL_BUF_SIZE \<noteq> RingTail s"
      using hd1 t_def by metis
    moreover have "length (ring_contents s @ [c]) \<le> 4095"
      using False ok ring_len_succ [of h t] ring_len_less [of "(h + 1) mod 4096" t] rl
      by (simp flip: rl)
    ultimately show ?thesis
      using ok wr hd1 rl False ring_len_succ [of h t]
      by (simp add: HdSerialWriteChar_def Let_def serial_ok_def ring_contents_def r_def
          flip: h_def t_def)
  next
    case True
    then have e: "(RingHead s + 1) mod HD_SERIAL_BUF_SIZE = RingTail s"
      using hd1 by (simp add: t_def word_unat_eq_iff)
    have f: "ring_len h t = 4095" "ring_len t ((t + 1) mod 4096) = 4095"
      using ring_len_full [OF ok(3,4) True] by simp_all
    then have "ring_list r ((t + 1) mod 4096) 4095 = drop 1 (ring_contents s @ [c])"
      using rl ring_list_Suc [of r t 4095] by (metis One_nat_def drop0 drop_Suc_Cons)
    moreover have "length (ring_contents s @ [c]) = 4096" using rl f by (simp flip: rl)
    ultimately have "lastn 4095 (ring_contents s @ [c]) = ring_list r ((t + 1) mod 4096) 4095"
      by (simp only: lastn_def) simp
    then show ?thesis
      using ok wr e tl1 f
      by (simp add: HdSerialWriteChar_def Let_def serial_ok_def ring_contents_def [of "_\<lparr>RingTail := _\<rparr>"] r_def
          flip: h_def t_def)
  qed
qed

interpretation serial_log: bounded_log serial_ok ring_contents "HdSerialWriteChar lsr" 4095
  by unfold_locales (use write_char_law in \<open>auto simp: ring_contents_def less_Suc_eq_le [symmetric]\<close>)

lemma write_string_loop_fold:
  "write_string_loop lsr s str = res_fold (HdSerialWriteChar lsr) s (takeWhile (\<lambda>c. c \<noteq> 0) str)"
  by (induction str arbitrary: s) simp_all

lemma HdSerialWriteString_contents:
  assumes "serial_ok s"
  shows "\<exists>s'. HdSerialWriteString lsr s str = Inr s' \<and> serial_ok s'
           \<and> ring_contents s' = lastn 4095 (ring_contents s @ takeWhile (\<lambda>c. c \<noteq> 0) str)"
  using serial_log.puts_contents [OF assms, of lsr "takeWhile (\<lambda>c. c \<noteq> 0) str"] assms
  by (simp add: HdSerialWriteString_def serial_ok_def write_string_loop_fold)

lemma HdSerialWriteStrings_contents:
  "serial_ok s \<Longrightarrow> \<exists>s'. res_fold (HdSerialWriteString lsr) s strs = Inr s' \<and> serial_ok s'
     \<and> ring_contents s' = lastn 4095 (ring_contents s @ concat (map (takeWhile (\<lambda>c. c \<noteq> 0)) strs))"
proof (induction strs arbitrary: s)
  case Nil
  then show ?case using serial_log.contents_le by simp
next
  case (Cons str strs)
  obtain s' where s': "HdSerialWriteString lsr s str = Inr s'" "serial_ok s'"
    "ring_contents s' = lastn 4095 (ring_contents s @ takeWhile (\<lambda>c. c \<noteq> 0) str)"
    using HdSerialWriteString_contents [OF Cons.prems] by blast
  from Cons.IH [OF s'(2)] s' show ?case by (auto simp: lastn_append_lastn)
qed

definition serial_banner :: "u8 list" where
  "serial_banner = bytes_of_string ''[HyperDisk] COM1 serial debug initialized'' @ [13, 10]"

lemma serial_banner_cstring: "takeWhile (\<lambda>c. c \<noteq> 0) serial_banner = serial_banner"
  by (simp add: serial_banner_def bytes_of_string_def)

lemma HdSerialInitialize_contents:
  assumes "length (RingBuffer s) = 4096"
  shows "\<exists>s'. HdSerialInitialize lsr s = Inr s' \<and> serial_ok s' \<and> ring_contents s' = serial_banner"
proof -
  define s1 where "s1 = s\<lparr>ComBase := HD_COM1_BASE, Initialized := True, RingHead := 0, RingTail := 0,
     sd_uart := WRITE_PORT_UCHAR (HD_COM1_BASE + 4) 0x0B
             (WRITE_PORT_UCHAR (HD_COM1_BASE + 2) 0xC7
             (WRITE_PORT_UCHAR (HD_COM1_BASE + 3) 0x03
             (WRITE_PORT_UCHAR (HD_COM1_BASE + 1) 0x00
             (WRITE_PORT_UCHAR (HD_COM1_BASE + 0) 0x01
             (WRITE_PORT_UCHAR (HD_COM1_BASE + 3) 0x80
             (WRITE_PORT_UCHAR (HD_COM1_BASE + 1) 0x00 (sd_uart s)))))))\<rparr>"
  have "serial_ok s1" "ring_contents s1 = []"
    using assms by (simp_all add: s1_def serial_ok_def ring_contents_def ring_list_def ring_len_def)
  moreover have "HdSerialInitialize lsr s = HdSerialWriteString lsr s1 serial_banner"
    by (simp add: HdSerialInitialize_def Let_def s1_def serial_banner_def)
  moreover have "length serial_banner \<le> 4095" by (simp add: serial_banner_def)
  ultimately show ?thesis
    using HdSerialWriteString_contents [of s1 lsr serial_banner] by (auto simp: serial_banner_cstring)
qed

section \<open>Polling and dumping\<close>

lemma wait_ready_ready:
  "k < timeout \<Longrightarrow> lsr (rd + k) AND 0x20 \<noteq> 0 \<Longrightarrow> (\<forall>j<k. lsr (rd + j) AND 0x20 = 0) \<Longrightarrow>
   wait_ready lsr rd timeout = (rd + Suc k, timeout - k)"
proof (induction k arbitrary: rd timeout)
  case 0
  then show ?case by (simp add: wait_ready.simps [of lsr rd])
next
  case (Suc k)
  then have "lsr rd AND 0x20 = 0" by force
  moreover have "\<forall>j<k. lsr (Suc rd + j) AND 0x20 = 0" using Suc.prems by auto
  ultimately show ?case
    using Suc.IH [of "timeout - 1" "Suc rd"] Suc.prems by (simp add: wait_ready.simps [of lsr rd])
qed

lemma wait_ready_timeout:
  "(\<forall>j<timeout. lsr (rd + j) AND 0x20 = 0) \<Longrightarrow>
   wait_ready lsr rd timeout = (rd + Suc timeout, 0)"
proof (induction timeout arbitrary: rd)
  case 0
  then show ?case by (simp add: wait_ready.simps [of lsr rd])
next
  case (Suc n)
  then have "lsr rd AND 0x20 = 0" by force
  moreover have "\<forall>j<n. lsr (Suc rd + j) AND 0x20 = 0" using Suc.prems by auto
  ultimately show ?case using Suc.IH [of "Suc rd"] by (simp add: wait_ready.simps [of lsr rd])
qed

lemma HdSerialWriteByte_always_ready:
  assumes "\<And>n. lsr n AND 0x20 \<noteq> 0"
  shows "HdSerialWriteByte lsr base b u =
           u\<lparr>port_reads := Suc (port_reads u), port_writes := port_writes u @ [(base, b)]\<rparr>"
  using assms by (simp add: HdSerialWriteByte_def wait_ready.simps [of lsr "port_reads u"] WRITE_PORT_UCHAR_def)

lemma dump_loop_fold:
  assumes "length ring = 4096" "unat head < 4096"
  shows "unat tail < 4096 \<Longrightarrow> n = ring_len (unat head) (unat tail) \<Longrightarrow>
   dump_loop lsr base ring tail head u =
     Some (Inr (fold (HdSerialWriteByte lsr base) (ring_list ring (unat tail) n) u))"
proof (induction n arbitrary: tail u)
  case 0
  then have "tail = head"
    using assms ring_len_eq_0_iff [of "unat head" "unat tail"] by (simp add: word_unat_eq_iff)
  then show ?case by (simp add: dump_loop.simps ring_list_def)
next
  case (Suc n)
  then have ne: "tail \<noteq> head" using ring_len_eq_0_iff [OF assms(2), of "unat head"] assms by auto
  have t1: "unat ((tail + 1) mod HD_SERIAL_BUF_SIZE) = (unat tail + 1) mod 4096"
    using Suc.prems by (simp add: unat_succ_mod HD_SERIAL_BUF_SIZE_def)
  have "n = ring_len (unat head) ((unat tail + 1) mod 4096)"
    using ring_len_tail [OF assms(2) Suc.prems(1)] ne Suc.prems(2) by (simp add: word_unat_eq_iff)
  moreover have "mem_read ring (unat tail) 1 = Inr [ring ! unat tail]"
    using Suc.prems assms by (simp add: take_Suc_conv_app_nth drop_take take_drop hd_drop_conv_nth take_Suc)
  ultimately show ?case
    using ne Suc.IH [of "(tail + 1) mod HD_SERIAL_BUF_SIZE" "HdSerialWriteByte lsr base (ring ! unat tail) u"]
      Suc.prems(1) t1
    by (subst dump_loop.simps) (simp add: ring_list_Suc)
qed

lemma fold_write_byte_ready:
  assumes "\<And>n. lsr n AND 0x20 \<noteq> 0"
  shows "port_writes (fold (HdSerialWriteByte lsr base) bs u) = port_writes u @ map (Pair base) bs"
  by (induction bs arbitrary: u) (simp_all add: HdSerialWriteByte_always_ready assms)

section \<open>Properties\<close>

text \<open>
  C20. After \<^verbatim>\<open>HdSerialInitialize\<close>, any sequence of \<^verbatim>\<open>HdSerialWriteString\<close> calls completes without
  an out-of-bounds access, whatever the UART answers, and the ring buffer then holds exactly the
  last 4095 bytes of the banner followed by the strings: a simulation of the ring by a list.
\<close>

theorem serial_ring_keeps_last_4095:
  assumes "length (RingBuffer s0) = 4096"
  shows "\<exists>s. rbind (HdSerialInitialize lsr s0) (\<lambda>s1. res_fold (HdSerialWriteString lsr) s1 strs) = Inr s
           \<and> serial_ok s
           \<and> ring_contents s = lastn 4095 (serial_banner @ concat (map (takeWhile (\<lambda>c. c \<noteq> 0)) strs))"
  using HdSerialInitialize_contents [OF assms, of lsr] HdSerialWriteStrings_contents [of _ lsr strs]
  by fastforce

theorem serial_ring_keeps_last_4095_witness:
  "\<exists>s. rbind (HdSerialInitialize (\<lambda>_. 0)
          \<lparr>ComBase = 0, Initialized = False, RingBuffer = replicate 4096 0, RingHead = 0, RingTail = 0,
           sd_uart = \<lparr>port_reads = 0, port_writes = []\<rparr>\<rparr>)
        (\<lambda>s1. res_fold (HdSerialWriteString (\<lambda>_. 0)) s1 [[65, 66], [67, 0, 68]]) = Inr s
     \<and> serial_ok s \<and> ring_contents s = lastn 4095 (serial_banner @ [65, 66, 67])"
  using serial_ring_keeps_last_4095 [of "\<lparr>ComBase = 0, Initialized = False, RingBuffer = replicate 4096 0,
     RingHead = 0, RingTail = 0, sd_uart = \<lparr>port_reads = 0, port_writes = []\<rparr>\<rparr>" "\<lambda>_. 0" "[[65, 66], [67, 0, 68]]"]
  by simp

text \<open>
  \<^verbatim>\<open>HdSerialDumpRingBuffer\<close> terminates from every state the log can be in, and, with a
  transmitter that is always ready, sends exactly the buffered bytes, oldest first, to the data
  port, leaving the log itself as it was.
\<close>

theorem serial_dump_sends_contents:
  assumes "serial_ok s" and "\<And>n. lsr n AND 0x20 \<noteq> 0"
  shows "\<exists>u. HdSerialDumpRingBuffer lsr s = Some (Inr (s\<lparr>sd_uart := u\<rparr>))
           \<and> port_writes u = port_writes (sd_uart s) @ map (Pair (ComBase s)) (ring_contents s)"
proof -
  have "dump_loop lsr (ComBase s) (RingBuffer s) (RingTail s) (RingHead s) (sd_uart s)
        = Some (Inr (fold (HdSerialWriteByte lsr (ComBase s)) (ring_contents s) (sd_uart s)))"
    using assms(1) unfolding ring_contents_def by (intro dump_loop_fold) (simp_all add: serial_ok_def)
  then have "HdSerialDumpRingBuffer lsr s = Some (Inr (s\<lparr>sd_uart :=
      fold (HdSerialWriteByte lsr (ComBase s)) (ring_contents s) (sd_uart s)\<rparr>))"
    using assms(1) by (simp add: HdSerialDumpRingBuffer_def serial_ok_def)
  then show ?thesis using fold_write_byte_ready [of lsr "ComBase s", OF assms(2)] by blast
qed

theorem serial_dump_sends_contents_witness:
  "\<exists>u. HdSerialDumpRingBuffer (\<lambda>_. 0x60)
          \<lparr>ComBase = 0x3F8, Initialized = True, RingBuffer = replicate 4094 0 @ [7, 8], RingHead = 0,
           RingTail = 4094, sd_uart = \<lparr>port_reads = 0, port_writes = []\<rparr>\<rparr>
       = Some (Inr \<lparr>ComBase = 0x3F8, Initialized = True, RingBuffer = replicate 4094 0 @ [7, 8],
           RingHead = 0, RingTail = 4094, sd_uart = u\<rparr>)
     \<and> port_writes u = [(0x3F8, 7), (0x3F8, 8)]"
  using serial_dump_sends_contents [of "\<lparr>ComBase = 0x3F8, Initialized = True,
      RingBuffer = replicate 4094 0 @ [7, 8], RingHead = 0, RingTail = 4094,
      sd_uart = \<lparr>port_reads = 0, port_writes = []\<rparr>\<rparr>" "\<lambda>_. 0x60"]
  by (simp add: serial_ok_def ring_contents_def ring_list_def ring_len_def nth_append upt_rec)

text \<open>
  Writing a byte to the UART polls at most 100001 times and sends the byte, exactly once, if
  and only if the transmitter was ready at one of the first 100000 polls; otherwise nothing is
  written and the byte is dropped.
\<close>

theorem serial_write_byte_bounded:
  "port_reads (HdSerialWriteByte lsr base b u) \<le> port_reads u + 100001
   \<and> port_writes (HdSerialWriteByte lsr base b u) =
       (if \<exists>k<100000. lsr (port_reads u + k) AND 0x20 \<noteq> 0
        then port_writes u @ [(base, b)] else port_writes u)"
proof (cases "\<exists>k<100000. lsr (port_reads u + k) AND 0x20 \<noteq> 0")
  case True
  define k where "k = (LEAST k. lsr (port_reads u + k) AND 0x20 \<noteq> 0)"
  obtain k0 where k0: "k0 < 100000" "lsr (port_reads u + k0) AND 0x20 \<noteq> 0" using True by blast
  have k: "lsr (port_reads u + k) AND 0x20 \<noteq> 0" "k \<le> k0" "\<forall>j<k. lsr (port_reads u + j) AND 0x20 = 0"
    unfolding k_def
    using LeastI [of "\<lambda>k. lsr (port_reads u + k) AND 0x20 \<noteq> 0", OF k0(2)]
      Least_le [of "\<lambda>k. lsr (port_reads u + k) AND 0x20 \<noteq> 0", OF k0(2)]
      not_less_Least [of _ "\<lambda>k. lsr (port_reads u + k) AND 0x20 \<noteq> 0"] by auto
  then have "wait_ready lsr (port_reads u) 100000 = (port_reads u + Suc k, 100000 - k)"
    using k0(1) by (intro wait_ready_ready) auto
  with True k k0(1) show ?thesis by (simp add: HdSerialWriteByte_def WRITE_PORT_UCHAR_def)
next
  case False
  then have "wait_ready lsr (port_reads u) 100000 = (port_reads u + Suc 100000, 0)"
    by (intro wait_ready_timeout) auto
  with False show ?thesis by (simp add: HdSerialWriteByte_def)
qed

end
