(* ===== verification/HD_Net.thy ===== *)
theory HD_Net
  imports HD_FrameLayout
begin

text \<open>
  The network driver, \<^verbatim>\<open>driver/net\<close>: the table of 64 connections of \<^verbatim>\<open>net_connect.c\<close> and
  \<^verbatim>\<open>net_driver.c\<close>, the frame serialisation of \<^verbatim>\<open>net_frame.c\<close>, and the request and heartbeat
  builders of \<^verbatim>\<open>net_wsk.c\<close> and \<^verbatim>\<open>net_heartbeat.c\<close>. Nothing in this driver sends a frame; the
  builders fill in a header that is local to them, so the model also returns that header.
  Each operation holds \<^verbatim>\<open>ConnectionLock\<close> for its whole effect and is one atomic step.
\<close>

section \<open>State\<close>

definition HD_MAGIC :: u32 where "HD_MAGIC = 0x48444B31"
definition HD_VERSION :: u16 where "HD_VERSION = 0x0001"
definition HD_NET_MAX_CONNECTIONS :: u32 where "HD_NET_MAX_CONNECTIONS = 64"
definition HD_NET_FRAME_HDR_SIZE :: u32 where "HD_NET_FRAME_HDR_SIZE = 32"
definition AF_INET :: u16 where "AF_INET = 2"

record SOCKADDR_IN =
  sin_family :: u16
  sin_port :: u16
  sin_addr :: u32

record HD_NET_CONNECTION =
  IsActive :: bool
  ServerAddr :: SOCKADDR_IN
  RetryCount :: u32
  ConnectEvent :: bool
  SendEvent :: bool
  RecvEvent :: bool

record HD_NET_EXTENSION =
  ConnectionCount :: u32
  Connections :: "HD_NET_CONNECTION list"
  NextFrameId :: u32

record HD_BLOCK_REQUEST =
  br_ImageId :: u64
  br_BlockOffset :: u64
  br_BlockCount :: u32
  br_LayerId :: u8
  br_IsWrite :: u8

type_synonym HD_NET_FRAME_HEADER = frame_fields

definition zero_connection :: HD_NET_CONNECTION where
  "zero_connection = \<lparr>IsActive = False, ServerAddr = \<lparr>sin_family = 0, sin_port = 0, sin_addr = 0\<rparr>,
     RetryCount = 0, ConnectEvent = False, SendEvent = False, RecvEvent = False\<rparr>"

definition zero_header :: HD_NET_FRAME_HEADER where
  "zero_header = \<lparr>fh_magic = 0, fh_version = 0, fh_opcode = 0, fh_flags = 0, fh_request_id = 0,
     fh_payload_len = 0, fh_image_id = 0, fh_block_offset = 0, fh_block_count = 0, fh_layer_id = 0,
     fh_reserved0 = 0, fh_reserved1 = 0, fh_reserved2 = 0\<rparr>"

section \<open>The connection table\<close>

definition HdNetInitialize :: "HD_NET_EXTENSION \<Rightarrow> NTSTATUS \<times> HD_NET_EXTENSION" where
  "HdNetInitialize ext =
     (STATUS_SUCCESS,
      \<lparr>ConnectionCount = 0, Connections = replicate (unat HD_NET_MAX_CONNECTIONS) zero_connection,
       NextFrameId = 1\<rparr>)"

definition RtlUshortByteSwap :: "u16 \<Rightarrow> u16" where
  "RtlUshortByteSwap x = push_bit 8 x OR drop_bit 8 x"

text \<open>What the body of the loop in \<^verbatim>\<open>HdNetConnect\<close> makes of the slot it takes.\<close>

definition open_slot :: "u16 \<Rightarrow> HD_NET_CONNECTION \<Rightarrow> HD_NET_CONNECTION" where
  "open_slot port c =
     c\<lparr>IsActive := True, RetryCount := 0,
       ServerAddr := (ServerAddr c)\<lparr>sin_family := AF_INET, sin_port := RtlUshortByteSwap port, sin_addr := 0\<rparr>,
       ConnectEvent := False, SendEvent := False, RecvEvent := False\<rparr>"

function connect_loop ::
  "u16 \<Rightarrow> HD_NET_EXTENSION \<Rightarrow> u32 \<Rightarrow> nat \<Rightarrow> bool \<times> HD_NET_EXTENSION \<times> u32" where
  "connect_loop port ext conn_idx i =
     (if i < unat HD_NET_MAX_CONNECTIONS
      then if \<not> IsActive (Connections ext ! i)
           then (True, ext\<lparr>Connections := (Connections ext)[i := open_slot port (Connections ext ! i)],
                           ConnectionCount := ConnectionCount ext + 1\<rparr>, of_nat i)
           else connect_loop port ext conn_idx (Suc i)
      else (False, ext, conn_idx))"
  by pat_completeness auto
termination by (relation "measure (\<lambda>(_, _, _, i). unat HD_NET_MAX_CONNECTIONS - i)") auto

declare connect_loop.simps [simp del]

text \<open>The address string is not used by the code; only the port is.\<close>

definition HdNetConnect ::
  "HD_NET_EXTENSION \<Rightarrow> string \<Rightarrow> u16 \<Rightarrow> u32 \<Rightarrow> NTSTATUS \<times> HD_NET_EXTENSION \<times> u32" where
  "HdNetConnect ext server_addr port conn_idx =
     (let (found, ext', idx) = connect_loop port ext conn_idx 0
      in (if found then STATUS_SUCCESS else STATUS_INSUFFICIENT_RESOURCES, ext', idx))"

definition HdNetDisconnect :: "HD_NET_EXTENSION \<Rightarrow> u32 \<Rightarrow> NTSTATUS \<times> HD_NET_EXTENSION" where
  "HdNetDisconnect ext conn_idx =
     (if HD_NET_MAX_CONNECTIONS \<le> conn_idx then (STATUS_INVALID_PARAMETER, ext)
      else (STATUS_SUCCESS,
            ext\<lparr>Connections := (Connections ext)[unat conn_idx :=
                                  (Connections ext ! unat conn_idx)\<lparr>IsActive := False\<rparr>],
                ConnectionCount := ConnectionCount ext - 1\<rparr>))"

function cleanup_loop :: "HD_NET_EXTENSION \<Rightarrow> nat \<Rightarrow> HD_NET_EXTENSION" where
  "cleanup_loop ext i =
     (if i < unat HD_NET_MAX_CONNECTIONS
      then cleanup_loop (if IsActive (Connections ext ! i) then snd (HdNetDisconnect ext (of_nat i)) else ext)
             (Suc i)
      else ext)"
  by pat_completeness auto
termination by (relation "measure (\<lambda>(_, i). unat HD_NET_MAX_CONNECTIONS - i)") auto

declare cleanup_loop.simps [simp del]

definition HdNetCleanup :: "HD_NET_EXTENSION \<Rightarrow> HD_NET_EXTENSION" where
  "HdNetCleanup ext = cleanup_loop ext 0"

section \<open>Requests\<close>

definition conn_usable :: "HD_NET_EXTENSION \<Rightarrow> u32 \<Rightarrow> bool" where
  "conn_usable ext conn_idx \<longleftrightarrow>
     \<not> (HD_NET_MAX_CONNECTIONS \<le> conn_idx \<or> \<not> IsActive (Connections ext ! unat conn_idx))"

text \<open>\<^verbatim>\<open>InterlockedIncrement\<close> returns the incremented value.\<close>

definition HdNetSendBlockRequest ::
  "HD_NET_EXTENSION \<Rightarrow> u32 \<Rightarrow> HD_BLOCK_REQUEST \<Rightarrow> u32
   \<Rightarrow> NTSTATUS \<times> HD_NET_EXTENSION \<times> HD_NET_FRAME_HEADER option" where
  "HdNetSendBlockRequest ext conn_idx req data_len =
     (if \<not> conn_usable ext conn_idx then (STATUS_INVALID_PARAMETER, ext, None)
      else let frameId = NextFrameId ext + 1 in
        (STATUS_SUCCESS, ext\<lparr>NextFrameId := frameId\<rparr>,
         Some (zero_header\<lparr>fh_magic := HD_MAGIC, fh_version := HD_VERSION,
                 fh_opcode := (if br_IsWrite req \<noteq> 0 then 0x03 else 0x01), fh_request_id := frameId,
                 fh_image_id := br_ImageId req, fh_block_offset := br_BlockOffset req,
                 fh_block_count := br_BlockCount req, fh_layer_id := br_LayerId req,
                 fh_payload_len := data_len\<rparr>)))"

definition HdNetRecvBlockResponse :: "HD_NET_EXTENSION \<Rightarrow> u32 \<Rightarrow> NTSTATUS" where
  "HdNetRecvBlockResponse ext conn_idx =
     (if \<not> conn_usable ext conn_idx then STATUS_INVALID_PARAMETER else STATUS_SUCCESS)"

definition HdNetSendHeartbeat ::
  "HD_NET_EXTENSION \<Rightarrow> u32 \<Rightarrow> u64 \<Rightarrow> NTSTATUS \<times> HD_NET_EXTENSION \<times> HD_NET_FRAME_HEADER option" where
  "HdNetSendHeartbeat ext conn_idx terminal_id =
     (if \<not> conn_usable ext conn_idx then (STATUS_INVALID_PARAMETER, ext, None)
      else let frameId = NextFrameId ext + 1 in
        (STATUS_SUCCESS, ext\<lparr>NextFrameId := frameId\<rparr>,
         Some (zero_header\<lparr>fh_magic := HD_MAGIC, fh_version := HD_VERSION, fh_opcode := 0x10,
                 fh_request_id := frameId, fh_image_id := terminal_id, fh_payload_len := 0\<rparr>)))"

section \<open>Frames\<close>

text \<open>
  Pointers that may be null are options; a frame buffer is the memory behind the pointer.
  \<^verbatim>\<open>HdNetSerializeFrame\<close> returns the status, the output buffer and \<^verbatim>\<open>*OutLen\<close>.
\<close>

definition HdNetSerializeFrame ::
  "HD_NET_FRAME_HEADER option \<Rightarrow> u8 list option \<Rightarrow> u8 list option \<Rightarrow> u32 option
   \<Rightarrow> (NTSTATUS \<times> u8 list option \<times> u32 option) res" where
  "HdNetSerializeFrame header payload out_frame out_len =
     (case (header, out_frame, out_len) of
        (Some hdr, Some out, Some _) \<Rightarrow>
          (let total_len = HD_NET_FRAME_HDR_SIZE + fh_payload_len hdr in
           rbind (mem_write out 0 (take (unat HD_NET_FRAME_HDR_SIZE) (frame_bytes hdr))) (\<lambda>out1.
           rbind (case payload of
                    Some p \<Rightarrow>
                      (if 0 < fh_payload_len hdr
                       then rbind (mem_read p 0 (unat (fh_payload_len hdr)))
                              (\<lambda>src. mem_write out1 (unat HD_NET_FRAME_HDR_SIZE) src)
                       else Inr out1)
                  | None \<Rightarrow> Inr out1) (\<lambda>out2.
           Inr (STATUS_SUCCESS, Some out2, Some total_len))))
      | _ \<Rightarrow> Inr (STATUS_INVALID_PARAMETER, out_frame, out_len))"

text \<open>
  Copying 32 bytes over a header replaces its members up to \<^verbatim>\<open>BlockOffset\<close> and keeps the rest.
\<close>

definition copy_header32 :: "HD_NET_FRAME_HEADER \<Rightarrow> u8 list \<Rightarrow> HD_NET_FRAME_HEADER" where
  "copy_header32 hdr bs = frame_of_bytes (take 32 bs @ drop 32 (frame_bytes hdr))"

definition HdNetDeserializeFrame ::
  "u8 list option \<Rightarrow> u32 \<Rightarrow> HD_NET_FRAME_HEADER option \<Rightarrow> u8 list option \<Rightarrow> u32 option
   \<Rightarrow> (NTSTATUS \<times> HD_NET_FRAME_HEADER option \<times> u8 list option \<times> u32 option) res" where
  "HdNetDeserializeFrame frame frame_len header payload payload_len =
     (case (frame, header) of
        (Some fr, Some hdr) \<Rightarrow>
          (if frame_len < HD_NET_FRAME_HDR_SIZE
           then Inr (STATUS_INVALID_PARAMETER, header, payload, payload_len)
           else rbind (mem_read fr 0 (unat HD_NET_FRAME_HDR_SIZE)) (\<lambda>hb.
             let magic = le_word 4 hb; version = le_word 2 (drop 4 hb); plen = le_word 4 (drop 12 hb) in
             if magic \<noteq> HD_MAGIC then Inr (STATUS_DATA_NOT_ACCEPTED, header, payload, payload_len)
             else if version \<noteq> HD_VERSION then Inr (STATUS_REVISION_MISMATCH, header, payload, payload_len)
             else let hdr' = copy_header32 hdr hb in
             (case (payload, payload_len) of
                (Some p, Some _) \<Rightarrow>
                  (if 0 < plen
                   then let copy_len = (if frame_len - HD_NET_FRAME_HDR_SIZE < plen
                                        then frame_len - HD_NET_FRAME_HDR_SIZE else plen) in
                        rbind (mem_read fr (unat HD_NET_FRAME_HDR_SIZE) (unat copy_len)) (\<lambda>src.
                        rbind (mem_write p 0 src) (\<lambda>p'.
                        Inr (STATUS_SUCCESS, Some hdr', Some p', Some copy_len)))
                   else Inr (STATUS_SUCCESS, Some hdr', payload, payload_len))
              | _ \<Rightarrow> Inr (STATUS_SUCCESS, Some hdr', payload, payload_len))))
      | _ \<Rightarrow> Inr (STATUS_INVALID_PARAMETER, header, payload, payload_len))"

section \<open>Invariant\<close>

definition used_slots :: "HD_NET_EXTENSION \<Rightarrow> nat set" where
  "used_slots ext = {i. i < length (Connections ext) \<and> IsActive (Connections ext ! i)}"

definition net_ok :: "HD_NET_EXTENSION \<Rightarrow> bool" where
  "net_ok ext \<longleftrightarrow> length (Connections ext) = 64 \<and> unat (ConnectionCount ext) = card (used_slots ext)"

lemma net_consts [simp]:
  "unat HD_NET_MAX_CONNECTIONS = 64" "HD_NET_MAX_CONNECTIONS = 64"
  "unat HD_NET_FRAME_HDR_SIZE = 32" "HD_NET_FRAME_HDR_SIZE = 32"
  by (simp_all add: HD_NET_MAX_CONNECTIONS_def HD_NET_FRAME_HDR_SIZE_def)

lemma used_slots_subset: "net_ok ext \<Longrightarrow> used_slots ext \<subseteq> {..<64}"
  by (auto simp: net_ok_def used_slots_def)

lemma finite_used_slots [simp]: "finite (used_slots ext)"
  by (simp add: used_slots_def)

lemma card_used_slots: "net_ok ext \<Longrightarrow> card (used_slots ext) \<le> 64"
  using card_mono [OF finite_lessThan used_slots_subset] by simp

lemma used_slots_update:
  assumes "i < length (Connections ext)"
  shows "used_slots (ext\<lparr>Connections := (Connections ext)[i := c], ConnectionCount := n\<rparr>)
           = (if IsActive c then insert i (used_slots ext) else used_slots ext - {i})"
  using assms by (auto simp: used_slots_def nth_list_update)

lemma IsActive_open_slot [simp]: "IsActive (open_slot port c)"
  by (simp add: open_slot_def)

lemma unat_of_nat_slot: "i < 64 \<Longrightarrow> unat (of_nat i :: u32) = i"
  by (simp add: unat_of_nat take_bit_nat_eq_self)

subsection \<open>Connecting\<close>

lemma connect_loop_full:
  "(\<And>k. i \<le> k \<Longrightarrow> k < 64 \<Longrightarrow> IsActive (Connections ext ! k)) \<Longrightarrow>
   connect_loop port ext d i = (False, ext, d)"
  by (induction port ext d i rule: connect_loop.induct) (subst connect_loop.simps, auto)

lemma connect_loop_found:
  "i \<le> j \<Longrightarrow> j < 64 \<Longrightarrow> \<not> IsActive (Connections ext ! j) \<Longrightarrow>
   (\<And>k. i \<le> k \<Longrightarrow> k < j \<Longrightarrow> IsActive (Connections ext ! k)) \<Longrightarrow>
   connect_loop port ext d i =
     (True, ext\<lparr>Connections := (Connections ext)[j := open_slot port (Connections ext ! j)],
                ConnectionCount := ConnectionCount ext + 1\<rparr>, of_nat j)"
proof (induction port ext d i rule: connect_loop.induct)
  case (1 port ext d i)
  show ?case
  proof (cases "i = j")
    case True
    then show ?thesis using 1 by (subst connect_loop.simps) simp
  next
    case False
    then have "IsActive (Connections ext ! i)" "i < 64" using 1 by auto
    then show ?thesis using 1 False by (subst connect_loop.simps) simp
  qed
qed

lemma HdNetConnect_full:
  "net_ok ext \<Longrightarrow> used_slots ext = {..<64} \<Longrightarrow>
   HdNetConnect ext addr port d = (STATUS_INSUFFICIENT_RESOURCES, ext, d)"
  by (subgoal_tac "connect_loop port ext d 0 = (False, ext, d)")
     (auto simp: HdNetConnect_def used_slots_def intro!: connect_loop_full)

lemma first_free_slot:
  assumes "net_ok ext" "used_slots ext \<noteq> {..<64}"
  obtains j where "j < 64" "j \<notin> used_slots ext" "\<And>k. k < j \<Longrightarrow> k \<in> used_slots ext"
proof -
  let ?P = "\<lambda>j. j < 64 \<and> j \<notin> used_slots ext"
  have "\<exists>j. ?P j" using assms used_slots_subset by blast
  then have "?P (LEAST j. ?P j)" by (rule LeastI_ex)
  moreover have "k \<in> used_slots ext" if "k < (LEAST j. ?P j)" for k
    using that not_less_Least [of k ?P] calculation by auto
  ultimately show thesis using that by blast
qed

lemma HdNetConnect_free:
  assumes ok: "net_ok ext" and j: "j < 64" "j \<notin> used_slots ext" "\<And>k. k < j \<Longrightarrow> k \<in> used_slots ext"
  shows "HdNetConnect ext addr port d =
     (STATUS_SUCCESS, ext\<lparr>Connections := (Connections ext)[j := open_slot port (Connections ext ! j)],
                          ConnectionCount := ConnectionCount ext + 1\<rparr>, of_nat j)"
proof -
  have "connect_loop port ext d 0 =
     (True, ext\<lparr>Connections := (Connections ext)[j := open_slot port (Connections ext ! j)],
                ConnectionCount := ConnectionCount ext + 1\<rparr>, of_nat j)"
    using ok j by (intro connect_loop_found) (auto simp: used_slots_def net_ok_def)
  then show ?thesis by (simp add: HdNetConnect_def)
qed

lemma net_ok_open:
  assumes ok: "net_ok ext" and j: "j < 64" "j \<notin> used_slots ext"
  shows "net_ok (ext\<lparr>Connections := (Connections ext)[j := open_slot port c],
                     ConnectionCount := ConnectionCount ext + 1\<rparr>)"
proof -
  have "unat (ConnectionCount ext) \<le> 64" using card_used_slots [OF ok] ok by (simp add: net_ok_def)
  then have "unat (ConnectionCount ext + 1) = Suc (unat (ConnectionCount ext))"
    by (simp add: unat_word_ariths)
  then show ?thesis using ok j by (simp add: net_ok_def used_slots_update)
qed

subsection \<open>Disconnecting\<close>

lemma HdNetDisconnect_active:
  assumes ok: "net_ok ext" and i: "i \<in> used_slots ext"
  shows "fst (HdNetDisconnect ext (of_nat i)) = STATUS_SUCCESS"
    "net_ok (snd (HdNetDisconnect ext (of_nat i)))"
    "used_slots (snd (HdNetDisconnect ext (of_nat i))) = used_slots ext - {i}"
proof -
  have i64: "i < 64" using used_slots_subset [OF ok] i by auto
  then have lt: "\<not> 64 \<le> (of_nat i :: u32)" by (simp add: word_le_nat_alt unat_of_nat_slot)
  then show "fst (HdNetDisconnect ext (of_nat i)) = STATUS_SUCCESS" by (simp add: HdNetDisconnect_def)
  show u: "used_slots (snd (HdNetDisconnect ext (of_nat i))) = used_slots ext - {i}"
    using lt i64 ok by (simp add: HdNetDisconnect_def unat_of_nat_slot used_slots_update net_ok_def)
  have "0 < card (used_slots ext)" using i by (auto simp: card_gt_0_iff)
  then have "0 < unat (ConnectionCount ext)" using ok by (simp add: net_ok_def)
  then have "unat (ConnectionCount ext - 1) = unat (ConnectionCount ext) - 1"
    by (simp add: unat_sub word_le_nat_alt)
  then show "net_ok (snd (HdNetDisconnect ext (of_nat i)))"
    using lt i64 ok i
    by (simp add: HdNetDisconnect_def unat_of_nat_slot used_slots_update net_ok_def card_Diff_singleton)
qed

subsection \<open>The table as an allocator of slots\<close>

text \<open>
  The contract of a table of slots: allocation takes a slot that is not in use and fails only
  when every slot is, and releasing a slot in use frees it and nothing else.
\<close>

primrec alloc_many :: "('a \<Rightarrow> 's \<Rightarrow> ('s \<times> nat) option) \<Rightarrow> 'a list \<Rightarrow> 's \<Rightarrow> ('s \<times> nat list) option" where
  "alloc_many alloc [] s = Some (s, [])"
| "alloc_many alloc (a # as) s =
     (case alloc a s of None \<Rightarrow> None
      | Some (s1, i) \<Rightarrow> map_option (\<lambda>(s', is). (s', i # is)) (alloc_many alloc as s1))"

locale slot_table =
  fixes inv :: "'s \<Rightarrow> bool" and used :: "'s \<Rightarrow> nat set" and cap :: nat
    and alloc :: "'a \<Rightarrow> 's \<Rightarrow> ('s \<times> nat) option" and release :: "nat \<Rightarrow> 's \<Rightarrow> 's"
  assumes used_bound: "inv s \<Longrightarrow> used s \<subseteq> {..<cap}"
    and alloc_free: "inv s \<Longrightarrow> used s \<noteq> {..<cap} \<Longrightarrow>
       \<exists>s' i. alloc a s = Some (s', i) \<and> inv s' \<and> i \<notin> used s \<and> used s' = insert i (used s)"
    and alloc_full: "inv s \<Longrightarrow> used s = {..<cap} \<Longrightarrow> alloc a s = None"
    and release_used: "inv s \<Longrightarrow> i \<in> used s \<Longrightarrow> inv (release i s) \<and> used (release i s) = used s - {i}"
begin

lemma finite_used: "inv s \<Longrightarrow> finite (used s)"
  using used_bound finite_subset by blast

lemma card_used: "inv s \<Longrightarrow> card (used s) \<le> cap"
  using card_mono [OF finite_lessThan used_bound, of s] by simp

lemma full_iff: "inv s \<Longrightarrow> used s = {..<cap} \<longleftrightarrow> card (used s) = cap"
  by (metis card_lessThan card_subset_eq finite_lessThan used_bound)

lemma alloc_many_ok:
  "inv s \<Longrightarrow> card (used s) + length as \<le> cap \<Longrightarrow>
   \<exists>s' is. alloc_many alloc as s = Some (s', is) \<and> inv s' \<and> distinct is \<and> length is = length as
     \<and> set is \<inter> used s = {} \<and> used s' = used s \<union> set is"
proof (induction as arbitrary: s)
  case (Cons a as)
  then have "used s \<noteq> {..<cap}" using full_iff [of s] by simp
  then obtain s1 i where s1: "alloc a s = Some (s1, i)" "inv s1" "i \<notin> used s" "used s1 = insert i (used s)"
    using alloc_free Cons.prems by blast
  then have "card (used s1) + length as \<le> cap" using Cons.prems finite_used by simp
  with Cons.IH [OF s1(2)] obtain s' "is" where
    "alloc_many alloc as s1 = Some (s', is)" "inv s'" "distinct is" "length is = length as"
    "set is \<inter> used s1 = {}" "used s' = used s1 \<union> set is" by blast
  with s1 show ?case by simp
qed simp

lemma alloc_many_exhausts:
  assumes "inv s" "card (used s) + length as = cap"
  shows "\<exists>s' is. alloc_many alloc as s = Some (s', is) \<and> alloc a s' = None"
proof -
  obtain s' "is" where r: "alloc_many alloc as s = Some (s', is)" "inv s'" "distinct is"
    "length is = length as" "set is \<inter> used s = {}" "used s' = used s \<union> set is"
    using alloc_many_ok [OF assms(1), of as] assms(2) by auto
  then have "card (used s') = cap"
    using assms finite_used by (simp add: card_Un_disjoint distinct_card Int_commute)
  then have "alloc a s' = None" using alloc_full [OF r(2)] full_iff [OF r(2)] by blast
  then show ?thesis using r(1) by blast
qed

lemma release_then_alloc:
  assumes "inv s" "i \<in> used s"
  shows "\<exists>s' j. alloc a (release i s) = Some (s', j) \<and> inv s'"
proof -
  have r: "inv (release i s)" "used (release i s) = used s - {i}" using release_used [OF assms] by simp_all
  then have "used (release i s) \<noteq> {..<cap}" using assms(2) used_bound [OF assms(1)] by auto
  then show ?thesis using alloc_free [OF r(1)] by blast
qed

end

definition net_alloc :: "u16 \<Rightarrow> HD_NET_EXTENSION \<Rightarrow> (HD_NET_EXTENSION \<times> nat) option" where
  "net_alloc port ext =
     (case HdNetConnect ext [] port 0 of
        (st, ext', idx) \<Rightarrow> if NT_SUCCESS st then Some (ext', unat idx) else None)"

lemma net_alloc_free:
  assumes ok: "net_ok ext" and free: "used_slots ext \<noteq> {..<64}"
  shows "\<exists>ext' i. net_alloc port ext = Some (ext', i) \<and> net_ok ext' \<and> i \<notin> used_slots ext
           \<and> used_slots ext' = insert i (used_slots ext)"
proof -
  obtain j where j: "j < 64" "j \<notin> used_slots ext" "\<And>k. k < j \<Longrightarrow> k \<in> used_slots ext"
    using first_free_slot [OF ok free] by blast
  have "j < length (Connections ext)" using ok j by (simp add: net_ok_def)
  then show ?thesis
    using HdNetConnect_free [OF ok j, of "[]" port 0] net_ok_open [OF ok j(1,2), of port] j
    by (simp add: net_alloc_def unat_of_nat_slot used_slots_update)
qed

interpretation net_table: slot_table net_ok used_slots 64 net_alloc
  "\<lambda>i ext. snd (HdNetDisconnect ext (of_nat i))"
proof unfold_locales
  fix ext :: HD_NET_EXTENSION and port i
  assume ok: "net_ok ext"
  show "used_slots ext \<subseteq> {..<64}" using used_slots_subset [OF ok] .
  show "used_slots ext \<noteq> {..<64} \<Longrightarrow> \<exists>s' i. net_alloc port ext = Some (s', i) \<and> net_ok s'
          \<and> i \<notin> used_slots ext \<and> used_slots s' = insert i (used_slots ext)"
    using net_alloc_free [OF ok] by simp
  show "used_slots ext = {..<64} \<Longrightarrow> net_alloc port ext = None"
    using HdNetConnect_full [OF ok] by (simp add: net_alloc_def)
  show "i \<in> used_slots ext \<Longrightarrow> net_ok (snd (HdNetDisconnect ext (of_nat i)))
          \<and> used_slots (snd (HdNetDisconnect ext (of_nat i))) = used_slots ext - {i}"
    using HdNetDisconnect_active [OF ok] by simp
qed

lemma net_ok_init [simp]: "net_ok (snd (HdNetInitialize ext))" "used_slots (snd (HdNetInitialize ext)) = {}"
  by (simp_all add: HdNetInitialize_def net_ok_def used_slots_def zero_connection_def)

subsection \<open>Cleaning up\<close>

lemma cleanup_loop_ok:
  "net_ok ext \<Longrightarrow> net_ok (cleanup_loop ext i) \<and> used_slots (cleanup_loop ext i) = used_slots ext \<inter> {..<i}"
proof (induction ext i rule: cleanup_loop.induct)
  case (1 ext i)
  show ?case
  proof (cases "i < 64")
    case True
    define ext1 where
      "ext1 = (if IsActive (Connections ext ! i) then snd (HdNetDisconnect ext (of_nat i)) else ext)"
    have u: "IsActive (Connections ext ! i) \<longleftrightarrow> i \<in> used_slots ext"
      using True 1(2) by (simp add: used_slots_def net_ok_def)
    have e: "net_ok ext1" "used_slots ext1 = used_slots ext - {i}"
      using HdNetDisconnect_active [OF 1(2)] u 1(2) by (simp_all add: ext1_def)
    have "net_ok (cleanup_loop ext1 (Suc i))
        \<and> used_slots (cleanup_loop ext1 (Suc i)) = used_slots ext1 \<inter> {..<Suc i}"
      using 1(1) [folded ext1_def] True e(1) by simp
    moreover have "cleanup_loop ext i = cleanup_loop ext1 (Suc i)"
      using True by (subst cleanup_loop.simps) (simp add: ext1_def)
    moreover have "(used_slots ext - {i}) \<inter> {..<Suc i} = used_slots ext \<inter> {..<i}"
      by (auto simp: less_Suc_eq)
    ultimately show ?thesis using e(2) by simp
  next
    case False
    then have "cleanup_loop ext i = ext" by (subst cleanup_loop.simps) simp
    then show ?thesis using 1(2) used_slots_subset [OF 1(2)] False by auto
  qed
qed

lemma HdNetCleanup_ok:
  "net_ok ext \<Longrightarrow> net_ok (HdNetCleanup ext)" "net_ok ext \<Longrightarrow> used_slots (HdNetCleanup ext) = {}"
  using cleanup_loop_ok [of ext 0] by (simp_all add: HdNetCleanup_def)

subsection \<open>Sequences of operations\<close>

text \<open>
  The operations a client of the driver can interleave; each runs under the lock. A client closes
  only connections it holds, which is what the rule for \<^verbatim>\<open>HdNetDisconnect\<close> asks.
\<close>

inductive net_step :: "HD_NET_EXTENSION \<Rightarrow> HD_NET_EXTENSION \<Rightarrow> bool" where
  connect: "HdNetConnect ext addr port d = (st, ext', idx) \<Longrightarrow> net_step ext ext'"
| disconnect: "unat i < 64 \<Longrightarrow> IsActive (Connections ext ! unat i) \<Longrightarrow>
    HdNetDisconnect ext i = (st, ext') \<Longrightarrow> net_step ext ext'"
| disconnect_invalid: "64 \<le> unat i \<Longrightarrow> HdNetDisconnect ext i = (st, ext') \<Longrightarrow> net_step ext ext'"
| send: "HdNetSendBlockRequest ext i req n = (st, ext', h) \<Longrightarrow> net_step ext ext'"
| heartbeat: "HdNetSendHeartbeat ext i tid = (st, ext', h) \<Longrightarrow> net_step ext ext'"
| cleanup: "HdNetCleanup ext = ext' \<Longrightarrow> net_step ext ext'"

inductive net_reachable :: "HD_NET_EXTENSION \<Rightarrow> bool" where
  init: "HdNetInitialize ext0 = (st, ext) \<Longrightarrow> net_reachable ext"
| step: "net_reachable ext \<Longrightarrow> net_step ext ext' \<Longrightarrow> net_reachable ext'"

lemma net_ok_frame_id [simp]: "net_ok (ext\<lparr>NextFrameId := n\<rparr>) = net_ok ext"
  by (simp add: net_ok_def used_slots_def)

lemma net_ok_connect: "net_ok ext \<Longrightarrow> HdNetConnect ext addr port d = (st, ext', idx) \<Longrightarrow> net_ok ext'"
proof (cases "used_slots ext = {..<64}")
  case False
  assume ok: "net_ok ext" and c: "HdNetConnect ext addr port d = (st, ext', idx)"
  obtain j where "j < 64" "j \<notin> used_slots ext" "\<And>k. k < j \<Longrightarrow> k \<in> used_slots ext"
    using first_free_slot [OF ok False] by blast
  with c show ?thesis using HdNetConnect_free [OF ok, of j addr port d] net_ok_open [OF ok, of j port "Connections ext ! j"] by auto
qed (simp add: HdNetConnect_full)

lemma net_step_ok: "net_step ext ext' \<Longrightarrow> net_ok ext \<Longrightarrow> net_ok ext'"
proof (induction rule: net_step.induct)
  case (disconnect i ext st ext')
  then have "unat i \<in> used_slots ext" by (simp add: used_slots_def net_ok_def)
  then show ?case
    using HdNetDisconnect_active(2) [of ext "unat i"] disconnect by simp
next
  case (disconnect_invalid i ext st ext')
  then show ?case by (simp add: HdNetDisconnect_def word_le_nat_alt)
next
  case (send ext i req n st ext' h)
  then show ?case by (auto simp: HdNetSendBlockRequest_def Let_def split: if_splits)
next
  case (heartbeat ext i tid st ext' h)
  then show ?case by (auto simp: HdNetSendHeartbeat_def Let_def split: if_splits)
next
  case (connect ext addr port d st ext' idx)
  then show ?case by (rule net_ok_connect [rotated])
next
  case (cleanup ext ext')
  then show ?case using HdNetCleanup_ok by blast
qed

lemma net_reachable_ok: "net_reachable ext \<Longrightarrow> net_ok ext"
proof (induction rule: net_reachable.induct)
  case (init ext0 st ext)
  then show ?case using net_ok_init(1) [of ext0] by simp
qed (rule net_step_ok)

section \<open>Lemmas on frames\<close>

lemma copy_header32_frame_bytes:
  "copy_header32 h0 (take 32 (frame_bytes h)) =
     h\<lparr>fh_block_count := fh_block_count h0, fh_layer_id := fh_layer_id h0, fh_reserved0 := fh_reserved0 h0,
       fh_reserved1 := fh_reserved1 h0, fh_reserved2 := fh_reserved2 h0\<rparr>"
proof -
  have "take 32 (frame_bytes h) @ drop 32 (frame_bytes h0) =
     frame_bytes (h\<lparr>fh_block_count := fh_block_count h0, fh_layer_id := fh_layer_id h0,
       fh_reserved0 := fh_reserved0 h0, fh_reserved1 := fh_reserved1 h0, fh_reserved2 := fh_reserved2 h0\<rparr>)"
    by (simp add: frame_bytes_def)
  then show ?thesis by (simp add: copy_header32_def frame_of_frame_bytes)
qed

lemma frame_bytes_fields32:
  "le_word 4 (take 32 (frame_bytes h)) = fh_magic h"
  "le_word 2 (drop 4 (take 32 (frame_bytes h))) = fh_version h"
  "le_word 4 (drop 12 (take 32 (frame_bytes h))) = fh_payload_len h"
  by (simp_all add: frame_bytes_prefix32 le_word_append le_word_le_bytes)

lemma HdNetSerializeFrame_ok:
  assumes "unat (fh_payload_len h) = length p" "32 + length p \<le> length out"
  shows "HdNetSerializeFrame (Some h) (Some p) (Some out) (Some n) =
     Inr (STATUS_SUCCESS, Some (take 32 (frame_bytes h) @ p @ drop (32 + length p) out),
          Some (32 + fh_payload_len h))"
proof -
  have "\<not> 0 < fh_payload_len h \<Longrightarrow> p = []" using assms by (simp add: word_gt_0)
  moreover have "drop (length p + 32) out = drop (32 + length p) out" by (simp add: add.commute)
  ultimately show ?thesis
    using assms by (auto simp: HdNetSerializeFrame_def Let_def mem_write_def mem_read_def)
qed

section \<open>Properties\<close>


definition empty_net :: HD_NET_EXTENSION where
  "empty_net = \<lparr>ConnectionCount = 0, Connections = replicate 64 zero_connection, NextFrameId = 1\<rparr>"

lemma empty_net_init: "HdNetInitialize ext = (STATUS_SUCCESS, empty_net)"
  by (simp add: HdNetInitialize_def empty_net_def)


text \<open>
  The table hands out 64 distinct connections: after initialisation any 64 calls of
  \<^verbatim>\<open>HdNetConnect\<close> succeed, no two return the same index, and the next call fails with
  \<^verbatim>\<open>STATUS_INSUFFICIENT_RESOURCES\<close> and changes nothing.
\<close>

theorem net_connects_until_full:
  assumes "length ports = 64"
  shows "\<exists>ext is. alloc_many net_alloc ports (snd (HdNetInitialize ext0)) = Some (ext, is)
           \<and> distinct is \<and> set is = {..<64}
           \<and> HdNetConnect ext addr port d = (STATUS_INSUFFICIENT_RESOURCES, ext, d)"
proof -
  obtain ext "is" where r: "alloc_many net_alloc ports (snd (HdNetInitialize ext0)) = Some (ext, is)"
    "net_ok ext" "distinct is" "length is = 64" "used_slots ext = set is"
    using net_table.alloc_many_ok [of "snd (HdNetInitialize ext0)" ports] assms by auto
  then have "set is = {..<64}"
    using net_table.full_iff [OF r(2)] distinct_card [of "is"] by simp
  then show ?thesis using r HdNetConnect_full [OF r(2)] by auto
qed

theorem net_connects_until_full_witness:
  "\<exists>ext is. alloc_many net_alloc (replicate 64 9527) (snd (HdNetInitialize empty_net)) = Some (ext, is)
     \<and> distinct is \<and> set is = {..<64}
     \<and> HdNetConnect ext ''10.0.0.1'' 9527 0 = (STATUS_INSUFFICIENT_RESOURCES, ext, 0)"
  by (rule net_connects_until_full) simp

text \<open>
  \<^verbatim>\<open>HdNetDisconnect\<close> keeps the count exact precisely when the slot it closes is active: closing
  an index twice, or one never opened, breaks the count, because the decrement is not guarded.
\<close>

theorem net_disconnect_exact_iff_active:
  assumes "net_ok ext" and "unat i < 64"
  shows "net_ok (snd (HdNetDisconnect ext i)) \<longleftrightarrow> IsActive (Connections ext ! unat i)"
proof (cases "unat i \<in> used_slots ext")
  case True
  then show ?thesis using HdNetDisconnect_active(2) [OF assms(1) True] by (simp add: used_slots_def)
next
  case False
  have l: "unat i < length (Connections ext)" using assms by (simp add: net_ok_def)
  have "\<not> 64 \<le> i" using assms(2) by (simp add: word_le_nat_alt)
  then have d: "used_slots (snd (HdNetDisconnect ext i)) = used_slots ext - {unat i}"
    "ConnectionCount (snd (HdNetDisconnect ext i)) = ConnectionCount ext - 1"
    using l by (simp_all add: HdNetDisconnect_def used_slots_update)
  have "used_slots ext - {unat i} = used_slots ext" using False by blast
  then have "unat (ConnectionCount ext) = card (used_slots (snd (HdNetDisconnect ext i)))"
    using assms(1) d(1) by (simp only: net_ok_def)
  moreover have "unat (ConnectionCount ext - 1) \<noteq> unat (ConnectionCount ext)"
    by (simp flip: word_unat_eq_iff)
  ultimately have "\<not> net_ok (snd (HdNetDisconnect ext i))" by (simp add: net_ok_def d(2))
  moreover have "\<not> IsActive (Connections ext ! unat i)" using False l by (simp add: used_slots_def)
  ultimately show ?thesis by simp
qed

theorem net_disconnect_exact_iff_active_witness:
  "\<not> net_ok (snd (HdNetDisconnect empty_net 5)) \<and> ConnectionCount (snd (HdNetDisconnect empty_net 5)) = 0xFFFFFFFF"
  using net_disconnect_exact_iff_active [of empty_net 5] net_ok_init(1) [of empty_net]
  by (simp add: empty_net_init, simp add: empty_net_def HdNetDisconnect_def zero_connection_def)



text \<open>
  \<^verbatim>\<open>HdNetDeserializeFrame\<close> never reads past the frame it is given, whatever payload length the
  frame claims: with a payload buffer as large as the rest of the frame it never faults, and on
  success with a non-empty claimed payload the length it reports is the smaller of the claimed
  length and the bytes present.
\<close>

theorem net_deserialize_bounded:
  assumes "unat n \<le> length fr" and "unat n \<le> 32 + length buf"
  shows "\<exists>st h' p' m'. HdNetDeserializeFrame (Some fr) n (Some h0) (Some buf) (Some m0) = Inr (st, h', p', m')
           \<and> (st = STATUS_SUCCESS \<and> 0 < (le_word 4 (drop 12 fr) :: u32) \<longrightarrow>
                (\<exists>m. m' = Some m \<and> unat m = min (unat (le_word 4 (drop 12 fr) :: u32)) (unat n - 32)
                   \<and> p' = Some (take (unat m) (drop 32 fr) @ drop (unat m) buf)))"
proof (cases "n < 32")
  case True
  then show ?thesis by (simp add: HdNetDeserializeFrame_def)
next
  case False
  let ?pl = "le_word 4 (drop 12 fr) :: u32"
  have n: "32 \<le> unat n" using False by (simp add: word_less_nat_alt)
  then have n32: "unat (n - 32) = unat n - 32" by (simp add: unat_sub word_le_nat_alt)
  have l32: "32 \<le> length fr" using n assms by simp
  have pl: "le_word 4 (take 20 (drop 12 fr)) = ?pl" by (rule le_word_take) simp
  show ?thesis
  proof (cases "n - 32 < ?pl")
    case True
    then have "unat n - 32 < unat ?pl" using n32 by (simp add: word_less_nat_alt)
    then show ?thesis
      using False True l32 assms n n32 pl by (simp add: HdNetDeserializeFrame_def Let_def drop_take)
  next
    case le: False
    then have "unat ?pl \<le> unat n - 32" using n32 by (simp add: word_less_nat_alt)
    then show ?thesis
      using False le l32 assms n pl by (simp add: HdNetDeserializeFrame_def Let_def drop_take)
  qed
qed

theorem net_deserialize_bounded_witness:
  "\<exists>st h' p' m'. HdNetDeserializeFrame (Some (take 32 (frame_bytes (zero_header\<lparr>fh_magic := HD_MAGIC,
        fh_version := HD_VERSION, fh_payload_len := 0xFFFFFFFF\<rparr>)) @ [5])) 33 (Some zero_header) (Some [0]) (Some 0)
     = Inr (st, h', p', m')"
  using net_deserialize_bounded [of 33 "take 32 (frame_bytes (zero_header\<lparr>fh_magic := HD_MAGIC,
        fh_version := HD_VERSION, fh_payload_len := 0xFFFFFFFF\<rparr>)) @ [5]" "[0]" zero_header 0]
  by auto

end
