(* ===== verification/HD_NetEntry.thy ===== *)
theory HD_NetEntry
  imports HD_Serial HD_Net
begin

text \<open>
  The entry of the network driver, \<^verbatim>\<open>driver/net/net_driver.c\<close>: the serial log, the device and its link, and
  the dispatch table. The results of the two calls of the I/O manager are parameters.
\<close>

datatype net_major = NET_CREATE | NET_CLOSE | NET_DEVICE_CONTROL | NET_OTHER

text \<open>
  The driver object: the device, and the routine for each kind of request. Before the entry runs, every
  routine is the one of the I/O manager that refuses a request; \<^const>\<open>None\<close> is a null pointer.
\<close>

record net_driver =
  nd_device :: bool
  nd_initializing :: bool
  nd_link :: bool
  nd_dispatch :: "net_major \<Rightarrow> NTSTATUS option"
  nd_unload :: bool
  nd_serial :: HD_SERIAL_DEBUG

definition net_DriverEntry :: "(nat \<Rightarrow> u8) \<Rightarrow> NTSTATUS \<Rightarrow> NTSTATUS \<Rightarrow> net_driver \<Rightarrow> (NTSTATUS \<times> net_driver) res" where
  "net_DriverEntry lsr create_st link_st d =
     rbind (HdSerialInitialize lsr (nd_serial d)) (\<lambda>s.
     rbind (HdSerialWriteString lsr s (bytes_of_string ''[HDx:NET_LOADED] HDNet DriverEntry'' @ [13, 10])) (\<lambda>s.
       if \<not> NT_SUCCESS create_st then
         rbind (HdSerialWriteString lsr s (bytes_of_string ''[HDx:NET_LOADED] IoCreateDevice failed'' @ [13, 10])) (\<lambda>s.
           Inr (create_st, d\<lparr>nd_serial := s\<rparr>))
       else if \<not> NT_SUCCESS link_st then Inr (link_st, d\<lparr>nd_serial := s, nd_device := False\<rparr>)
       else rbind (HdSerialWriteString lsr s (bytes_of_string ''[HDx:NET_LOADED] HDNet device created, ready for HDBlk'' @ [13, 10])) (\<lambda>s.
         Inr (STATUS_SUCCESS,
              d\<lparr>nd_serial := s, nd_device := True, nd_link := True, nd_initializing := False,
                nd_dispatch := (nd_dispatch d)(NET_CREATE := None, NET_CLOSE := None, NET_DEVICE_CONTROL := None),
                nd_unload := False\<rparr>))))"

text \<open>A request to the device: the I/O manager calls the routine of the table.\<close>

definition net_request :: "net_driver \<Rightarrow> net_major \<Rightarrow> NTSTATUS res" where
  "net_request d major = (case nd_dispatch d major of None \<Rightarrow> Inl NullDereference | Some st \<Rightarrow> Inr st)"

text \<open>
  The entry returns whatever the line status of the port is. When it fails, no device is left; when it
  succeeds, the device can be named and opened, and the first request to open, close or control it calls a
  null pointer.
\<close>

theorem net_entry_outcome:
  assumes "length (RingBuffer (nd_serial d)) = 4096" "\<not> nd_device d"
  shows "\<exists>st d'. net_DriverEntry lsr create_st link_st d = Inr (st, d') \<and>
     (NT_SUCCESS st \<longleftrightarrow> NT_SUCCESS create_st \<and> NT_SUCCESS link_st) \<and> nd_device d' = NT_SUCCESS st \<and>
     (NT_SUCCESS st \<longrightarrow> (\<forall>m \<in> {NET_CREATE, NET_CLOSE, NET_DEVICE_CONTROL}. net_request d' m = Inl NullDereference)) \<and>
     (\<not> NT_SUCCESS st \<longrightarrow> nd_dispatch d' = nd_dispatch d)"
proof -
  obtain s1 where s1: "HdSerialInitialize lsr (nd_serial d) = Inr s1" "serial_ok s1"
    using HdSerialInitialize_contents [OF assms(1)] by blast
  have w: "\<exists>s'. HdSerialWriteString lsr s str = Inr s' \<and> serial_ok s'" if "serial_ok s" for s str
    using HdSerialWriteString_contents [OF that] by blast
  obtain s2 where s2: "HdSerialWriteString lsr s1 (bytes_of_string ''[HDx:NET_LOADED] HDNet DriverEntry'' @ [13, 10]) = Inr s2" "serial_ok s2"
    using w [OF s1(2)] by blast
  obtain s3 where s3: "HdSerialWriteString lsr s2 (bytes_of_string ''[HDx:NET_LOADED] IoCreateDevice failed'' @ [13, 10]) = Inr s3"
    using w [OF s2(2)] by blast
  obtain s4 where s4: "HdSerialWriteString lsr s2 (bytes_of_string ''[HDx:NET_LOADED] HDNet device created, ready for HDBlk'' @ [13, 10]) = Inr s4"
    using w [OF s2(2)] by blast
  show ?thesis
    unfolding net_DriverEntry_def s1(1) s2(1) s3 s4 rbind_simps
    using assms(2) by (cases "NT_SUCCESS create_st"; cases "NT_SUCCESS link_st") (simp_all add: net_request_def)
qed

end
