(* ===== verification/HD_Recovery7b.thy ===== *)
theory HD_Recovery7b
  imports HD_Prelude
begin

text \<open>
  Recovery from bug check 0x7B, \<^verbatim>\<open>driver/blk/blk_7b_recovery.{h,c}\<close>: three retries, a ladder of
  fallback steps, and a final halt that never returns.

  The four availability flags are set by other threads. The code looks at them only after it has
  slept, so the model takes them from a parameter \<^verbatim>\<open>env\<close>: \<^verbatim>\<open>env n\<close> is what the flags are once the
  \<^verbatim>\<open>n\<close>-th sleep since the beginning has ended, and \<^verbatim>\<open>clock n\<close> the system time then. The serial log
  is the list of strings handed to \<^verbatim>\<open>HdSerialWriteString\<close>, in order.
\<close>

section \<open>State\<close>

definition HD_7B_MAX_RETRIES :: u32 where "HD_7B_MAX_RETRIES = 3"
definition HD_7B_RECOVERY_HALT :: bool where "HD_7B_RECOVERY_HALT = True"

datatype HD_7B_STATE = Hd7bNormal | Hd7bRetrying | Hd7bFallback | Hd7bRecovery | Hd7bHalted

record hd7b_flags =
  LocalMetaAvailable :: bool
  NetworkAvailable :: bool
  MetaServerReachable :: bool
  BlockDeviceReady :: bool

record HD_7B_RECOVERY =
  State :: HD_7B_STATE
  RetryCount :: u32
  FallbackStep :: u32
  StateEntryTime :: u64
  Flags :: hd7b_flags
  sleeps :: nat
  slog :: "string list"

definition emit :: "string \<Rightarrow> HD_7B_RECOVERY \<Rightarrow> HD_7B_RECOVERY" where
  "emit s r = r\<lparr>slog := slog r @ [s]\<rparr>"

text \<open>\<^verbatim>\<open>KeDelayExecutionThread\<close>: the other threads run, then the flags are what they left.\<close>

definition sleep :: "(nat \<Rightarrow> hd7b_flags) \<Rightarrow> HD_7B_RECOVERY \<Rightarrow> HD_7B_RECOVERY" where
  "sleep env r = r\<lparr>sleeps := Suc (sleeps r), Flags := env (Suc (sleeps r))\<rparr>"

section \<open>Operations\<close>

definition Hd7bInitialize :: "(nat \<Rightarrow> u64) \<Rightarrow> HD_7B_RECOVERY \<Rightarrow> NTSTATUS \<times> HD_7B_RECOVERY" where
  "Hd7bInitialize clock r =
     (STATUS_SUCCESS,
      r\<lparr>State := Hd7bNormal, RetryCount := 0, FallbackStep := 0,
        Flags := \<lparr>LocalMetaAvailable = False, NetworkAvailable = False,
                  MetaServerReachable = False, BlockDeviceReady = False\<rparr>,
        StateEntryTime := clock (sleeps r)\<rparr>)"

text \<open>
  The halt loop. A call that does not return has the value \<^const>\<open>None\<close> as its status; the state
  beside it is the one in which it stays.
\<close>

partial_function (option) halt_loop :: "nat \<Rightarrow> nat option" where
  "halt_loop n = (if HD_7B_RECOVERY_HALT then halt_loop (Suc n) else Some n)"

definition Hd7bProcessRecovery :: "HD_7B_RECOVERY \<Rightarrow> NTSTATUS option \<times> HD_7B_RECOVERY" where
  "Hd7bProcessRecovery r =
     (let r1 = emit (''[0x7B] Awaiting manual intervention...'' @ crlf)
              (emit (''[0x7B] System cannot boot. Diagnostic info:'' @ crlf)
              (emit (crlf @ ''[0x7B] === RECOVERY HALTED ==='' @ crlf) (r\<lparr>State := Hd7bHalted\<rparr>)))
      in (map_option (\<lambda>_. STATUS_DEVICE_NOT_READY) (halt_loop (sleeps r1)), r1))"

text \<open>
  \<^verbatim>\<open>Hd7bProcessRetry\<close> and \<^verbatim>\<open>Hd7bProcessFallback\<close> call each other. The recursion ends: a retry raises
  the counter towards three, and the fallback that the exhausted retry enters is step 0, which
  does not retry.
\<close>

function Hd7bProcessRetry ::
    "(nat \<Rightarrow> hd7b_flags) \<Rightarrow> (nat \<Rightarrow> u64) \<Rightarrow> HD_7B_RECOVERY \<Rightarrow> NTSTATUS option \<times> HD_7B_RECOVERY"
  and Hd7bProcessFallback ::
    "(nat \<Rightarrow> hd7b_flags) \<Rightarrow> (nat \<Rightarrow> u64) \<Rightarrow> HD_7B_RECOVERY \<Rightarrow> NTSTATUS option \<times> HD_7B_RECOVERY" where
  "Hd7bProcessRetry env clock r =
     (if HD_7B_MAX_RETRIES \<le> RetryCount r
      then Hd7bProcessFallback env clock
             (emit (''[0x7B] Retry exhausted, entering fallback'' @ crlf)
                (r\<lparr>State := Hd7bFallback, FallbackStep := 0, StateEntryTime := clock (sleeps r)\<rparr>))
      else let r1 = sleep env (r\<lparr>RetryCount := RetryCount r + 1\<rparr>) in
        if BlockDeviceReady (Flags r1) \<and> MetaServerReachable (Flags r1)
        then (Some STATUS_SUCCESS,
              emit (''[0x7B] Retry succeeded, resuming normal'' @ crlf) (r1\<lparr>State := Hd7bNormal\<rparr>))
        else Hd7bProcessRetry env clock r1)"
| "Hd7bProcessFallback env clock r =
     (if FallbackStep r = 0
      then (Some STATUS_DEVICE_NOT_READY,
            (emit (''[0x7B] Fallback step 0: Try secondary server'' @ crlf) r)\<lparr>FallbackStep := 1\<rparr>)
      else if FallbackStep r = 1
      then let r1 = emit (''[0x7B] Fallback step 1: Use local boot.meta cache'' @ crlf) r in
        if LocalMetaAvailable (Flags r1)
        then (Some STATUS_SUCCESS,
              (emit (''[0x7B] Local meta available, attempting boot'' @ crlf) r1)\<lparr>State := Hd7bNormal\<rparr>)
        else (Some STATUS_DEVICE_NOT_READY, r1\<lparr>FallbackStep := 2\<rparr>)
      else if FallbackStep r = 2
      then let r1 = sleep env (emit (''[0x7B] Fallback step 2: Wait for network'' @ crlf) r) in
        if NetworkAvailable (Flags r1)
        then Hd7bProcessRetry env clock (r1\<lparr>State := Hd7bRetrying, RetryCount := 0\<rparr>)
        else (Some STATUS_DEVICE_NOT_READY, r1\<lparr>FallbackStep := 3\<rparr>)
      else if FallbackStep r = 3
      then (Some STATUS_DEVICE_NOT_READY,
            (emit (''[0x7B] Fallback step 3: Wait for block device'' @ crlf) r)\<lparr>FallbackStep := 4\<rparr>)
      else Hd7bProcessRecovery (r\<lparr>State := Hd7bRecovery\<rparr>))"
  by pat_completeness auto
termination
proof (relation "measure (\<lambda>x. case x of
      Inl (_, _, r) \<Rightarrow> 2 + (3 - unat (RetryCount r))
    | Inr (_, _, r) \<Rightarrow> if FallbackStep r = 2 then 10 else 1)")
qed (auto simp: HD_7B_MAX_RETRIES_def emit_def sleep_def word_le_nat_alt unat_word_ariths Let_def)

declare Hd7bProcessRetry.simps [simp del] Hd7bProcessFallback.simps [simp del]

definition Hd7bEnterRecovery ::
  "(nat \<Rightarrow> hd7b_flags) \<Rightarrow> (nat \<Rightarrow> u64) \<Rightarrow> HD_7B_RECOVERY \<Rightarrow> NTSTATUS option \<times> HD_7B_RECOVERY" where
  "Hd7bEnterRecovery env clock r =
     Hd7bProcessRetry env clock
       (emit (''[0x7B] Enter recovery: INACCESSIBLE_BOOT_DEVICE'' @ crlf)
          (r\<lparr>State := Hd7bRetrying, RetryCount := 0, StateEntryTime := clock (sleeps r)\<rparr>))"

fun Hd7bStateName :: "HD_7B_STATE \<Rightarrow> string" where
  "Hd7bStateName Hd7bNormal = ''Normal''"
| "Hd7bStateName Hd7bRetrying = ''Retrying''"
| "Hd7bStateName Hd7bFallback = ''Fallback''"
| "Hd7bStateName Hd7bRecovery = ''Recovery''"
| "Hd7bStateName Hd7bHalted = ''Halted''"

section \<open>Lemmas\<close>

lemma emit_sel [simp]:
  "State (emit s r) = State r" "RetryCount (emit s r) = RetryCount r"
  "FallbackStep (emit s r) = FallbackStep r" "Flags (emit s r) = Flags r" "sleeps (emit s r) = sleeps r"
  by (simp_all add: emit_def)

lemma sleep_sel [simp]:
  "State (sleep env r) = State r" "RetryCount (sleep env r) = RetryCount r"
  "FallbackStep (sleep env r) = FallbackStep r" "Flags (sleep env r) = env (Suc (sleeps r))"
  "sleeps (sleep env r) = Suc (sleeps r)"
  by (simp_all add: sleep_def)

text \<open>The halt loop returns for no argument.\<close>

lemma halt_loop_never_returns: "halt_loop n = None"
proof -
  have "halt_loop n = Some m \<Longrightarrow> False" for n m
    by (erule halt_loop.raw_induct [where P = "\<lambda>_ _. False", rotated]) (auto simp: HD_7B_RECOVERY_HALT_def)
  then show ?thesis by (cases "halt_loop n") blast+
qed

lemma Hd7bProcessRecovery_halts:
  "fst (Hd7bProcessRecovery r) = None" "State (snd (Hd7bProcessRecovery r)) = Hd7bHalted"
  by (simp_all add: Hd7bProcessRecovery_def Let_def halt_loop_never_returns)

definition boot_ready :: "hd7b_flags \<Rightarrow> bool" where
  "boot_ready f \<longleftrightarrow> BlockDeviceReady f \<and> MetaServerReachable f"

text \<open>One retry, and the three retries of a fresh counter.\<close>

lemma retry_exhausted:
  assumes "3 \<le> unat (RetryCount r)"
  shows "fst (Hd7bProcessRetry env clock r) = Some STATUS_DEVICE_NOT_READY
       \<and> State (snd (Hd7bProcessRetry env clock r)) = Hd7bFallback
       \<and> FallbackStep (snd (Hd7bProcessRetry env clock r)) = 1
       \<and> RetryCount (snd (Hd7bProcessRetry env clock r)) = RetryCount r
       \<and> sleeps (snd (Hd7bProcessRetry env clock r)) = sleeps r"
  using assms
  by (simp add: Hd7bProcessRetry.simps [of env clock r] Hd7bProcessFallback.simps HD_7B_MAX_RETRIES_def
      word_le_nat_alt emit_def)

lemma retry_success:
  assumes "unat (RetryCount r) < 3" "boot_ready (env (Suc (sleeps r)))"
  shows "fst (Hd7bProcessRetry env clock r) = Some STATUS_SUCCESS
       \<and> State (snd (Hd7bProcessRetry env clock r)) = Hd7bNormal
       \<and> sleeps (snd (Hd7bProcessRetry env clock r)) = Suc (sleeps r)
       \<and> Flags (snd (Hd7bProcessRetry env clock r)) = env (Suc (sleeps r))"
  using assms
  by (simp add: Hd7bProcessRetry.simps [of env clock r] HD_7B_MAX_RETRIES_def word_le_nat_alt
      boot_ready_def Let_def emit_def sleep_def)

lemma retry_again:
  assumes "unat (RetryCount r) < 3" "\<not> boot_ready (env (Suc (sleeps r)))"
  shows "Hd7bProcessRetry env clock r
       = Hd7bProcessRetry env clock (sleep env (r\<lparr>RetryCount := RetryCount r + 1\<rparr>))"
  using assms
  by (subst Hd7bProcessRetry.simps)
     (auto simp: HD_7B_MAX_RETRIES_def word_le_nat_alt boot_ready_def Let_def)

text \<open>
  The outcome of a run of retries: success at the first of the remaining observations that shows
  a bootable system, and otherwise the fallback state after exactly the remaining sleeps.
\<close>

lemma retry_outcome:
  "unat (RetryCount r) + k = 3 \<Longrightarrow>
   (if \<exists>j\<in>{1..k}. boot_ready (env (sleeps r + j))
    then fst (Hd7bProcessRetry env clock r) = Some STATUS_SUCCESS
       \<and> State (snd (Hd7bProcessRetry env clock r)) = Hd7bNormal
       \<and> boot_ready (Flags (snd (Hd7bProcessRetry env clock r)))
       \<and> sleeps (snd (Hd7bProcessRetry env clock r)) \<le> sleeps r + k
    else fst (Hd7bProcessRetry env clock r) = Some STATUS_DEVICE_NOT_READY
       \<and> State (snd (Hd7bProcessRetry env clock r)) = Hd7bFallback
       \<and> FallbackStep (snd (Hd7bProcessRetry env clock r)) = 1
       \<and> sleeps (snd (Hd7bProcessRetry env clock r)) = sleeps r + k)"
proof (induction k arbitrary: r)
  case 0
  then show ?case using retry_exhausted [of r env clock] by simp
next
  case (Suc k)
  show ?case
  proof (cases "boot_ready (env (Suc (sleeps r)))")
    case True
    then have "\<exists>j\<in>{1..Suc k}. boot_ready (env (sleeps r + j))" by (intro bexI [of _ 1]) auto
    then show ?thesis using retry_success [of r env clock] True Suc.prems by simp
  next
    case False
    define r1 where "r1 = sleep env (r\<lparr>RetryCount := RetryCount r + 1\<rparr>)"
    have s1: "sleeps r1 = Suc (sleeps r)" by (simp add: r1_def)
    have "unat (RetryCount r + 1) = unat (RetryCount r) + 1"
      using Suc.prems by (simp add: unat_word_ariths)
    then have "unat (RetryCount r1) + k = 3" using Suc.prems by (simp add: r1_def)
    moreover have "(\<exists>j\<in>{1..Suc k}. boot_ready (env (sleeps r + j)))
        \<longleftrightarrow> (\<exists>j\<in>{1..k}. boot_ready (env (sleeps r1 + j)))" (is "?A \<longleftrightarrow> ?B")
    proof
      assume ?A
      then obtain j where "j \<in> {1..Suc k}" "boot_ready (env (sleeps r + j))" by blast
      moreover from this False have "j \<noteq> 1" by auto
      ultimately have "j - 1 \<in> {1..k}" "boot_ready (env (sleeps r1 + (j - 1)))" by (auto simp: s1)
      then show ?B by blast
    next
      assume ?B
      then obtain j where "j \<in> {1..k}" "boot_ready (env (sleeps r1 + j))" by blast
      then have "Suc j \<in> {1..Suc k}" "boot_ready (env (sleeps r + Suc j))" by (simp_all add: s1)
      then show ?A by blast
    qed
    moreover have "Hd7bProcessRetry env clock r = Hd7bProcessRetry env clock r1"
      unfolding r1_def using False Suc.prems by (intro retry_again) auto
    ultimately show ?thesis using Suc.IH [of r1] s1 by (simp split: if_splits)
  qed
qed

lemma retry_outcome_fresh:
  assumes "RetryCount r = 0"
  shows "if boot_ready (env (sleeps r + 1)) \<or> boot_ready (env (sleeps r + 2)) \<or> boot_ready (env (sleeps r + 3))
    then fst (Hd7bProcessRetry env clock r) = Some STATUS_SUCCESS
       \<and> State (snd (Hd7bProcessRetry env clock r)) = Hd7bNormal
       \<and> boot_ready (Flags (snd (Hd7bProcessRetry env clock r)))
       \<and> sleeps (snd (Hd7bProcessRetry env clock r)) \<le> sleeps r + 3
    else fst (Hd7bProcessRetry env clock r) = Some STATUS_DEVICE_NOT_READY
       \<and> State (snd (Hd7bProcessRetry env clock r)) = Hd7bFallback
       \<and> FallbackStep (snd (Hd7bProcessRetry env clock r)) = 1
       \<and> sleeps (snd (Hd7bProcessRetry env clock r)) = sleeps r + 3"
proof -
  have "{1..3} = {1, 2, 3 :: nat}" by auto
  then show ?thesis using retry_outcome [of r 3 env clock] assms by simp
qed

lemmas fallback_step = Hd7bProcessFallback.simps

lemma fallback_halts:
  assumes "4 \<le> unat (FallbackStep r)"
  shows "fst (Hd7bProcessFallback env clock r) = None"
    "State (snd (Hd7bProcessFallback env clock r)) = Hd7bHalted"
proof -
  have "FallbackStep r \<noteq> 0" "FallbackStep r \<noteq> 1" "FallbackStep r \<noteq> 2" "FallbackStep r \<noteq> 3"
    using assms by auto
  then show "fst (Hd7bProcessFallback env clock r) = None"
    "State (snd (Hd7bProcessFallback env clock r)) = Hd7bHalted"
    by (simp_all add: fallback_step [of env clock r] Hd7bProcessRecovery_halts)
qed

lemma fallback_wait_network:
  assumes "FallbackStep r = 2"
  shows "fst (Hd7bProcessFallback env clock r) \<noteq> None"
    "fst (Hd7bProcessFallback env clock r) = Some STATUS_SUCCESS \<Longrightarrow>
       State (snd (Hd7bProcessFallback env clock r)) = Hd7bNormal
       \<and> boot_ready (Flags (snd (Hd7bProcessFallback env clock r)))"
  using assms
    retry_outcome_fresh [of "(sleep env (emit (''[0x7B] Fallback step 2: Wait for network'' @ crlf) r))
       \<lparr>State := Hd7bRetrying, RetryCount := 0\<rparr>" env clock]
  by (simp_all add: fallback_step [of env clock r] Let_def split: if_splits)

lemma fallback_step_cases:
  fixes x :: u32
  obtains "x = 0" | "x = 1" | "x = 2" | "x = 3" | "4 \<le> unat x"
proof -
  have "unat x = 0 \<or> unat x = 1 \<or> unat x = 2 \<or> unat x = 3 \<or> 4 \<le> unat x" by linarith
  then show thesis
    using that by (auto simp: word_unat_eq_iff)
qed

section \<open>Properties\<close>

text \<open>
  \<^verbatim>\<open>Hd7bEnterRecovery\<close> always returns, after at most three sleeps: with success, in the normal
  state and with block device and metadata server up, if they were up together after one of the
  three sleeps; and otherwise with \<^verbatim>\<open>STATUS_DEVICE_NOT_READY\<close>, in the fallback state at step 1.
\<close>

theorem enter_recovery_outcome:
  "if boot_ready (env (sleeps r + 1)) \<or> boot_ready (env (sleeps r + 2)) \<or> boot_ready (env (sleeps r + 3))
   then fst (Hd7bEnterRecovery env clock r) = Some STATUS_SUCCESS
      \<and> State (snd (Hd7bEnterRecovery env clock r)) = Hd7bNormal
      \<and> boot_ready (Flags (snd (Hd7bEnterRecovery env clock r)))
      \<and> sleeps (snd (Hd7bEnterRecovery env clock r)) \<le> sleeps r + 3
   else fst (Hd7bEnterRecovery env clock r) = Some STATUS_DEVICE_NOT_READY
      \<and> State (snd (Hd7bEnterRecovery env clock r)) = Hd7bFallback
      \<and> FallbackStep (snd (Hd7bEnterRecovery env clock r)) = 1
      \<and> sleeps (snd (Hd7bEnterRecovery env clock r)) = sleeps r + 3"
  using retry_outcome_fresh [of "emit (''[0x7B] Enter recovery: INACCESSIBLE_BOOT_DEVICE'' @ crlf)
     (r\<lparr>State := Hd7bRetrying, RetryCount := 0, StateEntryTime := clock (sleeps r)\<rparr>)" env clock]
  by (simp add: Hd7bEnterRecovery_def split: if_splits)

text \<open>
  \<^verbatim>\<open>Hd7bProcessFallback\<close> returns if and only if the ladder has a step left (step 0 to 3); past
  it the machine stays in the halted state for ever. It reports success only in the normal state,
  and only with block device and metadata server up or a local copy of the metadata.
\<close>

theorem fallback_contract:
  "(fst (Hd7bProcessFallback env clock r) = None \<longleftrightarrow> 4 \<le> unat (FallbackStep r))
   \<and> (fst (Hd7bProcessFallback env clock r) = None \<longrightarrow>
        State (snd (Hd7bProcessFallback env clock r)) = Hd7bHalted)
   \<and> (fst (Hd7bProcessFallback env clock r) = Some STATUS_SUCCESS \<longrightarrow>
        State (snd (Hd7bProcessFallback env clock r)) = Hd7bNormal
        \<and> (boot_ready (Flags (snd (Hd7bProcessFallback env clock r)))
           \<or> LocalMetaAvailable (Flags (snd (Hd7bProcessFallback env clock r)))))"
proof (cases "FallbackStep r" rule: fallback_step_cases)
  case 3
  then show ?thesis using fallback_wait_network [OF 3, of env clock] by auto
next
  case 5
  then show ?thesis using fallback_halts [OF 5] by simp
qed (simp_all add: fallback_step [of env clock r] Let_def)

definition fallback_example :: HD_7B_RECOVERY where
  "fallback_example = \<lparr>State = Hd7bFallback, RetryCount = 3, FallbackStep = 1, StateEntryTime = 0,
     Flags = \<lparr>LocalMetaAvailable = True, NetworkAvailable = False, MetaServerReachable = False,
              BlockDeviceReady = False\<rparr>, sleeps = 3, slog = []\<rparr>"

theorem fallback_contract_witness:
  "fst (Hd7bProcessFallback (\<lambda>_. Flags fallback_example) (\<lambda>_. 0) fallback_example) = Some STATUS_SUCCESS
   \<and> State (snd (Hd7bProcessFallback (\<lambda>_. Flags fallback_example) (\<lambda>_. 0) fallback_example)) = Hd7bNormal
   \<and> fst (Hd7bProcessFallback (\<lambda>_. Flags fallback_example) (\<lambda>_. 0) (fallback_example\<lparr>FallbackStep := 4\<rparr>)) = None"
  using fallback_contract [of "\<lambda>_. Flags fallback_example" "\<lambda>_. 0" fallback_example]
    fallback_contract [of "\<lambda>_. Flags fallback_example" "\<lambda>_. 0" "fallback_example\<lparr>FallbackStep := 4\<rparr>"]
  by (simp add: fallback_example_def fallback_step Let_def)

end
