(* ===== verification/HD_Irp.thy ===== *)
theory HD_Irp
  imports HD_Prelude
begin

text \<open>
  The part of an I/O request packet the drivers touch: its status block, how often it has been
  completed, how often it has been passed to another driver, whether it was marked pending, and
  the references taken on it. \<^verbatim>\<open>IoCompleteRequest\<close> ends a driver's ownership, so the rule every
  dispatch routine has to keep is that a request is completed or forwarded, once.
\<close>

record IRP =
  IoStatus_Status :: NTSTATUS
  IoStatus_Information :: u64
  Completions :: nat
  Forwards :: nat
  PendingReturned :: bool
  References :: nat

definition fresh_irp :: IRP where
  "fresh_irp = \<lparr>IoStatus_Status = 0, IoStatus_Information = 0, Completions = 0, Forwards = 0,
     PendingReturned = False, References = 1\<rparr>"

definition IoCompleteRequest :: "IRP \<Rightarrow> IRP" where
  "IoCompleteRequest irp = irp\<lparr>Completions := Suc (Completions irp)\<rparr>"

definition IoMarkIrpPending :: "IRP \<Rightarrow> IRP" where
  "IoMarkIrpPending irp = irp\<lparr>PendingReturned := True\<rparr>"

text \<open>The three statements with which almost every handler ends.\<close>

definition complete_irp :: "NTSTATUS \<Rightarrow> u64 \<Rightarrow> IRP \<Rightarrow> IRP" where
  "complete_irp st info irp =
     IoCompleteRequest (irp\<lparr>IoStatus_Status := st, IoStatus_Information := info\<rparr>)"

text \<open>Handed on exactly once: completed by the handler or passed to another driver.\<close>

definition handled_once :: "IRP \<Rightarrow> IRP \<Rightarrow> bool" where
  "handled_once irp irp' \<longleftrightarrow> Completions irp' + Forwards irp' = Suc (Completions irp + Forwards irp)"

lemma complete_irp_sel [simp]:
  "IoStatus_Status (complete_irp st info irp) = st"
  "IoStatus_Information (complete_irp st info irp) = info"
  "Completions (complete_irp st info irp) = Suc (Completions irp)"
  "Forwards (complete_irp st info irp) = Forwards irp"
  "References (complete_irp st info irp) = References irp"
  by (simp_all add: complete_irp_def IoCompleteRequest_def)

lemma handled_once_complete [simp, intro]:
  "handled_once irp (complete_irp st info irp)"
  by (simp add: handled_once_def)

end
