(* ===== verification/HD_IrpTracker.thy ===== *)
theory HD_IrpTracker
  imports HD_Irp
begin

text \<open>
  The IRP watchdog of the block driver, \<^verbatim>\<open>driver/blk/blk_irp_tracker.c\<close>: a list of the requests in
  flight with their submission times, and a timer routine that completes those older than a
  minute. Requests live in a store indexed by their address; the list refers to them by address,
  which is null for \<^const>\<open>None\<close>. Time stamps are 64-bit milliseconds and their difference wraps.
\<close>

section \<open>State\<close>

definition HD_IRP_TIMEOUT_SEC :: u64 where "HD_IRP_TIMEOUT_SEC = 60"

record HD_IRP_TRACK_ENTRY =
  te_Irp :: "nat option"
  SubmitTimestamp :: u64
  te_MajorFunction :: u8
  te_MinorFunction :: u8
  IoSize :: u32

record HD_IRP_TRACKER =
  ActiveList :: "HD_IRP_TRACK_ENTRY list"
  ActiveCount :: u32
  TimerRunning :: bool
  TimerArmed :: bool
  Irps :: "nat \<Rightarrow> IRP"

definition irp_update :: "nat \<Rightarrow> (IRP \<Rightarrow> IRP) \<Rightarrow> (nat \<Rightarrow> IRP) \<Rightarrow> nat \<Rightarrow> IRP" where
  "irp_update a f irps = irps(a := f (irps a))"

section \<open>Operations\<close>

text \<open>Milliseconds from a performance counter value and its frequency.\<close>

definition HdQueryTickCountMs :: "int \<Rightarrow> int \<Rightarrow> u64" where
  "HdQueryTickCountMs count freq = word_of_int (count * 1000 div freq)"

definition HdIrpTrackerInit :: "HD_IRP_TRACKER \<Rightarrow> HD_IRP_TRACKER" where
  "HdIrpTrackerInit t = t\<lparr>ActiveList := [], ActiveCount := 0, TimerRunning := False, TimerArmed := False\<rparr>"

definition HdIrpTrackerDestroy :: "HD_IRP_TRACKER \<Rightarrow> HD_IRP_TRACKER" where
  "HdIrpTrackerDestroy t = (if TimerRunning t then t\<lparr>TimerArmed := False, TimerRunning := False\<rparr> else t)"

text \<open>\<^verbatim>\<open>alloc\<close> is whether the pool had room for the entry.\<close>

definition HdIrpTrackerSubmit ::
  "bool \<Rightarrow> u64 \<Rightarrow> HD_IRP_TRACKER \<Rightarrow> nat \<Rightarrow> u8 \<Rightarrow> u8 \<Rightarrow> HD_IRP_TRACKER" where
  "HdIrpTrackerSubmit alloc now t irp major minor =
     (if \<not> alloc then t
      else let entry = \<lparr>te_Irp = Some irp, SubmitTimestamp = now, te_MajorFunction = major,
                        te_MinorFunction = minor, IoSize = 0\<rparr>;
               t1 = t\<lparr>Irps := irp_update irp (\<lambda>i. i\<lparr>References := Suc (References i)\<rparr>) (Irps t),
                      ActiveList := ActiveList t @ [entry], ActiveCount := ActiveCount t + 1\<rparr>
           in if \<not> TimerRunning t1 then t1\<lparr>TimerArmed := True, TimerRunning := True\<rparr> else t1)"

fun remove_first :: "nat \<Rightarrow> HD_IRP_TRACK_ENTRY list \<Rightarrow> HD_IRP_TRACK_ENTRY list option" where
  "remove_first irp [] = None"
| "remove_first irp (e # es) =
     (if te_Irp e = Some irp then Some es else map_option ((#) e) (remove_first irp es))"

definition HdIrpTrackerComplete :: "HD_IRP_TRACKER \<Rightarrow> nat \<Rightarrow> HD_IRP_TRACKER" where
  "HdIrpTrackerComplete t irp =
     (case remove_first irp (ActiveList t) of
        None \<Rightarrow> t
      | Some es \<Rightarrow> t\<lparr>ActiveList := es, ActiveCount := ActiveCount t - 1,
                     Irps := irp_update irp (\<lambda>i. i\<lparr>References := References i - 1\<rparr>) (Irps t)\<rparr>)"

definition irp_expired :: "u64 \<Rightarrow> HD_IRP_TRACK_ENTRY \<Rightarrow> bool" where
  "irp_expired now e \<longleftrightarrow> HD_IRP_TIMEOUT_SEC * 1000 < now - SubmitTimestamp e"

fun watchdog_loop ::
  "u64 \<Rightarrow> HD_IRP_TRACK_ENTRY list \<Rightarrow> u32 \<Rightarrow> (nat \<Rightarrow> IRP)
   \<Rightarrow> HD_IRP_TRACK_ENTRY list \<times> u32 \<times> (nat \<Rightarrow> IRP)" where
  "watchdog_loop now [] cnt irps = ([], cnt, irps)"
| "watchdog_loop now (e # es) cnt irps =
     (if irp_expired now e
      then watchdog_loop now es (cnt - 1)
             (case te_Irp e of None \<Rightarrow> irps
              | Some a \<Rightarrow> irp_update a (complete_irp STATUS_DEVICE_NOT_READY 0) irps)
      else let (kept, cnt', irps') = watchdog_loop now es cnt irps in (e # kept, cnt', irps'))"

definition HdIrpTrackerWatchdog :: "u64 \<Rightarrow> HD_IRP_TRACKER \<Rightarrow> HD_IRP_TRACKER" where
  "HdIrpTrackerWatchdog now t =
     (let (kept, cnt, irps) = watchdog_loop now (ActiveList t) (ActiveCount t) (Irps t);
          t1 = t\<lparr>ActiveList := kept, ActiveCount := cnt, Irps := irps\<rparr>
      in if 0 < ActiveCount t1 then t1\<lparr>TimerArmed := True\<rparr> else t1\<lparr>TimerRunning := False\<rparr>)"

section \<open>Invariant\<close>

definition tracker_ok :: "HD_IRP_TRACKER \<Rightarrow> bool" where
  "tracker_ok t \<longleftrightarrow> unat (ActiveCount t) = length (ActiveList t) \<and> (ActiveList t \<noteq> [] \<longrightarrow> TimerRunning t)"

lemma remove_first_length:
  "remove_first irp es = Some es' \<Longrightarrow> length es = Suc (length es')"
  by (induction es arbitrary: es') (auto split: if_splits)

lemma remove_first_None_iff: "remove_first irp es = None \<longleftrightarrow> Some irp \<notin> te_Irp ` set es"
  by (induction es) auto

lemma remove_first_append:
  "Some irp \<notin> te_Irp ` set es \<Longrightarrow> te_Irp e = Some irp \<Longrightarrow> remove_first irp (es @ [e]) = Some es"
  by (induction es) auto

lemma watchdog_loop_kept: "fst (watchdog_loop now es cnt irps) = filter (\<lambda>e. \<not> irp_expired now e) es"
  by (induction es arbitrary: cnt irps) (simp_all add: Let_def case_prod_unfold)

lemma watchdog_loop_count:
  "fst (snd (watchdog_loop now es cnt irps)) = cnt - of_nat (length (filter (irp_expired now) es))"
  by (induction es arbitrary: cnt irps) (simp_all add: Let_def algebra_simps case_prod_unfold)

text \<open>What the loop makes of one request: completed once for each expired entry that names it.\<close>

definition expired_entries :: "u64 \<Rightarrow> nat \<Rightarrow> HD_IRP_TRACK_ENTRY list \<Rightarrow> nat" where
  "expired_entries now a es = length (filter (\<lambda>e. irp_expired now e \<and> te_Irp e = Some a) es)"

lemma watchdog_loop_irp:
  "snd (snd (watchdog_loop now es cnt irps)) a
     = ((complete_irp STATUS_DEVICE_NOT_READY 0) ^^ expired_entries now a es) (irps a)"
  by (induction es arbitrary: cnt irps)
     (auto simp: Let_def expired_entries_def irp_update_def funpow_swap1 case_prod_unfold split: option.splits)

lemma HdIrpTrackerWatchdog_sel:
  "ActiveList (HdIrpTrackerWatchdog now t) = filter (\<lambda>e. \<not> irp_expired now e) (ActiveList t)"
  "ActiveCount (HdIrpTrackerWatchdog now t)
     = ActiveCount t - of_nat (length (filter (irp_expired now) (ActiveList t)))"
  "Irps (HdIrpTrackerWatchdog now t) a
     = ((complete_irp STATUS_DEVICE_NOT_READY 0) ^^ expired_entries now a (ActiveList t)) (Irps t a)"
  "TimerRunning (HdIrpTrackerWatchdog now t)
     = (TimerRunning t \<and> 0 < ActiveCount (HdIrpTrackerWatchdog now t))"
  by (simp_all add: HdIrpTrackerWatchdog_def Let_def case_prod_unfold watchdog_loop_kept
      watchdog_loop_count watchdog_loop_irp)

lemma tracker_ok_submit:
  assumes "tracker_ok t" "length (ActiveList t) < 2 ^ 32 - 1"
  shows "tracker_ok (HdIrpTrackerSubmit alloc now t irp mj mn)"
  using assms by (auto simp: tracker_ok_def HdIrpTrackerSubmit_def Let_def unat_word_ariths)

lemma tracker_ok_complete:
  assumes "tracker_ok t"
  shows "tracker_ok (HdIrpTrackerComplete t irp)"
proof (cases "remove_first irp (ActiveList t)")
  case (Some es)
  have l: "unat (ActiveCount t) = Suc (length es)"
    using assms remove_first_length [OF Some] by (simp add: tracker_ok_def)
  then have "unat (ActiveCount t - 1) = length es" by (simp add: unat_sub word_le_nat_alt)
  moreover have "TimerRunning t" using assms remove_first_length [OF Some] by (auto simp: tracker_ok_def)
  ultimately show ?thesis using Some by (simp add: HdIrpTrackerComplete_def tracker_ok_def)
qed (simp add: assms HdIrpTrackerComplete_def)

lemma tracker_ok_watchdog:
  assumes "tracker_ok t"
  shows "tracker_ok (HdIrpTrackerWatchdog now t)"
proof -
  let ?x = "length (filter (irp_expired now) (ActiveList t))"
  let ?k = "filter (\<lambda>e. \<not> irp_expired now e) (ActiveList t)"
  have l: "unat (ActiveCount t) = ?x + length ?k"
    using assms sum_length_filter_compl [of "irp_expired now" "ActiveList t"] by (simp add: tracker_ok_def)
  have "ActiveCount t = of_nat (?x + length ?k)" unfolding l [symmetric] by simp
  then have "ActiveCount t - of_nat ?x = of_nat (length ?k)" by simp
  moreover have "length ?k < 2 ^ 32" using l unat_less_u32 [of "ActiveCount t"] by simp
  ultimately have c: "unat (ActiveCount (HdIrpTrackerWatchdog now t)) = length ?k"
    by (simp add: HdIrpTrackerWatchdog_sel unat_of_nat take_bit_nat_eq_self)
  moreover have "?k \<noteq> [] \<Longrightarrow> ActiveList t \<noteq> []" by auto
  ultimately show ?thesis
    using assms by (auto simp: tracker_ok_def HdIrpTrackerWatchdog_sel(1,4) word_gt_0 unat_gt_0)
qed

inductive tracker_reachable :: "HD_IRP_TRACKER \<Rightarrow> bool" where
  init: "tracker_reachable (HdIrpTrackerInit t)"
| submit: "tracker_reachable t \<Longrightarrow> length (ActiveList t) < 2 ^ 32 - 1 \<Longrightarrow>
    tracker_reachable (HdIrpTrackerSubmit alloc now t irp mj mn)"
| complete: "tracker_reachable t \<Longrightarrow> tracker_reachable (HdIrpTrackerComplete t irp)"
| watchdog: "tracker_reachable t \<Longrightarrow> tracker_reachable (HdIrpTrackerWatchdog now t)"

lemma tracker_reachable_ok: "tracker_reachable t \<Longrightarrow> tracker_ok t"
proof (induction rule: tracker_reachable.induct)
  case (init t)
  then show ?case by (simp add: HdIrpTrackerInit_def tracker_ok_def)
qed (simp_all add: tracker_ok_submit tracker_ok_complete tracker_ok_watchdog)

lemma expired_entries_unique:
  assumes "distinct (map te_Irp es)" "e \<in> set es" "te_Irp e = Some a"
  shows "expired_entries now a es = (if irp_expired now e then 1 else 0)"
  using assms
proof (induction es)
  case (Cons x xs)
  show ?case
  proof (cases "x = e")
    case True
    then have "filter (\<lambda>e. irp_expired now e \<and> te_Irp e = Some a) xs = []"
      using Cons.prems by (force simp: filter_empty_conv)
    then show ?thesis using True Cons.prems by (simp add: expired_entries_def)
  next
    case False
    then have "te_Irp x \<noteq> Some a" using Cons.prems by force
    then show ?thesis using Cons False by (simp add: expired_entries_def)
  qed
qed simp

text \<open>A time stamp later than the time the watchdog read makes the difference wrap.\<close>

lemma later_stamp_expired:
  assumes "now < SubmitTimestamp e" "unat (SubmitTimestamp e - now) < 2 ^ 63"
  shows "irp_expired now e"
proof -
  let ?a = "unat now" and ?b = "unat (SubmitTimestamp e)"
  have lt: "?a < ?b" using assms(1) by (simp only: word_less_nat_alt)
  then have "unat (SubmitTimestamp e - now) = ?b - ?a" by (simp only: unat_sub_if') simp
  moreover have "unat (now - SubmitTimestamp e) = ?a + 2 ^ 64 - ?b" using lt by (simp only: unat_sub_if') simp
  ultimately have "60000 < unat (now - SubmitTimestamp e)" using lt assms(2) by simp
  moreover have "unat (HD_IRP_TIMEOUT_SEC * 1000) = 60000" by (simp add: HD_IRP_TIMEOUT_SEC_def)
  ultimately show ?thesis by (simp only: irp_expired_def word_less_nat_alt)
qed

section \<open>Properties\<close>


definition empty_tracker :: HD_IRP_TRACKER where
  "empty_tracker = \<lparr>ActiveList = [], ActiveCount = 0, TimerRunning = False, TimerArmed = False,
     Irps = (\<lambda>_. fresh_irp)\<rparr>"

lemma empty_tracker_init: "HdIrpTrackerInit empty_tracker = empty_tracker"
  by (simp add: HdIrpTrackerInit_def empty_tracker_def)

lemma empty_tracker_reachable: "tracker_reachable empty_tracker"
  using tracker_reachable.init [of empty_tracker] by (simp add: empty_tracker_init)




text \<open>
  The watchdog reads the clock before it takes the lock. A request submitted in between has a
  time stamp later than that reading; the unsigned difference wraps, and the watchdog completes
  the request as timed out although it has just been submitted.
\<close>

theorem watchdog_expires_newer_request:
  assumes "now < ts" and "unat (ts - now) < 2 ^ 63" and "ActiveList t = []"
  shows "Irps (HdIrpTrackerWatchdog now (HdIrpTrackerSubmit True ts t irp mj mn)) irp
           = complete_irp STATUS_DEVICE_NOT_READY 0 (Irps t irp\<lparr>References := Suc (References (Irps t irp))\<rparr>)
    \<and> ActiveList (HdIrpTrackerWatchdog now (HdIrpTrackerSubmit True ts t irp mj mn)) = []"
proof -
  define e where "e = \<lparr>te_Irp = Some irp, SubmitTimestamp = ts, te_MajorFunction = mj,
     te_MinorFunction = mn, IoSize = 0\<rparr>"
  have x: "irp_expired now e" using assms by (intro later_stamp_expired) (simp_all add: e_def)
  have t: "ActiveList (HdIrpTrackerSubmit True ts t irp mj mn) = [e]"
    "Irps (HdIrpTrackerSubmit True ts t irp mj mn) irp = Irps t irp\<lparr>References := Suc (References (Irps t irp))\<rparr>"
    using assms(3) by (simp_all add: HdIrpTrackerSubmit_def Let_def e_def irp_update_def)
  show ?thesis using x by (simp add: HdIrpTrackerWatchdog_sel t expired_entries_def) (simp add: e_def)
qed

theorem watchdog_expires_newer_request_witness:
  "ActiveList (HdIrpTrackerWatchdog 1000 (HdIrpTrackerSubmit True 1001 empty_tracker 7 3 0)) = []"
  using watchdog_expires_newer_request [of 1000 1001 empty_tracker 7 3 0] by (simp add: empty_tracker_def)

end
