(* ===== verification/HD_BlkDriver.thy ===== *)
theory HD_BlkDriver
  imports HD_IrpTracker HD_Net
begin

text \<open>
  The block driver, \<^verbatim>\<open>driver/blk/blk_driver.c\<close>, \<^verbatim>\<open>blk_io.c\<close>, \<^verbatim>\<open>blk_ioctl.c\<close>, \<^verbatim>\<open>blk_request.c\<close>,
  \<^verbatim>\<open>blk_fastio.c\<close> and \<^verbatim>\<open>blk_pool.c\<close>: one definition per dispatch routine, on the device extension
  and the request. A division by the block size of an unconfigured device is the fault
  \<^const>\<open>DivideByZero\<close>. The sizes of kernel structures are the parameter \<^verbatim>\<open>sz\<close>.
\<close>

section \<open>State\<close>

record HD_BLK_EXTENSION =
  ChildId :: u32
  be_ImageId :: u64
  DiskSize :: u64
  BlockSize :: u32
  BlockCount :: u32
  be_LayerId :: u8
  IsStarted :: bool
  OpenHandleCount :: u32
  PendingIoCount :: u32
  IoEvent :: bool
  ShutdownEvent :: bool
  NonPagedPoolQuota :: u64
  NonPagedPoolUsage :: u64

record HD_DEVICE_CONFIG =
  cfg_ImageId :: u64
  cfg_DiskSize :: u64
  cfg_BlockSize :: u32
  cfg_BlockCount :: u32
  cfg_LayerId :: u8

record wdk_sizes =
  sizeof_config :: u32
  sizeof_response :: u64
  sizeof_standard_info :: u64
  sizeof_basic_info :: u64

text \<open>Signed 64-bit division of C: it truncates.\<close>

definition sdiv64 :: "int \<Rightarrow> int \<Rightarrow> int" where
  "sdiv64 a b = (if a < 0 then - ((- a) div b) else a div b)"

section \<open>Create, close, flush, shutdown\<close>

definition HdBlkDispatchCreate :: "HD_BLK_EXTENSION \<Rightarrow> IRP \<Rightarrow> NTSTATUS \<times> HD_BLK_EXTENSION \<times> IRP" where
  "HdBlkDispatchCreate ext irp =
     (STATUS_SUCCESS, ext\<lparr>OpenHandleCount := OpenHandleCount ext + 1\<rparr>, complete_irp STATUS_SUCCESS 0 irp)"

definition HdBlkDispatchClose :: "HD_BLK_EXTENSION \<Rightarrow> IRP \<Rightarrow> NTSTATUS \<times> HD_BLK_EXTENSION \<times> IRP" where
  "HdBlkDispatchClose ext irp =
     (STATUS_SUCCESS, ext\<lparr>OpenHandleCount := OpenHandleCount ext - 1\<rparr>, complete_irp STATUS_SUCCESS 0 irp)"

text \<open>The event is set before it is waited for, so the wait is satisfied; a zeroed event stays set.\<close>

definition HdBlkDispatchFlushBuffers :: "HD_BLK_EXTENSION \<Rightarrow> IRP \<Rightarrow> NTSTATUS \<times> HD_BLK_EXTENSION \<times> IRP" where
  "HdBlkDispatchFlushBuffers ext irp =
     (STATUS_SUCCESS, ext\<lparr>IoEvent := True\<rparr>, complete_irp STATUS_SUCCESS 0 irp)"

text \<open>
  The shutdown loop polls a counter that other threads change: \<^verbatim>\<open>pend n\<close> is its value at the
  \<^verbatim>\<open>n\<close>-th look. The value is the number of sleeps, \<^const>\<open>None\<close> if the loop never ends.
\<close>

partial_function (option) shutdown_loop :: "(nat \<Rightarrow> u32) \<Rightarrow> nat \<Rightarrow> nat option" where
  "shutdown_loop pend n = (if 0 < sint (pend n) then shutdown_loop pend (Suc n) else Some n)"

definition HdBlkDispatchShutdown ::
  "(nat \<Rightarrow> u32) \<Rightarrow> HD_BLK_EXTENSION \<Rightarrow> IRP \<Rightarrow> (NTSTATUS \<times> HD_BLK_EXTENSION \<times> IRP) option" where
  "HdBlkDispatchShutdown pend ext irp =
     (let ext1 = ext\<lparr>ShutdownEvent := True, IsStarted := False\<rparr> in
      map_option (\<lambda>n. (STATUS_SUCCESS, ext1\<lparr>PendingIoCount := pend n\<rparr>, complete_irp STATUS_SUCCESS 0 irp))
        (shutdown_loop pend 0))"

section \<open>Information requests\<close>

datatype query_class = FileStandardInformation | FileBasicInformation | QueryOther

datatype set_class = FileAllocationInformation u64 | FileEndOfFileInformation u64 | SetOther

record FILE_STANDARD_INFORMATION =
  AllocationSize :: u64
  EndOfFile :: u64
  NumberOfLinks :: u32
  DeletePending :: bool
  Directory :: bool

datatype query_result = StandardInfo FILE_STANDARD_INFORMATION | BasicInfo u32 | NoInfo

definition FILE_ATTRIBUTE_NORMAL :: u32 where "FILE_ATTRIBUTE_NORMAL = 0x80"

definition standard_info :: "HD_BLK_EXTENSION \<Rightarrow> FILE_STANDARD_INFORMATION" where
  "standard_info ext = \<lparr>AllocationSize = DiskSize ext, EndOfFile = DiskSize ext, NumberOfLinks = 1,
     DeletePending = False, Directory = False\<rparr>"

definition HdBlkDispatchQueryInformation ::
  "wdk_sizes \<Rightarrow> query_class \<Rightarrow> HD_BLK_EXTENSION \<Rightarrow> IRP \<Rightarrow> NTSTATUS \<times> query_result \<times> IRP" where
  "HdBlkDispatchQueryInformation sz cls ext irp =
     (let (result, info) = (case cls of
            FileStandardInformation \<Rightarrow> (StandardInfo (standard_info ext), sizeof_standard_info sz)
          | FileBasicInformation \<Rightarrow> (BasicInfo FILE_ATTRIBUTE_NORMAL, sizeof_basic_info sz)
          | QueryOther \<Rightarrow> (NoInfo, 0))
      in (STATUS_SUCCESS, result, complete_irp STATUS_SUCCESS info irp))"

definition resize_disk :: "u64 \<Rightarrow> HD_BLK_EXTENSION \<Rightarrow> HD_BLK_EXTENSION res" where
  "resize_disk bytes ext =
     (let ext1 = ext\<lparr>DiskSize := bytes\<rparr> in
      if BlockSize ext1 = 0 then Inl DivideByZero
      else Inr (ext1\<lparr>BlockCount := ucast (DiskSize ext1 div ucast (BlockSize ext1))\<rparr>))"

definition HdBlkDispatchSetInformation ::
  "set_class \<Rightarrow> HD_BLK_EXTENSION \<Rightarrow> IRP \<Rightarrow> (NTSTATUS \<times> HD_BLK_EXTENSION \<times> IRP) res" where
  "HdBlkDispatchSetInformation cls ext irp =
     rbind (case cls of
              FileAllocationInformation bytes \<Rightarrow> resize_disk bytes ext
            | FileEndOfFileInformation bytes \<Rightarrow> resize_disk bytes ext
            | SetOther \<Rightarrow> Inr ext)
       (\<lambda>ext'. Inr (STATUS_SUCCESS, ext', complete_irp STATUS_SUCCESS 0 irp))"

section \<open>Plug and play, device control\<close>

datatype pnp_minor = IRP_MN_START_DEVICE | IRP_MN_REMOVE_DEVICE | IRP_MN_QUERY_DEVICE_RELATIONS | PnpOther

definition HdBlkDispatchPnp :: "pnp_minor \<Rightarrow> HD_BLK_EXTENSION \<Rightarrow> IRP \<Rightarrow> NTSTATUS \<times> HD_BLK_EXTENSION \<times> IRP" where
  "HdBlkDispatchPnp minor ext irp =
     (let ext' = (case minor of
            IRP_MN_START_DEVICE \<Rightarrow> ext\<lparr>IsStarted := True\<rparr>
          | IRP_MN_REMOVE_DEVICE \<Rightarrow> ext\<lparr>IsStarted := False\<rparr>
          | IRP_MN_QUERY_DEVICE_RELATIONS \<Rightarrow> ext
          | PnpOther \<Rightarrow> ext)
      in (STATUS_SUCCESS, ext', complete_irp STATUS_SUCCESS 0 irp))"

datatype blk_ioctl = IOCTL_HD_SET_CONFIG | IOCTL_HD_GET_STATUS | IoctlOther

text \<open>
  The system buffer holds the configuration on input; the only member of the response that the
  code writes is \<^verbatim>\<open>Status\<close>, returned here as an option.
\<close>

definition HdBlkDispatchIoctl ::
  "wdk_sizes \<Rightarrow> blk_ioctl \<Rightarrow> u32 \<Rightarrow> HD_DEVICE_CONFIG \<Rightarrow> HD_BLK_EXTENSION \<Rightarrow> IRP
   \<Rightarrow> NTSTATUS \<times> HD_BLK_EXTENSION \<times> IRP \<times> u32 option" where
  "HdBlkDispatchIoctl sz code in_len config ext irp =
     (case code of
        IOCTL_HD_SET_CONFIG \<Rightarrow>
          (if in_len < sizeof_config sz
           then (STATUS_BUFFER_TOO_SMALL, ext, complete_irp STATUS_BUFFER_TOO_SMALL 0 irp, None)
           else (STATUS_SUCCESS,
                 ext\<lparr>be_ImageId := cfg_ImageId config, DiskSize := cfg_DiskSize config,
                     BlockSize := cfg_BlockSize config, BlockCount := cfg_BlockCount config,
                     be_LayerId := cfg_LayerId config, IsStarted := True\<rparr>,
                 complete_irp STATUS_SUCCESS 0 irp, None))
      | IOCTL_HD_GET_STATUS \<Rightarrow>
          (STATUS_SUCCESS, ext, complete_irp STATUS_SUCCESS (sizeof_response sz) irp,
           Some (if IsStarted ext then 0 else -1))
      | IoctlOther \<Rightarrow>
          (STATUS_INVALID_DEVICE_REQUEST, ext, complete_irp STATUS_INVALID_DEVICE_REQUEST 0 irp, None))"

section \<open>Reading and writing\<close>

definition HdBlkSubmitBlockRequest :: "HD_BLK_EXTENSION \<Rightarrow> HD_BLOCK_REQUEST \<Rightarrow> NTSTATUS" where
  "HdBlkSubmitBlockRequest ext req = STATUS_SUCCESS"

text \<open>
  The body the two routines share but for \<^verbatim>\<open>IsWrite\<close>; the byte offset is signed, the length is not.
\<close>

definition blk_transfer ::
  "u8 \<Rightarrow> u64 \<Rightarrow> u32 \<Rightarrow> HD_BLK_EXTENSION \<Rightarrow> IRP \<Rightarrow> (NTSTATUS \<times> HD_BLOCK_REQUEST \<times> IRP) res" where
  "blk_transfer is_write byte_offset len ext irp =
     (if BlockSize ext = 0 then Inl DivideByZero
      else let request = \<lparr>br_ImageId = be_ImageId ext,
                          br_BlockOffset = word_of_int (sdiv64 (sint byte_offset) (uint (BlockSize ext))),
                          br_BlockCount = len div BlockSize ext,
                          br_LayerId = be_LayerId ext, br_IsWrite = is_write\<rparr>;
               status = HdBlkSubmitBlockRequest ext request
           in if \<not> NT_SUCCESS status then Inr (status, request, complete_irp status 0 irp)
              else Inr (STATUS_PENDING, request, irp))"

definition HdBlkDispatchRead ::
  "u64 \<Rightarrow> u32 \<Rightarrow> HD_BLK_EXTENSION \<Rightarrow> IRP \<Rightarrow> (NTSTATUS \<times> HD_BLOCK_REQUEST \<times> IRP) res" where
  "HdBlkDispatchRead = blk_transfer 0"

definition HdBlkDispatchWrite ::
  "u64 \<Rightarrow> u32 \<Rightarrow> HD_BLK_EXTENSION \<Rightarrow> IRP \<Rightarrow> (NTSTATUS \<times> HD_BLOCK_REQUEST \<times> IRP) res" where
  "HdBlkDispatchWrite = blk_transfer 1"

section \<open>Fast I/O\<close>

text \<open>The result and, where the routine writes it, the status block.\<close>

definition HdBlkFastIoRead :: "u32 \<Rightarrow> HD_BLK_EXTENSION \<Rightarrow> bool \<times> (NTSTATUS \<times> u64) option" where
  "HdBlkFastIoRead len ext = (if \<not> IsStarted ext then (False, None) else (True, Some (STATUS_SUCCESS, ucast len)))"

definition HdBlkFastIoWrite :: "u32 \<Rightarrow> HD_BLK_EXTENSION \<Rightarrow> bool \<times> (NTSTATUS \<times> u64) option" where
  "HdBlkFastIoWrite len ext = (if \<not> IsStarted ext then (False, None) else (True, Some (STATUS_SUCCESS, ucast len)))"

definition HdBlkFastIoQueryBasicInfo :: "wdk_sizes \<Rightarrow> bool \<times> query_result \<times> NTSTATUS \<times> u64" where
  "HdBlkFastIoQueryBasicInfo sz = (True, BasicInfo FILE_ATTRIBUTE_NORMAL, STATUS_SUCCESS, sizeof_basic_info sz)"

definition HdBlkFastIoQueryStandardInfo ::
  "wdk_sizes \<Rightarrow> HD_BLK_EXTENSION \<Rightarrow> bool \<times> query_result \<times> NTSTATUS \<times> u64" where
  "HdBlkFastIoQueryStandardInfo sz ext =
     (True, StandardInfo (standard_info ext), STATUS_SUCCESS, sizeof_standard_info sz)"

definition HdBlkFastIoDeviceControl :: "bool \<times> NTSTATUS" where
  "HdBlkFastIoDeviceControl = (False, STATUS_NOT_SUPPORTED)"

section \<open>Pool quota\<close>

text \<open>The comparison is signed and the sum wraps as 64-bit two's complement.\<close>

definition HdPoolCheckQuota :: "HD_BLK_EXTENSION \<Rightarrow> u64 \<Rightarrow> NTSTATUS \<times> HD_BLK_EXTENSION" where
  "HdPoolCheckQuota ext bytes =
     (if sint (NonPagedPoolQuota ext) < sint (NonPagedPoolUsage ext + bytes)
      then (STATUS_INSUFFICIENT_RESOURCES, ext)
      else (STATUS_SUCCESS, ext\<lparr>NonPagedPoolUsage := NonPagedPoolUsage ext + bytes\<rparr>))"

section \<open>Driver entry\<close>

text \<open>
  \<^verbatim>\<open>ref n\<close> is what the \<^verbatim>\<open>n\<close>-th attempt to open the network device returns. The loop is left at
  the first success or after 100 failures, each followed by a sleep of 100000 units of 100 ns.
\<close>

function wait_hdnet :: "(nat \<Rightarrow> NTSTATUS) \<Rightarrow> nat \<Rightarrow> nat" where
  "wait_hdnet ref retry =
     (if retry < 100 then if NT_SUCCESS (ref retry) then retry else wait_hdnet ref (Suc retry)
      else retry)"
  by pat_completeness auto
termination by (relation "measure (\<lambda>(_, n). 100 - n)") auto

declare wait_hdnet.simps [simp del]

record blk_driver =
  bd_log :: "string list"
  bd_slept :: nat
  bd_dispatch_set :: bool
  g_IrpTracker :: HD_IRP_TRACKER

definition HdBlkDriverEntry :: "(nat \<Rightarrow> NTSTATUS) \<Rightarrow> blk_driver \<Rightarrow> NTSTATUS \<times> blk_driver" where
  "HdBlkDriverEntry ref d =
     (let retry = wait_hdnet ref 0;
          log = [''[HDx:BLK_LOADED] HDBlk DriverEntry'' @ crlf]
                @ (if retry < 100 then [''[HDx:BLK_LOADED] HDNet is ready'' @ crlf] else [])
                @ (if 100 \<le> retry then [''[HDx:BLK_LOADED] WARNING: HDNet not ready after 10s, proceeding anyway'' @ crlf] else [])
      in (STATUS_SUCCESS,
          d\<lparr>bd_log := bd_log d @ log, bd_slept := bd_slept d + retry * 100000, bd_dispatch_set := True,
            g_IrpTracker := HdIrpTrackerInit (g_IrpTracker d)\<rparr>))"

text \<open>The dispatch table the entry point installs, with the request's parameters.\<close>

datatype blk_io =
    BlkCreate | BlkClose | BlkRead u64 u32 | BlkWrite u64 u32 | BlkFlush
  | BlkShutdown "nat \<Rightarrow> u32" | BlkQuery query_class | BlkSet set_class
  | BlkPnp pnp_minor | BlkIoctl blk_ioctl u32 HD_DEVICE_CONFIG

fun blk_dispatch ::
  "wdk_sizes \<Rightarrow> blk_io \<Rightarrow> HD_BLK_EXTENSION \<Rightarrow> IRP \<Rightarrow> (NTSTATUS \<times> HD_BLK_EXTENSION \<times> IRP) res option" where
  "blk_dispatch sz BlkCreate ext irp = Some (Inr (HdBlkDispatchCreate ext irp))"
| "blk_dispatch sz BlkClose ext irp = Some (Inr (HdBlkDispatchClose ext irp))"
| "blk_dispatch sz (BlkRead off len) ext irp =
     Some (rbind (HdBlkDispatchRead off len ext irp) (\<lambda>(st, _, irp'). Inr (st, ext, irp')))"
| "blk_dispatch sz (BlkWrite off len) ext irp =
     Some (rbind (HdBlkDispatchWrite off len ext irp) (\<lambda>(st, _, irp'). Inr (st, ext, irp')))"
| "blk_dispatch sz BlkFlush ext irp = Some (Inr (HdBlkDispatchFlushBuffers ext irp))"
| "blk_dispatch sz (BlkShutdown pend) ext irp = map_option Inr (HdBlkDispatchShutdown pend ext irp)"
| "blk_dispatch sz (BlkQuery cls) ext irp =
     (let (st, _, irp') = HdBlkDispatchQueryInformation sz cls ext irp in Some (Inr (st, ext, irp')))"
| "blk_dispatch sz (BlkSet cls) ext irp = Some (HdBlkDispatchSetInformation cls ext irp)"
| "blk_dispatch sz (BlkPnp minor) ext irp = Some (Inr (HdBlkDispatchPnp minor ext irp))"
| "blk_dispatch sz (BlkIoctl code n cfg) ext irp =
     (let (st, ext', irp', _) = HdBlkDispatchIoctl sz code n cfg ext irp in Some (Inr (st, ext', irp')))"

fun is_transfer :: "blk_io \<Rightarrow> bool" where
  "is_transfer (BlkRead _ _) = True"
| "is_transfer (BlkWrite _ _) = True"
| "is_transfer _ = False"

fun is_resize :: "blk_io \<Rightarrow> bool" where
  "is_resize (BlkSet (FileAllocationInformation _)) = True"
| "is_resize (BlkSet (FileEndOfFileInformation _)) = True"
| "is_resize _ = False"

section \<open>Lemmas\<close>

lemmas blk_handlers = HdBlkDispatchCreate_def HdBlkDispatchClose_def HdBlkDispatchFlushBuffers_def
  HdBlkDispatchShutdown_def HdBlkDispatchQueryInformation_def HdBlkDispatchSetInformation_def
  HdBlkDispatchPnp_def HdBlkDispatchIoctl_def HdBlkDispatchRead_def HdBlkDispatchWrite_def
  blk_transfer_def HdBlkSubmitBlockRequest_def

lemma wait_hdnet_bounds:
  "n \<le> 100 \<Longrightarrow> n \<le> wait_hdnet ref n \<and> wait_hdnet ref n \<le> 100
     \<and> (wait_hdnet ref n < 100 \<longrightarrow> NT_SUCCESS (ref (wait_hdnet ref n)))
     \<and> (\<forall>k. n \<le> k \<and> k < wait_hdnet ref n \<longrightarrow> \<not> NT_SUCCESS (ref k))"
proof (induction ref n rule: wait_hdnet.induct)
  case (1 ref n)
  show ?case
  proof (cases "n < 100 \<and> \<not> NT_SUCCESS (ref n)")
    case True
    then have e: "wait_hdnet ref n = wait_hdnet ref (Suc n)" by (simp add: wait_hdnet.simps [of ref n])
    have "k = n \<or> Suc n \<le> k" if "n \<le> k" for k using that by auto
    then show ?thesis using 1 True unfolding e by (metis Suc_leD Suc_leI)
  next
    case False
    then have "wait_hdnet ref n = n" using 1 by (auto simp: wait_hdnet.simps [of ref n])
    then show ?thesis using False 1 by auto
  qed
qed

lemma shutdown_loop_returns:
  "sint (pend m) \<le> 0 \<Longrightarrow> n \<le> m \<Longrightarrow> \<exists>k. shutdown_loop pend n = Some k \<and> sint (pend k) \<le> 0"
proof (induction "m - n" arbitrary: n)
  case 0
  then show ?case by (simp add: shutdown_loop.simps [of pend n])
next
  case (Suc d)
  show ?case
  proof (cases "0 < sint (pend n)")
    case True
    then show ?thesis using Suc(1) [of "Suc n"] Suc.prems Suc(2) by (simp add: shutdown_loop.simps [of pend n])
  qed (simp add: shutdown_loop.simps [of pend n])
qed

lemma shutdown_loop_result: "shutdown_loop pend n = Some k \<Longrightarrow> sint (pend k) \<le> 0"
proof (rule shutdown_loop.raw_induct [where P = "\<lambda>pend n k. sint (pend k) \<le> 0"])
  fix f pend n k
  assume ih: "\<And>p x y. f p x = Some y \<Longrightarrow> sint (p y) \<le> 0"
    and eq: "(if 0 < sint (pend n) then f pend (Suc n) else Some n) = Some k"
  show "sint (pend k) \<le> 0"
    using eq ih by (auto split: if_splits)
qed

section \<open>Properties\<close>


definition example_ext :: HD_BLK_EXTENSION where
  "example_ext = \<lparr>ChildId = 0, be_ImageId = 1, DiskSize = 1048576, BlockSize = 512, BlockCount = 2048,
     be_LayerId = 0, IsStarted = True, OpenHandleCount = 0, PendingIoCount = 0, IoEvent = False,
     ShutdownEvent = False, NonPagedPoolQuota = 4096, NonPagedPoolUsage = 0\<rparr>"

definition example_sizes :: wdk_sizes where
  "example_sizes = \<lparr>sizeof_config = 96, sizeof_response = 24, sizeof_standard_info = 24, sizeof_basic_info = 40\<rparr>"


text \<open>
  The only fault of the block driver is a division by zero, and it happens exactly for a
  read, a write or a change of size on a device whose block size is zero, that is, one that has
  not been configured.
\<close>

theorem blk_faults_iff_unconfigured:
  "blk_dispatch sz io ext irp = Some (Inl e)
     \<longleftrightarrow> e = DivideByZero \<and> BlockSize ext = 0 \<and> (is_transfer io \<or> is_resize io)"
  by (cases io rule: is_resize.cases)
     (auto simp: blk_handlers resize_disk_def Let_def split: if_splits query_class.splits blk_ioctl.splits)

text \<open>
  A shutdown request completes if and only if the count of pending I/O is seen at or below
  zero at some look; it then has stopped the device first.
\<close>

theorem blk_shutdown_completes_iff:
  "(\<exists>ext' irp'. HdBlkDispatchShutdown pend ext irp = Some (STATUS_SUCCESS, ext', irp')
       \<and> \<not> IsStarted ext' \<and> ShutdownEvent ext' \<and> handled_once irp irp')
     \<longleftrightarrow> (\<exists>n. sint (pend n) \<le> 0)"
proof
  assume "\<exists>n. sint (pend n) \<le> 0"
  then obtain k where "shutdown_loop pend 0 = Some k" using shutdown_loop_returns by blast
  then show "\<exists>ext' irp'. HdBlkDispatchShutdown pend ext irp = Some (STATUS_SUCCESS, ext', irp')
       \<and> \<not> IsStarted ext' \<and> ShutdownEvent ext' \<and> handled_once irp irp'"
    by (auto simp: HdBlkDispatchShutdown_def Let_def)
qed (auto simp: HdBlkDispatchShutdown_def Let_def dest: shutdown_loop_result)

text \<open>
  The entry point waits for the network device for at most 100 sleeps of 10 ms, one second in
  all (the warning it logs says ten), waits no longer than until the first attempt that
  succeeds, and succeeds whether or not the device appeared, with the request tracker empty.
\<close>

theorem blk_entry_bounded_wait:
  "\<exists>retry d'. HdBlkDriverEntry ref d = (STATUS_SUCCESS, d') \<and> retry \<le> 100
     \<and> bd_slept d' = bd_slept d + retry * 100000 \<and> bd_slept d' \<le> bd_slept d + 10000000
     \<and> (\<forall>k. k < retry \<longrightarrow> \<not> NT_SUCCESS (ref k))
     \<and> (retry < 100 \<longrightarrow> NT_SUCCESS (ref retry))
     \<and> bd_dispatch_set d' \<and> ActiveList (g_IrpTracker d') = []"
proof (intro exI conjI)
  show "HdBlkDriverEntry ref d = (STATUS_SUCCESS, snd (HdBlkDriverEntry ref d))"
    by (simp add: HdBlkDriverEntry_def Let_def)
  show "wait_hdnet ref 0 \<le> 100" "\<forall>k. k < wait_hdnet ref 0 \<longrightarrow> \<not> NT_SUCCESS (ref k)"
    "wait_hdnet ref 0 < 100 \<longrightarrow> NT_SUCCESS (ref (wait_hdnet ref 0))"
    using wait_hdnet_bounds [of 0 ref] by auto
  then show "bd_slept (snd (HdBlkDriverEntry ref d)) \<le> bd_slept d + 10000000"
    by (simp add: HdBlkDriverEntry_def Let_def)
qed (simp_all add: HdBlkDriverEntry_def Let_def HdIrpTrackerInit_def)

theorem blk_entry_bounded_wait_witness:
  "\<exists>retry d'. HdBlkDriverEntry (\<lambda>n. if n < 3 then STATUS_NOT_FOUND else STATUS_SUCCESS)
       \<lparr>bd_log = [], bd_slept = 0, bd_dispatch_set = False, g_IrpTracker = empty_tracker\<rparr>
       = (STATUS_SUCCESS, d') \<and> bd_slept d' = retry * 100000 \<and> bd_slept d' \<le> 10000000 \<and> retry \<le> 100"
  using blk_entry_bounded_wait [of "\<lambda>n. if n < 3 then STATUS_NOT_FOUND else STATUS_SUCCESS"
      "\<lparr>bd_log = [], bd_slept = 0, bd_dispatch_set = False, g_IrpTracker = empty_tracker\<rparr>"]
  by auto

end
