(* ===== verification/HD_BlkLocks.thy ===== *)
theory HD_BlkLocks
  imports HD_Prelude
begin

text \<open>
  The lock callbacks for the cache manager and the memory manager,
  \<^verbatim>\<open>driver/blk/blk_cc_mm_sync.c\<close>. Each callback is the sequence of resource operations it performs;
  threads interleave at these operations. A resource is acquired shared or exclusive, and a shared
  request waits for exclusive waiters as well as for an exclusive owner, as the kernel documents
  for \<^verbatim>\<open>ExAcquireResourceSharedLite\<close>.
\<close>

section \<open>Callbacks\<close>

datatype blk_lock = FsRtlHeaderLock | CcFlushLock | MmModWriteLock

datatype lock_act = AcqShared blk_lock | AcqExclusive blk_lock | Release blk_lock

definition HdBlkAcquireForCcFlush :: "lock_act list" where
  "HdBlkAcquireForCcFlush = [AcqShared FsRtlHeaderLock, AcqExclusive CcFlushLock]"

definition HdBlkReleaseForCcFlush :: "lock_act list" where
  "HdBlkReleaseForCcFlush = [Release CcFlushLock, Release FsRtlHeaderLock]"

definition HdBlkAcquireForModWrite :: "lock_act list" where
  "HdBlkAcquireForModWrite = [AcqShared FsRtlHeaderLock, AcqExclusive MmModWriteLock]"

definition HdBlkReleaseForModWrite :: "lock_act list" where
  "HdBlkReleaseForModWrite = [Release MmModWriteLock, Release FsRtlHeaderLock]"

definition HdBlkAcquireFileForNtCreateSection :: "lock_act list" where
  "HdBlkAcquireFileForNtCreateSection = [AcqExclusive FsRtlHeaderLock]"

definition HdBlkReleaseFileForNtCreateSection :: "lock_act list" where
  "HdBlkReleaseFileForNtCreateSection = [Release FsRtlHeaderLock]"

text \<open>The callers bracket their work with a pair of callbacks; a thread does any number of them.\<close>

datatype lock_session = CcFlush | ModWrite | CreateSection

fun session_acts :: "lock_session \<Rightarrow> lock_act list" where
  "session_acts CcFlush = HdBlkAcquireForCcFlush @ HdBlkReleaseForCcFlush"
| "session_acts ModWrite = HdBlkAcquireForModWrite @ HdBlkReleaseForModWrite"
| "session_acts CreateSection = HdBlkAcquireFileForNtCreateSection @ HdBlkReleaseFileForNtCreateSection"

section \<open>Interleaving\<close>

record ERESOURCE =
  sharers :: "nat set"
  excl_owner :: "nat option"

record lock_state =
  progs :: "lock_act list list"
  resources :: "blk_lock \<Rightarrow> ERESOURCE"

definition excl_waiter :: "lock_state \<Rightarrow> blk_lock \<Rightarrow> bool" where
  "excl_waiter s l \<longleftrightarrow> (\<exists>p \<in> set (progs s). \<exists>q. p = AcqExclusive l # q)"

fun lock_enabled :: "lock_state \<Rightarrow> lock_act \<Rightarrow> bool" where
  "lock_enabled s (AcqShared l) \<longleftrightarrow> excl_owner (resources s l) = None \<and> \<not> excl_waiter s l"
| "lock_enabled s (AcqExclusive l) \<longleftrightarrow> excl_owner (resources s l) = None \<and> sharers (resources s l) = {}"
| "lock_enabled s (Release l) \<longleftrightarrow> True"

fun lock_exec :: "nat \<Rightarrow> lock_act \<Rightarrow> (blk_lock \<Rightarrow> ERESOURCE) \<Rightarrow> blk_lock \<Rightarrow> ERESOURCE" where
  "lock_exec i (AcqShared l) r = r(l := (r l)\<lparr>sharers := insert i (sharers (r l))\<rparr>)"
| "lock_exec i (AcqExclusive l) r = r(l := (r l)\<lparr>excl_owner := Some i\<rparr>)"
| "lock_exec i (Release l) r =
     r(l := (if excl_owner (r l) = Some i then (r l)\<lparr>excl_owner := None\<rparr>
             else (r l)\<lparr>sharers := sharers (r l) - {i}\<rparr>))"

inductive lock_step :: "lock_state \<Rightarrow> lock_state \<Rightarrow> bool" where
  "i < length (progs s) \<Longrightarrow> progs s ! i = a # as \<Longrightarrow> lock_enabled s a \<Longrightarrow>
   lock_step s (s\<lparr>progs := (progs s)[i := as], resources := lock_exec i a (resources s)\<rparr>)"

definition lock_init :: "lock_session list list \<Rightarrow> lock_state" where
  "lock_init threads =
     \<lparr>progs = map (\<lambda>ss. concat (map session_acts ss)) threads,
      resources = (\<lambda>_. \<lparr>sharers = {}, excl_owner = None\<rparr>)\<rparr>"

inductive_cases lock_step_elim: "lock_step s s'"

section \<open>Lock discipline\<close>

text \<open>
  \<^verbatim>\<open>runs held p\<close>: a thread that owns \<^verbatim>\<open>held\<close> and has \<^verbatim>\<open>p\<close> left to do takes the header lock first,
  takes another lock only under the header lock alone, and gives back everything.
\<close>

inductive runs :: "blk_lock set \<Rightarrow> lock_act list \<Rightarrow> bool" where
  runs_nil: "runs {} []"
| runs_shared: "runs {FsRtlHeaderLock} p \<Longrightarrow> runs {} (AcqShared FsRtlHeaderLock # p)"
| runs_excl: "runs {FsRtlHeaderLock} p \<Longrightarrow> runs {} (AcqExclusive FsRtlHeaderLock # p)"
| runs_inner: "l \<noteq> FsRtlHeaderLock \<Longrightarrow> runs {FsRtlHeaderLock, l} p \<Longrightarrow>
    runs {FsRtlHeaderLock} (AcqExclusive l # p)"
| runs_release: "l \<notin> held \<Longrightarrow> runs held p \<Longrightarrow> runs (insert l held) (Release l # p)"

inductive_cases runs_AcqShared: "runs held (AcqShared l # p)"
inductive_cases runs_AcqExclusive: "runs held (AcqExclusive l # p)"
inductive_cases runs_Release: "runs held (Release l # p)"
inductive_cases runs_Nil: "runs held []"

lemma runs_session: "runs {} p \<Longrightarrow> runs {} (session_acts ss @ p)"
proof (cases ss)
  case CcFlush
  assume p: "runs {} p"
  have "runs {FsRtlHeaderLock} (Release FsRtlHeaderLock # p)" using runs_release [OF _ p] by simp
  from runs_release [OF _ this, of CcFlushLock]
  have "runs {FsRtlHeaderLock, CcFlushLock} (Release CcFlushLock # Release FsRtlHeaderLock # p)"
    by (simp add: insert_commute)
  then show ?thesis using CcFlush
    by (auto simp: HdBlkAcquireForCcFlush_def HdBlkReleaseForCcFlush_def intro!: runs_shared runs_inner)
next
  case ModWrite
  assume p: "runs {} p"
  have "runs {FsRtlHeaderLock} (Release FsRtlHeaderLock # p)" using runs_release [OF _ p] by simp
  from runs_release [OF _ this, of MmModWriteLock]
  have "runs {FsRtlHeaderLock, MmModWriteLock} (Release MmModWriteLock # Release FsRtlHeaderLock # p)"
    by (simp add: insert_commute)
  then show ?thesis using ModWrite
    by (auto simp: HdBlkAcquireForModWrite_def HdBlkReleaseForModWrite_def intro!: runs_shared runs_inner)
next
  case CreateSection
  assume p: "runs {} p"
  have "runs {FsRtlHeaderLock} (Release FsRtlHeaderLock # p)" using runs_release [OF _ p] by simp
  then show ?thesis using CreateSection
    by (auto simp: HdBlkAcquireFileForNtCreateSection_def HdBlkReleaseFileForNtCreateSection_def
        intro!: runs_excl)
qed

lemma runs_sessions: "runs {} (concat (map session_acts ss))"
  by (induction ss) (auto intro: runs_nil runs_session)

text \<open>A thread that owns a lock other than the header lock is about to release one.\<close>

lemma runs_inner_releases:
  assumes "runs held p" "l \<in> held" "l \<noteq> FsRtlHeaderLock"
  obtains x q where "p = Release x # q"
  using assms by (cases rule: runs.cases) auto

section \<open>Invariant\<close>

definition owned :: "lock_state \<Rightarrow> nat \<Rightarrow> blk_lock set" where
  "owned s i = {l. excl_owner (resources s l) = Some i \<or> i \<in> sharers (resources s l)}"

definition locks_ok :: "lock_state \<Rightarrow> bool" where
  "locks_ok s \<longleftrightarrow> (\<forall>i < length (progs s). runs (owned s i) (progs s ! i))
     \<and> (\<forall>l. excl_owner (resources s l) \<noteq> None \<longrightarrow> sharers (resources s l) = {})
     \<and> (\<forall>i l. l \<in> owned s i \<longrightarrow> i < length (progs s))"

lemma locks_ok_init: "locks_ok (lock_init threads)"
  by (auto simp: locks_ok_def lock_init_def owned_def runs_sessions)

lemma owned_exec_other:
  "j \<noteq> i \<Longrightarrow> lock_enabled s a \<Longrightarrow>
   owned (s\<lparr>progs := ps, resources := lock_exec i a (resources s)\<rparr>) j = owned s j"
  by (cases a) (auto simp: owned_def)

lemma owned_exec_self:
  assumes "\<forall>l. excl_owner (resources s l) \<noteq> None \<longrightarrow> sharers (resources s l) = {}"
  shows "owned (s\<lparr>progs := ps, resources := lock_exec i a (resources s)\<rparr>) i =
    (case a of AcqShared l \<Rightarrow> insert l (owned s i) | AcqExclusive l \<Rightarrow> insert l (owned s i)
     | Release l \<Rightarrow> owned s i - {l})"
  using assms by (cases a) (auto simp: owned_def)

text \<open>What a step leaves of the program still follows the discipline with the locks now owned.\<close>

lemma runs_step:
  assumes "runs held (a # as)"
  shows "runs (case a of AcqShared l \<Rightarrow> insert l held | AcqExclusive l \<Rightarrow> insert l held
     | Release l \<Rightarrow> held - {l}) as"
  using assms
  by (cases a) (auto elim!: runs_AcqShared runs_AcqExclusive runs_Release simp: insert_commute)

lemma locks_ok_step:
  assumes ok: "locks_ok s" and st: "lock_step s s'"
  shows "locks_ok s'"
  using st
proof (cases rule: lock_step.cases)
  case (1 i a as)
  let ?s' = "s\<lparr>progs := (progs s)[i := as], resources := lock_exec i a (resources s)\<rparr>"
  have ex: "\<forall>l. excl_owner (resources s l) \<noteq> None \<longrightarrow> sharers (resources s l) = {}"
    using ok by (simp add: locks_ok_def)
  have "runs (owned s i) (a # as)" using ok 1 by (metis locks_ok_def)
  then have r: "runs (owned ?s' i) as" using runs_step owned_exec_self [OF ex] by metis
  have o: "owned ?s' j = owned s j" if "j \<noteq> i" for j using that 1(4) by (rule owned_exec_other)
  have "runs (owned ?s' j) (progs ?s' ! j)" if "j < length (progs s)" for j
    using that r o ok 1(2) by (cases "j = i") (simp_all add: locks_ok_def)
  moreover have "\<forall>l. excl_owner (resources ?s' l) \<noteq> None \<longrightarrow> sharers (resources ?s' l) = {}"
    using ex 1(4) by (cases a) auto
  moreover have "j < length (progs s)" if "l \<in> owned ?s' j" for j l
    using that o ok 1(2) by (cases "j = i") (auto simp: locks_ok_def)
  ultimately show ?thesis unfolding 1(1) by (simp add: locks_ok_def)
qed

lemma locks_ok_steps: "lock_step\<^sup>*\<^sup>* s s' \<Longrightarrow> locks_ok s \<Longrightarrow> locks_ok s'"
  by (induction rule: rtranclp_induct) (auto intro: locks_ok_step)

text \<open>If nothing can be released, then nothing is owned, and the first waiter can go on.\<close>

lemma no_release_nothing_owned:
  assumes ok: "locks_ok s"
    and nr: "\<And>i l q. i < length (progs s) \<Longrightarrow> progs s ! i \<noteq> Release l # q"
    and ni: "\<And>i l q. i < length (progs s) \<Longrightarrow> l \<noteq> FsRtlHeaderLock \<Longrightarrow> progs s ! i \<noteq> AcqExclusive l # q"
  shows "owned s i = {}"
proof (cases "i < length (progs s)")
  case True
  then have "runs (owned s i) (progs s ! i)" using ok by (simp add: locks_ok_def)
  then show ?thesis using nr [OF True] ni [OF True] by (cases rule: runs.cases) auto
qed (use ok in \<open>auto simp: locks_ok_def\<close>)

lemma inner_lock_free:
  assumes ok: "locks_ok s" and l: "l \<noteq> FsRtlHeaderLock"
    and nr: "\<And>i l q. i < length (progs s) \<Longrightarrow> progs s ! i \<noteq> Release l # q"
  shows "excl_owner (resources s l) = None \<and> sharers (resources s l) = {}"
proof -
  have "l \<notin> owned s i" for i
  proof
    assume o: "l \<in> owned s i"
    then have i: "i < length (progs s)" using ok by (auto simp: locks_ok_def)
    then have "runs (owned s i) (progs s ! i)" using ok by (simp add: locks_ok_def)
    then show False using runs_inner_releases [OF _ o l] nr [OF i] by metis
  qed
  then show ?thesis by (cases "excl_owner (resources s l)") (auto simp: owned_def)
qed

lemma locks_progress:
  assumes ok: "locks_ok s" and ne: "\<exists>p \<in> set (progs s). p \<noteq> []"
  shows "\<exists>s'. lock_step s s'"
proof (rule ccontr)
  assume "\<nexists>s'. lock_step s s'"
  then have stuck: "\<not> lock_enabled s a" if "i < length (progs s)" "progs s ! i = a # as" for i a as
    using that lock_step.intros by blast
  then have nr: "progs s ! i \<noteq> Release l # q" if "i < length (progs s)" for i l q
    using that by (metis lock_enabled.simps(3))
  have ni: "progs s ! i \<noteq> AcqExclusive l # q" if "i < length (progs s)" "l \<noteq> FsRtlHeaderLock" for i l q
    using that stuck inner_lock_free [OF ok that(2) nr] by (metis lock_enabled.simps(2))
  have none: "owned s i = {}" for i using no_release_nothing_owned [OF ok nr ni] .
  have free: "excl_owner (resources s l) = None \<and> sharers (resources s l) = {}" for l
    using none by (cases "excl_owner (resources s l)") (auto simp: owned_def)
  then have nw: "\<not> excl_waiter s l" for l
    using stuck by (auto simp: excl_waiter_def in_set_conv_nth) (metis lock_enabled.simps(2))
  obtain i a as where i: "i < length (progs s)" "progs s ! i = a # as"
    using ne by (metis in_set_conv_nth neq_Nil_conv)
  have "lock_enabled s a" using free nw nr [OF i(1)] i(2) by (cases a) auto
  then show False using stuck [OF i] by simp
qed

section \<open>Properties\<close>

text \<open>
  C8. The lock callbacks cannot deadlock: for any number of threads, each bracketing any sequence
  of flushes, modified-page writes and section creations with its pair of callbacks, in every
  state that an interleaving of their resource operations reaches, some thread can take its next
  step, unless all are finished; and then every resource is free again.
\<close>

theorem blk_locks_deadlock_free:
  assumes "lock_step\<^sup>*\<^sup>* (lock_init threads) s"
  shows "(\<exists>s'. lock_step s s')
    \<or> ((\<forall>p \<in> set (progs s). p = [])
       \<and> (\<forall>l. excl_owner (resources s l) = None \<and> sharers (resources s l) = {}))"
proof (cases "\<exists>p \<in> set (progs s). p \<noteq> []")
  case True
  then show ?thesis using locks_progress locks_ok_steps [OF assms locks_ok_init] by blast
next
  case False
  have ok: "locks_ok s" using locks_ok_steps [OF assms locks_ok_init] .
  have "progs s ! i = []" if "i < length (progs s)" for i using False that by simp
  then have "owned s i = {}" for i using no_release_nothing_owned [OF ok] by simp
  then have "excl_owner (resources s l) = None \<and> sharers (resources s l) = {}" for l
    by (cases "excl_owner (resources s l)") (auto simp: owned_def)
  then show ?thesis using False by blast
qed

theorem blk_locks_deadlock_free_witness:
  "(\<exists>s'. lock_step (lock_init [[CcFlush], [ModWrite, CreateSection]]) s')
   \<or> ((\<forall>p \<in> set (progs (lock_init [[CcFlush], [ModWrite, CreateSection]])). p = [])
      \<and> (\<forall>l. excl_owner (resources (lock_init [[CcFlush], [ModWrite, CreateSection]]) l) = None
            \<and> sharers (resources (lock_init [[CcFlush], [ModWrite, CreateSection]]) l) = {}))"
  by (rule blk_locks_deadlock_free [OF rtranclp.rtrancl_refl])

end
