(* ===== verification/HD_DiskIoctl.thy ===== *)
theory HD_DiskIoctl
  imports HD_Irp
begin

text \<open>
  The disk device controls that the bus driver (\<^verbatim>\<open>driver/bus/bus_pnp.c\<close>), the plug-and-play disk
  driver (\<^verbatim>\<open>driver/blk/pnp_disk_driver.c\<close>) and the legacy disk driver
  (\<^verbatim>\<open>driver/blk/wdm_disk_driver.c\<close>) answer alike, the 64 GB geometry they share, and their bounds
  check on reads and writes. The sizes of the kernel's structures are the parameter \<^verbatim>\<open>sz\<close>; what
  a handler writes to the output buffer is a value of type \<^verbatim>\<open>ioctl_out\<close>.
\<close>

section \<open>Geometry\<close>

record disk_geo =
  dg_DiskSize :: u64
  dg_SectorSize :: u32
  dg_TotalSectors :: u32
  dg_Cylinders :: u32
  dg_TracksPerCylinder :: u32
  dg_SectorsPerTrack :: u32

definition HD_DISK_SIZE :: u64 where "HD_DISK_SIZE = 64 * 1024 * 1024 * 1024"
definition HD_SECTOR_SIZE :: u32 where "HD_SECTOR_SIZE = 512"
definition HD_TOTAL_SECTORS :: u64 where "HD_TOTAL_SECTORS = HD_DISK_SIZE div ucast HD_SECTOR_SIZE"
definition HD_CYLINDERS :: u64 where "HD_CYLINDERS = HD_TOTAL_SECTORS div (63 * 255)"

text \<open>The assignments with which all three drivers fill in a new device.\<close>

definition init_geo :: disk_geo where
  "init_geo =
     (let cyl = ucast HD_CYLINDERS in
      \<lparr>dg_DiskSize = HD_DISK_SIZE, dg_SectorSize = HD_SECTOR_SIZE,
       dg_TotalSectors = ucast HD_TOTAL_SECTORS, dg_Cylinders = (if cyl = 0 then 1 else cyl),
       dg_TracksPerCylinder = 255, dg_SectorsPerTrack = 63\<rparr>)"

section \<open>Device controls\<close>

datatype property_id = StorageDeviceProperty | StorageAdapterProperty | OtherProperty

datatype disk_ioctl_code =
    IOCTL_DISK_GET_DRIVE_GEOMETRY | IOCTL_DISK_GET_DRIVE_GEOMETRY_EX | IOCTL_DISK_GET_LENGTH_INFO
  | IOCTL_DISK_IS_WRITABLE | IOCTL_DISK_MEDIA_REMOVAL | IOCTL_STORAGE_GET_MEDIA_TYPES_EX
  | IOCTL_STORAGE_GET_DEVICE_NUMBER | IOCTL_STORAGE_QUERY_PROPERTY property_id
  | IOCTL_DISK_GET_PARTITION_INFO_EX | IOCTL_MOUNTDEV_QUERY_DEVICE_NAME
  | IOCTL_MOUNTDEV_QUERY_UNIQUE_ID | IOCTL_OTHER

record DISK_GEOMETRY =
  gm_Cylinders :: u64
  gm_FixedMedia :: bool
  gm_TracksPerCylinder :: u32
  gm_SectorsPerTrack :: u32
  gm_BytesPerSector :: u32

datatype ioctl_out =
    OutNothing
  | OutGeometry DISK_GEOMETRY
  | OutGeometryEx DISK_GEOMETRY u64
  | OutLengthInfo u64
  | OutMediaTypes DISK_GEOMETRY
  | OutDeviceNumber u32 u32
  | OutDeviceDescriptor
  | OutAdapterDescriptor u32 u32
  | OutPartitionInfo u64 u64
  | OutMountName string
  | OutUniqueId string

record disk_sizes =
  sizeof_DISK_GEOMETRY :: u32
  sizeof_DISK_GEOMETRY_EX :: u32
  sizeof_GET_LENGTH_INFORMATION :: u32
  sizeof_GET_MEDIA_TYPES :: u32
  sizeof_STORAGE_DEVICE_NUMBER :: u32
  sizeof_STORAGE_PROPERTY_QUERY :: u32
  sizeof_STORAGE_DEVICE_DESCRIPTOR :: u32
  sizeof_STORAGE_ADAPTER_DESCRIPTOR :: u32
  sizeof_PARTITION_INFORMATION_EX :: u32
  sizeof_MOUNTDEV_NAME :: u32
  sizeof_MOUNTDEV_UNIQUE_ID :: u32

definition geometry_of :: "disk_geo \<Rightarrow> DISK_GEOMETRY" where
  "geometry_of g = \<lparr>gm_Cylinders = ucast (dg_Cylinders g), gm_FixedMedia = True,
     gm_TracksPerCylinder = dg_TracksPerCylinder g, gm_SectorsPerTrack = dg_SectorsPerTrack g,
     gm_BytesPerSector = dg_SectorSize g\<rparr>"

text \<open>A case that checks the output length, fills in the structure and returns its size.\<close>

definition reply :: "u32 \<Rightarrow> u32 \<Rightarrow> ioctl_out \<Rightarrow> NTSTATUS \<times> ioctl_out \<times> u32" where
  "reply out_len need out =
     (if out_len < need then (STATUS_BUFFER_TOO_SMALL, OutNothing, 0) else (STATUS_SUCCESS, out, need))"

text \<open>
  The switch the three drivers share. \<^verbatim>\<open>dev_no\<close> is the device number they report; the two mount
  manager codes are only known to the legacy driver and fall to the default here.
\<close>

fun disk_ioctl ::
  "disk_sizes \<Rightarrow> disk_geo \<Rightarrow> u32 \<Rightarrow> disk_ioctl_code \<Rightarrow> u32 \<Rightarrow> u32 \<Rightarrow> NTSTATUS \<times> ioctl_out \<times> u32" where
  "disk_ioctl sz g dev_no IOCTL_DISK_GET_DRIVE_GEOMETRY in_len out_len =
     reply out_len (sizeof_DISK_GEOMETRY sz) (OutGeometry (geometry_of g))"
| "disk_ioctl sz g dev_no IOCTL_DISK_GET_DRIVE_GEOMETRY_EX in_len out_len =
     reply out_len (sizeof_DISK_GEOMETRY_EX sz) (OutGeometryEx (geometry_of g) (dg_DiskSize g))"
| "disk_ioctl sz g dev_no IOCTL_DISK_GET_LENGTH_INFO in_len out_len =
     reply out_len (sizeof_GET_LENGTH_INFORMATION sz) (OutLengthInfo (dg_DiskSize g))"
| "disk_ioctl sz g dev_no IOCTL_DISK_IS_WRITABLE in_len out_len = (STATUS_SUCCESS, OutNothing, 0)"
| "disk_ioctl sz g dev_no IOCTL_DISK_MEDIA_REMOVAL in_len out_len = (STATUS_SUCCESS, OutNothing, 0)"
| "disk_ioctl sz g dev_no IOCTL_STORAGE_GET_MEDIA_TYPES_EX in_len out_len =
     reply out_len (sizeof_GET_MEDIA_TYPES sz) (OutMediaTypes (geometry_of g))"
| "disk_ioctl sz g dev_no IOCTL_STORAGE_GET_DEVICE_NUMBER in_len out_len =
     reply out_len (sizeof_STORAGE_DEVICE_NUMBER sz) (OutDeviceNumber dev_no 0xFFFFFFFF)"
| "disk_ioctl sz g dev_no (IOCTL_STORAGE_QUERY_PROPERTY prop) in_len out_len =
     (if in_len < sizeof_STORAGE_PROPERTY_QUERY sz then (STATUS_INVALID_PARAMETER, OutNothing, 0)
      else (case prop of
              StorageDeviceProperty \<Rightarrow> reply out_len (sizeof_STORAGE_DEVICE_DESCRIPTOR sz) OutDeviceDescriptor
            | StorageAdapterProperty \<Rightarrow>
                reply out_len (sizeof_STORAGE_ADAPTER_DESCRIPTOR sz) (OutAdapterDescriptor (128 * 1024) 32)
            | OtherProperty \<Rightarrow> (STATUS_INVALID_PARAMETER, OutNothing, 0)))"
| "disk_ioctl sz g dev_no IOCTL_DISK_GET_PARTITION_INFO_EX in_len out_len =
     reply out_len (sizeof_PARTITION_INFORMATION_EX sz) (OutPartitionInfo 0 (dg_DiskSize g))"
| "disk_ioctl sz g dev_no _ in_len out_len = (STATUS_INVALID_DEVICE_REQUEST, OutNothing, 0)"

text \<open>
  Members the handlers set to constants (media type, bus type, partition style and the like) and
  members they clear are part of the reply's constructor and not listed.

  How many bytes of the output buffer a reply occupies.\<close>

fun out_bytes :: "disk_sizes \<Rightarrow> ioctl_out \<Rightarrow> nat" where
  "out_bytes sz OutNothing = 0"
| "out_bytes sz (OutGeometry _) = unat (sizeof_DISK_GEOMETRY sz)"
| "out_bytes sz (OutGeometryEx _ _) = unat (sizeof_DISK_GEOMETRY_EX sz)"
| "out_bytes sz (OutLengthInfo _) = unat (sizeof_GET_LENGTH_INFORMATION sz)"
| "out_bytes sz (OutMediaTypes _) = unat (sizeof_GET_MEDIA_TYPES sz)"
| "out_bytes sz (OutDeviceNumber _ _) = unat (sizeof_STORAGE_DEVICE_NUMBER sz)"
| "out_bytes sz OutDeviceDescriptor = unat (sizeof_STORAGE_DEVICE_DESCRIPTOR sz)"
| "out_bytes sz (OutAdapterDescriptor _ _) = unat (sizeof_STORAGE_ADAPTER_DESCRIPTOR sz)"
| "out_bytes sz (OutPartitionInfo _ _) = unat (sizeof_PARTITION_INFORMATION_EX sz)"
| "out_bytes sz (OutMountName s) = unat (sizeof_MOUNTDEV_NAME sz) + 2 * length s"
| "out_bytes sz (OutUniqueId s) = unat (sizeof_MOUNTDEV_UNIQUE_ID sz) + length s"

section \<open>Reads and writes\<close>

text \<open>The check of both drivers, on unsigned 64-bit values; nothing is transferred.\<close>

definition disk_transfer :: "disk_geo \<Rightarrow> u64 \<Rightarrow> u32 \<Rightarrow> IRP \<Rightarrow> NTSTATUS \<times> IRP" where
  "disk_transfer g byte_offset len irp =
     (if dg_DiskSize g < byte_offset + ucast len
      then (STATUS_INVALID_PARAMETER, complete_irp STATUS_INVALID_PARAMETER 0 irp)
      else (STATUS_SUCCESS, complete_irp STATUS_SUCCESS (ucast len) irp))"

section \<open>The contract of a device-control handler\<close>

text \<open>
  A handler maps a code and the two buffer lengths to a status, what it writes and the number of
  bytes it reports. It writes within the output buffer, and it reports what it writes.
\<close>

definition control_irp :: "NTSTATUS \<times> ioctl_out \<times> u32 \<Rightarrow> IRP \<Rightarrow> NTSTATUS \<times> ioctl_out \<times> IRP" where
  "control_irp r irp = (case r of (st, out, n) \<Rightarrow> (st, out, complete_irp st (ucast n) irp))"

locale disk_control =
  fixes sz :: disk_sizes and handler :: "disk_ioctl_code \<Rightarrow> u32 \<Rightarrow> u32 \<Rightarrow> NTSTATUS \<times> ioctl_out \<times> u32"
  assumes within: "handler code in_len out_len = (st, out, n) \<Longrightarrow> out_bytes sz out \<le> unat out_len"
    and reports: "handler code in_len out_len = (st, out, n) \<Longrightarrow> unat n = out_bytes sz out"
    and fails_silent: "handler code in_len out_len = (st, out, n) \<Longrightarrow> \<not> NT_SUCCESS st \<Longrightarrow> out = OutNothing"
begin

lemma control_safe:
  assumes "control_irp (handler code in_len out_len) irp = (st, out, irp')"
  shows "out_bytes sz out \<le> unat out_len" "unat (IoStatus_Information irp') = out_bytes sz out"
    "IoStatus_Status irp' = st" "handled_once irp irp'" "\<not> NT_SUCCESS st \<Longrightarrow> out = OutNothing"
proof -
  obtain n where h: "handler code in_len out_len = (st, out, n)"
    and i: "irp' = complete_irp st (ucast n) irp"
    using assms by (cases "handler code in_len out_len") (auto simp: control_irp_def)
  show "out_bytes sz out \<le> unat out_len" using within [OF h] .
  show "unat (IoStatus_Information irp') = out_bytes sz out"
    using reports [OF h] by (simp add: i)
  show "IoStatus_Status irp' = st" "handled_once irp irp'" by (simp_all add: i)
  show "\<not> NT_SUCCESS st \<Longrightarrow> out = OutNothing" using fails_silent [OF h] .
qed

end

lemma reply_out:
  "reply out_len need out = (st, out', n) \<Longrightarrow> out_bytes sz out = unat need \<Longrightarrow>
   out_bytes sz out' \<le> unat out_len \<and> unat n = out_bytes sz out'
   \<and> (\<not> NT_SUCCESS st \<longrightarrow> out' = OutNothing)"
  by (auto simp: reply_def word_less_nat_alt split: if_splits)

lemma disk_ioctl_contract:
  assumes "disk_ioctl sz g dev_no code in_len out_len = (st, out, n)"
  shows "out_bytes sz out \<le> unat out_len \<and> unat n = out_bytes sz out
     \<and> (\<not> NT_SUCCESS st \<longrightarrow> out = OutNothing)"
  using assms
  by (cases code) (auto dest!: reply_out [where sz = sz] split: if_splits property_id.splits)

lemma disk_control_disk_ioctl: "disk_control sz (disk_ioctl sz g dev_no)"
  by unfold_locales (use disk_ioctl_contract in blast)+

end
