(* ===== verification/HD_PnpDisk.thy ===== *)
theory HD_PnpDisk
  imports HD_DiskIoctl
begin

text \<open>
  The plug-and-play disk driver, \<^verbatim>\<open>driver/blk/pnp_disk_driver.{h,c}\<close>: a function driver that
  attaches to the device below it and passes most requests down. The driver below is a parameter
  \<^verbatim>\<open>lower\<close>: the status with which it returns for a request.
\<close>

section \<open>State\<close>

record pnp_HD_BLK_DEVICE =
  pd_geo :: disk_geo
  pd_Started :: bool
  pd_InterfaceRegistered :: bool
  pd_InterfaceEnabled :: bool
  pd_Attached :: bool
  pd_Exists :: bool

datatype pnp_fn =
    PNP_START_DEVICE | PNP_QUERY_STOP_DEVICE | PNP_QUERY_REMOVE_DEVICE
  | PNP_CANCEL_STOP_DEVICE | PNP_CANCEL_REMOVE_DEVICE | PNP_REMOVE_DEVICE
  | PNP_SURPRISE_REMOVAL | PNP_OTHER

section \<open>Operations\<close>

text \<open>
  \<^verbatim>\<open>HdBlkAddDevice\<close>, given what creating the device, attaching it and registering its interface
  return. The result is the device afterwards, if there is one.
\<close>

definition pnp_HdBlkAddDevice ::
  "NTSTATUS \<Rightarrow> NTSTATUS \<Rightarrow> NTSTATUS \<Rightarrow> NTSTATUS \<times> pnp_HD_BLK_DEVICE option" where
  "pnp_HdBlkAddDevice create_st attach_st register_st =
     (if \<not> NT_SUCCESS create_st then (create_st, None)
      else if \<not> NT_SUCCESS attach_st then (attach_st, None)
      else (STATUS_SUCCESS,
            Some \<lparr>pd_geo = init_geo, pd_Started = False, pd_InterfaceRegistered = NT_SUCCESS register_st,
                  pd_InterfaceEnabled = False, pd_Attached = True, pd_Exists = True\<rparr>))"

definition pnp_HdBlkForwardIrp :: "(IRP \<Rightarrow> NTSTATUS) \<Rightarrow> IRP \<Rightarrow> NTSTATUS \<times> IRP" where
  "pnp_HdBlkForwardIrp lower irp = (lower irp, irp\<lparr>Forwards := Suc (Forwards irp)\<rparr>)"

definition pnp_HdBlkDispatchPnp ::
  "(IRP \<Rightarrow> NTSTATUS) \<Rightarrow> pnp_fn \<Rightarrow> pnp_HD_BLK_DEVICE \<Rightarrow> IRP \<Rightarrow> NTSTATUS \<times> pnp_HD_BLK_DEVICE \<times> IRP" where
  "pnp_HdBlkDispatchPnp lower fn dev irp =
     (case fn of
        PNP_START_DEVICE \<Rightarrow>
          (let (status, irp1) = pnp_HdBlkForwardIrp lower irp in
           (status,
            (if NT_SUCCESS status
             then dev\<lparr>pd_Started := True, pd_InterfaceEnabled := (pd_InterfaceRegistered dev \<or> pd_InterfaceEnabled dev)\<rparr>
             else dev), irp1))
      | PNP_REMOVE_DEVICE \<Rightarrow>
          (let dev1 = (if pd_InterfaceRegistered dev
                       then dev\<lparr>pd_InterfaceEnabled := False, pd_InterfaceRegistered := False\<rparr> else dev);
               (status, irp1) = pnp_HdBlkForwardIrp lower (irp\<lparr>IoStatus_Status := STATUS_SUCCESS\<rparr>)
           in (status, dev1\<lparr>pd_Started := False, pd_Attached := False, pd_Exists := False\<rparr>, irp1))
      | PNP_SURPRISE_REMOVAL \<Rightarrow>
          (let dev1 = (if pd_InterfaceRegistered dev then dev\<lparr>pd_InterfaceEnabled := False\<rparr> else dev);
               (status, irp1) = pnp_HdBlkForwardIrp lower (irp\<lparr>IoStatus_Status := STATUS_SUCCESS\<rparr>)
           in (status, dev1\<lparr>pd_Started := False\<rparr>, irp1))
      | PNP_OTHER \<Rightarrow>
          (let (status, irp1) = pnp_HdBlkForwardIrp lower irp in (status, dev, irp1))
      | _ \<Rightarrow>
          (let (status, irp1) = pnp_HdBlkForwardIrp lower (irp\<lparr>IoStatus_Status := STATUS_SUCCESS\<rparr>)
           in (status, dev, irp1)))"

definition pnp_HdBlkDispatchPower :: "(IRP \<Rightarrow> NTSTATUS) \<Rightarrow> IRP \<Rightarrow> NTSTATUS \<times> IRP" where
  "pnp_HdBlkDispatchPower lower irp = (lower irp, irp\<lparr>Forwards := Suc (Forwards irp)\<rparr>)"

definition pnp_HdBlkDispatchSystemControl :: "(IRP \<Rightarrow> NTSTATUS) \<Rightarrow> IRP \<Rightarrow> NTSTATUS \<times> IRP" where
  "pnp_HdBlkDispatchSystemControl lower irp = pnp_HdBlkForwardIrp lower irp"

definition pnp_HdBlkDispatchCreate :: "IRP \<Rightarrow> NTSTATUS \<times> IRP" where
  "pnp_HdBlkDispatchCreate irp = (STATUS_SUCCESS, complete_irp STATUS_SUCCESS 0 irp)"

definition pnp_HdBlkDispatchClose :: "IRP \<Rightarrow> NTSTATUS \<times> IRP" where
  "pnp_HdBlkDispatchClose irp = (STATUS_SUCCESS, complete_irp STATUS_SUCCESS 0 irp)"

definition pnp_HdBlkDispatchRead :: "pnp_HD_BLK_DEVICE \<Rightarrow> u64 \<Rightarrow> u32 \<Rightarrow> IRP \<Rightarrow> NTSTATUS \<times> IRP" where
  "pnp_HdBlkDispatchRead dev byte_offset read_length irp =
     (let r = disk_transfer (pd_geo dev) byte_offset read_length irp in (IoStatus_Status (snd r), snd r))"

definition pnp_HdBlkDispatchWrite :: "pnp_HD_BLK_DEVICE \<Rightarrow> u64 \<Rightarrow> u32 \<Rightarrow> IRP \<Rightarrow> NTSTATUS \<times> IRP" where
  "pnp_HdBlkDispatchWrite dev byte_offset write_length irp =
     (let r = disk_transfer (pd_geo dev) byte_offset write_length irp in (IoStatus_Status (snd r), snd r))"

definition pnp_HdBlkDispatchDeviceControl ::
  "disk_sizes \<Rightarrow> pnp_HD_BLK_DEVICE \<Rightarrow> disk_ioctl_code \<Rightarrow> u32 \<Rightarrow> u32 \<Rightarrow> IRP \<Rightarrow> NTSTATUS \<times> ioctl_out \<times> IRP" where
  "pnp_HdBlkDispatchDeviceControl sz dev code in_len out_len irp =
     control_irp (disk_ioctl sz (pd_geo dev) 0 code in_len out_len) irp"

text \<open>The dispatch table that \<^verbatim>\<open>DriverEntry\<close> installs.\<close>

datatype pnp_io =
    PnpCreate | PnpClose | PnpRead u64 u32 | PnpWrite u64 u32
  | PnpControl disk_ioctl_code u32 u32 | PnpPnp pnp_fn | PnpPower | PnpSystemControl

fun pnp_dispatch ::
  "disk_sizes \<Rightarrow> (IRP \<Rightarrow> NTSTATUS) \<Rightarrow> pnp_io \<Rightarrow> pnp_HD_BLK_DEVICE \<Rightarrow> IRP
   \<Rightarrow> NTSTATUS \<times> pnp_HD_BLK_DEVICE \<times> IRP" where
  "pnp_dispatch sz lower PnpCreate dev irp = (let (st, i) = pnp_HdBlkDispatchCreate irp in (st, dev, i))"
| "pnp_dispatch sz lower PnpClose dev irp = (let (st, i) = pnp_HdBlkDispatchClose irp in (st, dev, i))"
| "pnp_dispatch sz lower (PnpRead off len) dev irp =
     (let (st, i) = pnp_HdBlkDispatchRead dev off len irp in (st, dev, i))"
| "pnp_dispatch sz lower (PnpWrite off len) dev irp =
     (let (st, i) = pnp_HdBlkDispatchWrite dev off len irp in (st, dev, i))"
| "pnp_dispatch sz lower (PnpControl code n m) dev irp =
     (let (st, _, i) = pnp_HdBlkDispatchDeviceControl sz dev code n m irp in (st, dev, i))"
| "pnp_dispatch sz lower (PnpPnp fn) dev irp = pnp_HdBlkDispatchPnp lower fn dev irp"
| "pnp_dispatch sz lower PnpPower dev irp = (let (st, i) = pnp_HdBlkDispatchPower lower irp in (st, dev, i))"
| "pnp_dispatch sz lower PnpSystemControl dev irp =
     (let (st, i) = pnp_HdBlkDispatchSystemControl lower irp in (st, dev, i))"

section \<open>Lemmas\<close>

interpretation pnp_ctl: disk_control sz "disk_ioctl sz (pd_geo dev) 0"
  by (rule disk_control_disk_ioctl)

lemmas pnp_handlers = pnp_HdBlkDispatchCreate_def pnp_HdBlkDispatchClose_def pnp_HdBlkDispatchRead_def
  pnp_HdBlkDispatchWrite_def pnp_HdBlkDispatchDeviceControl_def pnp_HdBlkDispatchPnp_def
  pnp_HdBlkDispatchPower_def pnp_HdBlkDispatchSystemControl_def pnp_HdBlkForwardIrp_def

lemma handled_once_forward [simp]:
  "handled_once irp (irp\<lparr>Forwards := Suc (Forwards irp)\<rparr>)"
  "handled_once irp (irp\<lparr>IoStatus_Status := st, Forwards := Suc (Forwards irp)\<rparr>)"
  by (simp_all add: handled_once_def)

lemma handled_once_control: "handled_once irp (snd (snd (control_irp r irp)))"
  by (cases r) (simp add: control_irp_def)

lemma handled_once_transfer: "handled_once irp (snd (disk_transfer g off len irp))"
  by (simp add: disk_transfer_def)

section \<open>Device life cycle\<close>

text \<open>
  The states a device goes through: an interface is enabled only while it is registered, a device
  that does not exist is neither attached nor started nor enabled.
\<close>

definition pnp_dev_ok :: "pnp_HD_BLK_DEVICE \<Rightarrow> bool" where
  "pnp_dev_ok dev \<longleftrightarrow> (pd_InterfaceEnabled dev \<longrightarrow> pd_InterfaceRegistered dev)
     \<and> (pd_InterfaceEnabled dev \<longrightarrow> pd_Started dev)
     \<and> (\<not> pd_Exists dev \<longrightarrow> \<not> pd_Attached dev \<and> \<not> pd_Started dev \<and> \<not> pd_InterfaceEnabled dev)"

inductive pnp_reachable :: "disk_sizes \<Rightarrow> (IRP \<Rightarrow> NTSTATUS) \<Rightarrow> pnp_HD_BLK_DEVICE \<Rightarrow> bool" for sz lower where
  added: "pnp_HdBlkAddDevice c a r = (st, Some dev) \<Longrightarrow> pnp_reachable sz lower dev"
| dispatched: "pnp_reachable sz lower dev \<Longrightarrow> pd_Exists dev \<Longrightarrow>
    pnp_dispatch sz lower io dev irp = (st, dev', irp') \<Longrightarrow> pnp_reachable sz lower dev'"

lemma pnp_dispatch_ok:
  assumes "pnp_dev_ok dev" "pd_Exists dev" "pnp_dispatch sz lower io dev irp = (st, dev', irp')"
  shows "pnp_dev_ok dev'"
  using assms
  by (cases io)
     (auto simp: pnp_dev_ok_def pnp_HdBlkDispatchPnp_def pnp_HdBlkForwardIrp_def Let_def
       split: prod.splits pnp_fn.splits if_splits)

section \<open>Properties\<close>

text \<open>
  Every dispatch routine of the plug-and-play disk driver hands the request on exactly once:
  it either completes it or passes it to the driver below, never both, never twice.
\<close>

theorem pnp_dispatch_handles_once:
  "handled_once irp (snd (snd (pnp_dispatch sz lower io dev irp)))"
  using handled_once_control handled_once_transfer
  by (cases io) (auto simp: pnp_handlers Let_def case_prod_unfold split: pnp_fn.splits)

text \<open>
  C33. From \<^verbatim>\<open>HdBlkAddDevice\<close> on, through any sequence of requests, a disk whose interface is enabled
  is registered, started, and exists; after removal nothing of it is left enabled or attached.
\<close>

theorem pnp_device_lifecycle:
  assumes "pnp_reachable sz lower dev"
  shows "(pd_InterfaceEnabled dev \<longrightarrow> pd_InterfaceRegistered dev \<and> pd_Started dev \<and> pd_Exists dev)
    \<and> (\<not> pd_Exists dev \<longrightarrow> \<not> pd_Attached dev \<and> \<not> pd_Started dev \<and> \<not> pd_InterfaceEnabled dev)"
proof -
  have "pnp_dev_ok dev" using assms
  proof (induction rule: pnp_reachable.induct)
    case (added c a r st dev)
    then show ?case by (auto simp: pnp_HdBlkAddDevice_def pnp_dev_ok_def split: if_splits)
  qed (rule pnp_dispatch_ok)
  then show ?thesis by (auto simp: pnp_dev_ok_def)
qed

definition example_disk_sizes :: disk_sizes where
  "example_disk_sizes = \<lparr>sizeof_DISK_GEOMETRY = 24, sizeof_DISK_GEOMETRY_EX = 40,
     sizeof_GET_LENGTH_INFORMATION = 8, sizeof_GET_MEDIA_TYPES = 48, sizeof_STORAGE_DEVICE_NUMBER = 12,
     sizeof_STORAGE_PROPERTY_QUERY = 12, sizeof_STORAGE_DEVICE_DESCRIPTOR = 40,
     sizeof_STORAGE_ADAPTER_DESCRIPTOR = 32, sizeof_PARTITION_INFORMATION_EX = 144,
     sizeof_MOUNTDEV_NAME = 4, sizeof_MOUNTDEV_UNIQUE_ID = 4\<rparr>"

definition added_disk :: pnp_HD_BLK_DEVICE where
  "added_disk = the (snd (pnp_HdBlkAddDevice STATUS_SUCCESS STATUS_SUCCESS STATUS_SUCCESS))"

theorem pnp_device_lifecycle_witness:
  "pd_InterfaceEnabled (fst (snd (pnp_dispatch example_disk_sizes (\<lambda>_. STATUS_SUCCESS)
        (PnpPnp PNP_START_DEVICE) added_disk fresh_irp)))
   \<and> pd_Started (fst (snd (pnp_dispatch example_disk_sizes (\<lambda>_. STATUS_SUCCESS)
        (PnpPnp PNP_START_DEVICE) added_disk fresh_irp)))"
proof -
  let ?d = "pnp_dispatch example_disk_sizes (\<lambda>_. STATUS_SUCCESS) (PnpPnp PNP_START_DEVICE) added_disk fresh_irp"
  have "pnp_HdBlkAddDevice STATUS_SUCCESS STATUS_SUCCESS STATUS_SUCCESS = (STATUS_SUCCESS, Some added_disk)"
    by (simp add: added_disk_def pnp_HdBlkAddDevice_def)
  then have "pnp_reachable example_disk_sizes (\<lambda>_. STATUS_SUCCESS) added_disk" by (rule pnp_reachable.added)
  then have "pnp_reachable example_disk_sizes (\<lambda>_. STATUS_SUCCESS) (fst (snd ?d))"
    by (rule pnp_reachable.dispatched [where io = "PnpPnp PNP_START_DEVICE" and irp = fresh_irp
          and st = "fst ?d" and irp' = "snd (snd ?d)"])
       (simp_all add: added_disk_def pnp_HdBlkAddDevice_def)
  from pnp_device_lifecycle [OF this] show ?thesis
    by (simp add: pnp_handlers Let_def added_disk_def pnp_HdBlkAddDevice_def)
qed

end
