(* ===== verification/HD_WdmDisk.thy ===== *)
theory HD_WdmDisk
  imports HD_DiskIoctl
begin

text \<open>
  The legacy disk driver, \<^verbatim>\<open>driver/blk/wdm_disk_driver.{h,c}\<close>: one device created when the driver
  loads, announced to the mount manager. What the kernel's services return, and what the mount
  manager answers, are arguments of the definitions that call them.
\<close>

section \<open>State\<close>

record wdm_HD_BLK_DEVICE =
  wd_geo :: disk_geo
  wd_Initialized :: bool
  wd_InterfaceEnabled :: bool

record wdm_system =
  g_BlkDevice :: "wdm_HD_BLK_DEVICE option"
  DeviceExists :: bool
  SymLinkExists :: bool
  InterfaceState :: bool
  MountNotified :: nat
  HeldPool :: nat
  HeldFileRefs :: nat

definition HD_BLK_SYM_LINK :: string where "HD_BLK_SYM_LINK = [CHR 0x5C] @ ''DosDevices'' @ [CHR 0x5C] @ ''PhysicalDrive1''"
definition wdm_unique_id :: string where "wdm_unique_id = ''HyperDisk_VDisk0''"

section \<open>Operations\<close>

text \<open>What the services that \<^verbatim>\<open>HdBlkNotifyMountManager\<close> calls answer.\<close>

record mount_env =
  me_open :: NTSTATUS
  me_pool :: bool
  me_irp :: bool
  me_call :: NTSTATUS
  me_final :: NTSTATUS

definition HdBlkNotifyMountManager :: "mount_env \<Rightarrow> wdm_system \<Rightarrow> NTSTATUS \<times> wdm_system" where
  "HdBlkNotifyMountManager me s =
     (if \<not> NT_SUCCESS (me_open me) then (me_open me, s)
      else let s1 = s\<lparr>HeldFileRefs := Suc (HeldFileRefs s)\<rparr> in
      if \<not> me_pool me
      then (STATUS_INSUFFICIENT_RESOURCES, s1\<lparr>HeldFileRefs := HeldFileRefs s1 - 1\<rparr>)
      else let s2 = s1\<lparr>HeldPool := Suc (HeldPool s1)\<rparr> in
      if \<not> me_irp me
      then (STATUS_INSUFFICIENT_RESOURCES,
            s2\<lparr>HeldPool := HeldPool s2 - 1, HeldFileRefs := HeldFileRefs s2 - 1\<rparr>)
      else let status = (if me_call me = STATUS_PENDING then me_final me else me_call me)
           in (status, s2\<lparr>MountNotified := Suc (MountNotified s2), HeldPool := HeldPool s2 - 1,
                          HeldFileRefs := HeldFileRefs s2 - 1\<rparr>))"

definition wdm_DriverEntry ::
  "NTSTATUS \<Rightarrow> NTSTATUS \<Rightarrow> NTSTATUS \<Rightarrow> mount_env \<Rightarrow> wdm_system \<Rightarrow> NTSTATUS \<times> wdm_system" where
  "wdm_DriverEntry create_st link_st register_st me s =
     (if \<not> NT_SUCCESS create_st then (create_st, s)
      else let s1 = s\<lparr>DeviceExists := True\<rparr> in
      if \<not> NT_SUCCESS link_st then (link_st, s1\<lparr>DeviceExists := False\<rparr>)
      else let dev = \<lparr>wd_geo = init_geo, wd_Initialized = True, wd_InterfaceEnabled = NT_SUCCESS register_st\<rparr>;
               s2 = s1\<lparr>SymLinkExists := True, g_BlkDevice := Some dev,
                       InterfaceState := (wd_InterfaceEnabled dev \<or> InterfaceState s1)\<rparr>;
               (_, s3) = HdBlkNotifyMountManager me s2
           in (STATUS_SUCCESS, s3))"

definition wdm_HdBlkUnload :: "wdm_system \<Rightarrow> wdm_system" where
  "wdm_HdBlkUnload s =
     (case g_BlkDevice s of
        None \<Rightarrow> s
      | Some dev \<Rightarrow>
          (let s1 = (if wd_InterfaceEnabled dev then s\<lparr>InterfaceState := False\<rparr> else s)
           in s1\<lparr>SymLinkExists := False, DeviceExists := False, g_BlkDevice := None\<rparr>))"

definition wdm_HdBlkDispatchCreate :: "IRP \<Rightarrow> NTSTATUS \<times> IRP" where
  "wdm_HdBlkDispatchCreate irp = (STATUS_SUCCESS, complete_irp STATUS_SUCCESS 0 irp)"

definition wdm_HdBlkDispatchClose :: "IRP \<Rightarrow> NTSTATUS \<times> IRP" where
  "wdm_HdBlkDispatchClose irp = (STATUS_SUCCESS, complete_irp STATUS_SUCCESS 0 irp)"

definition wdm_HdBlkDispatchRead :: "wdm_HD_BLK_DEVICE \<Rightarrow> u64 \<Rightarrow> u32 \<Rightarrow> IRP \<Rightarrow> NTSTATUS \<times> IRP" where
  "wdm_HdBlkDispatchRead dev byte_offset read_length irp =
     (let r = disk_transfer (wd_geo dev) byte_offset read_length irp in (IoStatus_Status (snd r), snd r))"

definition wdm_HdBlkDispatchWrite :: "wdm_HD_BLK_DEVICE \<Rightarrow> u64 \<Rightarrow> u32 \<Rightarrow> IRP \<Rightarrow> NTSTATUS \<times> IRP" where
  "wdm_HdBlkDispatchWrite dev byte_offset write_length irp =
     (let r = disk_transfer (wd_geo dev) byte_offset write_length irp in (IoStatus_Status (snd r), snd r))"

datatype wdm_pnp_fn =
    WPNP_START_DEVICE | WPNP_REMOVE_DEVICE | WPNP_QUERY_STOP_DEVICE | WPNP_QUERY_REMOVE_DEVICE
  | WPNP_CANCEL_STOP_DEVICE | WPNP_CANCEL_REMOVE_DEVICE | WPNP_SURPRISE_REMOVAL | WPNP_OTHER

definition wdm_HdBlkDispatchPnp :: "wdm_pnp_fn \<Rightarrow> IRP \<Rightarrow> NTSTATUS \<times> IRP" where
  "wdm_HdBlkDispatchPnp fn irp =
     (let st = (case fn of WPNP_OTHER \<Rightarrow> STATUS_NOT_SUPPORTED | _ \<Rightarrow> STATUS_SUCCESS)
      in (st, complete_irp st 0 irp))"

text \<open>
  The legacy driver adds the two codes of the mount manager. The required length it puts into the
  status block in the overflow case is overwritten by the assignment after the switch.
\<close>

definition reply_overflow :: "u32 \<Rightarrow> nat \<Rightarrow> ioctl_out \<Rightarrow> NTSTATUS \<times> ioctl_out \<times> u32" where
  "reply_overflow out_len need out =
     (if unat out_len < need then (STATUS_BUFFER_OVERFLOW, OutNothing, 0) else (STATUS_SUCCESS, out, of_nat need))"

definition wdm_ioctl ::
  "disk_sizes \<Rightarrow> disk_geo \<Rightarrow> disk_ioctl_code \<Rightarrow> u32 \<Rightarrow> u32 \<Rightarrow> NTSTATUS \<times> ioctl_out \<times> u32" where
  "wdm_ioctl sz g code in_len out_len =
     (case code of
        IOCTL_MOUNTDEV_QUERY_DEVICE_NAME \<Rightarrow>
          reply_overflow out_len (unat (sizeof_MOUNTDEV_NAME sz) + 2 * length HD_BLK_SYM_LINK)
            (OutMountName HD_BLK_SYM_LINK)
      | IOCTL_MOUNTDEV_QUERY_UNIQUE_ID \<Rightarrow>
          reply_overflow out_len (unat (sizeof_MOUNTDEV_UNIQUE_ID sz) + length wdm_unique_id)
            (OutUniqueId wdm_unique_id)
      | _ \<Rightarrow> disk_ioctl sz g 1 code in_len out_len)"

definition wdm_HdBlkDispatchDeviceControl ::
  "disk_sizes \<Rightarrow> wdm_HD_BLK_DEVICE \<Rightarrow> disk_ioctl_code \<Rightarrow> u32 \<Rightarrow> u32 \<Rightarrow> IRP \<Rightarrow> NTSTATUS \<times> ioctl_out \<times> IRP" where
  "wdm_HdBlkDispatchDeviceControl sz dev code in_len out_len irp =
     control_irp (wdm_ioctl sz (wd_geo dev) code in_len out_len) irp"

section \<open>Lemmas\<close>

lemma reply_overflow_out:
  assumes "reply_overflow out_len need out = (st, out', n)" "out_bytes sz out = need"
  shows "out_bytes sz out' \<le> unat out_len \<and> unat n = out_bytes sz out'
   \<and> (\<not> NT_SUCCESS st \<longrightarrow> out' = OutNothing)"
proof (cases "unat out_len < need")
  case True
  then show ?thesis using assms by (auto simp: reply_overflow_def)
next
  case False
  then have "unat (of_nat need :: u32) = need"
    using unat_less_u32 [of out_len] by (simp add: unat_of_nat take_bit_nat_eq_self)
  then show ?thesis using assms False by (auto simp: reply_overflow_def)
qed

lemma wdm_ioctl_contract:
  assumes "wdm_ioctl sz g code in_len out_len = (st, out, n)"
  shows "out_bytes sz out \<le> unat out_len \<and> unat n = out_bytes sz out
     \<and> (\<not> NT_SUCCESS st \<longrightarrow> out = OutNothing)"
proof (cases "code = IOCTL_MOUNTDEV_QUERY_DEVICE_NAME \<or> code = IOCTL_MOUNTDEV_QUERY_UNIQUE_ID")
  case True
  then show ?thesis
    using assms by (elim disjE) (simp_all add: wdm_ioctl_def reply_overflow_out)
next
  case False
  then have "wdm_ioctl sz g code in_len out_len = disk_ioctl sz g 1 code in_len out_len"
    by (cases code) (simp_all add: wdm_ioctl_def)
  then show ?thesis using assms disk_ioctl_contract by metis
qed

lemma disk_control_wdm_ioctl: "disk_control sz (wdm_ioctl sz g)"
  by unfold_locales (use wdm_ioctl_contract in blast)+

interpretation wdm_ctl: disk_control sz "wdm_ioctl sz (wd_geo dev)"
  by (rule disk_control_wdm_ioctl)

lemma HdBlkNotifyMountManager_balanced:
  "\<exists>k. snd (HdBlkNotifyMountManager me s) = s\<lparr>MountNotified := k\<rparr>"
  by (cases s) (auto simp: HdBlkNotifyMountManager_def Let_def)

lemma disk_transfer_accepts_iff:
  "fst (disk_transfer g off len irp) = STATUS_SUCCESS
     \<longleftrightarrow> (unat off + unat len) mod 2 ^ 64 \<le> unat (dg_DiskSize g)"
proof -
  have "unat (off + ucast len) = (unat off + unat len) mod 2 ^ 64"
    by (simp add: unat_word_ariths)
  then show ?thesis by (simp add: disk_transfer_def word_less_nat_alt linorder_not_less)
qed

section \<open>Properties\<close>

text \<open>
  A read or write of the legacy driver succeeds exactly when offset plus length, taken modulo
  2^64, is at most the disk size: a range within the disk is always accepted, and a range beyond
  its end is refused unless the sum wraps, that is, unless the byte offset is a negative number
  close to zero.
\<close>

theorem wdm_transfer_bounds:
  "(fst (wdm_HdBlkDispatchRead dev off len irp) = STATUS_SUCCESS
     \<longleftrightarrow> (if unat off + unat len < 2 ^ 64 then unat off + unat len \<le> unat (dg_DiskSize (wd_geo dev))
         else unat off + unat len - 2 ^ 64 \<le> unat (dg_DiskSize (wd_geo dev))))
   \<and> fst (wdm_HdBlkDispatchWrite dev off len irp) = fst (wdm_HdBlkDispatchRead dev off len irp)"
proof
  have u: "unat off + unat len < 2 * 2 ^ 64"
    using unat_less_u64 [of off] unat_less_u32 [of len] by simp
  have "IoStatus_Status (snd (disk_transfer g off len irp)) = fst (disk_transfer g off len irp)" for g
    by (simp add: disk_transfer_def)
  then show "fst (wdm_HdBlkDispatchRead dev off len irp) = STATUS_SUCCESS
     \<longleftrightarrow> (if unat off + unat len < 2 ^ 64 then unat off + unat len \<le> unat (dg_DiskSize (wd_geo dev))
         else unat off + unat len - 2 ^ 64 \<le> unat (dg_DiskSize (wd_geo dev)))"
    using u by (simp add: wdm_HdBlkDispatchRead_def Let_def disk_transfer_accepts_iff mod_if)
  show "fst (wdm_HdBlkDispatchWrite dev off len irp) = fst (wdm_HdBlkDispatchRead dev off len irp)"
    by (simp add: wdm_HdBlkDispatchRead_def wdm_HdBlkDispatchWrite_def)
qed

text \<open>
  Loading the legacy driver either fails and leaves the system as it was, or succeeds and is
  undone by \<^verbatim>\<open>HdBlkUnload\<close>: no device, link, enabled interface, pool block or file reference is
  left, whatever the mount manager answered. All that remains is that it was notified.
\<close>

theorem wdm_load_unload:
  assumes "g_BlkDevice s = None" and "\<not> DeviceExists s" and "\<not> SymLinkExists s" and "\<not> InterfaceState s"
    and "wdm_DriverEntry c l r me s = (st, s')"
  shows "if NT_SUCCESS st then wdm_HdBlkUnload s' = s\<lparr>MountNotified := MountNotified s'\<rparr> else s' = s"
proof (cases "NT_SUCCESS c \<and> NT_SUCCESS l")
  case True
  let ?s2 = "s\<lparr>DeviceExists := True, SymLinkExists := True,
     g_BlkDevice := Some \<lparr>wd_geo = init_geo, wd_Initialized = True, wd_InterfaceEnabled = NT_SUCCESS r\<rparr>,
     InterfaceState := NT_SUCCESS r\<rparr>"
  have "st = STATUS_SUCCESS" "s' = snd (HdBlkNotifyMountManager me ?s2)"
    using True assms by (simp_all add: wdm_DriverEntry_def Let_def case_prod_unfold)
  then obtain k where "st = STATUS_SUCCESS" "s' = ?s2\<lparr>MountNotified := k\<rparr>"
    using HdBlkNotifyMountManager_balanced [of me ?s2] by auto
  then show ?thesis
    using assms by (cases s) (simp add: wdm_HdBlkUnload_def Let_def)
next
  case False
  then show ?thesis
    using assms by (cases "NT_SUCCESS c") (auto simp: wdm_DriverEntry_def Let_def)
qed

definition empty_system :: wdm_system where
  "empty_system = \<lparr>g_BlkDevice = None, DeviceExists = False, SymLinkExists = False,
     InterfaceState = False, MountNotified = 0, HeldPool = 0, HeldFileRefs = 0\<rparr>"

definition mount_ok :: mount_env where
  "mount_ok = \<lparr>me_open = STATUS_SUCCESS, me_pool = True, me_irp = True, me_call = STATUS_PENDING,
     me_final = STATUS_SUCCESS\<rparr>"

theorem wdm_load_unload_witness:
  "wdm_HdBlkUnload (snd (wdm_DriverEntry STATUS_SUCCESS STATUS_SUCCESS STATUS_SUCCESS mount_ok empty_system))
     = empty_system\<lparr>MountNotified := 1\<rparr>"
proof -
  let ?e = "wdm_DriverEntry STATUS_SUCCESS STATUS_SUCCESS STATUS_SUCCESS mount_ok empty_system"
  have "?e = (fst ?e, snd ?e)" by simp
  from wdm_load_unload [OF _ _ _ _ this] show ?thesis
    by (simp add: empty_system_def wdm_DriverEntry_def HdBlkNotifyMountManager_def mount_ok_def Let_def)
qed

end
