(* ===== verification/HD_Bus.thy ===== *)
theory HD_Bus
  imports HD_DiskIoctl
begin

text \<open>
  The bus driver, \<^verbatim>\<open>driver/bus\<close>: the list of child disks, their enumeration and removal
  (\<^verbatim>\<open>bus_pnp.c\<close>, \<^verbatim>\<open>bus_child.c\<close>, \<^verbatim>\<open>bus_ioctl.c\<close>), and the requests for the bus (the functional
  device object) and for its children (the physical device objects). Device objects are numbers;
  the answers of the kernel's services are arguments.
\<close>

section \<open>State\<close>

record HD_CHILD_DEVICE =
  cd_ChildId :: u32
  ChildDeviceObject :: "nat option"
  cd_geo :: disk_geo
  cd_InterfaceRegistered :: bool
  cd_InterfaceState :: bool
  cd_Started :: bool

record HD_BUS_EXTENSION =
  BusDeviceObject :: nat
  ChildCount :: u32
  ChildList :: "HD_CHILD_DEVICE list"
  ObjRefs :: "nat \<Rightarrow> int"
  enum_calls :: nat

definition zero_geo :: disk_geo where
  "zero_geo = \<lparr>dg_DiskSize = 0, dg_SectorSize = 0, dg_TotalSectors = 0, dg_Cylinders = 0,
     dg_TracksPerCylinder = 0, dg_SectorsPerTrack = 0\<rparr>"

definition zero_child :: HD_CHILD_DEVICE where
  "zero_child = \<lparr>cd_ChildId = 0, ChildDeviceObject = None, cd_geo = zero_geo,
     cd_InterfaceRegistered = False, cd_InterfaceState = False, cd_Started = False\<rparr>"

definition HdBusIsFdo :: "HD_BUS_EXTENSION \<Rightarrow> nat \<Rightarrow> bool" where
  "HdBusIsFdo ext dev \<longleftrightarrow> dev = BusDeviceObject ext"

definition HdBusFindChildByPdo :: "HD_BUS_EXTENSION \<Rightarrow> nat \<Rightarrow> HD_CHILD_DEVICE option" where
  "HdBusFindChildByPdo ext pdo = find (\<lambda>c. ChildDeviceObject c = Some pdo) (ChildList ext)"

text \<open>What the driver entry leaves when both the device and its link could be created.\<close>

definition bus_DriverEntry :: "NTSTATUS \<Rightarrow> NTSTATUS \<Rightarrow> nat \<Rightarrow> NTSTATUS \<times> HD_BUS_EXTENSION option" where
  "bus_DriverEntry create_st link_st dev =
     (if \<not> NT_SUCCESS create_st then (create_st, None)
      else if \<not> NT_SUCCESS link_st then (link_st, None)
      else (STATUS_SUCCESS,
            Some \<lparr>BusDeviceObject = dev, ChildCount = 0, ChildList = [], ObjRefs = (\<lambda>_. 0), enum_calls = 0\<rparr>))"

section \<open>Children\<close>

text \<open>
  \<^verbatim>\<open>env n\<close> is what the \<^verbatim>\<open>n\<close>-th enumeration finds: whether the pool has room, what creating the
  device returns, and the new device object.
\<close>

type_synonym enum_env = "nat \<Rightarrow> bool \<times> NTSTATUS \<times> nat"

definition HdBusCreatePdo :: "NTSTATUS \<Rightarrow> nat \<Rightarrow> HD_CHILD_DEVICE \<Rightarrow> NTSTATUS \<times> HD_CHILD_DEVICE" where
  "HdBusCreatePdo create_st dev child =
     (if \<not> NT_SUCCESS create_st then (create_st, child)
      else (STATUS_SUCCESS, child\<lparr>ChildDeviceObject := Some dev\<rparr>))"

definition HdBusAutoEnumerateChild :: "enum_env \<Rightarrow> HD_BUS_EXTENSION \<Rightarrow> NTSTATUS \<times> HD_BUS_EXTENSION" where
  "HdBusAutoEnumerateChild env ext =
     (let (pool, create_st, dev) = env (enum_calls ext);
          ext1 = ext\<lparr>enum_calls := Suc (enum_calls ext)\<rparr>
      in if \<not> pool then (STATUS_INSUFFICIENT_RESOURCES, ext1)
         else let ext2 = ext1\<lparr>ChildCount := ChildCount ext1 + 1\<rparr>;
                  child = zero_child\<lparr>cd_ChildId := ChildCount ext2, cd_geo := init_geo, cd_Started := False\<rparr>;
                  (status, child') = HdBusCreatePdo create_st dev child
              in if \<not> NT_SUCCESS status then (status, ext2)
                 else (STATUS_SUCCESS, ext2\<lparr>ChildList := ChildList ext2 @ [child']\<rparr>))"

text \<open>
  \<^verbatim>\<open>bus_child.c\<close> also copies the configuration into a member that the header does not declare;
  the child has no such member here.
\<close>

definition HdBusCreateChildDevice :: "bool \<Rightarrow> HD_BUS_EXTENSION \<Rightarrow> NTSTATUS \<times> HD_BUS_EXTENSION" where
  "HdBusCreateChildDevice pool ext =
     (if \<not> pool then (STATUS_INSUFFICIENT_RESOURCES, ext)
      else let ext1 = ext\<lparr>ChildCount := ChildCount ext + 1\<rparr> in
        (STATUS_SUCCESS,
         ext1\<lparr>ChildList := ChildList ext1 @ [zero_child\<lparr>cd_ChildId := ChildCount ext1\<rparr>]\<rparr>))"

fun remove_child :: "u32 \<Rightarrow> HD_CHILD_DEVICE list \<Rightarrow> HD_CHILD_DEVICE list option" where
  "remove_child cid [] = None"
| "remove_child cid (c # cs) =
     (if cd_ChildId c = cid then Some cs else map_option ((#) c) (remove_child cid cs))"

definition HdBusRemoveChildDevice :: "HD_BUS_EXTENSION \<Rightarrow> u32 \<Rightarrow> NTSTATUS \<times> HD_BUS_EXTENSION" where
  "HdBusRemoveChildDevice ext cid =
     (case remove_child cid (ChildList ext) of
        Some cs \<Rightarrow> (STATUS_SUCCESS, ext\<lparr>ChildList := cs\<rparr>)
      | None \<Rightarrow> (STATUS_NOT_FOUND, ext))"

datatype bus_ioctl = IOCTL_BUS_ADD_DEVICE | IOCTL_BUS_REMOVE_DEVICE u32 | IOCTL_BUS_GET_STATUS | IOCTL_BUS_OTHER

definition HdBusDispatchIoctl ::
  "u32 \<Rightarrow> bool \<Rightarrow> bus_ioctl \<Rightarrow> u32 \<Rightarrow> HD_BUS_EXTENSION \<Rightarrow> IRP \<Rightarrow> NTSTATUS \<times> HD_BUS_EXTENSION \<times> IRP" where
  "HdBusDispatchIoctl sizeof_config pool code in_len ext irp =
     (let (status, ext') =
        (case code of
           IOCTL_BUS_ADD_DEVICE \<Rightarrow>
             (if in_len < sizeof_config then (STATUS_BUFFER_TOO_SMALL, ext) else HdBusCreateChildDevice pool ext)
         | IOCTL_BUS_REMOVE_DEVICE cid \<Rightarrow>
             (if in_len < 4 then (STATUS_BUFFER_TOO_SMALL, ext) else HdBusRemoveChildDevice ext cid)
         | IOCTL_BUS_GET_STATUS \<Rightarrow> (STATUS_SUCCESS, ext)
         | IOCTL_BUS_OTHER \<Rightarrow> (STATUS_INVALID_DEVICE_REQUEST, ext))
      in (status, ext', complete_irp status 0 irp))"

section \<open>Identifiers\<close>

text \<open>
  The multi-string replies. The buffer is allocated for all strings with their terminators and
  one more terminator, cleared, and filled string by string.
\<close>

definition multi_sz_chars :: "string list \<Rightarrow> nat" where
  "multi_sz_chars ids = (\<Sum>s\<leftarrow>ids. length s + 1) + 1"

fun copy_ids :: "string \<Rightarrow> nat \<Rightarrow> string list \<Rightarrow> string res" where
  "copy_ids buf pos [] = Inr buf"
| "copy_ids buf pos (s # ss) = rbind (mem_write buf pos s) (\<lambda>buf'. copy_ids buf' (pos + (length s + 1)) ss)"

definition query_multi :: "string list \<Rightarrow> string res" where
  "query_multi ids = copy_ids (replicate (multi_sz_chars ids) (CHR 0x00)) 0 ids"

definition query_single :: "string \<Rightarrow> string res" where
  "query_single s = mem_write (replicate (length s + 2) (CHR 0x00)) 0 s"

datatype id_type = BusQueryDeviceID | BusQueryHardwareIDs | BusQueryInstanceID | BusQueryCompatibleIDs | BusQueryOther

definition id_device :: string where "id_device = ''ROOT'' @ [CHR 0x5C] @ ''HYPERDISKBLK''"
definition id_vdisk :: string where "id_vdisk = ''HTKIS'' @ [CHR 0x5C] @ ''HyperDisk_VDisk''"
definition id_disk :: string where "id_disk = ''ROOT'' @ [CHR 0x5C] @ ''DISK''"

text \<open>The status, and on success the buffer, for a pool that has room or not.\<close>

definition HdBusPdoQueryId :: "bool \<Rightarrow> id_type \<Rightarrow> (NTSTATUS \<times> string option) res" where
  "HdBusPdoQueryId pool ty =
     (case ty of
        BusQueryOther \<Rightarrow> Inr (STATUS_NOT_SUPPORTED, None)
      | _ \<Rightarrow>
          (if \<not> pool then Inr (STATUS_INSUFFICIENT_RESOURCES, None)
           else rbind (case ty of
                  BusQueryDeviceID \<Rightarrow> query_single id_device
                | BusQueryHardwareIDs \<Rightarrow> query_multi [id_device, id_vdisk]
                | BusQueryInstanceID \<Rightarrow> query_single ''0''
                | _ \<Rightarrow> query_multi [id_disk]) (\<lambda>buf. Inr (STATUS_SUCCESS, Some buf))))"

section \<open>Requests for a child\<close>

datatype bus_pnp_fn =
    BPNP_START_DEVICE | BPNP_QUERY_STOP_DEVICE | BPNP_QUERY_REMOVE_DEVICE
  | BPNP_CANCEL_STOP_DEVICE | BPNP_CANCEL_REMOVE_DEVICE | BPNP_REMOVE_DEVICE | BPNP_SURPRISE_REMOVAL
  | BPNP_QUERY_DEVICE_RELATIONS bool | BPNP_QUERY_ID id_type | BPNP_QUERY_CAPABILITIES bool
  | BPNP_QUERY_DEVICE_TEXT bool | BPNP_OTHER

datatype pdo_out = PdoNothing | PdoId string | PdoCapabilities | PdoText string

definition pdo_text :: string where "pdo_text = ''HTKIS HyperDisk Virtual Disk''"

text \<open>
  The switch of \<^verbatim>\<open>HdBusPdoPnp\<close>: the child, the local \<^verbatim>\<open>status\<close>, the status block's status, and what
  is handed to the requester. \<^verbatim>\<open>reg_st\<close> is what registering the interface returns. The argument of
  a query for relations, capabilities or a text says whether the code's condition on it holds.
\<close>

definition pdo_switch ::
  "NTSTATUS \<Rightarrow> bool \<Rightarrow> bus_pnp_fn \<Rightarrow> NTSTATUS \<Rightarrow> HD_CHILD_DEVICE
   \<Rightarrow> (HD_CHILD_DEVICE \<times> NTSTATUS \<times> NTSTATUS \<times> pdo_out) res" where
  "pdo_switch reg_st pool fn old_st child =
     (case fn of
        BPNP_START_DEVICE \<Rightarrow>
          (let c1 = child\<lparr>cd_Started := True\<rparr>;
               status = (if \<not> cd_InterfaceRegistered c1 then reg_st else STATUS_SUCCESS);
               c2 = (if \<not> cd_InterfaceRegistered c1 \<and> NT_SUCCESS status
                     then c1\<lparr>cd_InterfaceRegistered := True\<rparr> else c1);
               c3 = (if cd_InterfaceRegistered c2 then c2\<lparr>cd_InterfaceState := True\<rparr> else c2)
           in Inr (c3, status, STATUS_SUCCESS, PdoNothing))
      | BPNP_REMOVE_DEVICE \<Rightarrow>
          (let c1 = (if cd_InterfaceRegistered child
                     then child\<lparr>cd_InterfaceState := False, cd_InterfaceRegistered := False\<rparr> else child)
           in Inr (c1\<lparr>cd_Started := False\<rparr>, STATUS_SUCCESS, STATUS_SUCCESS, PdoNothing))
      | BPNP_SURPRISE_REMOVAL \<Rightarrow>
          (let c1 = (if cd_InterfaceRegistered child then child\<lparr>cd_InterfaceState := False\<rparr> else child)
           in Inr (c1\<lparr>cd_Started := False\<rparr>, STATUS_SUCCESS, STATUS_SUCCESS, PdoNothing))
      | BPNP_QUERY_ID ty \<Rightarrow>
          rbind (HdBusPdoQueryId pool ty) (\<lambda>(st, buf).
            Inr (child, st, st, case buf of None \<Rightarrow> PdoNothing | Some b \<Rightarrow> PdoId b))
      | BPNP_QUERY_CAPABILITIES caps \<Rightarrow>
          Inr (child, STATUS_SUCCESS, STATUS_SUCCESS, if caps then PdoCapabilities else PdoNothing)
      | BPNP_QUERY_DEVICE_TEXT descr \<Rightarrow>
          (if descr
           then if pool then Inr (child, STATUS_SUCCESS, STATUS_SUCCESS, PdoText (pdo_text @ [CHR 0x00]))
                else Inr (child, STATUS_INSUFFICIENT_RESOURCES, STATUS_INSUFFICIENT_RESOURCES, PdoNothing)
           else Inr (child, STATUS_SUCCESS, STATUS_SUCCESS, PdoNothing))
      | BPNP_OTHER \<Rightarrow> Inr (child, STATUS_SUCCESS, STATUS_NOT_SUPPORTED, PdoNothing)
      | _ \<Rightarrow> Inr (child, STATUS_SUCCESS, STATUS_SUCCESS, PdoNothing))"

text \<open>
  \<^verbatim>\<open>ptr\<close> is the address of the buffer handed out, which becomes the information field. The tail
  of the routine merges the two statuses and completes, unless the status is pending.
\<close>

definition HdBusPdoPnp ::
  "NTSTATUS \<Rightarrow> bool \<Rightarrow> u64 \<Rightarrow> bus_pnp_fn \<Rightarrow> HD_CHILD_DEVICE \<Rightarrow> IRP
   \<Rightarrow> (NTSTATUS \<times> HD_CHILD_DEVICE \<times> IRP \<times> pdo_out) res" where
  "HdBusPdoPnp reg_st pool ptr fn child irp =
     rbind (pdo_switch reg_st pool fn (IoStatus_Status irp) child) (\<lambda>(child', status, irp_st, out).
       let info = (case out of PdoId _ \<Rightarrow> ptr | PdoText _ \<Rightarrow> ptr | _ \<Rightarrow> IoStatus_Information irp);
           final = (if irp_st \<noteq> STATUS_SUCCESS then irp_st else status)
       in if status \<noteq> STATUS_PENDING then Inr (final, child', complete_irp final info irp, out)
          else Inr (irp_st, child', irp\<lparr>IoStatus_Status := irp_st, IoStatus_Information := info\<rparr>, out))"

section \<open>Requests for the bus\<close>

text \<open>
  The switch of \<^verbatim>\<open>HdBusFdoPnp\<close>. A query for bus relations collects the device objects of the
  children, taking a reference on each, and drops the relations the request already carried.
\<close>

definition child_pdos :: "HD_CHILD_DEVICE list \<Rightarrow> nat list" where
  "child_pdos cs = List.map_filter ChildDeviceObject cs"

definition add_refs :: "int \<Rightarrow> nat list \<Rightarrow> (nat \<Rightarrow> int) \<Rightarrow> nat \<Rightarrow> int" where
  "add_refs d ds refs = fold (\<lambda>o' r. r(o' := r o' + d)) ds refs"

definition fdo_switch ::
  "enum_env \<Rightarrow> bool \<Rightarrow> bus_pnp_fn \<Rightarrow> HD_BUS_EXTENSION \<Rightarrow> nat list option \<Rightarrow> IRP
   \<Rightarrow> HD_BUS_EXTENSION \<times> nat list option \<times> IRP" where
  "fdo_switch env pool fn ext rels irp =
     (case fn of
        BPNP_START_DEVICE \<Rightarrow>
          (snd (HdBusAutoEnumerateChild env ext), rels, irp\<lparr>IoStatus_Status := STATUS_SUCCESS\<rparr>)
      | BPNP_QUERY_DEVICE_RELATIONS bus_relations \<Rightarrow>
          (if \<not> bus_relations then (ext, rels, irp)
           else if \<not> pool then (ext, rels, irp\<lparr>IoStatus_Status := STATUS_INSUFFICIENT_RESOURCES\<rparr>)
           else let objs = child_pdos (ChildList ext);
                    refs = add_refs 1 objs (ObjRefs ext);
                    refs' = (case rels of None \<Rightarrow> refs | Some old \<Rightarrow> add_refs (- 1) old refs)
                in (ext\<lparr>ObjRefs := refs'\<rparr>, Some objs, irp\<lparr>IoStatus_Status := STATUS_SUCCESS\<rparr>))
      | _ \<Rightarrow> (ext, rels, irp))"

text \<open>
  \<^verbatim>\<open>HdBusDispatchPnp\<close>. The routine for the bus ends by calling the driver of the bus device
  object itself, whose dispatch routine is this one.
\<close>

partial_function (option) HdBusDispatchPnp ::
  "enum_env \<Rightarrow> bool \<Rightarrow> NTSTATUS \<Rightarrow> u64 \<Rightarrow> nat \<Rightarrow> bus_pnp_fn \<Rightarrow> HD_BUS_EXTENSION \<Rightarrow> nat list option \<Rightarrow> IRP
   \<Rightarrow> (NTSTATUS \<times> HD_CHILD_DEVICE option \<times> IRP) res option" where
  "HdBusDispatchPnp env pool reg_st ptr dev fn ext rels irp =
     (if HdBusIsFdo ext dev
      then (case fdo_switch env pool fn ext rels irp of (ext', rels', irp') \<Rightarrow>
              HdBusDispatchPnp env pool reg_st ptr (BusDeviceObject ext') fn ext' rels'
                (irp'\<lparr>Forwards := Suc (Forwards irp')\<rparr>))
      else (case HdBusFindChildByPdo ext dev of
              Some child \<Rightarrow>
                Some (rbind (HdBusPdoPnp reg_st pool ptr fn child irp) (\<lambda>(st, child', irp', _).
                  Inr (st, Some child', irp')))
            | None \<Rightarrow>
                Some (Inr (STATUS_NO_SUCH_DEVICE, None,
                  IoCompleteRequest (irp\<lparr>IoStatus_Status := STATUS_NO_SUCH_DEVICE\<rparr>)))))"

section \<open>Other requests\<close>

definition HdBusDispatchCreate :: "IRP \<Rightarrow> NTSTATUS \<times> IRP" where
  "HdBusDispatchCreate irp = (STATUS_SUCCESS, complete_irp STATUS_SUCCESS 0 irp)"

definition HdBusDispatchPower :: "IRP \<Rightarrow> NTSTATUS \<times> IRP" where
  "HdBusDispatchPower irp = (STATUS_SUCCESS, IoCompleteRequest (irp\<lparr>IoStatus_Status := STATUS_SUCCESS\<rparr>))"

definition HdBusDispatchSystemControl :: "IRP \<Rightarrow> NTSTATUS \<times> IRP" where
  "HdBusDispatchSystemControl irp =
     (STATUS_NOT_SUPPORTED, IoCompleteRequest (irp\<lparr>IoStatus_Status := STATUS_NOT_SUPPORTED\<rparr>))"

definition HdBusDispatchDeviceControl ::
  "disk_sizes \<Rightarrow> HD_BUS_EXTENSION \<Rightarrow> nat \<Rightarrow> disk_ioctl_code \<Rightarrow> u32 \<Rightarrow> u32 \<Rightarrow> IRP \<Rightarrow> NTSTATUS \<times> ioctl_out \<times> IRP" where
  "HdBusDispatchDeviceControl sz ext dev code in_len out_len irp =
     (if HdBusIsFdo ext dev
      then (STATUS_INVALID_DEVICE_REQUEST, OutNothing,
            IoCompleteRequest (irp\<lparr>IoStatus_Status := STATUS_INVALID_DEVICE_REQUEST\<rparr>))
      else (case HdBusFindChildByPdo ext dev of
              None \<Rightarrow> (STATUS_NO_SUCH_DEVICE, OutNothing,
                       IoCompleteRequest (irp\<lparr>IoStatus_Status := STATUS_NO_SUCH_DEVICE\<rparr>))
            | Some child \<Rightarrow> control_irp (disk_ioctl sz (cd_geo child) 0 code in_len out_len) irp))"

interpretation bus_ctl: disk_control sz "disk_ioctl sz (cd_geo child) 0"
  by (rule disk_control_disk_ioctl)

section \<open>Lemmas\<close>

lemma copy_ids_fills:
  "copy_ids (pre @ replicate (multi_sz_chars ids) (CHR 0x00)) (length pre) ids
     = Inr (pre @ concat (map (\<lambda>s. s @ [CHR 0x00]) ids) @ [CHR 0x00])"
proof (induction ids arbitrary: pre)
  case Nil
  then show ?case by (simp add: multi_sz_chars_def)
next
  case (Cons s ss)
  have n: "multi_sz_chars (s # ss) = length s + Suc (multi_sz_chars ss)"
    by (simp add: multi_sz_chars_def)
  have "drop (length s) (replicate (length s + Suc (multi_sz_chars ss)) (CHR 0x00))
      = CHR 0x00 # replicate (multi_sz_chars ss) (CHR 0x00)"
    by (simp only: drop_replicate) simp
  then have w: "mem_write (pre @ replicate (multi_sz_chars (s # ss)) (CHR 0x00)) (length pre) s
      = Inr ((pre @ s @ [CHR 0x00]) @ replicate (multi_sz_chars ss) (CHR 0x00))"
    unfolding n mem_write_def by (simp del: replicate_Suc add_Suc_right)
  show ?case using Cons.IH [of "pre @ s @ [CHR 0x00]"] by (simp add: w)
qed

lemma query_multi_eq:
  "query_multi ids = Inr (concat (map (\<lambda>s. s @ [CHR 0x00]) ids) @ [CHR 0x00])"
  using copy_ids_fills [of "[]" ids] by (simp add: query_multi_def)

lemma query_single_eq: "query_single s = Inr (s @ [CHR 0x00, CHR 0x00])"
proof -
  have "drop (length s) (replicate (length s + 2) (CHR 0x00)) = [CHR 0x00, CHR 0x00]"
    by (simp only: drop_replicate) (simp add: numeral_2_eq_2)
  then show ?thesis unfolding query_single_def mem_write_def by (simp del: replicate_Suc add_2_eq_Suc')
qed

lemma HdBusPdoQueryId_total: "\<exists>st buf. HdBusPdoQueryId pool ty = Inr (st, buf)"
  by (cases ty) (simp_all add: HdBusPdoQueryId_def query_multi_eq query_single_eq)

lemma fdo_pnp_diverges:
  "HdBusDispatchPnp env pool reg_st ptr dev fn ext rels irp = Some r \<Longrightarrow> dev \<noteq> BusDeviceObject ext"
proof (rule HdBusDispatchPnp.raw_induct
    [where P = "\<lambda>env pool reg_st ptr dev fn ext rels irp r. dev \<noteq> BusDeviceObject ext"])
  fix f env pool reg_st ptr dev fn ext rels irp r
  assume ih: "\<And>env pool reg_st ptr dev fn ext rels irp r.
      f env pool reg_st ptr dev fn ext rels irp = Some r \<Longrightarrow> dev \<noteq> BusDeviceObject ext"
    and eq: "(if HdBusIsFdo ext dev
      then (case fdo_switch env pool fn ext rels irp of (ext', rels', irp') \<Rightarrow>
              f env pool reg_st ptr (BusDeviceObject ext') fn ext' rels'
                (irp'\<lparr>Forwards := Suc (Forwards irp')\<rparr>))
      else (case HdBusFindChildByPdo ext dev of
              Some child \<Rightarrow>
                Some (rbind (HdBusPdoPnp reg_st pool ptr fn child irp) (\<lambda>(st, child', irp', _).
                  Inr (st, Some child', irp')))
            | None \<Rightarrow>
                Some (Inr (STATUS_NO_SUCH_DEVICE, None,
                  IoCompleteRequest (irp\<lparr>IoStatus_Status := STATUS_NO_SUCH_DEVICE\<rparr>))))) = Some r"
  show "dev \<noteq> BusDeviceObject ext"
    using eq by (auto simp: HdBusIsFdo_def split: prod.splits dest!: ih)
qed

subsection \<open>The child list\<close>

definition bus_ok :: "HD_BUS_EXTENSION \<Rightarrow> bool" where
  "bus_ok ext \<longleftrightarrow> distinct (map cd_ChildId (ChildList ext))
     \<and> (\<forall>c \<in> set (ChildList ext). 0 < unat (cd_ChildId c) \<and> unat (cd_ChildId c) \<le> unat (ChildCount ext))"

lemma unat_succ_u32: "unat (x :: u32) < 2 ^ 32 - 1 \<Longrightarrow> unat (x + 1) = unat x + 1"
  by (simp add: unat_word_ariths)

lemma bus_ok_append:
  assumes "bus_ok ext" "unat (ChildCount ext) < 2 ^ 32 - 1" "cd_ChildId c = ChildCount ext + 1"
  shows "bus_ok (ext\<lparr>ChildCount := ChildCount ext + 1, ChildList := ChildList ext @ [c]\<rparr>)"
proof -
  have n: "unat (ChildCount ext + 1) = unat (ChildCount ext) + 1" using assms(2) by (rule unat_succ_u32)
  have "cd_ChildId d \<noteq> ChildCount ext + 1" if "d \<in> set (ChildList ext)" for d
    using that assms(1) n by (force simp: bus_ok_def)
  then show ?thesis using assms n by (force simp: bus_ok_def)
qed

lemma bus_ok_grow:
  "bus_ok ext \<Longrightarrow> unat (ChildCount ext) < 2 ^ 32 - 1 \<Longrightarrow> bus_ok (ext\<lparr>ChildCount := ChildCount ext + 1\<rparr>)"
  using unat_succ_u32 [of "ChildCount ext"] by (auto simp: bus_ok_def)

lemma bus_ok_enum_calls [simp]:
  "bus_ok (ext\<lparr>enum_calls := n\<rparr>) = bus_ok ext"
  by (simp add: bus_ok_def)

lemma bus_ok_enumerate:
  assumes ok: "bus_ok ext" and lim: "unat (ChildCount ext) < 2 ^ 32 - 1"
  shows "bus_ok (snd (HdBusAutoEnumerateChild env ext))"
proof -
  let ?e = "ext\<lparr>enum_calls := Suc (enum_calls ext)\<rparr>"
  have "bus_ok ?e" "unat (ChildCount ?e) < 2 ^ 32 - 1" using ok lim by simp_all
  from bus_ok_append [OF this] bus_ok_grow [OF this] show ?thesis
    using ok
    by (cases "env (enum_calls ext)") (auto simp: HdBusAutoEnumerateChild_def HdBusCreatePdo_def Let_def)
qed

lemma bus_ok_create:
  "bus_ok ext \<Longrightarrow> unat (ChildCount ext) < 2 ^ 32 - 1 \<Longrightarrow> bus_ok (snd (HdBusCreateChildDevice pool ext))"
  using bus_ok_append [of ext "zero_child\<lparr>cd_ChildId := ChildCount ext + 1\<rparr>"]
  by (simp add: HdBusCreateChildDevice_def Let_def)

lemma remove_child_props:
  "remove_child cid cs = Some cs' \<Longrightarrow> set cs' \<subseteq> set cs \<and> (distinct (map cd_ChildId cs) \<longrightarrow>
     distinct (map cd_ChildId cs') \<and> cid \<notin> cd_ChildId ` set cs')"
proof (induction cs arbitrary: cs')
  case (Cons c cs)
  show ?case
  proof (cases "cd_ChildId c = cid")
    case False
    then obtain ds where ds: "remove_child cid cs = Some ds" "cs' = c # ds"
      using Cons.prems by auto
    then show ?thesis using Cons.IH [OF ds(1)] False by auto
  qed (use Cons.prems in auto)
qed simp

lemma bus_ok_remove: "bus_ok ext \<Longrightarrow> bus_ok (snd (HdBusRemoveChildDevice ext cid))"
  using remove_child_props [of cid "ChildList ext"]
  by (auto simp: HdBusRemoveChildDevice_def bus_ok_def split: option.splits)

inductive bus_reachable :: "HD_BUS_EXTENSION \<Rightarrow> bool" where
  entry: "bus_DriverEntry c l dev = (st, Some ext) \<Longrightarrow> bus_reachable ext"
| enumerate: "bus_reachable ext \<Longrightarrow> unat (ChildCount ext) < 2 ^ 32 - 1 \<Longrightarrow>
    bus_reachable (snd (HdBusAutoEnumerateChild env ext))"
| create: "bus_reachable ext \<Longrightarrow> unat (ChildCount ext) < 2 ^ 32 - 1 \<Longrightarrow>
    bus_reachable (snd (HdBusCreateChildDevice pool ext))"
| remove: "bus_reachable ext \<Longrightarrow> bus_reachable (snd (HdBusRemoveChildDevice ext cid))"

lemma bus_reachable_ok: "bus_reachable ext \<Longrightarrow> bus_ok ext"
proof (induction rule: bus_reachable.induct)
  case (entry c l dev st ext)
  then show ?case by (auto simp: bus_DriverEntry_def bus_ok_def split: if_splits)
qed (simp_all add: bus_ok_enumerate bus_ok_create bus_ok_remove)

section \<open>Properties\<close>

text \<open>
  A plug-and-play request for the bus device itself never returns: after its own work the
  driver passes the request to its own device object, so its dispatch routine is entered again,
  without end, whatever the request is.
\<close>

theorem bus_fdo_pnp_never_returns:
  "HdBusDispatchPnp env pool reg_st ptr (BusDeviceObject ext) fn ext rels irp = None"
  using fdo_pnp_diverges [of env pool reg_st ptr "BusDeviceObject ext" fn ext rels irp]
  by (cases "HdBusDispatchPnp env pool reg_st ptr (BusDeviceObject ext) fn ext rels irp") auto


definition new_bus :: HD_BUS_EXTENSION where
  "new_bus = \<lparr>BusDeviceObject = 1, ChildCount = 0, ChildList = [], ObjRefs = (\<lambda>_. 0), enum_calls = 0\<rparr>"


text \<open>
  The multi-string identifiers handed to the plug-and-play manager are well formed and the
  copy loop stays within the buffer: for every list of strings the buffer that is allocated and
  filled is exactly the strings, each with its terminator, and the final terminator.
\<close>

theorem bus_multi_sz_exact:
  "copy_ids (replicate (multi_sz_chars ids) (CHR 0x00)) 0 ids
     = Inr (concat (map (\<lambda>s. s @ [CHR 0x00]) ids) @ [CHR 0x00])
   \<and> HdBusPdoQueryId True BusQueryHardwareIDs
     = Inr (STATUS_SUCCESS, Some (id_device @ [CHR 0x00] @ id_vdisk @ [CHR 0x00, CHR 0x00]))"
  using copy_ids_fills [of "[]" ids] by (simp add: HdBusPdoQueryId_def query_multi_eq)

end
