(* ===== verification/HD_StorPort.thy ===== *)
theory HD_StorPort
  imports HD_DiskIoctl
begin

text \<open>
  The StorPort miniport, \<^verbatim>\<open>driver/blk/storport_driver.{h,c}\<close>: SCSI commands answered from a fixed
  geometry. The data buffer of a request is a byte list; a handler that writes past its end is the
  fault \<^const>\<open>OutOfBounds\<close>. The sizes of the structures whose tail the handlers only clear are
  the parameter \<^verbatim>\<open>sz\<close>; the members they set lie in the leading bytes that SCSI fixes.
\<close>

section \<open>State\<close>

record HD_PORT_EXTENSION =
  pe_geo :: disk_geo
  ServerAddress :: string
  ServerPort :: u16
  pe_Initialized :: bool

datatype srb_status = SRB_STATUS_PENDING | SRB_STATUS_SUCCESS | SRB_STATUS_INVALID_REQUEST | SRB_STATUS_DATA_OVERRUN

datatype srb_function =
    SRB_FUNCTION_EXECUTE_SCSI | SRB_FUNCTION_IO_CONTROL | SRB_FUNCTION_FLUSH | SRB_FUNCTION_SHUTDOWN
  | SRB_FUNCTION_RESET_DEVICE | SRB_FUNCTION_RESET_BUS | SRB_FUNCTION_RELEASE_DEVICE | SRB_FUNCTION_OTHER

record SRB =
  Function :: srb_function
  Cdb0 :: u8
  DataTransferLength :: u32
  DataBuffer :: "u8 list"
  SrbStatus :: srb_status
  SrbCompletions :: nat

record port_sizes =
  sizeof_INQUIRYDATA :: nat
  sizeof_READ_CAPACITY16_DATA :: nat
  sizeof_SENSE_DATA :: nat

definition StorPortCompleteRequest :: "SRB \<Rightarrow> SRB" where
  "StorPortCompleteRequest srb = srb\<lparr>SrbCompletions := Suc (SrbCompletions srb)\<rparr>"

definition finish_srb :: "srb_status \<Rightarrow> SRB \<Rightarrow> SRB" where
  "finish_srb st srb = StorPortCompleteRequest (srb\<lparr>SrbStatus := st\<rparr>)"

section \<open>Adapter\<close>

text \<open>
  What \<^verbatim>\<open>DriverEntry\<close> hands to the port driver: the callbacks by name, the features and the identification.
  The port driver is the parameter \<open>StorPortInitialize\<close>.
\<close>

record HW_INITIALIZATION_DATA =
  hw_HwInitialize :: "string option"
  hw_HwStartIo :: "string option"
  hw_HwInterrupt :: "string option"
  hw_HwFindAdapter :: "string option"
  hw_HwResetBus :: "string option"
  hw_HwAdapterControl :: "string option"
  hw_HwBuildIo :: "string option"
  hw_MapBuffers :: bool
  hw_NeedPhysicalAddresses :: bool
  hw_TaggedQueuing :: bool
  hw_AutoRequestSense :: bool
  hw_MultipleRequestPerLu :: bool
  hw_ReceiveEvent :: bool
  hw_VendorIdLength :: u16
  hw_VendorId :: string
  hw_DeviceIdLength :: u16
  hw_DeviceId :: string

definition hwInitData :: HW_INITIALIZATION_DATA where
  "hwInitData =
     \<lparr>hw_HwInitialize = Some ''HdPortHwInitialize'', hw_HwStartIo = Some ''HdPortHwStartIo'', hw_HwInterrupt = None,
      hw_HwFindAdapter = Some ''HdPortHwFindAdapter'', hw_HwResetBus = Some ''HdPortHwResetBus'',
      hw_HwAdapterControl = None, hw_HwBuildIo = None,
      hw_MapBuffers = True, hw_NeedPhysicalAddresses = False, hw_TaggedQueuing = True, hw_AutoRequestSense = True,
      hw_MultipleRequestPerLu = True, hw_ReceiveEvent = False,
      hw_VendorIdLength = 8, hw_VendorId = ''HTKIS   '', hw_DeviceIdLength = 16, hw_DeviceId = ''HyperDisk VDisk  ''\<rparr>"

definition storport_DriverEntry :: "(HW_INITIALIZATION_DATA \<Rightarrow> u32) \<Rightarrow> u32" where
  "storport_DriverEntry StorPortInitialize = StorPortInitialize hwInitData"

definition HdPortHwInitialize :: "HD_PORT_EXTENSION \<Rightarrow> bool \<times> HD_PORT_EXTENSION" where
  "HdPortHwInitialize ext = (True, ext)"

definition SP_RETURN_FOUND :: u32 where "SP_RETURN_FOUND = 1"

definition HdPortHwResetBus :: "HD_PORT_EXTENSION \<Rightarrow> u32 \<Rightarrow> u32 \<times> HD_PORT_EXTENSION" where
  "HdPortHwResetBus ext PathId = (SP_RETURN_FOUND, ext)"

definition HdPortHwFindAdapter :: "HD_PORT_EXTENSION \<Rightarrow> HD_PORT_EXTENSION" where
  "HdPortHwFindAdapter ext =
     (let size = 64 * 1024 * 1024 * 1024 :: u64;
          total = ucast (size div ucast HD_SECTOR_SIZE) :: u32;
          cyl = total div (63 * 255)
      in ext\<lparr>pe_geo := \<lparr>dg_DiskSize = size, dg_SectorSize = HD_SECTOR_SIZE, dg_TotalSectors = total,
                        dg_Cylinders = (if cyl = 0 then 1 else cyl), dg_TracksPerCylinder = 255,
                        dg_SectorsPerTrack = 63\<rparr>,
             ServerAddress := ''192.168.2.110'', ServerPort := 9527, pe_Initialized := True\<rparr>)"

section \<open>SCSI commands\<close>

text \<open>\<^verbatim>\<open>_byteswap_ulong\<close> and \<^verbatim>\<open>_byteswap_uint64\<close>.\<close>

definition byteswap32 :: "u32 \<Rightarrow> u32" where "byteswap32 x = le_word 4 (rev (le_bytes 4 x))"
definition byteswap64 :: "u64 \<Rightarrow> u64" where "byteswap64 x = le_word 8 (rev (le_bytes 8 x))"

definition inquiry_bytes :: "nat \<Rightarrow> u8 list" where
  "inquiry_bytes n =
     take n ([0, 0, 5, 2, 31, 0, 0, 0] @ bytes_of_string ''HTKIS   '' @ bytes_of_string ''HyperDisk VDisk ''
             @ bytes_of_string ''1.0'' @ [0] @ replicate n 0)"

definition HdPortHandleInquiry :: "port_sizes \<Rightarrow> SRB \<Rightarrow> SRB res" where
  "HdPortHandleInquiry sz srb =
     (if unat (DataTransferLength srb) < sizeof_INQUIRYDATA sz
      then Inr (finish_srb SRB_STATUS_DATA_OVERRUN srb)
      else rbind (mem_write (DataBuffer srb) 0 (inquiry_bytes (sizeof_INQUIRYDATA sz))) (\<lambda>buf.
        Inr (finish_srb SRB_STATUS_SUCCESS
               (srb\<lparr>DataBuffer := buf, DataTransferLength := of_nat (sizeof_INQUIRYDATA sz)\<rparr>))))"

text \<open>The comparison with \<^verbatim>\<open>0xFFFFFFFF\<close> is on 32-bit values and never holds.\<close>

definition HdPortHandleReadCapacity :: "HD_PORT_EXTENSION \<Rightarrow> SRB \<Rightarrow> SRB res" where
  "HdPortHandleReadCapacity ext srb =
     (let last_lba = (if (0xFFFFFFFF :: u32) < dg_TotalSectors (pe_geo ext) - 1 then 0xFFFFFFFF
                      else dg_TotalSectors (pe_geo ext) - 1);
          capacity = le_bytes 4 (byteswap32 last_lba) @ le_bytes 4 (byteswap32 (dg_SectorSize (pe_geo ext)))
      in rbind (mem_write (DataBuffer srb) 0 capacity) (\<lambda>buf.
         Inr (finish_srb SRB_STATUS_SUCCESS (srb\<lparr>DataBuffer := buf, DataTransferLength := 8\<rparr>))))"

definition HdPortHandleReadCapacity16 :: "port_sizes \<Rightarrow> HD_PORT_EXTENSION \<Rightarrow> SRB \<Rightarrow> SRB res" where
  "HdPortHandleReadCapacity16 sz ext srb =
     (let n = sizeof_READ_CAPACITY16_DATA sz;
          capacity = take n (le_bytes 8 (byteswap64 (ucast (dg_TotalSectors (pe_geo ext) - 1)))
                             @ le_bytes 4 (byteswap32 (dg_SectorSize (pe_geo ext))) @ replicate n 0)
      in rbind (mem_write (DataBuffer srb) 0 capacity) (\<lambda>buf.
         Inr (finish_srb SRB_STATUS_SUCCESS (srb\<lparr>DataBuffer := buf, DataTransferLength := of_nat n\<rparr>))))"

definition HdPortHandleReadWrite :: "SRB \<Rightarrow> SRB" where
  "HdPortHandleReadWrite srb = finish_srb SRB_STATUS_SUCCESS srb"

definition HdPortHandleModeSense :: "SRB \<Rightarrow> SRB" where
  "HdPortHandleModeSense srb = finish_srb SRB_STATUS_SUCCESS (srb\<lparr>DataTransferLength := 0\<rparr>)"

definition HdPortHandleRequestSense :: "port_sizes \<Rightarrow> SRB \<Rightarrow> SRB res" where
  "HdPortHandleRequestSense sz srb =
     (let n = sizeof_SENSE_DATA sz in
      rbind (mem_write (DataBuffer srb) 0 (take n (0x70 # replicate n 0))) (\<lambda>buf.
        Inr (finish_srb SRB_STATUS_SUCCESS (srb\<lparr>DataBuffer := buf, DataTransferLength := of_nat n\<rparr>))))"

definition SCSIOP_TEST_UNIT_READY :: u8 where "SCSIOP_TEST_UNIT_READY = 0x00"
definition SCSIOP_REQUEST_SENSE :: u8 where "SCSIOP_REQUEST_SENSE = 0x03"
definition SCSIOP_INQUIRY :: u8 where "SCSIOP_INQUIRY = 0x12"
definition SCSIOP_MODE_SENSE :: u8 where "SCSIOP_MODE_SENSE = 0x1A"
definition SCSIOP_START_STOP_UNIT :: u8 where "SCSIOP_START_STOP_UNIT = 0x1B"
definition SCSIOP_MEDIUM_REMOVAL :: u8 where "SCSIOP_MEDIUM_REMOVAL = 0x1E"
definition SCSIOP_READ_CAPACITY :: u8 where "SCSIOP_READ_CAPACITY = 0x25"
definition SCSIOP_READ :: u8 where "SCSIOP_READ = 0x28"
definition SCSIOP_WRITE :: u8 where "SCSIOP_WRITE = 0x2A"
definition SCSIOP_VERIFY :: u8 where "SCSIOP_VERIFY = 0x2F"
definition SCSIOP_READ_CAPACITY16 :: u8 where "SCSIOP_READ_CAPACITY16 = 0x9E"

definition HdPortHandleScsi :: "port_sizes \<Rightarrow> HD_PORT_EXTENSION \<Rightarrow> SRB \<Rightarrow> SRB res" where
  "HdPortHandleScsi sz ext srb =
     (let op = Cdb0 srb in
      if op = SCSIOP_READ \<or> op = SCSIOP_WRITE then Inr (HdPortHandleReadWrite srb)
      else if op = SCSIOP_READ_CAPACITY then HdPortHandleReadCapacity ext srb
      else if op = SCSIOP_READ_CAPACITY16 then HdPortHandleReadCapacity16 sz ext srb
      else if op = SCSIOP_INQUIRY then HdPortHandleInquiry sz srb
      else if op = SCSIOP_MODE_SENSE then Inr (HdPortHandleModeSense srb)
      else if op = SCSIOP_TEST_UNIT_READY
      then Inr (finish_srb SRB_STATUS_SUCCESS (srb\<lparr>DataTransferLength := 0\<rparr>))
      else if op = SCSIOP_REQUEST_SENSE then HdPortHandleRequestSense sz srb
      else if op = SCSIOP_START_STOP_UNIT \<or> op = SCSIOP_VERIFY \<or> op = SCSIOP_MEDIUM_REMOVAL
      then Inr (finish_srb SRB_STATUS_SUCCESS (srb\<lparr>DataTransferLength := 0\<rparr>))
      else Inr (finish_srb SRB_STATUS_INVALID_REQUEST srb))"

definition HdPortHwStartIo :: "port_sizes \<Rightarrow> HD_PORT_EXTENSION \<Rightarrow> SRB \<Rightarrow> (bool \<times> SRB) res" where
  "HdPortHwStartIo sz ext srb =
     rbind (case Function srb of
              SRB_FUNCTION_EXECUTE_SCSI \<Rightarrow> HdPortHandleScsi sz ext srb
            | SRB_FUNCTION_IO_CONTROL \<Rightarrow> Inr (finish_srb SRB_STATUS_INVALID_REQUEST srb)
            | SRB_FUNCTION_OTHER \<Rightarrow> Inr (finish_srb SRB_STATUS_INVALID_REQUEST srb)
            | _ \<Rightarrow> Inr (finish_srb SRB_STATUS_SUCCESS srb)) (\<lambda>srb'. Inr (True, srb'))"

section \<open>Lemmas\<close>

lemmas scsi_ops = SCSIOP_TEST_UNIT_READY_def SCSIOP_REQUEST_SENSE_def SCSIOP_INQUIRY_def
  SCSIOP_MODE_SENSE_def SCSIOP_START_STOP_UNIT_def SCSIOP_MEDIUM_REMOVAL_def SCSIOP_READ_CAPACITY_def
  SCSIOP_READ_def SCSIOP_WRITE_def SCSIOP_VERIFY_def SCSIOP_READ_CAPACITY16_def

lemmas scsi_handlers = HdPortHandleReadWrite_def HdPortHandleReadCapacity_def HdPortHandleReadCapacity16_def
  HdPortHandleInquiry_def HdPortHandleModeSense_def HdPortHandleRequestSense_def

lemma finish_srb_sel [simp]:
  "SrbCompletions (finish_srb st srb) = Suc (SrbCompletions srb)" "SrbStatus (finish_srb st srb) = st"
  "DataBuffer (finish_srb st srb) = DataBuffer srb" "DataTransferLength (finish_srb st srb) = DataTransferLength srb"
  by (simp_all add: finish_srb_def StorPortCompleteRequest_def)

lemma rev_le_bytes_swap32: "le_bytes 4 (byteswap32 x) = rev (le_bytes 4 x)"
  unfolding byteswap32_def by (rule le_bytes_le_word) simp_all

lemma rev_le_bytes_swap64: "le_bytes 8 (byteswap64 x) = rev (le_bytes 8 x)"
  unfolding byteswap64_def by (rule le_bytes_le_word) simp_all

text \<open>Reading a big-endian number of four and of eight bytes, as the initiator does.\<close>

definition be32 :: "u8 list \<Rightarrow> u32" where "be32 bs = le_word 4 (rev (take 4 bs))"
definition be64 :: "u8 list \<Rightarrow> u64" where "be64 bs = le_word 8 (rev (take 8 bs))"

lemma be32_swap: "be32 (le_bytes 4 (byteswap32 x) @ rest) = x"
  by (simp add: be32_def rev_le_bytes_swap32 le_word_le_bytes)

lemma be64_swap: "be64 (le_bytes 8 (byteswap64 x) @ rest) = x"
  by (simp add: be64_def rev_le_bytes_swap64 le_word_le_bytes)

lemma adapter_geometry:
  "pe_geo (HdPortHwFindAdapter ext) = \<lparr>dg_DiskSize = 68719476736, dg_SectorSize = 512,
     dg_TotalSectors = 134217728, dg_Cylinders = 8354, dg_TracksPerCylinder = 255, dg_SectorsPerTrack = 63\<rparr>"
  by (simp add: HdPortHwFindAdapter_def HD_SECTOR_SIZE_def Let_def)

lemma adapter_geometry_init: "pe_geo (HdPortHwFindAdapter ext) = init_geo"
  by (simp add: adapter_geometry init_geo_def HD_DISK_SIZE_def HD_SECTOR_SIZE_def HD_TOTAL_SECTORS_def
      HD_CYLINDERS_def Let_def)

lemma length_inquiry_bytes [simp]: "length (inquiry_bytes n) = n"
  by (simp add: inquiry_bytes_def)

lemma mem_write_Inl_iff: "mem_write buf off src = Inl e \<longleftrightarrow> e = OutOfBounds \<and> length buf < off + length src"
  by (auto simp: mem_write_def)

lemma rbind_Inl_iff: "rbind m f = Inl e \<longleftrightarrow> m = Inl e \<or> (\<exists>a. m = Inr a \<and> f a = Inl e)"
  by (cases m) auto

section \<open>Properties\<close>

text \<open>
  Every request given to the miniport is completed exactly once, with a final status, unless a
  handler faults.
\<close>

theorem storport_completes_once:
  assumes "HdPortHwStartIo sz ext srb = Inr (r, srb')"
  shows "r \<and> SrbCompletions srb' = Suc (SrbCompletions srb) \<and> SrbStatus srb' \<noteq> SRB_STATUS_PENDING"
proof -
  obtain st s0 where "srb' = finish_srb st s0" "st \<noteq> SRB_STATUS_PENDING" "SrbCompletions s0 = SrbCompletions srb" r
    using assms
    by (cases "Function srb")
       (auto simp: HdPortHwStartIo_def HdPortHandleScsi_def scsi_handlers Let_def rbind_Inr_iff split: if_splits)
  then show ?thesis by simp
qed

definition example_port_sizes :: port_sizes where
  "example_port_sizes = \<lparr>sizeof_INQUIRYDATA = 36, sizeof_READ_CAPACITY16_DATA = 32, sizeof_SENSE_DATA = 18\<rparr>"

definition example_port :: HD_PORT_EXTENSION where
  "example_port = HdPortHwFindAdapter \<lparr>pe_geo = init_geo, ServerAddress = [], ServerPort = 0, pe_Initialized = False\<rparr>"

definition example_srb :: "u8 \<Rightarrow> nat \<Rightarrow> SRB" where
  "example_srb op n = \<lparr>Function = SRB_FUNCTION_EXECUTE_SCSI, Cdb0 = op, DataTransferLength = of_nat n,
     DataBuffer = replicate n 0xFF, SrbStatus = SRB_STATUS_PENDING, SrbCompletions = 0\<rparr>"

theorem storport_completes_once_witness:
  "SrbCompletions (finish_srb SRB_STATUS_SUCCESS ((example_srb SCSIOP_TEST_UNIT_READY 4)\<lparr>DataTransferLength := 0\<rparr>)) = 1"
proof -
  have "HdPortHwStartIo example_port_sizes example_port (example_srb SCSIOP_TEST_UNIT_READY 4)
     = Inr (True, finish_srb SRB_STATUS_SUCCESS ((example_srb SCSIOP_TEST_UNIT_READY 4)\<lparr>DataTransferLength := 0\<rparr>))"
    by (simp add: HdPortHwStartIo_def HdPortHandleScsi_def example_srb_def scsi_ops Let_def)
  from storport_completes_once [OF this] show ?thesis by (simp add: example_srb_def)
qed

text \<open>
  C35. The capacity the miniport reports is the size of its disk: with a data buffer large enough,
  READ CAPACITY (10) and (16) both answer, in big-endian order, the last block address and the
  block size, and (last block + 1) times the block size is exactly \<^verbatim>\<open>DiskSize\<close>, 64 GB.
\<close>

theorem storport_capacity_exact:
  assumes "8 \<le> length (DataBuffer srb)" and "12 \<le> sizeof_READ_CAPACITY16_DATA sz"
    and "sizeof_READ_CAPACITY16_DATA sz \<le> length (DataBuffer srb)"
  shows "\<exists>a b. HdPortHandleReadCapacity (HdPortHwFindAdapter ext) srb = Inr a
     \<and> HdPortHandleReadCapacity16 sz (HdPortHwFindAdapter ext) srb = Inr b
     \<and> unat (be64 (DataBuffer b)) = unat (be32 (DataBuffer a))
     \<and> be32 (drop 8 (DataBuffer b)) = be32 (drop 4 (DataBuffer a))
     \<and> (unat (be32 (DataBuffer a)) + 1) * unat (be32 (drop 4 (DataBuffer a)))
         = unat (dg_DiskSize (pe_geo (HdPortHwFindAdapter ext)))
     \<and> unat (dg_DiskSize (pe_geo (HdPortHwFindAdapter ext))) = 64 * 2 ^ 30"
proof (intro exI conjI)
  let ?c = "le_bytes 4 (byteswap32 134217727) @ le_bytes 4 (byteswap32 512)"
  let ?n = "sizeof_READ_CAPACITY16_DATA sz"
  let ?d = "le_bytes 8 (byteswap64 134217727) @ le_bytes 4 (byteswap32 512) @ replicate (?n - 12) 0"
  let ?a = "finish_srb SRB_STATUS_SUCCESS
     (srb\<lparr>DataBuffer := ?c @ drop 8 (DataBuffer srb), DataTransferLength := 8\<rparr>)"
  let ?b = "finish_srb SRB_STATUS_SUCCESS
     (srb\<lparr>DataBuffer := ?d @ drop ?n (DataBuffer srb), DataTransferLength := of_nat ?n\<rparr>)"
  show "HdPortHandleReadCapacity (HdPortHwFindAdapter ext) srb = Inr ?a"
    using assms by (simp add: HdPortHandleReadCapacity_def adapter_geometry Let_def)
  show "HdPortHandleReadCapacity16 sz (HdPortHwFindAdapter ext) srb = Inr ?b"
    using assms by (simp add: HdPortHandleReadCapacity16_def adapter_geometry Let_def min_def)
  show "unat (be64 (DataBuffer ?b)) = unat (be32 (DataBuffer ?a))"
    by (simp add: be32_swap be64_swap)
  show "be32 (drop 8 (DataBuffer ?b)) = be32 (drop 4 (DataBuffer ?a))"
    by (simp add: be32_swap)
  show "(unat (be32 (DataBuffer ?a)) + 1) * unat (be32 (drop 4 (DataBuffer ?a)))
         = unat (dg_DiskSize (pe_geo (HdPortHwFindAdapter ext)))"
    by (simp add: be32_swap adapter_geometry)
qed (simp add: adapter_geometry)

theorem storport_capacity_exact_witness:
  "\<exists>a. HdPortHandleReadCapacity (HdPortHwFindAdapter example_port) (example_srb SCSIOP_READ_CAPACITY 32) = Inr a
     \<and> (unat (be32 (DataBuffer a)) + 1) * unat (be32 (drop 4 (DataBuffer a))) = 64 * 2 ^ 30"
  using storport_capacity_exact [of "example_srb SCSIOP_READ_CAPACITY 32" example_port_sizes example_port]
  by (fastforce simp: example_srb_def example_port_sizes_def)

text \<open>
  Which requests overrun their buffer. For a request whose transfer length is the length of its
  buffer, the miniport writes out of bounds exactly for READ CAPACITY, READ CAPACITY (16) and
  REQUEST SENSE with a buffer shorter than the structure, for these handlers do not look at the
  length; INQUIRY, which does, and every other request never fault.
\<close>

theorem storport_overrun_iff:
  assumes "unat (DataTransferLength srb) = length (DataBuffer srb)"
  shows "HdPortHwStartIo sz ext srb = Inl e \<longleftrightarrow>
     e = OutOfBounds \<and> Function srb = SRB_FUNCTION_EXECUTE_SCSI
     \<and> (Cdb0 srb = SCSIOP_READ_CAPACITY \<and> length (DataBuffer srb) < 8
        \<or> Cdb0 srb = SCSIOP_READ_CAPACITY16 \<and> length (DataBuffer srb) < sizeof_READ_CAPACITY16_DATA sz
        \<or> Cdb0 srb = SCSIOP_REQUEST_SENSE \<and> length (DataBuffer srb) < sizeof_SENSE_DATA sz)"
  using assms
  by (cases "Function srb")
     (auto simp: HdPortHwStartIo_def HdPortHandleScsi_def scsi_handlers scsi_ops Let_def
       rbind_Inl_iff mem_write_Inl_iff mem_write_Inr_iff split: if_splits)

theorem storport_overrun_iff_witness:
  "HdPortHwStartIo example_port_sizes example_port (example_srb SCSIOP_READ_CAPACITY 4) = Inl OutOfBounds"
  using storport_overrun_iff [of "example_srb SCSIOP_READ_CAPACITY 4" example_port_sizes example_port OutOfBounds]
  by (simp add: example_srb_def)

end
