(* ===== verification/HD_Filters.thy ===== *)
theory HD_Filters
  imports HD_Prelude
begin

text \<open>
  The two file-system filters, \<^verbatim>\<open>driver/cache/cache_driver.{h,c}\<close> and
  \<^verbatim>\<open>driver/overlay/overlay_driver.{h,c}\<close>: their set-up and unloading, the one-entry RAM cache, and
  the list of dirty pages of the overlay. Blocks allocated from the kernel pool are counted, so
  that what an operation fails to free shows; whether an allocation succeeds and what the filter
  manager answers are arguments. The serial log is the list of strings written to it.
\<close>

datatype flt_preop = FLT_PREOP_SUCCESS_WITH_CALLBACK | FLT_PREOP_SUCCESS_NO_CALLBACK | FLT_PREOP_COMPLETE
datatype flt_postop = FLT_POSTOP_FINISHED_PROCESSING

section \<open>The cache filter\<close>

record HD_CACHE_EXTENSION =
  L1RamCache :: "u8 list option"
  L1CacheSize :: u64
  ce_BlockSize :: u32
  CacheHitCount :: u32
  CacheMissCount :: u32
  ce_IsStarted :: bool
  ce_FilterHandle :: bool
  ce_PoolBlocks :: nat
  ce_log :: "string list"

definition HdCacheFilterSetup :: "NTSTATUS \<Rightarrow> NTSTATUS \<Rightarrow> HD_CACHE_EXTENSION \<Rightarrow> NTSTATUS \<times> HD_CACHE_EXTENSION" where
  "HdCacheFilterSetup reg_st start_st ext =
     (let e0 = ext\<lparr>L1RamCache := None, L1CacheSize := 0, CacheHitCount := 0, CacheMissCount := 0,
                   ce_IsStarted := False, ce_BlockSize := 4096\<rparr>
      in if \<not> NT_SUCCESS reg_st
         then (reg_st, e0\<lparr>ce_log := ce_log e0 @ [''[HDx:CACHE_LOADED] FltRegisterFilter failed'' @ crlf]\<rparr>)
         else if \<not> NT_SUCCESS start_st
         then (start_st, e0\<lparr>ce_FilterHandle := False,
                            ce_log := ce_log e0 @ [''[HDx:CACHE_LOADED] FltStartFiltering failed'' @ crlf]\<rparr>)
         else (STATUS_SUCCESS,
               e0\<lparr>ce_FilterHandle := True, ce_IsStarted := True,
                  ce_log := ce_log e0 @ [''[HDx:CACHE_LOADED] HyperCache MiniFilter started'' @ crlf]\<rparr>))"

definition HdCacheFilterUnload :: "HD_CACHE_EXTENSION \<Rightarrow> HD_CACHE_EXTENSION" where
  "HdCacheFilterUnload ext =
     ext\<lparr>ce_FilterHandle := False, ce_IsStarted := False,
         ce_log := ce_log ext @ [''[HDx:CACHE_LOADED] HyperCache unloaded'' @ crlf]\<rparr>"

definition HdCacheL1Lookup :: "HD_CACHE_EXTENSION \<Rightarrow> u64 \<Rightarrow> u8 list option" where
  "HdCacheL1Lookup ext block_offset = (if L1RamCache ext \<noteq> None \<and> block_offset = 0 then L1RamCache ext else None)"

definition HdCacheL1Insert ::
  "bool \<Rightarrow> HD_CACHE_EXTENSION \<Rightarrow> u64 \<Rightarrow> u8 list \<Rightarrow> u32 \<Rightarrow> (NTSTATUS \<times> HD_CACHE_EXTENSION) res" where
  "HdCacheL1Insert pool ext block_offset data n =
     rbind (if L1RamCache ext = None \<and> 0 < n \<and> pool
            then rbind (mem_read data 0 (unat n)) (\<lambda>bs.
                   Inr (ext\<lparr>L1RamCache := Some bs, ce_PoolBlocks := Suc (ce_PoolBlocks ext)\<rparr>))
            else Inr ext)
       (\<lambda>ext'. Inr (if L1RamCache ext' \<noteq> None then STATUS_SUCCESS else STATUS_INSUFFICIENT_RESOURCES, ext'))"

definition HdCacheL1Invalidate :: "HD_CACHE_EXTENSION \<Rightarrow> u64 \<Rightarrow> HD_CACHE_EXTENSION" where
  "HdCacheL1Invalidate ext block_offset =
     (if L1RamCache ext \<noteq> None
      then ext\<lparr>L1RamCache := None, ce_PoolBlocks := ce_PoolBlocks ext - 1\<rparr> else ext)"

text \<open>The read callback looks block 0 up, whatever the request is for.\<close>

definition HdCachePreRead :: "HD_CACHE_EXTENSION \<Rightarrow> flt_preop \<times> HD_CACHE_EXTENSION" where
  "HdCachePreRead ext =
     (if \<not> ce_IsStarted ext then (FLT_PREOP_SUCCESS_WITH_CALLBACK, ext)
      else if HdCacheL1Lookup ext 0 \<noteq> None
      then (FLT_PREOP_COMPLETE, ext\<lparr>CacheHitCount := CacheHitCount ext + 1\<rparr>)
      else (FLT_PREOP_SUCCESS_WITH_CALLBACK, ext\<lparr>CacheMissCount := CacheMissCount ext + 1\<rparr>))"

definition HdCachePostRead :: flt_postop where "HdCachePostRead = FLT_POSTOP_FINISHED_PROCESSING"
definition HdCachePreWrite :: flt_preop where "HdCachePreWrite = FLT_PREOP_SUCCESS_NO_CALLBACK"

section \<open>The overlay filter\<close>

definition HD_OVERLAY_MAX_DIRTY_PAGES :: u32 where "HD_OVERLAY_MAX_DIRTY_PAGES = 1048576"

record HD_OVERLAY_DIRTY_PAGE =
  dp_BlockOffset :: u64
  dp_Data :: "u8 list"
  dp_Size :: u32
  IsDirty :: bool

record HD_OVERLAY_EXTENSION =
  RamOverlayBase :: bool
  RamOverlaySize :: u64
  oe_BlockSize :: u32
  DirtyPageCount :: u32
  DirtyList :: "HD_OVERLAY_DIRTY_PAGE list"
  WalEnabled :: bool
  oe_IsStarted :: bool
  oe_FilterHandle :: bool
  oe_PoolBlocks :: nat
  oe_log :: "string list"

definition HdOverlayFilterSetup ::
  "bool \<Rightarrow> NTSTATUS \<Rightarrow> NTSTATUS \<Rightarrow> HD_OVERLAY_EXTENSION \<Rightarrow> NTSTATUS \<times> HD_OVERLAY_EXTENSION" where
  "HdOverlayFilterSetup pool reg_st start_st ext =
     (let e0 = ext\<lparr>RamOverlayBase := pool, RamOverlaySize := 4096 * 1024 * 1024, oe_BlockSize := 4096,
                   DirtyPageCount := 0, DirtyList := [], WalEnabled := False, oe_IsStarted := False,
                   oe_PoolBlocks := oe_PoolBlocks ext + (if pool then 1 else 0)\<rparr>
      in if \<not> NT_SUCCESS reg_st
         then (reg_st, e0\<lparr>oe_log := oe_log e0 @ [''[HDx:OVERLAY_LOADED] FltRegisterFilter failed'' @ crlf]\<rparr>)
         else if \<not> NT_SUCCESS start_st
         then (start_st, e0\<lparr>oe_FilterHandle := False,
                            oe_log := oe_log e0 @ [''[HDx:OVERLAY_LOADED] FltStartFiltering failed'' @ crlf]\<rparr>)
         else (STATUS_SUCCESS,
               e0\<lparr>oe_FilterHandle := True, oe_IsStarted := True,
                  oe_log := oe_log e0 @ [''[HDx:OVERLAY_LOADED] HyperOverlay MiniFilter started'' @ crlf]\<rparr>))"

definition HdOverlayFilterUnload :: "HD_OVERLAY_EXTENSION \<Rightarrow> HD_OVERLAY_EXTENSION" where
  "HdOverlayFilterUnload ext =
     (let e1 = (if RamOverlayBase ext
                then ext\<lparr>RamOverlayBase := False, oe_PoolBlocks := oe_PoolBlocks ext - 1\<rparr> else ext)
      in e1\<lparr>oe_FilterHandle := False, oe_IsStarted := False,
            oe_log := oe_log e1 @ [''[HDx:OVERLAY_LOADED] HyperOverlay unloaded'' @ crlf]\<rparr>)"

definition HdOverlayPreWrite :: "HD_OVERLAY_EXTENSION \<Rightarrow> flt_preop" where
  "HdOverlayPreWrite ext =
     (if \<not> oe_IsStarted ext then FLT_PREOP_SUCCESS_NO_CALLBACK else FLT_PREOP_SUCCESS_WITH_CALLBACK)"

definition HdOverlayPostWrite :: flt_postop where "HdOverlayPostWrite = FLT_POSTOP_FINISHED_PROCESSING"

text \<open>The loop of \<^verbatim>\<open>HdOverlaySyncDirtyPages\<close>: each page is unlinked and its two blocks are freed.\<close>

function sync_loop :: "HD_OVERLAY_EXTENSION \<Rightarrow> HD_OVERLAY_EXTENSION" where
  "sync_loop ext =
     (case DirtyList ext of
        [] \<Rightarrow> ext
      | page # pages \<Rightarrow>
          sync_loop (ext\<lparr>DirtyList := pages, DirtyPageCount := DirtyPageCount ext - 1,
                         oe_PoolBlocks := oe_PoolBlocks ext - 2\<rparr>))"
  by pat_completeness auto
termination by (relation "measure (\<lambda>e. length (DirtyList e))") auto

declare sync_loop.simps [simp del]

definition HdOverlaySyncDirtyPages :: "HD_OVERLAY_EXTENSION \<Rightarrow> NTSTATUS \<times> HD_OVERLAY_EXTENSION" where
  "HdOverlaySyncDirtyPages ext = (STATUS_SUCCESS, sync_loop ext)"

definition HdOverlayInvalidateAll :: "HD_OVERLAY_EXTENSION \<Rightarrow> HD_OVERLAY_EXTENSION" where
  "HdOverlayInvalidateAll ext = snd (HdOverlaySyncDirtyPages ext)"

text \<open>\<^verbatim>\<open>pool_page\<close> and \<^verbatim>\<open>pool_data\<close>: whether the allocations of the page and of its data succeed.\<close>

definition HdOverlayWriteRedirect ::
  "bool \<Rightarrow> bool \<Rightarrow> HD_OVERLAY_EXTENSION \<Rightarrow> u64 \<Rightarrow> u8 list \<Rightarrow> u32 \<Rightarrow> (NTSTATUS \<times> HD_OVERLAY_EXTENSION) res" where
  "HdOverlayWriteRedirect pool_page pool_data ext block_offset data n =
     (if \<not> RamOverlayBase ext then Inr (STATUS_INSUFFICIENT_RESOURCES, ext)
      else let e1 = (if HD_OVERLAY_MAX_DIRTY_PAGES \<le> DirtyPageCount ext
                     then snd (HdOverlaySyncDirtyPages ext) else ext) in
      if \<not> pool_page then Inr (STATUS_INSUFFICIENT_RESOURCES, e1)
      else if \<not> pool_data then Inr (STATUS_INSUFFICIENT_RESOURCES, e1)
      else rbind (mem_read data 0 (unat n)) (\<lambda>bs.
        Inr (STATUS_SUCCESS,
             e1\<lparr>DirtyList := DirtyList e1 @ [\<lparr>dp_BlockOffset = block_offset, dp_Data = bs, dp_Size = n, IsDirty = True\<rparr>],
                DirtyPageCount := DirtyPageCount e1 + 1, oe_PoolBlocks := oe_PoolBlocks e1 + 2\<rparr>)))"

section \<open>Invariant of the overlay\<close>

definition overlay_ok :: "HD_OVERLAY_EXTENSION \<Rightarrow> bool" where
  "overlay_ok ext \<longleftrightarrow> unat (DirtyPageCount ext) = length (DirtyList ext)
     \<and> length (DirtyList ext) \<le> 1048576
     \<and> oe_PoolBlocks ext = 2 * length (DirtyList ext) + (if RamOverlayBase ext then 1 else 0)"

lemma sync_loop_empties:
  "unat (DirtyPageCount ext) = length (DirtyList ext) \<Longrightarrow> 2 * length (DirtyList ext) \<le> oe_PoolBlocks ext \<Longrightarrow>
   sync_loop ext = ext\<lparr>DirtyList := [], DirtyPageCount := 0,
                       oe_PoolBlocks := oe_PoolBlocks ext - 2 * length (DirtyList ext)\<rparr>"
proof (induction ext rule: sync_loop.induct)
  case (1 ext)
  show ?case
  proof (cases "DirtyList ext")
    case Nil
    then have "DirtyPageCount ext = 0" using 1(2) by (simp add: unat_eq_0)
    then show ?thesis using Nil by (cases ext) (simp add: sync_loop.simps)
  next
    case (Cons p ps)
    then have "unat (DirtyPageCount ext - 1) = length ps"
      using 1(2) by (simp add: unat_sub word_le_nat_alt)
    then show ?thesis
      using 1(1) [OF Cons] 1(3) Cons by (subst sync_loop.simps) (simp add: algebra_simps)
  qed
qed

lemma overlay_sync_eq:
  "overlay_ok ext \<Longrightarrow> sync_loop ext = ext\<lparr>DirtyList := [], DirtyPageCount := 0,
     oe_PoolBlocks := (if RamOverlayBase ext then 1 else 0)\<rparr>"
  using sync_loop_empties [of ext] by (simp add: overlay_ok_def)

lemma overlay_ok_sync: "overlay_ok ext \<Longrightarrow> overlay_ok (sync_loop ext)"
  by (simp add: overlay_sync_eq) (simp add: overlay_ok_def)

lemma overlay_ok_redirect:
  assumes ok: "overlay_ok ext" and w: "HdOverlayWriteRedirect pp pd ext off data n = Inr (st, ext')"
  shows "overlay_ok ext'"
proof (cases "HD_OVERLAY_MAX_DIRTY_PAGES \<le> DirtyPageCount ext")
  case True
  then show ?thesis
    using ok w overlay_ok_sync [OF ok]
    by (auto simp: HdOverlayWriteRedirect_def HdOverlaySyncDirtyPages_def Let_def overlay_sync_eq
        rbind_Inr_iff split: if_splits) (simp_all add: overlay_ok_def)
next
  case False
  then have l: "length (DirtyList ext) < 1048576"
    using ok by (simp add: overlay_ok_def HD_OVERLAY_MAX_DIRTY_PAGES_def word_le_nat_alt)
  then have "unat (DirtyPageCount ext + 1) = Suc (length (DirtyList ext))"
    using ok by (simp add: overlay_ok_def unat_word_ariths)
  then show ?thesis
    using ok w False l
    by (auto simp: HdOverlayWriteRedirect_def Let_def overlay_ok_def rbind_Inr_iff split: if_splits)
qed

inductive overlay_reachable :: "HD_OVERLAY_EXTENSION \<Rightarrow> bool" where
  loaded: "oe_PoolBlocks ext0 = 0 \<Longrightarrow> HdOverlayFilterSetup pool r s ext0 = (st, ext) \<Longrightarrow> overlay_reachable ext"
| redirect: "overlay_reachable ext \<Longrightarrow> HdOverlayWriteRedirect pp pd ext off data n = Inr (st, ext') \<Longrightarrow>
    overlay_reachable ext'"
| sync: "overlay_reachable ext \<Longrightarrow> HdOverlaySyncDirtyPages ext = (st, ext') \<Longrightarrow> overlay_reachable ext'"

lemma overlay_ok_setup:
  assumes "oe_PoolBlocks ext = 0"
  shows "overlay_ok (snd (HdOverlayFilterSetup pool r s ext))"
  unfolding HdOverlayFilterSetup_def Let_def using assms
  by (cases "NT_SUCCESS r"; cases "NT_SUCCESS s") (simp_all add: overlay_ok_def)

lemma overlay_reachable_ok: "overlay_reachable ext \<Longrightarrow> overlay_ok ext"
proof (induction rule: overlay_reachable.induct)
  case (loaded ext0 pool r s st ext)
  have "ext = snd (HdOverlayFilterSetup pool r s ext0)" by (simp add: loaded.hyps)
  with loaded.hyps(1) show ?case by (simp add: overlay_ok_setup)
next
  case (redirect ext pp pd off data n st ext')
  from redirect.IH redirect.hyps(2) show ?case by (rule overlay_ok_redirect)
next
  case (sync ext st ext')
  then have "ext' = sync_loop ext" by (simp add: HdOverlaySyncDirtyPages_def)
  with sync.IH show ?case by (simp add: overlay_ok_sync)
qed

section \<open>Properties\<close>

text \<open>
  The overlay accounts for every page: in every state reached from its set-up,
  \<^verbatim>\<open>DirtyPageCount\<close> is the length of the dirty list, there are at most 1048576 pages, and the pool
  blocks in use are two for each page and one for the RAM area; after a sync only the latter is
  left.
\<close>

theorem overlay_accounts:
  assumes "overlay_reachable ext"
  shows "unat (DirtyPageCount ext) = length (DirtyList ext) \<and> length (DirtyList ext) \<le> 1048576
    \<and> oe_PoolBlocks ext = 2 * length (DirtyList ext) + (if RamOverlayBase ext then 1 else 0)
    \<and> DirtyList (snd (HdOverlaySyncDirtyPages ext)) = []
    \<and> oe_PoolBlocks (snd (HdOverlaySyncDirtyPages ext)) = (if RamOverlayBase ext then 1 else 0)"
  using overlay_reachable_ok [OF assms]
  by (simp add: HdOverlaySyncDirtyPages_def overlay_sync_eq) (simp add: overlay_ok_def)

definition empty_overlay :: HD_OVERLAY_EXTENSION where
  "empty_overlay = \<lparr>RamOverlayBase = False, RamOverlaySize = 0, oe_BlockSize = 0, DirtyPageCount = 0,
     DirtyList = [], WalEnabled = False, oe_IsStarted = False, oe_FilterHandle = False, oe_PoolBlocks = 0,
     oe_log = []\<rparr>"

definition started_overlay :: HD_OVERLAY_EXTENSION where
  "started_overlay = snd (HdOverlayFilterSetup True STATUS_SUCCESS STATUS_SUCCESS empty_overlay)"

lemma started_overlay_reachable: "overlay_reachable started_overlay"
  by (rule overlay_reachable.loaded [of empty_overlay True STATUS_SUCCESS STATUS_SUCCESS STATUS_SUCCESS])
     (simp_all add: started_overlay_def HdOverlayFilterSetup_def empty_overlay_def Let_def)

theorem overlay_accounts_witness:
  "unat (DirtyPageCount started_overlay) = length (DirtyList started_overlay)
   \<and> oe_PoolBlocks (snd (HdOverlaySyncDirtyPages started_overlay)) = 1"
  using overlay_accounts [OF started_overlay_reachable]
  by (simp add: started_overlay_def HdOverlayFilterSetup_def empty_overlay_def Let_def)

text \<open>
  What the sync of the overlay does not do: it writes nothing. When the list is full, a
  redirected write that succeeds leaves its own page as the only one, and the data of all earlier
  writes is gone; and unloading frees the RAM area but leaks two blocks for each dirty page.
\<close>

theorem overlay_full_write_drops_pages:
  assumes "overlay_reachable ext" and "length (DirtyList ext) = 1048576" and "RamOverlayBase ext"
    and "unat n \<le> length data"
  shows "\<exists>ext'. HdOverlayWriteRedirect True True ext off data n = Inr (STATUS_SUCCESS, ext')
      \<and> DirtyList ext' = [\<lparr>dp_BlockOffset = off, dp_Data = take (unat n) data, dp_Size = n, IsDirty = True\<rparr>]
      \<and> oe_PoolBlocks (HdOverlayFilterUnload ext') = 2"
proof -
  have ok: "overlay_ok ext" using assms(1) by (rule overlay_reachable_ok)
  then have "HD_OVERLAY_MAX_DIRTY_PAGES \<le> DirtyPageCount ext"
    using assms(2) by (simp add: overlay_ok_def HD_OVERLAY_MAX_DIRTY_PAGES_def word_le_nat_alt)
  then show ?thesis
    using assms ok
    by (simp add: HdOverlayWriteRedirect_def HdOverlaySyncDirtyPages_def overlay_sync_eq
        HdOverlayFilterUnload_def Let_def)
qed

lemma overlay_reaches_pages:
  "k \<le> 1048576 \<Longrightarrow> \<exists>ext. overlay_reachable ext \<and> RamOverlayBase ext \<and> length (DirtyList ext) = k"
proof (induction k)
  case 0
  have "RamOverlayBase started_overlay" "DirtyList started_overlay = []"
    by (simp_all add: started_overlay_def HdOverlayFilterSetup_def empty_overlay_def Let_def)
  then show ?case using started_overlay_reachable by (intro exI [of _ started_overlay]) simp
next
  case (Suc k)
  then obtain ext where e: "overlay_reachable ext" "RamOverlayBase ext" "length (DirtyList ext) = k" by auto
  have "\<not> HD_OVERLAY_MAX_DIRTY_PAGES \<le> DirtyPageCount ext"
    using overlay_reachable_ok [OF e(1)] e(3) Suc.prems
    by (simp add: overlay_ok_def HD_OVERLAY_MAX_DIRTY_PAGES_def word_le_nat_alt)
  then obtain st ext' where w: "HdOverlayWriteRedirect True True ext 0 [] 0 = Inr (st, ext')"
    and l: "RamOverlayBase ext'" "length (DirtyList ext') = Suc k"
    using e by (simp add: HdOverlayWriteRedirect_def)
  then show ?case using overlay_reachable.redirect [OF e(1) w] by blast
qed

theorem overlay_full_write_drops_pages_witness:
  "\<exists>ext ext'. length (DirtyList ext) = 1048576
     \<and> HdOverlayWriteRedirect True True ext 8 [1, 2] 2 = Inr (STATUS_SUCCESS, ext')
     \<and> DirtyList ext' = [\<lparr>dp_BlockOffset = 8, dp_Data = [1, 2], dp_Size = 2, IsDirty = True\<rparr>]"
proof -
  obtain ext where e: "overlay_reachable ext" "RamOverlayBase ext" "length (DirtyList ext) = 1048576"
    using overlay_reaches_pages [of 1048576, OF order_refl] by (elim exE conjE)
  have u: "unat (2 :: u32) \<le> length [1, 2 :: u8]" and t: "take (unat (2 :: u32)) [1, 2 :: u8] = [1, 2]"
    by simp_all
  show ?thesis
    using overlay_full_write_drops_pages [OF e(1) e(3) e(2) u, of 8] e(3) unfolding t by (elim exE conjE, intro exI conjI)
qed

text \<open>
  The cache filter confuses blocks: once any block has been inserted, under whatever offset,
  every read that reaches the filter is answered as a hit from it, and the lookup of block 0
  returns its bytes; inserting another block then succeeds without storing it.
\<close>

theorem cache_serves_wrong_block:
  assumes "L1RamCache ext = None" and "0 < n" and "unat n \<le> length data" and "ce_IsStarted ext"
  shows "\<exists>ext'. HdCacheL1Insert True ext off data n = Inr (STATUS_SUCCESS, ext')
      \<and> HdCacheL1Lookup ext' 0 = Some (take (unat n) data)
      \<and> fst (HdCachePreRead ext') = FLT_PREOP_COMPLETE
      \<and> HdCacheL1Insert pool ext' off' data' n' = Inr (STATUS_SUCCESS, ext')"
proof -
  let ?e = "ext\<lparr>L1RamCache := Some (take (unat n) data), ce_PoolBlocks := Suc (ce_PoolBlocks ext)\<rparr>"
  have "HdCacheL1Insert True ext off data n = Inr (STATUS_SUCCESS, ?e)"
    using assms(1-3) by (simp add: HdCacheL1Insert_def mem_read_def)
  moreover have "HdCacheL1Lookup ?e 0 = Some (take (unat n) data)" by (simp add: HdCacheL1Lookup_def)
  moreover have "fst (HdCachePreRead ?e) = FLT_PREOP_COMPLETE"
    using assms(4) by (simp add: HdCachePreRead_def HdCacheL1Lookup_def)
  moreover have "HdCacheL1Insert pool ?e off' data' n' = Inr (STATUS_SUCCESS, ?e)"
    by (simp add: HdCacheL1Insert_def)
  ultimately show ?thesis by (intro exI conjI)
qed

theorem cache_serves_wrong_block_witness:
  "\<exists>ext'. HdCacheL1Insert True (snd (HdCacheFilterSetup STATUS_SUCCESS STATUS_SUCCESS
        \<lparr>L1RamCache = None, L1CacheSize = 0, ce_BlockSize = 0, CacheHitCount = 0, CacheMissCount = 0,
         ce_IsStarted = False, ce_FilterHandle = False, ce_PoolBlocks = 0, ce_log = []\<rparr>)) 4096 [1, 2] 2
      = Inr (STATUS_SUCCESS, ext') \<and> HdCacheL1Lookup ext' 0 = Some [1, 2]"
  using cache_serves_wrong_block [of "snd (HdCacheFilterSetup STATUS_SUCCESS STATUS_SUCCESS
        \<lparr>L1RamCache = None, L1CacheSize = 0, ce_BlockSize = 0, CacheHitCount = 0, CacheMissCount = 0,
         ce_IsStarted = False, ce_FilterHandle = False, ce_PoolBlocks = 0, ce_log = []\<rparr>)" 2 "[1, 2]" 4096
      True 0 "[]" 0]
  by (auto simp: HdCacheFilterSetup_def Let_def)

end
