(* ===== verification/HD_FilterEntry.thy ===== *)
theory HD_FilterEntry
  imports HD_Serial HD_Filters
begin

text \<open>
  The entries of the two file-system filters, \<^verbatim>\<open>driver/cache/cache_entry.c\<close> and
  \<^verbatim>\<open>driver/overlay/overlay_entry.c\<close>, and the tables they register: which routine the filter manager calls
  before and after which kind of request. What the filters do to requests follows from the routines alone, in
  whatever order they are called.
\<close>

section \<open>Registration\<close>

datatype filter_routine =
  R_CachePreRead | R_CachePostRead | R_CachePreWrite | R_CacheUnload | R_OverlayPreWrite | R_OverlayPostWrite | R_OverlayUnload

record FLT_OPERATION_REGISTRATION =
  or_MajorFunction :: u8
  or_PreOperation :: "filter_routine option"
  or_PostOperation :: "filter_routine option"

definition IRP_MJ_READ :: u8 where "IRP_MJ_READ = 0x03"
definition IRP_MJ_WRITE :: u8 where "IRP_MJ_WRITE = 0x04"

definition cache_Callbacks :: "FLT_OPERATION_REGISTRATION list" where
  "cache_Callbacks =
     [\<lparr>or_MajorFunction = IRP_MJ_READ, or_PreOperation = Some R_CachePreRead, or_PostOperation = Some R_CachePostRead\<rparr>,
      \<lparr>or_MajorFunction = IRP_MJ_WRITE, or_PreOperation = Some R_CachePreWrite, or_PostOperation = None\<rparr>,
      \<lparr>or_MajorFunction = - 1, or_PreOperation = None, or_PostOperation = None\<rparr>]"

definition overlay_Callbacks :: "FLT_OPERATION_REGISTRATION list" where
  "overlay_Callbacks =
     [\<lparr>or_MajorFunction = IRP_MJ_WRITE, or_PreOperation = Some R_OverlayPreWrite, or_PostOperation = Some R_OverlayPostWrite\<rparr>,
      \<lparr>or_MajorFunction = - 1, or_PreOperation = None, or_PostOperation = None\<rparr>]"

text \<open>The structure given to \<^verbatim>\<open>FltRegisterFilter\<close>: its table, its unload routine, and seven routines that are null.\<close>

record FLT_REGISTRATION =
  fr_Flags :: u32
  fr_OperationRegistration :: "FLT_OPERATION_REGISTRATION list"
  fr_FilterUnloadCallback :: "filter_routine option"
  fr_Others :: "filter_routine option list"

definition cache_FilterRegistration :: FLT_REGISTRATION where
  "cache_FilterRegistration =
     \<lparr>fr_Flags = 0, fr_OperationRegistration = cache_Callbacks, fr_FilterUnloadCallback = Some R_CacheUnload, fr_Others = replicate 7 None\<rparr>"

definition overlay_FilterRegistration :: FLT_REGISTRATION where
  "overlay_FilterRegistration =
     \<lparr>fr_Flags = 0, fr_OperationRegistration = overlay_Callbacks, fr_FilterUnloadCallback = Some R_OverlayUnload, fr_Others = replicate 7 None\<rparr>"

text \<open>The last entry of both tables has the code 0xFF, which the headers of the filter manager give to the acquisition for section
  synchronisation; the end of a table is 0x80.\<close>

section \<open>Entries\<close>

text \<open>The messages of the set-up go to the serial log just initialised.\<close>

definition cache_DriverEntry ::
  "(nat \<Rightarrow> u8) \<Rightarrow> NTSTATUS \<Rightarrow> NTSTATUS \<Rightarrow> HD_SERIAL_DEBUG \<Rightarrow> HD_CACHE_EXTENSION \<Rightarrow> (NTSTATUS \<times> HD_SERIAL_DEBUG \<times> HD_CACHE_EXTENSION) res" where
  "cache_DriverEntry lsr reg_st start_st serial ext =
     rbind (HdSerialInitialize lsr serial) (\<lambda>s.
       let (st, ext') = HdCacheFilterSetup reg_st start_st (ext\<lparr>ce_log := []\<rparr>) in
       rbind (res_fold (HdSerialWriteString lsr) s (List.map bytes_of_string (ce_log ext'))) (\<lambda>s'. Inr (st, s', ext')))"

definition overlay_DriverEntry ::
  "(nat \<Rightarrow> u8) \<Rightarrow> bool \<Rightarrow> NTSTATUS \<Rightarrow> NTSTATUS \<Rightarrow> HD_SERIAL_DEBUG \<Rightarrow> HD_OVERLAY_EXTENSION \<Rightarrow>
   (NTSTATUS \<times> HD_SERIAL_DEBUG \<times> HD_OVERLAY_EXTENSION) res" where
  "overlay_DriverEntry lsr pool reg_st start_st serial ext =
     rbind (HdSerialInitialize lsr serial) (\<lambda>s.
       let (st, ext') = HdOverlayFilterSetup pool reg_st start_st (ext\<lparr>oe_log := []\<rparr>) in
       rbind (res_fold (HdSerialWriteString lsr) s (List.map bytes_of_string (oe_log ext'))) (\<lambda>s'. Inr (st, s', ext')))"

section \<open>Requests\<close>

text \<open>A call of a registered routine: what it answers, and the extensions afterwards. A post-operation or unload routine
  has no answer.\<close>

definition call_routine ::
  "filter_routine \<Rightarrow> HD_CACHE_EXTENSION \<times> HD_OVERLAY_EXTENSION \<Rightarrow> flt_preop option \<times> HD_CACHE_EXTENSION \<times> HD_OVERLAY_EXTENSION" where
  "call_routine r exts =
     (let (ce, oe) = exts in
      (case r of
         R_CachePreRead \<Rightarrow> (let (a, ce') = HdCachePreRead ce in (Some a, ce', oe))
       | R_CachePreWrite \<Rightarrow> (Some HdCachePreWrite, ce, oe)
       | R_OverlayPreWrite \<Rightarrow> (Some (HdOverlayPreWrite oe), ce, oe)
       | R_CacheUnload \<Rightarrow> (None, HdCacheFilterUnload ce, oe)
       | R_OverlayUnload \<Rightarrow> (None, ce, HdOverlayFilterUnload oe)
       | _ \<Rightarrow> (None, ce, oe)))"

fun call_routines ::
  "filter_routine list \<Rightarrow> HD_CACHE_EXTENSION \<times> HD_OVERLAY_EXTENSION \<Rightarrow> flt_preop option list \<times> HD_CACHE_EXTENSION \<times> HD_OVERLAY_EXTENSION" where
  "call_routines [] exts = ([], exts)"
| "call_routines (r # rs) exts =
     (let (a, exts1) = call_routine r exts; (as, exts2) = call_routines rs exts1 in (a # as, exts2))"

definition idle_filters :: "HD_CACHE_EXTENSION \<times> HD_OVERLAY_EXTENSION \<Rightarrow> bool" where
  "idle_filters exts \<longleftrightarrow> L1RamCache (fst exts) = None \<and> CacheHitCount (fst exts) = 0 \<and> DirtyList (snd exts) = [] \<and> DirtyPageCount (snd exts) = 0"

lemma call_routine_idle:
  "idle_filters exts \<Longrightarrow> call_routine r exts = (a, exts') \<Longrightarrow> idle_filters exts' \<and> a \<noteq> Some FLT_PREOP_COMPLETE"
  by (cases exts; cases r)
    (auto simp: call_routine_def idle_filters_def HdCachePreRead_def HdCachePreWrite_def HdOverlayPreWrite_def HdCacheL1Lookup_def
      HdCacheFilterUnload_def HdOverlayFilterUnload_def Let_def split: if_splits)

lemma call_routines_idle:
  "idle_filters exts \<Longrightarrow> call_routines rs exts = (as, exts') \<Longrightarrow> idle_filters exts' \<and> Some FLT_PREOP_COMPLETE \<notin> set as"
proof (induction rs arbitrary: exts as exts')
  case (Cons r rs)
  obtain a e1 where 1: "call_routine r exts = (a, e1)" by (cases "call_routine r exts")
  obtain bs e2 where 2: "call_routines rs e1 = (bs, e2)" by (cases "call_routines rs e1")
  have i: "idle_filters e1" "a \<noteq> Some FLT_PREOP_COMPLETE" using call_routine_idle [OF Cons.prems(1) 1] by simp_all
  then show ?case using Cons.IH [OF i(1) 2] Cons.prems(2) 1 2 by auto
qed simp

lemma setup_idle:
  "idle_filters (snd (HdCacheFilterSetup a b ce), snd (HdOverlayFilterSetup p c d oe))"
  by (simp add: idle_filters_def HdCacheFilterSetup_def HdOverlayFilterSetup_def Let_def)

section \<open>Properties\<close>

text \<open>C40. The filters change no request: from their set-up on, whatever routines the filter manager calls in whatever order, no
  request is completed by a filter, the cache never holds a block nor counts a hit, and the overlay never holds a page. The
  routines that fill the cache and redirect writes are called by none of the registered ones.\<close>

theorem filters_pass_through:
  "let (answers, ce, oe) = call_routines rs (snd (HdCacheFilterSetup reg_c start_c ce0), snd (HdOverlayFilterSetup pool reg_o start_o oe0))
   in Some FLT_PREOP_COMPLETE \<notin> set answers \<and> HdCacheL1Lookup ce off = None \<and> CacheHitCount ce = 0 \<and>
      DirtyList oe = [] \<and> DirtyPageCount oe = 0"
proof -
  let ?e = "(snd (HdCacheFilterSetup reg_c start_c ce0), snd (HdOverlayFilterSetup pool reg_o start_o oe0))"
  obtain as ce oe where c: "call_routines rs ?e = (as, ce, oe)" by (cases "call_routines rs ?e") auto
  from call_routines_idle [OF setup_idle c] show ?thesis by (simp add: c idle_filters_def HdCacheL1Lookup_def)
qed

text \<open>The entry of each filter returns, with the answer of the filter manager, and the ring holds the banner and the message
  of the outcome.\<close>

lemma write_log_contents:
  assumes "serial_ok s" and "ring_contents s = serial_banner" and "length (concat msgs) \<le> 4000"
    and "\<And>m c. m \<in> set msgs \<Longrightarrow> c \<in> set m \<Longrightarrow> c \<noteq> 0"
  shows "\<exists>s'. res_fold (HdSerialWriteString lsr) s msgs = Inr s' \<and> ring_contents s' = serial_banner @ concat msgs"
proof -
  have "List.map (takeWhile (\<lambda>c. c \<noteq> 0)) msgs = msgs" using assms(4) by (intro map_idI) (simp add: takeWhile_eq_all_conv)
  moreover have "length (serial_banner @ concat msgs) \<le> 4095" using assms(3) by (simp add: serial_banner_def)
  ultimately show ?thesis
    using HdSerialWriteStrings_contents [OF assms(1), of lsr msgs] assms(2) by (auto simp: lastn_def)
qed

lemma cache_entry_outcome:
  assumes "length (RingBuffer serial) = 4096"
  shows "\<exists>s ext'. cache_DriverEntry lsr reg_st start_st serial ext = Inr (if NT_SUCCESS reg_st then if NT_SUCCESS start_st then STATUS_SUCCESS else start_st else reg_st, s, ext')
    \<and> ce_IsStarted ext' = (NT_SUCCESS reg_st \<and> NT_SUCCESS start_st) \<and> ring_contents s = serial_banner @ concat (List.map bytes_of_string (ce_log ext'))"
proof -
  obtain s where s: "HdSerialInitialize lsr serial = Inr s" "serial_ok s" "ring_contents s = serial_banner"
    using HdSerialInitialize_contents [OF assms] by blast
  let ?x = "HdCacheFilterSetup reg_st start_st (ext\<lparr>ce_log := []\<rparr>)"
  have "\<exists>s'. res_fold (HdSerialWriteString lsr) s (List.map bytes_of_string (ce_log (snd ?x))) = Inr s'
      \<and> ring_contents s' = serial_banner @ concat (List.map bytes_of_string (ce_log (snd ?x)))"
    by (rule write_log_contents [OF s(2,3)])
      (auto simp: HdCacheFilterSetup_def Let_def bytes_of_string_def crlf_def split: if_splits)
  then show ?thesis
    unfolding cache_DriverEntry_def s(1) rbind_simps
    by (auto simp: HdCacheFilterSetup_def Let_def rbind_simps)
qed

end
