(* ===== verification/HD_WalEntry.thy ===== *)
theory HD_WalEntry
  imports HD_Crc32c
begin

text \<open>
  The entries of the write-ahead log (\<^verbatim>\<open>client/overlay_mgr/wal_enhanced.cpp\<close>, class
  \<^verbatim>\<open>WalEntryBuilder\<close>): building, validating and parsing one entry. Buffers are byte lists whose
  accesses are checked, so an index outside the buffer is a fault. The static CRC table is in its
  initial state, which by the theory of the checksum makes no difference.
\<close>

section \<open>Layout\<close>

definition WAL_MAGIC :: u32 where "WAL_MAGIC = 0x48445857"
definition WAL_VERSION :: u16 where "WAL_VERSION = 1"
definition WAL_HEADER_SIZE :: u8 where "WAL_HEADER_SIZE = 6"
definition WAL_SEQID_SIZE :: u8 where "WAL_SEQID_SIZE = 8"
definition WAL_CRC_SIZE :: u8 where "WAL_CRC_SIZE = 4"
definition WAL_PAYLOADLEN_SIZE :: u8 where "WAL_PAYLOADLEN_SIZE = 4"

record WalEntry =
  we_magic :: u32
  we_version :: u16
  we_seq_id :: u64
  we_header_crc :: u32
  we_payload_len :: u32
  we_payload :: "u8 list"
  we_footer_crc :: u32

datatype WalEntryStatus = WAL_OK | TORN_WRITE_DETECTED | SEQ_ID_VIOLATION | CRC_MISMATCH

record WalEntryCheckResult =
  cr_status :: WalEntryStatus
  cr_seq_id :: u64
  cr_error_msg :: string

abbreviation wal_crc :: "u8 list \<Rightarrow> u32" where
  "wal_crc data \<equiv> fst (wal_ComputeCrc32c crc_state_static data)"

text \<open>
  The size of an entry. The size constants are promoted to \<^verbatim>\<open>int\<close> and \<^verbatim>\<open>payload_len\<close> is a 32-bit
  unsigned integer, so the sum is taken in 32 bits before it is widened to \<^verbatim>\<open>size_t\<close>.
\<close>

definition entry_total :: "u32 \<Rightarrow> u64" where
  "entry_total payload_len =
     ucast (ucast WAL_HEADER_SIZE + ucast WAL_SEQID_SIZE + ucast WAL_CRC_SIZE + ucast WAL_PAYLOADLEN_SIZE
            + payload_len + ucast WAL_CRC_SIZE)"

definition align8 :: "u64 \<Rightarrow> u64" where
  "align8 n = (n + 7) AND NOT 7"

section \<open>Operations\<close>

definition Build :: "u64 \<Rightarrow> u8 list option \<Rightarrow> u32 \<Rightarrow> u8 list res" where
  "Build seq_id payload payload_len =
     rbind (mem_write (replicate (unat (align8 (entry_total payload_len))) 0) 0 (le_bytes 4 WAL_MAGIC)) (\<lambda>b1.
     rbind (mem_write b1 4 (le_bytes 2 WAL_VERSION)) (\<lambda>b2.
     rbind (mem_write b2 6 (le_bytes 8 seq_id)) (\<lambda>b3.
     rbind (mem_read b3 0 14) (\<lambda>header.
     rbind (mem_write b3 14 (le_bytes 4 (wal_crc (header @ le_bytes 4 payload_len)))) (\<lambda>b4.
     rbind (mem_write b4 18 (le_bytes 4 payload_len)) (\<lambda>b5.
     rbind (case payload of
              Some p \<Rightarrow> if 0 < payload_len
                then rbind (mem_read p 0 (unat payload_len)) (\<lambda>d.
                     rbind (mem_write b5 22 d) (\<lambda>b6. Inr (b6, 22 + unat payload_len)))
                else Inr (b5, 22)
            | None \<Rightarrow> Inr (b5, 22)) (\<lambda>(b6, off).
     rbind (mem_read b6 0 off) (\<lambda>body. mem_write b6 off (le_bytes 4 (wal_crc body))))))))))"

definition torn :: "u64 \<Rightarrow> string \<Rightarrow> WalEntryCheckResult" where
  "torn seq_id msg = \<lparr>cr_status = TORN_WRITE_DETECTED, cr_seq_id = seq_id, cr_error_msg = msg\<rparr>"

definition read_le :: "nat \<Rightarrow> u8 list \<Rightarrow> nat \<Rightarrow> 'a::len word res" where
  "read_le n data off = rbind (mem_read data off n) (\<lambda>bs. Inr (le_word n bs))"

definition Validate :: "u8 list \<Rightarrow> WalEntryCheckResult res" where
  "Validate data =
     (if length data < 26 then Inr (torn 0 ''Entry too short'')
      else rbind (read_le 4 data 0) (\<lambda>magic.
        if magic \<noteq> WAL_MAGIC then Inr (torn 0 ''Magic mismatch'')
        else rbind (read_le 8 data 6) (\<lambda>seq_id.
             rbind (read_le 4 data 14) (\<lambda>stored_header_crc.
             rbind (read_le 4 data 18) (\<lambda>payload_len :: u32.
        if length data < unat (entry_total payload_len) then Inr (torn seq_id ''Payload truncated'')
        else rbind (mem_read data 0 14) (\<lambda>header.
        if wal_crc (header @ le_bytes 4 payload_len) \<noteq> stored_header_crc
        then Inr (torn seq_id ''Header CRC mismatch (torn write)'')
        else let footer_off = unat (entry_total payload_len - ucast WAL_CRC_SIZE) in
             rbind (read_le 4 data footer_off) (\<lambda>stored_footer_crc.
             rbind (mem_read data 0 footer_off) (\<lambda>body.
        if wal_crc body \<noteq> stored_footer_crc
        then Inr (torn seq_id ''Footer CRC mismatch (torn write)'')
        else Inr \<lparr>cr_status = WAL_OK, cr_seq_id = seq_id, cr_error_msg = []\<rparr>))))))))"

definition Parse :: "u8 list \<Rightarrow> WalEntry res" where
  "Parse data =
     rbind (read_le 4 data 0) (\<lambda>magic.
     rbind (read_le 2 data 4) (\<lambda>version.
     rbind (read_le 8 data 6) (\<lambda>seq_id.
     rbind (read_le 4 data 14) (\<lambda>header_crc.
     rbind (read_le 4 data 18) (\<lambda>payload_len :: u32.
     rbind (mem_read data 22 (unat payload_len)) (\<lambda>payload.
     rbind (read_le 4 data (22 + unat payload_len)) (\<lambda>footer_crc.
       Inr \<lparr>we_magic = magic, we_version = version, we_seq_id = seq_id, we_header_crc = header_crc,
            we_payload_len = payload_len, we_payload = payload, we_footer_crc = footer_crc\<rparr>)))))))"

section \<open>The image of an entry\<close>

definition wal_head :: "u64 \<Rightarrow> u8 list" where
  "wal_head seq_id = le_bytes 4 WAL_MAGIC @ le_bytes 2 WAL_VERSION @ le_bytes 8 seq_id"

definition plen :: "u8 list \<Rightarrow> u32" where
  "plen p = of_nat (length p)"

definition wal_body :: "u64 \<Rightarrow> u8 list \<Rightarrow> u8 list" where
  "wal_body seq_id p =
     wal_head seq_id @ le_bytes 4 (crc32c (wal_head seq_id @ le_bytes 4 (plen p))) @ le_bytes 4 (plen p) @ p"

definition wal_image :: "u64 \<Rightarrow> u8 list \<Rightarrow> u8 list" where
  "wal_image seq_id p = wal_body seq_id p @ le_bytes 4 (crc32c (wal_body seq_id p))"

definition wal_entry :: "u64 \<Rightarrow> u8 list \<Rightarrow> WalEntry" where
  "wal_entry seq_id p =
     \<lparr>we_magic = WAL_MAGIC, we_version = WAL_VERSION, we_seq_id = seq_id,
      we_header_crc = crc32c (wal_head seq_id @ le_bytes 4 (plen p)),
      we_payload_len = plen p, we_payload = p, we_footer_crc = crc32c (wal_body seq_id p)\<rparr>"

text \<open>The largest payload whose entry size does not wrap.\<close>

definition payload_fits :: "u8 list \<Rightarrow> bool" where
  "payload_fits p \<longleftrightarrow> length p + 26 < 2 ^ 32"

lemma length_wal_head [hd_len, simp]: "length (wal_head s) = 14"
  by (simp add: wal_head_def)

lemma length_wal_body [hd_len, simp]: "length (wal_body s p) = 22 + length p"
  by (simp add: wal_body_def)

lemma length_wal_image [hd_len, simp]: "length (wal_image s p) = 26 + length p"
  by (simp add: wal_image_def)

lemma unat_plen: "payload_fits p \<Longrightarrow> unat (plen p) = length p"
  by (simp add: plen_def payload_fits_def unat_of_nat take_bit_nat_eq_self)

lemma entry_total_eq: "entry_total n = ucast (n + 26)"
  by (simp add: entry_total_def WAL_HEADER_SIZE_def WAL_SEQID_SIZE_def WAL_CRC_SIZE_def
      WAL_PAYLOADLEN_SIZE_def) (metis add.commute)

lemma unat_entry_total:
  assumes "unat n + 26 < 2 ^ 32"
  shows "unat (entry_total n) = unat n + 26"
proof -
  have "unat (n + 26) = unat n + 26"
    using assms by (subst unat_add_lem [THEN iffD1]) simp_all
  then show ?thesis by (simp add: entry_total_eq)
qed


lemma align8_push_drop: "align8 n = push_bit 3 (drop_bit 3 (n + 7))"
proof -
  have m: "mask 3 = (7 :: u64)" by (simp add: mask_eq_exp_minus_1)
  have "x AND NOT (mask 3) = push_bit 3 (drop_bit 3 x)" for x :: u64
    by (rule bit_eqI) (auto simp: bit_simps)
  then show ?thesis unfolding align8_def m .
qed

lemma unat_align8:
  assumes "unat n + 7 < 2 ^ 64"
  shows "unat (align8 n) = (unat n + 7) div 8 * 8"
proof -
  have s: "unat (n + 7) = unat n + 7"
    using assms by (subst unat_add_lem [THEN iffD1]) simp_all
  have "(unat n + 7) div 8 * 8 \<le> unat n + 7" by simp
  then have "(unat n + 7) div 8 * 8 < 2 ^ 64" using assms by linarith
  then have t: "take_bit 64 ((unat n + 7) div 8 * 8) = (unat n + 7) div 8 * 8"
    by (rule take_bit_nat_eq_self)
  have "unat (align8 n) = take_bit 64 (push_bit 3 (drop_bit 3 (unat (n + 7))))"
    unfolding align8_push_drop unsigned_push_bit_eq unsigned_drop_bit_eq
    using unsigned_less [of "n + 7", where ?'a = nat] by (simp add: take_bit_nat_eq_self)
  then show ?thesis using t by (simp add: s push_bit_eq_mult drop_bit_eq_div)
qed

lemma entry_size:
  assumes "payload_fits p"
  shows "unat (entry_total (plen p)) = length p + 26"
    and "unat (align8 (entry_total (plen p))) = (length p + 33) div 8 * 8"
    and "unat (entry_total (plen p) - ucast WAL_CRC_SIZE) = 22 + length p"
proof -
  show t: "unat (entry_total (plen p)) = length p + 26"
    using assms by (subst unat_entry_total) (simp_all add: unat_plen payload_fits_def)
  show "unat (align8 (entry_total (plen p))) = (length p + 33) div 8 * 8"
    using assms by (subst unat_align8) (simp_all add: t payload_fits_def)
  have "unat (ucast WAL_CRC_SIZE :: u64) = 4" by (simp add: WAL_CRC_SIZE_def)
  then show "unat (entry_total (plen p) - ucast WAL_CRC_SIZE) = 22 + length p"
    using t by (subst unat_sub) (simp_all add: word_le_nat_alt)
qed

text \<open>The padded size: the next multiple of eight.\<close>

definition padded :: "u8 list \<Rightarrow> nat" where
  "padded p = (length p + 33) div 8 * 8"

lemma padded_bounds: "length p + 26 \<le> padded p" "padded p < length p + 34" "8 dvd padded p"
proof -
  have "(length p + 33) mod 8 < 8" by simp
  then show "length p + 26 \<le> padded p" "padded p < length p + 34"
    unfolding padded_def using div_mult_mod_eq [of "length p + 33" 8] by linarith+
qed (simp add: padded_def)

definition wal_block :: "u64 \<Rightarrow> u8 list \<Rightarrow> u8 list" where
  "wal_block seq_id p = wal_image seq_id p @ replicate (padded p - (26 + length p)) 0"

lemma length_wal_block [hd_len, simp]: "length (wal_block s p) = padded p"
  using padded_bounds(1) [of p] by (simp add: wal_block_def)

section \<open>Building\<close>

text \<open>Writing at the end of what has been written so far, in a zeroed buffer.\<close>

lemma mem_write_append:
  assumes "length xs = off" and "length src \<le> n"
  shows "mem_write (xs @ replicate n 0) off src = Inr ((xs @ src) @ replicate (n - length src) 0)"
  using assms by (simp add: mem_write_def)

lemma Build_eq:
  assumes "payload_fits p"
  shows "Build seq_id (Some p) (plen p) = Inr (wal_block seq_id p)"
proof -
  let ?N = "padded p"
  have N: "26 + length p \<le> ?N" using padded_bounds(1) [of p] by simp
  have w1: "mem_write (replicate ?N 0) 0 (le_bytes 4 WAL_MAGIC)
      = Inr (le_bytes 4 WAL_MAGIC @ replicate (?N - 4) 0)"
    using mem_write_append [of "[]" 0 "le_bytes 4 WAL_MAGIC" ?N] N by simp
  have w2: "mem_write (le_bytes 4 WAL_MAGIC @ replicate (?N - 4) 0) 4 (le_bytes 2 WAL_VERSION)
      = Inr ((le_bytes 4 WAL_MAGIC @ le_bytes 2 WAL_VERSION) @ replicate (?N - 6) 0)"
    using N by (subst mem_write_append) simp_all
  have w3: "mem_write ((le_bytes 4 WAL_MAGIC @ le_bytes 2 WAL_VERSION) @ replicate (?N - 6) 0) 6 (le_bytes 8 seq_id)
      = Inr (wal_head seq_id @ replicate (?N - 14) 0)"
    using N by (subst mem_write_append) (simp_all add: wal_head_def)
  have w4: "mem_write (wal_head seq_id @ replicate (?N - 14) 0) 14 (le_bytes 4 c)
      = Inr ((wal_head seq_id @ le_bytes 4 c) @ replicate (?N - 18) 0)" for c :: u32
    using N by (subst mem_write_append) simp_all
  have w5: "mem_write ((wal_head seq_id @ le_bytes 4 c) @ replicate (?N - 18) 0) 18 (le_bytes 4 (plen p))
      = Inr ((wal_head seq_id @ le_bytes 4 c @ le_bytes 4 (plen p)) @ replicate (?N - 22) 0)" for c :: u32
    using N by (subst mem_write_append) simp_all
  have w6: "mem_write ((wal_head seq_id @ le_bytes 4 c @ le_bytes 4 (plen p)) @ replicate (?N - 22) 0) 22 p
      = Inr ((wal_head seq_id @ le_bytes 4 c @ le_bytes 4 (plen p) @ p) @ replicate (?N - (22 + length p)) 0)"
    for c :: u32
    using N by (subst mem_write_append) simp_all
  have w7: "mem_write (wal_body seq_id p @ replicate (?N - (22 + length p)) 0) (22 + length p)
        (le_bytes 4 (crc32c (wal_body seq_id p))) = Inr (wal_block seq_id p)"
    using N by (subst mem_write_append) (simp_all add: wal_block_def wal_image_def)
  have z: "p = []" if "\<not> 0 < plen p"
    using that unat_plen [OF assms] by (simp add: word_gt_0)
  note crc = wal_crc_ref [OF crc_state_ok_static]
  note w = w4 w5 [unfolded append_assoc] w6 [unfolded append_assoc] w7 [unfolded wal_body_def append_assoc]
  have body: "Build seq_id (Some p) (plen p)
      = mem_write (wal_body seq_id p @ replicate (?N - (22 + length p)) 0) (22 + length p)
          (le_bytes 4 (crc32c (wal_body seq_id p)))"
  proof (cases "0 < plen p")
    case True
    then show ?thesis
      unfolding Build_def entry_size(2) [OF assms, folded padded_def] w1 rbind_simps w2 w3
      by (simp add: mem_read_def w unat_plen [OF assms] crc wal_body_def del: mem_write_Inr)
  next
    case False
    then show ?thesis
      unfolding Build_def entry_size(2) [OF assms, folded padded_def] w1 rbind_simps w2 w3
      using w [unfolded z [OF False]] unfolding z [OF False]
      by (simp add: mem_read_def crc wal_body_def del: mem_write_Inr)
  qed
  show ?thesis unfolding body by (rule w7)
qed


section \<open>Validating and parsing\<close>

lemma read_le_bytes:
  assumes "length xs = off" and "LENGTH('a::len) = n * 8"
  shows "read_le n (xs @ le_bytes n (w :: 'a word) @ ys) off = Inr w"
  using assms by (simp add: read_le_def mem_read_def le_word_take le_word_append le_word_le_bytes)

lemma read_image:
  "read_le 4 (wal_image s p @ r) 0 = Inr WAL_MAGIC"
  "read_le 2 (wal_image s p @ r) 4 = Inr WAL_VERSION"
  "read_le 8 (wal_image s p @ r) 6 = Inr s"
  "read_le 4 (wal_image s p @ r) 14 = Inr (crc32c (wal_head s @ le_bytes 4 (plen p)))"
  "read_le 4 (wal_image s p @ r) 18 = Inr (plen p)"
  "read_le 4 (wal_image s p @ r) (22 + length p) = Inr (crc32c (wal_body s p))"
  using read_le_bytes [of "[]" 0 4 WAL_MAGIC]
    read_le_bytes [of "le_bytes 4 WAL_MAGIC" 4 2 WAL_VERSION]
    read_le_bytes [of "le_bytes 4 WAL_MAGIC @ le_bytes 2 WAL_VERSION" 6 8 s]
    read_le_bytes [of "wal_head s" 14 4 "crc32c (wal_head s @ le_bytes 4 (plen p))"]
    read_le_bytes [of "wal_head s @ le_bytes 4 (crc32c (wal_head s @ le_bytes 4 (plen p)))" 18 4 "plen p"]
    read_le_bytes [of "wal_body s p" "22 + length p" 4 "crc32c (wal_body s p)"]
  by (simp_all add: wal_image_def) (simp_all add: wal_body_def wal_head_def)

lemma mem_read_image:
  "mem_read (wal_image s p @ r) 0 14 = Inr (wal_head s)"
  "mem_read (wal_image s p @ r) 22 (length p) = Inr p"
  "mem_read (wal_image s p @ r) 0 (22 + length p) = Inr (wal_body s p)"
  by (simp_all add: mem_read_def wal_image_def) (simp_all add: wal_body_def)

lemma Validate_image:
  "payload_fits p \<Longrightarrow>
   Validate (wal_image s p @ r) = Inr \<lparr>cr_status = WAL_OK, cr_seq_id = s, cr_error_msg = []\<rparr>"
  by (simp add: Validate_def read_image mem_read_image entry_size wal_crc_ref Let_def del: mem_read_Inr)

lemma Parse_image: "payload_fits p \<Longrightarrow> Parse (wal_image s p @ r) = Inr (wal_entry s p)"
  by (simp add: Parse_def read_image mem_read_image unat_plen wal_entry_def del: mem_read_Inr)

text \<open>A proper prefix of an entry is a torn write.\<close>

lemma Validate_prefix:
  assumes "payload_fits p" and "k < 26 + length p"
  shows "\<exists>q msg. Validate (take k (wal_image s p)) = Inr (torn q msg)"
proof (cases "k < 26")
  case True
  then show ?thesis using assms by (auto simp: Validate_def)
next
  case False
  have t: "read_le n (take k xs) off = read_le n xs off" if "off + n \<le> k" for n off and xs :: "u8 list"
    using that by (simp add: read_le_def mem_read_def drop_take min_def)
  have r: "read_le 4 (take k (wal_image s p)) 0 = Inr WAL_MAGIC"
    "read_le 8 (take k (wal_image s p)) 6 = Inr s"
    "read_le 4 (take k (wal_image s p)) 14 = Inr (crc32c (wal_head s @ le_bytes 4 (plen p)))"
    "read_le 4 (take k (wal_image s p)) 18 = Inr (plen p)"
    using False read_image [of s p "[]"] by (simp_all add: t)
  show ?thesis
    using False assms r by (auto simp: Validate_def entry_size)
qed


text \<open>What makes a full-length entry fail: a wrong header checksum or a wrong footer checksum.\<close>

lemma Validate_bad_crc:
  assumes p: "payload_fits p" and len: "26 + length p \<le> length d"
    and same: "take 4 (drop 18 d) = le_bytes 4 (plen p) \<Longrightarrow>
      crc32c (take (22 + length p) d) \<noteq> le_word 4 (take 4 (drop (22 + length p) d))"
    and changed: "take 4 (drop 18 d) \<noteq> le_bytes 4 (plen p) \<Longrightarrow>
      crc32c (take 14 d @ take 4 (drop 18 d)) \<noteq> le_word 4 (take 4 (drop 14 d))"
  shows "\<exists>q msg. Validate d = Inr (torn q msg)"
proof (cases "take 4 (drop 18 d) = le_bytes 4 (plen p)")
  case True
  have pl: "le_word 4 (take 4 (drop 18 d)) = plen p" unfolding True by (simp add: le_word_le_bytes)
  show ?thesis
    using len same [OF True]
    by (auto simp: Validate_def read_le_def mem_read_def pl entry_size [OF p] wal_crc_ref Let_def)
next
  case False
  let ?pl = "le_word 4 (take 4 (drop 18 d)) :: u32"
  have "le_bytes 4 ?pl = take 4 (drop 18 d)" using len by (intro le_bytes_le_word) simp_all
  then show ?thesis
    using len changed [OF False]
    by (auto simp: Validate_def read_le_def mem_read_def wal_crc_ref Let_def)
qed

text \<open>The fields of an entry end at 18, 22, \<open>22 + n\<close> and \<open>26 + n\<close>; a window lies within one of them.\<close>

definition within_field :: "nat \<Rightarrow> nat \<Rightarrow> nat \<Rightarrow> bool" where
  "within_field n i k \<longleftrightarrow>
     i + k \<le> 18 \<or> 18 \<le> i \<and> i + k \<le> 22 \<or> 22 \<le> i \<and> i + k \<le> 22 + n \<or> 22 + n \<le> i \<and> i + k \<le> 26 + n"

lemma Validate_corrupt:
  assumes p: "payload_fits p" and d: "wal_image s p @ r = xs @ w @ ys"
    and w: "length w = length w'" "length w \<le> 4" "w \<noteq> w'"
    and f: "within_field (length p) (length xs) (length w)"
  shows "\<exists>q msg. Validate (xs @ w' @ ys) = Inr (torn q msg)"
proof -
  define D where "D = wal_image s p @ r"
  define D' where "D' = xs @ w' @ ys"
  let ?n = "22 + length p"
  note eqs = window_eqs [OF d [folded D_def] D'_def w(1)]
  have l: "length D' = 26 + length p + length r" unfolding eqs(3) by (simp add: D_def)
  have F: "take ?n D = wal_body s p" "take 4 (drop ?n D) = le_bytes 4 (crc32c (wal_body s p))"
    "take 14 D = wal_head s" "take 4 (drop 18 D) = le_bytes 4 (plen p)"
    "take 4 (drop 14 D) = le_bytes 4 (crc32c (wal_head s @ le_bytes 4 (plen p)))"
    by (simp_all add: D_def wal_image_def) (simp_all add: wal_body_def)
  have lw: "le_word 4 (le_bytes 4 (c :: u32)) = c" for c by (simp add: le_word_le_bytes)
  have "crc32c (take ?n D') \<noteq> le_word 4 (take 4 (drop ?n D'))"
  proof (rule crc_field_detects [OF d [folded D_def] D'_def w])
    show "take 4 (drop ?n D) = le_bytes 4 (crc32c (take ?n D))" using F(1,2) by simp
    show "?n + 4 \<le> length D" by (simp add: D_def)
  qed (use f in \<open>auto simp: within_field_def\<close>)
  moreover have "crc32c (take 14 D' @ take 4 (drop 18 D')) \<noteq> le_word 4 (take 4 (drop 14 D'))"
    if ch: "take 4 (drop 18 D') \<noteq> le_bytes 4 (plen p)"
  proof -
    have td: "take 4 (drop k E) = drop k (take (4 + k) E)" for k and E :: "u8 list" by (simp add: take_drop)
    have "\<not> length xs + length w \<le> 18" using eqs(2) [of 18] ch F(4) by auto
    moreover have "\<not> 22 \<le> length xs" using eqs(1) [of 22] ch F(4) td [of 18] by auto
    ultimately have i: "18 \<le> length xs" using f by (auto simp: within_field_def)
    have h: "take 14 D' = wal_head s" using eqs(1) [of 14] i F(3) by simp
    have g: "take 4 (drop 14 D') = take 4 (drop 14 D)" using eqs(1) [OF i] td [of 14] by simp
    have "crc32c (wal_head s @ take 4 (drop 18 D') @ []) \<noteq> crc32c (wal_head s @ le_bytes 4 (plen p) @ [])"
      using ch l by (intro crc32c_detects_window) simp_all
    then show ?thesis unfolding h g F(5) lw by simp
  qed
  ultimately show ?thesis
    using Validate_bad_crc [OF p, of D'] l unfolding D'_def by simp
qed


section \<open>Properties\<close>

text \<open>
  An entry comes back as it was written: for every sequence number and every payload whose
  entry size fits in 32 bits, \<^verbatim>\<open>Build\<close> succeeds, its result is a multiple of eight bytes long,
  and whatever follows it in the file \<^verbatim>\<open>Validate\<close> accepts it with its sequence number and
  \<^verbatim>\<open>Parse\<close> returns the same number and payload.
\<close>

theorem wal_entry_roundtrip:
  assumes "length p + 26 < 2 ^ 32"
  shows "\<exists>buf. Build seq_id (Some p) (of_nat (length p)) = Inr buf \<and> 8 dvd length buf
    \<and> Validate (buf @ rest) = Inr \<lparr>cr_status = WAL_OK, cr_seq_id = seq_id, cr_error_msg = []\<rparr>
    \<and> (\<exists>e. Parse (buf @ rest) = Inr e \<and> we_seq_id e = seq_id \<and> we_payload e = p
          \<and> unat (we_payload_len e) = length p)"
proof -
  have p: "payload_fits p" using assms by (simp add: payload_fits_def)
  have "Validate (wal_block seq_id p @ rest) = Inr \<lparr>cr_status = WAL_OK, cr_seq_id = seq_id, cr_error_msg = []\<rparr>"
    "Parse (wal_block seq_id p @ rest) = Inr (wal_entry seq_id p)"
    using Validate_image [OF p] Parse_image [OF p] by (simp_all add: wal_block_def)
  then show ?thesis
    using Build_eq [OF p, of seq_id, unfolded plen_def] unat_plen [OF p] padded_bounds(3) [of p]
    by (simp add: wal_entry_def)
qed

theorem wal_entry_roundtrip_witness:
  "\<exists>buf. Build 7 (Some [1, 2, 3]) 3 = Inr buf \<and> (\<exists>e. Parse (buf @ []) = Inr e \<and> we_payload e = [1, 2, 3])"
  using wal_entry_roundtrip [of "[1, 2, 3]" 7 "[]"] by auto



text \<open>
  The length check of \<^verbatim>\<open>Validate\<close> does not hold for every length. The entry size is summed in
  32 bits, so for a payload length of \<open>2^32 - 26\<close> up to \<open>2^32 - 23\<close> it wraps to less than the four
  bytes of the footer, and an entry of such a length with a correct header checksum makes
  \<^verbatim>\<open>Validate\<close> read outside the data.
\<close>

theorem wal_crafted_length_faults:
  fixes n :: u32
  assumes "2 ^ 32 \<le> unat n + 26" and "unat n + 26 < 2 ^ 32 + 4" and "4 \<le> length rest"
    and "length rest + 22 < 2 ^ 63"
  shows "Validate (wal_head seq_id @ le_bytes 4 (crc32c (wal_head seq_id @ le_bytes 4 n)) @ le_bytes 4 n @ rest)
    = Inl OutOfBounds"
proof -
  let ?h = "wal_head seq_id" and ?c = "crc32c (wal_head seq_id @ le_bytes 4 n)"
  let ?d = "?h @ le_bytes 4 ?c @ le_bytes 4 n @ rest"
  have r: "read_le 4 ?d 0 = Inr WAL_MAGIC" "read_le 8 ?d 6 = Inr seq_id"
    "read_le 4 ?d 14 = Inr ?c" "read_le 4 ?d 18 = Inr n" "mem_read ?d 0 14 = Inr ?h"
    using read_le_bytes [of "[]" 0 4 WAL_MAGIC]
      read_le_bytes [of "le_bytes 4 WAL_MAGIC @ le_bytes 2 WAL_VERSION" 6 8 seq_id]
      read_le_bytes [of ?h 14 4 ?c] read_le_bytes [of "?h @ le_bytes 4 ?c" 18 4 n]
    by (simp_all add: wal_head_def)
  have s: "unat (n + 26) = unat n + 26 - 2 ^ 32"
    using assms(1,2) by (simp add: unat_word_ariths mod_if)
  then have t: "unat (entry_total n) = unat n + 26 - 2 ^ 32" by (simp add: entry_total_eq)
  have "unat (entry_total n - ucast WAL_CRC_SIZE) = unat n + 26 - 2 ^ 32 + 2 ^ 64 - 4"
    using assms(1,2) t by (simp add: unat_sub_if' WAL_CRC_SIZE_def)
  then have "read_le 4 ?d (unat (entry_total n - ucast WAL_CRC_SIZE)) = (Inl OutOfBounds :: u32 res)"
    using assms by (simp add: read_le_def mem_read_def)
  then show ?thesis
    using assms t by (simp add: Validate_def r wal_crc_ref Let_def del: mem_read_Inr)
qed

theorem wal_crafted_length_faults_witness:
  "Validate (wal_head 1 @ le_bytes 4 (crc32c (wal_head 1 @ le_bytes 4 (0xFFFFFFE6 :: u32)))
      @ le_bytes 4 (0xFFFFFFE6 :: u32) @ [0, 0, 0, 0]) = Inl OutOfBounds"
  by (rule wal_crafted_length_faults) simp_all

end
