(* ===== verification/HD_CString.thy ===== *)
theory HD_CString
  imports HD_Prelude
begin

text \<open>
  The parts of the C and C++ string library that the sources use: decimal formatting
  (\<^verbatim>\<open>std::to_string\<close>, \<^verbatim>\<open>%06d\<close>), \<^verbatim>\<open>strtoull\<close>, \<^verbatim>\<open>strtok_r\<close>, zero-terminated buffers, and the
  conversion between characters and bytes.
\<close>

section \<open>Characters and bytes\<close>

definition string_of_bytes :: "u8 list \<Rightarrow> string" where
  "string_of_bytes bs = map (\<lambda>b. char_of (unat b)) bs"

lemma string_of_bytes_of_string [simp]: "string_of_bytes (bytes_of_string s) = s"
proof -
  have "unat (of_nat (of_char c) :: u8) = (of_char c :: nat)" for c :: char
    by (simp add: unat_of_nat take_bit_nat_eq_self)
  then show ?thesis by (simp add: string_of_bytes_def bytes_of_string_def comp_def)
qed

lemma string_of_bytes_take: "string_of_bytes (take n bs) = take n (string_of_bytes bs)"
  by (simp add: string_of_bytes_def take_map)

text \<open>The C string in a buffer: the characters before the first zero.\<close>

definition c_string :: "string \<Rightarrow> string" where
  "c_string s = takeWhile (\<lambda>c. c \<noteq> CHR 0x00) s"

lemma c_string_id: "CHR 0x00 \<notin> set s \<Longrightarrow> c_string s = s"
  by (simp add: c_string_def takeWhile_eq_all_conv) (metis)

section \<open>Decimal numbers\<close>

definition digit :: "nat \<Rightarrow> char" where
  "digit d = char_of (48 + d)"

definition digit_val :: "char \<Rightarrow> nat" where
  "digit_val c = of_char c - 48"

definition isdigit :: "char \<Rightarrow> bool" where
  "isdigit c \<longleftrightarrow> 48 \<le> (of_char c :: nat) \<and> (of_char c :: nat) \<le> 57"

fun to_string :: "nat \<Rightarrow> string" where
  "to_string n = (if n < 10 then [digit n] else to_string (n div 10) @ [digit (n mod 10)])"

declare to_string.simps [simp del]

definition digits_val :: "string \<Rightarrow> nat" where
  "digits_val s = foldl (\<lambda>acc c. acc * 10 + digit_val c) 0 s"

lemma digit_simps [simp]: "d < 10 \<Longrightarrow> isdigit (digit d)" "d < 10 \<Longrightarrow> digit_val (digit d) = d"
  by (simp_all add: digit_def isdigit_def digit_val_def)

lemma to_string_digits: "\<forall>c \<in> set (to_string n). isdigit c"
  by (induction n rule: to_string.induct) (subst to_string.simps, auto)

lemma to_string_nonempty [simp]: "to_string n \<noteq> []"
  by (subst to_string.simps) simp

lemma digits_val_snoc: "digits_val (s @ [c]) = digits_val s * 10 + digit_val c"
  by (simp add: digits_val_def)

lemma digits_val_to_string [simp]: "digits_val (to_string n) = n"
proof (induction n rule: to_string.induct)
  case (1 n)
  show ?case
  proof (cases "n < 10")
    case True
    then show ?thesis by (subst to_string.simps) (simp add: digits_val_def)
  next
    case False
    then show ?thesis
      using 1 by (subst to_string.simps) (simp add: digits_val_snoc)
  qed
qed

lemma digits_val_zeros: "digits_val (replicate k (CHR ''0'') @ s) = digits_val s"
  by (induction k) (simp_all add: digits_val_def digit_val_def)

lemma length_to_string: "n < 10 ^ k \<Longrightarrow> 0 < k \<Longrightarrow> length (to_string n) \<le> k"
proof (induction n arbitrary: k rule: to_string.induct)
  case (1 n)
  show ?case
  proof (cases "n < 10")
    case True
    then show ?thesis using 1(3) by (subst to_string.simps) simp
  next
    case False
    with 1(2) obtain j where k: "k = Suc j" and j: "0 < j"
      by (cases k; cases "k - 1") auto
    have "n div 10 < 10 ^ j" using 1(2) by (simp add: k less_mult_imp_div_less)
    then have "length (to_string (n div 10)) \<le> j" using 1(1) False j by blast
    then show ?thesis using False by (subst to_string.simps) (simp add: k)
  qed
qed

text \<open>\<^verbatim>\<open>%06d\<close>: at least six columns, filled with zeros after the sign.\<close>

definition fmt_06d :: "int \<Rightarrow> string" where
  "fmt_06d i = (if i < 0 then CHR ''-'' # replicate (5 - length (to_string (nat (- i)))) (CHR ''0'') @ to_string (nat (- i))
     else replicate (6 - length (to_string (nat i))) (CHR ''0'') @ to_string (nat i))"

lemma digits_val_fmt_06d: "0 \<le> i \<Longrightarrow> digits_val (fmt_06d i) = nat i"
  by (simp add: fmt_06d_def digits_val_zeros)

lemma fmt_06d_inj: "0 \<le> i \<Longrightarrow> 0 \<le> j \<Longrightarrow> fmt_06d i = fmt_06d j \<Longrightarrow> i = j"
  using digits_val_fmt_06d [of i] digits_val_fmt_06d [of j] by simp

section \<open>strtoull and strtok\<close>

definition isspace :: "char \<Rightarrow> bool" where
  "isspace c \<longleftrightarrow> c = CHR '' '' \<or> 9 \<le> (of_char c :: nat) \<and> (of_char c :: nat) \<le> 13"

text \<open>
  \<^verbatim>\<open>strtoull(s, nullptr, 10)\<close>: white space, an optional sign, the longest run of digits. A value
  out of range is \<^verbatim>\<open>ULLONG_MAX\<close>, a minus sign negates in 64 bits.
\<close>

definition strtoull :: "string \<Rightarrow> u64" where
  "strtoull s =
     (let s1 = dropWhile isspace s;
          neg = (case s1 of c # _ \<Rightarrow> c = CHR ''-'' | [] \<Rightarrow> False);
          s2 = (case s1 of c # cs \<Rightarrow> if c = CHR ''-'' \<or> c = CHR ''+'' then cs else s1 | [] \<Rightarrow> []);
          v = digits_val (takeWhile isdigit s2)
      in if 2 ^ 64 \<le> v then - 1 else if neg then - of_nat v else of_nat v)"

lemma isdigit_not: "isdigit c \<Longrightarrow> \<not> isspace c \<and> c \<noteq> CHR ''-'' \<and> c \<noteq> CHR ''+'' \<and> c \<noteq> CHR '','' \<and> c \<noteq> CHR 0x00 \<and> c \<noteq> CHR 0x0A"
  by (auto simp: isdigit_def isspace_def)

lemma strtoull_to_string: "n < 2 ^ 64 \<Longrightarrow> strtoull (to_string n) = of_nat n"
proof -
  assume n: "n < 2 ^ 64"
  obtain c cs where s: "to_string n = c # cs" by (cases "to_string n") auto
  have d: "\<forall>x \<in> set (c # cs). isdigit x" using to_string_digits [of n] by (simp add: s)
  have tw: "takeWhile isdigit cs = cs" using d by (simp add: takeWhile_eq_all_conv)
  have "digits_val (c # cs) = n" using digits_val_to_string [of n] by (simp only: s)
  then show ?thesis
    using n d isdigit_not [of c] unfolding strtoull_def s by (simp add: Let_def tw)
qed

text \<open>One call of \<^verbatim>\<open>strtok_r\<close>: the token, if any, and the rest it saves.\<close>

definition strtok_r :: "char \<Rightarrow> string \<Rightarrow> string option \<times> string" where
  "strtok_r delim s =
     (let s1 = dropWhile (\<lambda>c. c = delim) s
      in if s1 = [] then (None, [])
         else (Some (takeWhile (\<lambda>c. c \<noteq> delim) s1), tl (dropWhile (\<lambda>c. c \<noteq> delim) s1)))"

lemma strtok_r_token:
  assumes "t \<noteq> []" and "delim \<notin> set t"
  shows "strtok_r delim (t @ delim # rest) = (Some t, rest)"
proof -
  obtain c cs where t: "t = c # cs" and c: "c \<noteq> delim" using assms by (cases t) auto
  have tw: "takeWhile (\<lambda>c. c \<noteq> delim) (t @ delim # rest) = t"
    using assms(2) by (subst takeWhile_append2) auto
  have dw: "dropWhile (\<lambda>c. c \<noteq> delim) (t @ delim # rest) = delim # rest"
    using assms(2) by (subst dropWhile_append2) auto
  have "dropWhile (\<lambda>c. c = delim) (t @ delim # rest) = t @ delim # rest" using t c by simp
  then show ?thesis unfolding strtok_r_def Let_def using tw dw assms(1) by simp
qed

section \<open>More conversions\<close>

text \<open>\<^verbatim>\<open>%d\<close>, \<^verbatim>\<open>%0wX\<close>, and \<^verbatim>\<open>%.ns\<close> of a byte array.\<close>

definition fmt_d :: "int \<Rightarrow> string" where
  "fmt_d i = (if i < 0 then CHR ''-'' # to_string (nat (- i)) else to_string (nat i))"

definition hex_digit :: "nat \<Rightarrow> char" where
  "hex_digit d = (if d < 10 then digit d else char_of (55 + d))"

fun to_hex :: "nat \<Rightarrow> string" where
  "to_hex n = (if n < 16 then [hex_digit n] else to_hex (n div 16) @ [hex_digit (n mod 16)])"

declare to_hex.simps [simp del]

definition fmt_0X :: "nat \<Rightarrow> nat \<Rightarrow> string" where
  "fmt_0X w n = replicate (w - length (to_hex n)) (CHR ''0'') @ to_hex n"

text \<open>\<^verbatim>\<open>%0wx\<close>: the same with small letters.\<close>

definition hex_lower :: "nat \<Rightarrow> char" where
  "hex_lower d = (if d < 10 then digit d else char_of (87 + d))"

fun to_hex_lower :: "nat \<Rightarrow> string" where
  "to_hex_lower n = (if n < 16 then [hex_lower n] else to_hex_lower (n div 16) @ [hex_lower (n mod 16)])"

declare to_hex_lower.simps [simp del]

definition fmt_0x :: "nat \<Rightarrow> nat \<Rightarrow> string" where
  "fmt_0x w n = replicate (w - length (to_hex_lower n)) (CHR ''0'') @ to_hex_lower n"

lemma length_to_hex_lower: "n < 16 ^ k \<Longrightarrow> 0 < k \<Longrightarrow> length (to_hex_lower n) \<le> k"
proof (induction n arbitrary: k rule: to_hex_lower.induct)
  case (1 n)
  show ?case
  proof (cases "n < 16")
    case True
    then show ?thesis using 1(3) by (subst to_hex_lower.simps) simp
  next
    case False
    with 1(2) obtain j where k: "k = Suc j" and j: "0 < j" by (cases k; cases "k - 1") auto
    have "n div 16 < 16 ^ j" using 1(2) by (simp add: k less_mult_imp_div_less)
    then have "length (to_hex_lower (n div 16)) \<le> j" using 1(1) False j by blast
    then show ?thesis using False by (subst to_hex_lower.simps) (simp add: k)
  qed
qed

lemma length_fmt_0x: "n < 16 ^ w \<Longrightarrow> 0 < w \<Longrightarrow> length (fmt_0x w n) = w"
  using length_to_hex_lower [of n w] by (simp add: fmt_0x_def)

definition fmt_s :: "nat \<Rightarrow> u8 list \<Rightarrow> string" where
  "fmt_s n bs = c_string (string_of_bytes (take n bs))"

text \<open>
  \<^verbatim>\<open>atoi\<close>: white space, an optional sign, the longest run of digits; the result for a value that
  does not fit an \<^verbatim>\<open>int\<close> is not defined by the language and is here the value modulo \<open>2 ^ 32\<close>.
\<close>

definition atoi :: "string \<Rightarrow> u32" where
  "atoi s =
     (let s1 = dropWhile isspace s;
          neg = (case s1 of c # _ \<Rightarrow> c = CHR ''-'' | [] \<Rightarrow> False);
          s2 = (case s1 of c # cs \<Rightarrow> if c = CHR ''-'' \<or> c = CHR ''+'' then cs else s1 | [] \<Rightarrow> []);
          v = digits_val (takeWhile isdigit s2)
      in if neg then - of_nat v else of_nat v)"

text \<open>All tokens of a string, as repeated calls of \<^verbatim>\<open>strtok\<close> return them.\<close>

lemma strtok_r_shorter: "strtok_r d s = (Some t, r) \<Longrightarrow> length r < length s"
proof -
  assume a: "strtok_r d s = (Some t, r)"
  let ?s = "dropWhile (\<lambda>c. c = d) s"
  have ne: "?s \<noteq> []" and r: "r = tl (dropWhile (\<lambda>c. c \<noteq> d) ?s)" using a by (auto simp: strtok_r_def Let_def split: if_splits)
  have "length ?s \<le> length s" by (rule length_dropWhile_le)
  moreover have "length (dropWhile (\<lambda>c. c \<noteq> d) ?s) \<le> length ?s" by (rule length_dropWhile_le)
  moreover have "0 < length ?s" using ne by blast
  ultimately show ?thesis unfolding r length_tl by linarith
qed

function tokens :: "char \<Rightarrow> string \<Rightarrow> string list" where
  "tokens d s = (case strtok_r d s of (None, _) \<Rightarrow> [] | (Some t, r) \<Rightarrow> t # tokens d r)"
  by pat_completeness auto
termination
  by (relation "measure (\<lambda>(d, s). length s)") (auto dest: sym [THEN strtok_r_shorter])

declare tokens.simps [simp del]

text \<open>\<^verbatim>\<open>std::string::rfind\<close>: the last position of a character, and \<^verbatim>\<open>find\<close>: the first.\<close>

fun rfind :: "char \<Rightarrow> string \<Rightarrow> nat option" where
  "rfind c [] = None"
| "rfind c (x # xs) = (case rfind c xs of Some i \<Rightarrow> Some (Suc i) | None \<Rightarrow> if x = c then Some 0 else None)"

fun find_char :: "char \<Rightarrow> string \<Rightarrow> nat option" where
  "find_char c [] = None"
| "find_char c (x # xs) = (if x = c then Some 0 else map_option Suc (find_char c xs))"

text \<open>
  \<^verbatim>\<open>std::stoi\<close>: like \<^verbatim>\<open>atoi\<close>, but \<^const>\<open>None\<close>, an exception, when there is no digit or the value does not
  fit an \<^verbatim>\<open>int\<close>.
\<close>

definition stoi :: "string \<Rightarrow> int option" where
  "stoi s =
     (let s1 = dropWhile isspace s;
          neg = (case s1 of c # _ \<Rightarrow> c = CHR ''-'' | [] \<Rightarrow> False);
          s2 = (case s1 of c # cs \<Rightarrow> if c = CHR ''-'' \<or> c = CHR ''+'' then cs else s1 | [] \<Rightarrow> []);
          ds = takeWhile isdigit s2;
          v = (if neg then - int (digits_val ds) else int (digits_val ds))
      in if ds = [] \<or> v < - (2 ^ 31) \<or> 2 ^ 31 \<le> v then None else Some v)"

text \<open>\<^verbatim>\<open>std::string::find\<close> of a string: the first position at which it occurs.\<close>

fun find_sub :: "string \<Rightarrow> string \<Rightarrow> nat option" where
  "find_sub pat [] = (if pat = [] then Some 0 else None)"
| "find_sub pat (x # xs) = (if take (length pat) (x # xs) = pat then Some 0 else map_option Suc (find_sub pat xs))"

lemma find_char_append: "c \<notin> set xs \<Longrightarrow> find_char c (xs @ c # ys) = Some (length xs)"
  by (induction xs) auto

lemma find_char_None: "c \<notin> set xs \<Longrightarrow> find_char c xs = None"
  by (induction xs) auto

lemma find_sub_first: "c \<notin> set xs \<Longrightarrow> find_sub (c # pat) (xs @ c # pat @ ys) = Some (length xs)"
  by (induction xs) auto

lemma stoi_to_string: "n < 2 ^ 31 \<Longrightarrow> stoi (to_string n) = Some (int n)"
proof -
  assume n: "n < 2 ^ 31"
  obtain c cs where s: "to_string n = c # cs" by (cases "to_string n") auto
  have d: "\<forall>x \<in> set (c # cs). isdigit x" using to_string_digits [of n] by (simp add: s)
  have tw: "takeWhile isdigit cs = cs" using d by (simp add: takeWhile_eq_all_conv)
  have "digits_val (c # cs) = n" using digits_val_to_string [of n] by (simp only: s)
  then show ?thesis
    using n d isdigit_not [of c] unfolding stoi_def s by (simp add: Let_def tw)
qed

text \<open>\<^verbatim>\<open>std::string::find_last_of\<close>: the last position of one of the characters.\<close>

fun find_last_of :: "char list \<Rightarrow> string \<Rightarrow> nat option" where
  "find_last_of cs [] = None"
| "find_last_of cs (x # xs) =
     (case find_last_of cs xs of Some i \<Rightarrow> Some (Suc i) | None \<Rightarrow> if x \<in> set cs then Some 0 else None)"

end
