(* ===== verification/HD_Posix.thy ===== *)
theory HD_Posix
  imports HD_Prelude
begin

text \<open>
  Files as the POSIX calls of the sources see them. The operating system is a parameter: for the
  \<open>n\<close>-th call it decides whether \<^verbatim>\<open>open\<close>, \<^verbatim>\<open>fstat\<close>,
  \<^verbatim>\<open>ftruncate\<close> or \<^verbatim>\<open>unlink\<close> succeeds and how many of the bytes of a
  \<^verbatim>\<open>read\<close> or \<^verbatim>\<open>write\<close> it transfers, or that the call fails. Everything else is the documented
  effect on the contents of the file: a write past the end fills the gap with zeros, a read stops
  at the end.
\<close>

record posix_env =
  os_open :: "nat \<Rightarrow> bool"
  os_fstat :: "nat \<Rightarrow> bool"
  os_write :: "nat \<Rightarrow> nat \<Rightarrow> nat option"
  os_read :: "nat \<Rightarrow> nat \<Rightarrow> nat option"
  os_ftruncate :: "nat \<Rightarrow> bool"
  os_unlink :: "nat \<Rightarrow> bool"

record posix =
  pf_files :: "string \<Rightarrow> u8 list option"
  pf_ops :: nat

definition file_at :: "posix \<Rightarrow> string \<Rightarrow> u8 list" where
  "file_at fs path = (case pf_files fs path of Some bs \<Rightarrow> bs | None \<Rightarrow> [])"

definition file_put :: "posix \<Rightarrow> string \<Rightarrow> u8 list \<Rightarrow> posix" where
  "file_put fs path bs = fs\<lparr>pf_files := (pf_files fs)(path \<mapsto> bs)\<rparr>"

definition tick :: "posix \<Rightarrow> posix" where
  "tick fs = fs\<lparr>pf_ops := Suc (pf_ops fs)\<rparr>"

text \<open>\<^verbatim>\<open>open\<close> with or without \<^verbatim>\<open>O_CREAT\<close> and \<^verbatim>\<open>O_TRUNC\<close>.\<close>

definition posix_open :: "posix_env \<Rightarrow> string \<Rightarrow> bool \<Rightarrow> bool \<Rightarrow> posix \<Rightarrow> bool \<times> posix" where
  "posix_open env path creat trunc fs =
     (if os_open env (pf_ops fs) \<and> (creat \<or> pf_files fs path \<noteq> None)
      then (True, tick (if trunc \<or> pf_files fs path = None then file_put fs path [] else fs))
      else (False, tick fs))"

definition bytes_put :: "u8 list \<Rightarrow> nat \<Rightarrow> u8 list \<Rightarrow> u8 list" where
  "bytes_put f pos d =
     (let f' = f @ replicate (pos - length f) 0 in take pos f' @ d @ drop (pos + length d) f')"

text \<open>\<^verbatim>\<open>write\<close> at a position: the number of bytes written, or nothing for \<open>-1\<close>.\<close>

definition posix_write :: "posix_env \<Rightarrow> string \<Rightarrow> nat \<Rightarrow> u8 list \<Rightarrow> posix \<Rightarrow> nat option \<times> posix" where
  "posix_write env path pos d fs =
     (case os_write env (pf_ops fs) (length d) of
        None \<Rightarrow> (None, tick fs)
      | Some n \<Rightarrow> let d' = take n d
                  in (Some (length d'), tick (file_put fs path (bytes_put (file_at fs path) pos d'))))"

definition posix_read :: "posix_env \<Rightarrow> string \<Rightarrow> nat \<Rightarrow> nat \<Rightarrow> posix \<Rightarrow> u8 list option \<times> posix" where
  "posix_read env path pos n fs =
     (let avail = take n (drop pos (file_at fs path))
      in (case os_read env (pf_ops fs) (length avail) of
            None \<Rightarrow> (None, tick fs)
          | Some k \<Rightarrow> (Some (take k avail), tick fs)))"

text \<open>
  \<^verbatim>\<open>pread\<close> and \<^verbatim>\<open>pwrite\<close> at a signed offset fail for a negative one, \<^verbatim>\<open>ftruncate\<close> for a negative
  length.
\<close>

definition posix_pread :: "posix_env \<Rightarrow> string \<Rightarrow> int \<Rightarrow> nat \<Rightarrow> posix \<Rightarrow> u8 list option \<times> posix" where
  "posix_pread env path off n fs = (if off < 0 then (None, tick fs) else posix_read env path (nat off) n fs)"

definition posix_pwrite :: "posix_env \<Rightarrow> string \<Rightarrow> int \<Rightarrow> u8 list \<Rightarrow> posix \<Rightarrow> nat option \<times> posix" where
  "posix_pwrite env path off d fs = (if off < 0 then (None, tick fs) else posix_write env path (nat off) d fs)"

definition posix_ftruncate :: "posix_env \<Rightarrow> string \<Rightarrow> int \<Rightarrow> posix \<Rightarrow> bool \<times> posix" where
  "posix_ftruncate env path len fs =
     (if 0 \<le> len \<and> os_ftruncate env (pf_ops fs)
      then let f = file_at fs path
           in (True, tick (file_put fs path (take (nat len) f @ replicate (nat len - length f) 0)))
      else (False, tick fs))"

definition posix_unlink :: "posix_env \<Rightarrow> string \<Rightarrow> posix \<Rightarrow> posix" where
  "posix_unlink env path fs = tick (if os_unlink env (pf_ops fs) then fs\<lparr>pf_files := (pf_files fs)(path := None)\<rparr> else fs)"

text \<open>A system on which every call succeeds in full.\<close>

definition healthy :: "posix_env \<Rightarrow> bool" where
  "healthy env \<longleftrightarrow> (\<forall>n. os_open env n) \<and> (\<forall>n. os_fstat env n) \<and> (\<forall>n. os_ftruncate env n) \<and> (\<forall>n. os_unlink env n)
     \<and> (\<forall>n k. os_write env n k = Some k) \<and> (\<forall>n k. os_read env n k = Some k)"

definition healthy_env :: posix_env where
  "healthy_env = \<lparr>os_open = (\<lambda>_. True), os_fstat = (\<lambda>_. True), os_write = (\<lambda>_ k. Some k), os_read = (\<lambda>_ k. Some k),
     os_ftruncate = (\<lambda>_. True), os_unlink = (\<lambda>_. True)\<rparr>"

lemma healthy_healthy_env [simp]: "healthy healthy_env"
  by (simp add: healthy_def healthy_env_def)

lemma posix_simps [simp]:
  "pf_files (tick fs) = pf_files fs"
  "file_at (tick fs) path = file_at fs path"
  "file_at (file_put fs path bs) q = (if q = path then bs else file_at fs q)"
  "pf_files (file_put fs path bs) q = (if q = path then Some bs else pf_files fs q)"
  by (simp_all add: tick_def file_at_def file_put_def)

lemma bytes_put_end [simp]: "bytes_put f (length f) d = f @ d"
  by (simp add: bytes_put_def)

lemma length_bytes_put: "length (bytes_put f pos d) = max (length f) (pos + length d)"
  by (auto simp: bytes_put_def)

lemma bytes_put_read: "take (length d) (drop pos (bytes_put f pos d)) = d"
  by (simp add: bytes_put_def)

lemma posix_write_files:
  assumes "posix_write env path pos d fs = (r, fs')"
  shows "q \<noteq> path \<Longrightarrow> pf_files fs' q = pf_files fs q"
    and "r = None \<Longrightarrow> pf_files fs' = pf_files fs"
    and "r = Some n \<Longrightarrow> n \<le> length d \<and> pf_files fs' path = Some (bytes_put (file_at fs path) pos (take n d))"
  using assms by (auto simp: posix_write_def Let_def min_def split: option.splits)

lemma posix_read_files: "pf_files (snd (posix_read env path pos n fs)) = pf_files fs"
  by (simp add: posix_read_def Let_def split: option.splits)

lemma posix_read_healthy:
  "healthy env \<Longrightarrow> posix_read env path pos n fs = (Some (take n (drop pos (file_at fs path))), tick fs)"
  by (simp add: posix_read_def healthy_def Let_def)

lemma posix_write_healthy:
  "healthy env \<Longrightarrow> posix_write env path pos d fs
     = (Some (length d), tick (file_put fs path (bytes_put (file_at fs path) pos d)))"
  by (simp add: posix_write_def healthy_def)

lemma posix_open_existing:
  "os_open env (pf_ops fs) \<Longrightarrow> pf_files fs path \<noteq> None \<Longrightarrow> posix_open env path creat False fs = (True, tick fs)"
  by (auto simp: posix_open_def)

lemma posix_open_fails:
  "\<not> (os_open env (pf_ops fs) \<and> (creat \<or> pf_files fs path \<noteq> None)) \<Longrightarrow> posix_open env path creat trunc fs = (False, tick fs)"
  by (auto simp: posix_open_def)

end
