(* ===== verification/HD_WalLog.thy ===== *)
theory HD_WalLog
  imports HD_WalEntry HD_CString HD_Posix
begin

text \<open>
  The write-ahead log (\<^verbatim>\<open>client/overlay_mgr/wal_enhanced.cpp\<close>): \<^verbatim>\<open>SequenceFence\<close>, \<^verbatim>\<open>WalSegment\<close> and
  \<^verbatim>\<open>WalManager\<close>, on the files of the POSIX theory. An open descriptor is its position; \<^verbatim>\<open>fsync\<close> has
  no effect on the contents. The loop that reads a segment may in principle not end, so it is a
  partial function whose value is \<^term>\<open>None\<close> when it does not return.
\<close>

section \<open>SequenceFence\<close>

record SequenceFence =
  wf_next_seq_id :: u64

definition fence_Next :: "SequenceFence \<Rightarrow> u64 \<times> SequenceFence" where
  "fence_Next f = (wf_next_seq_id f, f\<lparr>wf_next_seq_id := wf_next_seq_id f + 1\<rparr>)"

definition fence_Current :: "SequenceFence \<Rightarrow> u64" where
  "fence_Current f = wf_next_seq_id f - 1"

definition fence_Reset :: "u64 \<Rightarrow> SequenceFence" where
  "fence_Reset start = \<lparr>wf_next_seq_id = start\<rparr>"

definition CheckMonotonic :: "SequenceFence \<Rightarrow> u64 \<Rightarrow> bool" where
  "CheckMonotonic f seq_id \<longleftrightarrow> fence_Current f < seq_id"

section \<open>WalSegment\<close>

definition WAL_SEGMENT_SIZE :: u64 where "WAL_SEGMENT_SIZE = 64 * 1024 * 1024"
definition WAL_MAX_ENTRIES :: u32 where "WAL_MAX_ENTRIES = 500000"

record WalSegment =
  seg_path :: string
  seg_start_seq_id :: u64
  seg_last_seq_id :: u64
  seg_entry_count :: u32
  seg_file_size :: u64
  seg_is_sealed :: bool
  seg_read_only :: bool
  seg_fd :: "nat option"

definition WalSegment_new :: "posix_env \<Rightarrow> string \<Rightarrow> u64 \<Rightarrow> bool \<Rightarrow> posix \<Rightarrow> WalSegment \<times> posix" where
  "WalSegment_new env path start_seq_id read_only fs =
     (let (ok, fs1) = posix_open env path (\<not> read_only) False fs
      in (\<lparr>seg_path = path, seg_start_seq_id = start_seq_id, seg_last_seq_id = start_seq_id, seg_entry_count = 0,
           seg_file_size = (if ok \<and> os_fstat env (pf_ops fs) then of_nat (length (file_at fs1 path)) else 0),
           seg_is_sealed = read_only, seg_read_only = read_only, seg_fd = (if ok then Some 0 else None)\<rparr>, fs1))"

definition seg_WriteEntry ::
  "posix_env \<Rightarrow> WalSegment \<Rightarrow> u64 \<Rightarrow> u8 list option \<Rightarrow> u32 \<Rightarrow> posix \<Rightarrow> (bool \<times> WalSegment \<times> posix) res" where
  "seg_WriteEntry env seg seq_id payload payload_len fs =
     (if seg_is_sealed seg \<or> seg_read_only seg then Inr (False, seg, fs)
      else (case seg_fd seg of
        None \<Rightarrow> Inr (False, seg, fs)
      | Some pos \<Rightarrow> rbind (Build seq_id payload payload_len) (\<lambda>buf.
          case posix_write env (seg_path seg) pos buf fs of
            (None, fs1) \<Rightarrow> Inr (False, seg, fs1)
          | (Some n, fs1) \<Rightarrow>
              if n \<noteq> length buf then Inr (False, seg\<lparr>seg_fd := Some (pos + n)\<rparr>, fs1)
              else Inr (True, seg\<lparr>seg_fd := Some (pos + n), seg_last_seq_id := seq_id,
                                seg_entry_count := seg_entry_count seg + 1,
                                seg_file_size := seg_file_size seg + of_nat (length buf)\<rparr>, fs1))))"

partial_function (option) read_loop :: "u8 list \<Rightarrow> nat \<Rightarrow> WalEntry list \<Rightarrow> WalEntry list res option" where
  "read_loop data offset entries =
     (if offset < length data
      then (case Validate (drop offset data) of
              Inl e \<Rightarrow> Some (Inl e)
            | Inr result \<Rightarrow>
                if cr_status result \<noteq> WAL_OK then Some (Inr entries)
                else (case Parse (drop offset data) of
                        Inl e \<Rightarrow> Some (Inl e)
                      | Inr entry \<Rightarrow>
                          read_loop data (offset + unat (align8 (entry_total (we_payload_len entry)))) (entries @ [entry])))
      else Some (Inr entries))"

definition ReadAllEntries ::
  "posix_env \<Rightarrow> WalSegment \<Rightarrow> posix \<Rightarrow> (WalEntry list \<times> WalSegment \<times> posix) res option" where
  "ReadAllEntries env seg fs =
     (case seg_fd seg of
        None \<Rightarrow> Some (Inr ([], seg, fs))
      | Some pos \<Rightarrow>
          (case posix_read env (seg_path seg) 0 (unat (seg_file_size seg)) fs of
             (None, fs1) \<Rightarrow> Some (Inr ([], seg\<lparr>seg_fd := Some 0\<rparr>, fs1))
           | (Some data, fs1) \<Rightarrow>
               (case read_loop data 0 [] of
                  None \<Rightarrow> None
                | Some r \<Rightarrow> Some (rbind r (\<lambda>entries. Inr (entries, seg\<lparr>seg_fd := Some (length data)\<rparr>, fs1))))))"

definition IsFull :: "WalSegment \<Rightarrow> bool" where
  "IsFull seg \<longleftrightarrow> WAL_SEGMENT_SIZE \<le> seg_file_size seg \<or> WAL_MAX_ENTRIES \<le> seg_entry_count seg"

definition Seal :: "WalSegment \<Rightarrow> WalSegment" where
  "Seal seg = seg\<lparr>seg_is_sealed := True\<rparr>"

section \<open>WalManager\<close>

record WalManager =
  wm_data_dir :: string
  wm_seq_fence :: SequenceFence
  wm_active_segment :: "WalSegment option"
  wm_sealed_segments :: "WalSegment list"
  wm_next_segment_number :: u32
  wm_is_open :: bool

record Checkpoint =
  flushed_seq_id :: u64
  timestamp_ms :: u64
  segment_path :: string

definition WalManager_new :: "string \<Rightarrow> WalManager" where
  "WalManager_new data_dir =
     \<lparr>wm_data_dir = data_dir, wm_seq_fence = fence_Reset 1, wm_active_segment = None, wm_sealed_segments = [],
      wm_next_segment_number = 1, wm_is_open = False\<rparr>"

definition SegmentPath :: "WalManager \<Rightarrow> u32 \<Rightarrow> string" where
  "SegmentPath m seg_num = wm_data_dir m @ ''/'' @ take 63 (''wal-seg-'' @ fmt_06d (sint seg_num) @ ''.log'')"

definition CheckpointPath :: "WalManager \<Rightarrow> string" where
  "CheckpointPath m = wm_data_dir m @ ''/wal.ckpt''"

text \<open>\<open>now\<close> is the count of the steady clock.\<close>

definition WriteCheckpoint :: "posix_env \<Rightarrow> nat \<Rightarrow> WalManager \<Rightarrow> u64 \<Rightarrow> posix \<Rightarrow> bool \<times> posix" where
  "WriteCheckpoint env now m flushed fs =
     (case posix_open env (CheckpointPath m) True True fs of
        (False, fs1) \<Rightarrow> (False, fs1)
      | (True, fs1) \<Rightarrow>
          let line = to_string (unat flushed) @ '','' @ to_string now @ '','' @
                     (case wm_active_segment m of Some seg \<Rightarrow> seg_path seg | None \<Rightarrow> []) @ [CHR 0x0A];
              (n, fs2) = posix_write env (CheckpointPath m) 0 (bytes_of_string line) fs1
          in (case n of None \<Rightarrow> False | Some k \<Rightarrow> 0 < k, fs2))"

definition parse_checkpoint :: "string \<Rightarrow> Checkpoint" where
  "parse_checkpoint buf =
     (let (t1, save1) = strtok_r (CHR '','') buf;
          (t2, save2) = strtok_r (CHR '','') save1;
          (t3, save3) = strtok_r (CHR 0x0A) save2
      in \<lparr>flushed_seq_id = (case t1 of Some t \<Rightarrow> strtoull t | None \<Rightarrow> 0),
          timestamp_ms = (case t2 of Some t \<Rightarrow> strtoull t | None \<Rightarrow> 0),
          segment_path = (case t3 of Some t \<Rightarrow> t | None \<Rightarrow> [])\<rparr>)"

definition no_checkpoint :: Checkpoint where
  "no_checkpoint = \<lparr>flushed_seq_id = 0, timestamp_ms = 0, segment_path = []\<rparr>"

definition ReadCheckpoint :: "posix_env \<Rightarrow> WalManager \<Rightarrow> posix \<Rightarrow> Checkpoint \<times> posix" where
  "ReadCheckpoint env m fs =
     (case posix_open env (CheckpointPath m) False False fs of
        (False, fs1) \<Rightarrow> (no_checkpoint, fs1)
      | (True, fs1) \<Rightarrow>
          (case posix_read env (CheckpointPath m) 0 1023 fs1 of
             (None, fs2) \<Rightarrow> (no_checkpoint, fs2)
           | (Some data, fs2) \<Rightarrow>
               if data = [] then (no_checkpoint, fs2)
               else (parse_checkpoint (c_string (string_of_bytes data)), fs2)))"

definition Open :: "posix_env \<Rightarrow> WalManager \<Rightarrow> posix \<Rightarrow> WalManager \<times> posix" where
  "Open env m fs =
     (let (cp, fs1) = ReadCheckpoint env m fs;
          fence = fence_Reset (flushed_seq_id cp + 1);
          (seg, fs2) = WalSegment_new env (SegmentPath m (wm_next_segment_number m)) (fence_Current fence) False fs1
      in (m\<lparr>wm_seq_fence := fence, wm_active_segment := Some seg, wm_is_open := True\<rparr>, fs2))"

definition Close :: "WalManager \<Rightarrow> WalManager" where
  "Close m = m\<lparr>wm_active_segment := None, wm_sealed_segments := [], wm_is_open := False\<rparr>"

definition TriggerSegmentRollover :: "posix_env \<Rightarrow> WalManager \<Rightarrow> posix \<Rightarrow> WalManager \<times> posix" where
  "TriggerSegmentRollover env m fs =
     (let sealed = (case wm_active_segment m of Some seg \<Rightarrow> wm_sealed_segments m @ [Seal seg] | None \<Rightarrow> wm_sealed_segments m);
          num = wm_next_segment_number m + 1;
          (seg, fs1) = WalSegment_new env (SegmentPath m num) (fence_Current (wm_seq_fence m)) False fs
      in (m\<lparr>wm_sealed_segments := sealed, wm_next_segment_number := num, wm_active_segment := Some seg\<rparr>, fs1))"

definition RollOverIfNeeded :: "posix_env \<Rightarrow> WalManager \<Rightarrow> posix \<Rightarrow> WalManager \<times> posix" where
  "RollOverIfNeeded env m fs =
     (case wm_active_segment m of
        Some seg \<Rightarrow> if IsFull seg then TriggerSegmentRollover env m fs else (m, fs)
      | None \<Rightarrow> (m, fs))"

definition mgr_WriteEntry ::
  "posix_env \<Rightarrow> WalManager \<Rightarrow> u8 list option \<Rightarrow> u32 \<Rightarrow> posix \<Rightarrow> (u64 \<times> WalManager \<times> posix) res" where
  "mgr_WriteEntry env m payload payload_len fs =
     (case wm_active_segment m of
        None \<Rightarrow> Inr (0, m, fs)
      | Some seg \<Rightarrow>
          if \<not> wm_is_open m then Inr (0, m, fs)
          else let (seq_id, fence) = fence_Next (wm_seq_fence m); m1 = m\<lparr>wm_seq_fence := fence\<rparr>
               in rbind (seg_WriteEntry env seg seq_id payload payload_len fs) (\<lambda>(ok, seg', fs1).
                    let m2 = m1\<lparr>wm_active_segment := Some seg'\<rparr>
                    in if \<not> ok then Inr (0, m2, fs1)
                       else let (m3, fs2) = RollOverIfNeeded env m2 fs1 in Inr (seq_id, m3, fs2)))"

text \<open>Reading the segments of a list one after the other.\<close>

fun read_segments ::
  "posix_env \<Rightarrow> WalSegment list \<Rightarrow> posix \<Rightarrow> (WalEntry list \<times> WalSegment list \<times> posix) res option" where
  "read_segments env [] fs = Some (Inr ([], [], fs))"
| "read_segments env (seg # segs) fs =
     (case ReadAllEntries env seg fs of
        None \<Rightarrow> None
      | Some (Inl e) \<Rightarrow> Some (Inl e)
      | Some (Inr (es, seg', fs1)) \<Rightarrow>
          (case read_segments env segs fs1 of
             None \<Rightarrow> None
           | Some r \<Rightarrow> Some (rbind r (\<lambda>(es', segs', fs2). Inr (es @ es', seg' # segs', fs2)))))"

definition CollectEntriesForReplay ::
  "posix_env \<Rightarrow> WalManager \<Rightarrow> posix \<Rightarrow> (WalEntry list \<times> WalManager \<times> posix) res option" where
  "CollectEntriesForReplay env m fs =
     (case read_segments env (wm_sealed_segments m) fs of
        None \<Rightarrow> None
      | Some (Inl e) \<Rightarrow> Some (Inl e)
      | Some (Inr (es, sealed, fs1)) \<Rightarrow>
          (case wm_active_segment m of
             None \<Rightarrow> Some (Inr (es, m\<lparr>wm_sealed_segments := sealed\<rparr>, fs1))
           | Some seg \<Rightarrow>
               (case ReadAllEntries env seg fs1 of
                  None \<Rightarrow> None
                | Some r \<Rightarrow> Some (rbind r (\<lambda>(es', seg', fs2).
                    Inr (es @ es', m\<lparr>wm_sealed_segments := sealed, wm_active_segment := Some seg'\<rparr>, fs2))))))"

text \<open>The loop of \<^verbatim>\<open>CrashReplay\<close>: the sequence number it ends with.\<close>

fun replay_scan :: "u64 \<Rightarrow> WalEntry list \<Rightarrow> u64 \<Rightarrow> u64" where
  "replay_scan last_flushed [] prev = prev"
| "replay_scan last_flushed (e # es) prev =
     (if we_seq_id e \<le> last_flushed then replay_scan last_flushed es prev
      else if we_seq_id e \<le> prev then replay_scan last_flushed es (we_seq_id e)
      else replay_scan last_flushed es (we_seq_id e))"

definition CrashReplay ::
  "posix_env \<Rightarrow> nat \<Rightarrow> WalManager \<Rightarrow> posix \<Rightarrow> (bool \<times> WalManager \<times> posix) res option" where
  "CrashReplay env now m fs =
     (let (cp, fs1) = ReadCheckpoint env m fs
      in (case CollectEntriesForReplay env m fs1 of
            None \<Rightarrow> None
          | Some r \<Rightarrow> Some (rbind r (\<lambda>(entries, m', fs2).
              let (ok, fs3) = WriteCheckpoint env now m' (replay_scan (flushed_seq_id cp) entries 0) fs2
              in Inr (True, m', fs3)))))"


section \<open>Reading a segment\<close>

definition blocks :: "(u64 \<times> u8 list) list \<Rightarrow> u8 list" where
  "blocks es = concat (map (\<lambda>(s, p). wal_block s p) es)"

definition fits_all :: "(u64 \<times> u8 list) list \<Rightarrow> bool" where
  "fits_all es \<longleftrightarrow> (\<forall>(s, p) \<in> set es. payload_fits p)"

definition entries_of :: "(u64 \<times> u8 list) list \<Rightarrow> WalEntry list" where
  "entries_of es = map (\<lambda>(s, p). wal_entry s p) es"

lemma blocks_simps [simp]:
  "blocks [] = []" "blocks (e # es) = wal_block (fst e) (snd e) @ blocks es" "blocks (es @ es') = blocks es @ blocks es'"
  "fits_all []" "fits_all (e # es) \<longleftrightarrow> payload_fits (snd e) \<and> fits_all es"
  "fits_all (es @ es') \<longleftrightarrow> fits_all es \<and> fits_all es'"
  "entries_of [] = []" "entries_of (e # es) = wal_entry (fst e) (snd e) # entries_of es"
  "entries_of (es @ es') = entries_of es @ entries_of es'"
  by (auto simp: blocks_def fits_all_def entries_of_def split: prod.splits)

lemma entries_of_content: "map (\<lambda>e. (we_seq_id e, we_payload e)) (entries_of es) = es"
  by (induction es) (simp_all add: wal_entry_def)

lemma entries_of_seq: "map we_seq_id (entries_of es) = map fst es"
  by (induction es) (simp_all add: wal_entry_def)

lemma read_loop_end: "length data \<le> off \<Longrightarrow> read_loop data off acc = Some (Inr acc)"
  by (subst read_loop.simps) simp

lemma read_loop_image:
  assumes "payload_fits p" and "off < length data" and "drop off data = wal_image s p @ r"
  shows "read_loop data off acc = read_loop data (off + padded p) (acc @ [wal_entry s p])"
proof -
  have "we_payload_len (wal_entry s p) = plen p" by (simp add: wal_entry_def)
  then show ?thesis
    using assms by (subst read_loop.simps) (simp add: Validate_image Parse_image entry_size padded_def)
qed

lemma read_loop_blocks:
  "fits_all es \<Longrightarrow> drop off data = blocks es @ r \<Longrightarrow>
   read_loop data off acc = read_loop data (off + length (blocks es)) (acc @ entries_of es)"
proof (induction es arbitrary: off acc)
  case Nil
  then show ?case by simp
next
  case (Cons e es)
  have d: "drop off data = wal_image (fst e) (snd e) @ (replicate (padded (snd e) - (26 + length (snd e))) 0 @ blocks es @ r)"
    using Cons.prems by (simp add: wal_block_def)
  have "off < length data"
    using arg_cong [OF d, of length] by (cases "off < length data") simp_all
  then have "read_loop data off acc = read_loop data (off + padded (snd e)) (acc @ [wal_entry (fst e) (snd e)])"
    using read_loop_image [OF _ _ d] Cons.prems by simp
  also have "\<dots> = read_loop data (off + padded (snd e) + length (blocks es)) ((acc @ [wal_entry (fst e) (snd e)]) @ entries_of es)"
  proof (rule Cons.IH)
    have "drop (off + padded (snd e)) data = drop (padded (snd e)) (drop off data)" by (simp add: add.commute)
    then show "drop (off + padded (snd e)) data = blocks es @ r" using Cons.prems by simp
  qed (use Cons.prems in simp)
  finally show ?case by (simp add: add.assoc)
qed

lemma read_loop_complete: "fits_all es \<Longrightarrow> read_loop (blocks es) 0 [] = Some (Inr (entries_of es))"
  using read_loop_blocks [of es 0 "blocks es" "[]" "[]"] by (simp add: read_loop_end)

text \<open>A segment whose last entry was written only up to its byte \<open>k\<close>.\<close>

lemma read_loop_crash:
  assumes "fits_all es" and p: "payload_fits p" and k: "k \<le> padded p"
  shows "read_loop (blocks es @ take k (wal_block s p)) 0 []
    = Some (Inr (entries_of es @ (if 26 + length p \<le> k then [wal_entry s p] else [])))"
proof -
  let ?B = "length (blocks es)" and ?t = "take k (wal_block s p)"
  let ?d = "blocks es @ ?t"
  have "read_loop ?d 0 [] = read_loop ?d ?B (entries_of es)"
    using read_loop_blocks [OF assms(1), of 0 ?d ?t "[]"] by simp
  also have "\<dots> = Some (Inr (entries_of es @ (if 26 + length p \<le> k then [wal_entry s p] else [])))"
  proof (cases "26 + length p \<le> k")
    case True
    then have "drop ?B ?d = wal_image s p @ take (k - (26 + length p)) (replicate (padded p - (26 + length p)) 0)"
      by (simp add: wal_block_def)
    then have "read_loop ?d ?B (entries_of es) = read_loop ?d (?B + padded p) (entries_of es @ [wal_entry s p])"
      using True p k by (intro read_loop_image) auto
    then show ?thesis using True by (simp add: read_loop_end)
  next
    case False
    then have t: "?t = take k (wal_image s p)" by (simp add: wal_block_def)
    obtain q msg where v: "Validate (take k (wal_image s p)) = Inr (torn q msg)"
      using Validate_prefix [OF p] False by (metis not_le)
    then show ?thesis
      using False by (subst read_loop.simps) (simp add: t torn_def)
  qed
  finally show ?thesis .
qed


lemma ReadAllEntries_healthy:
  assumes "healthy env" and "seg_fd seg = Some pos" and "file_at fs (seg_path seg) = data"
    and "unat (seg_file_size seg) = length data" and "read_loop data 0 [] = Some (Inr es)"
  shows "ReadAllEntries env seg fs = Some (Inr (es, seg\<lparr>seg_fd := Some (length data)\<rparr>, tick fs))"
  using assms by (simp add: ReadAllEntries_def posix_read_healthy)

section \<open>A segment that is written\<close>

text \<open>The segment holds exactly the entries, its descriptor stands at the end of the file.\<close>

definition seg_holds :: "posix \<Rightarrow> WalSegment \<Rightarrow> (u64 \<times> u8 list) list \<Rightarrow> bool" where
  "seg_holds fs seg es \<longleftrightarrow>
     pf_files fs (seg_path seg) = Some (blocks es) \<and> seg_fd seg = Some (length (blocks es))
     \<and> seg_file_size seg = of_nat (length (blocks es)) \<and> fits_all es"

lemma seg_holds_new:
  assumes "pf_files fs path = None" and "WalSegment_new env path q False fs = (seg, fs')" and "seg_fd seg \<noteq> None"
  shows "seg_holds fs' seg [] \<and> seg_path seg = path \<and> \<not> seg_is_sealed seg \<and> \<not> seg_read_only seg"
  using assms
  by (auto simp: WalSegment_new_def posix_open_def seg_holds_def file_at_def split: if_splits)

lemma seg_holds_write:
  assumes h: "seg_holds fs seg es" and "payload_fits p"
    and w: "seg_WriteEntry env seg s (Some p) (plen p) fs = Inr (ok, seg', fs')"
  shows "ok \<Longrightarrow> seg_holds fs' seg' (es @ [(s, p)])"
    and "\<not> ok \<Longrightarrow> \<exists>k \<le> padded p. pf_files fs' (seg_path seg) = Some (blocks es @ take k (wal_block s p))"
    and "q \<noteq> seg_path seg \<Longrightarrow> pf_files fs' q = pf_files fs q"
    and "seg_path seg' = seg_path seg" "seg_is_sealed seg' = seg_is_sealed seg"
    "seg_read_only seg' = seg_read_only seg"
proof -
  let ?B = "length (blocks es)"
  have f: "file_at fs (seg_path seg) = blocks es" and fd: "seg_fd seg = Some ?B"
    using h by (simp_all add: seg_holds_def file_at_def)
  obtain r fs1 where pw: "posix_write env (seg_path seg) ?B (wal_block s p) fs = (r, fs1)" by fastforce
  note pf = posix_write_files [OF pw]
  have W: "seg_WriteEntry env seg s (Some p) (plen p) fs
      = (if seg_is_sealed seg \<or> seg_read_only seg then Inr (False, seg, fs)
         else case r of None \<Rightarrow> Inr (False, seg, fs1)
              | Some n \<Rightarrow> if n \<noteq> padded p then Inr (False, seg\<lparr>seg_fd := Some (?B + n)\<rparr>, fs1)
                  else Inr (True, seg\<lparr>seg_fd := Some (?B + n), seg_last_seq_id := s,
                       seg_entry_count := seg_entry_count seg + 1,
                       seg_file_size := seg_file_size seg + of_nat (padded p)\<rparr>, fs1))"
    using assms(2) by (simp add: seg_WriteEntry_def Build_eq fd pw split: option.splits)
  have put: "r = Some n \<Longrightarrow> pf_files fs1 (seg_path seg) = Some (blocks es @ take n (wal_block s p)) \<and> n \<le> padded p" for n
    using pf(3) by (simp add: f)
  show "ok \<Longrightarrow> seg_holds fs' seg' (es @ [(s, p)])"
    using w W h assms(2) put by (auto simp: seg_holds_def split: if_splits option.splits)
  show "\<not> ok \<Longrightarrow> \<exists>k \<le> padded p. pf_files fs' (seg_path seg) = Some (blocks es @ take k (wal_block s p))"
  proof (cases "seg_is_sealed seg \<or> seg_read_only seg")
    case True
    then show ?thesis using w W h by (intro exI [of _ 0]) (auto simp: seg_holds_def)
  next
    case False
    assume "\<not> ok"
    with False w W show ?thesis
    proof (cases r)
      case None
      then show ?thesis using False w W pf(2) h by (intro exI [of _ 0]) (auto simp: seg_holds_def)
    next
      case (Some n)
      then show ?thesis using False w W put [OF Some] by (intro exI [of _ n]) (auto split: if_splits)
    qed
  qed
  show "q \<noteq> seg_path seg \<Longrightarrow> pf_files fs' q = pf_files fs q"
    using w W pf(1) by (auto split: if_splits option.splits)
  show "seg_path seg' = seg_path seg" "seg_is_sealed seg' = seg_is_sealed seg" "seg_read_only seg' = seg_read_only seg"
    using w W by (auto split: if_splits option.splits)
qed

text \<open>A new segment and the entries whose write it acknowledged, whatever the system does.\<close>

inductive seg_reach :: "posix_env \<Rightarrow> string \<Rightarrow> WalSegment \<Rightarrow> posix \<Rightarrow> (u64 \<times> u8 list) list \<Rightarrow> bool" for env path where
  created: "pf_files fs path = None \<Longrightarrow> WalSegment_new env path q False fs = (seg, fs') \<Longrightarrow> seg_fd seg \<noteq> None \<Longrightarrow>
    seg_reach env path seg fs' []"
| written: "seg_reach env path seg fs es \<Longrightarrow> length p + 26 < 2 ^ 32 \<Longrightarrow>
    seg_WriteEntry env seg s (Some p) (of_nat (length p)) fs = Inr (True, seg', fs') \<Longrightarrow>
    seg_reach env path seg' fs' (es @ [(s, p)])"

lemma seg_reach_holds: "seg_reach env path seg fs es \<Longrightarrow> seg_holds fs seg es \<and> seg_path seg = path"
proof (induction rule: seg_reach.induct)
  case (created fs q seg fs')
  then show ?case using seg_holds_new by blast
next
  case (written seg fs es p s seg' fs')
  have p: "payload_fits p" using written.hyps by (simp add: payload_fits_def)
  show ?case
    using seg_holds_write(1,4) [OF conjunct1 [OF written.IH] p written.hyps(3) [folded plen_def]] written.IH
    by simp
qed

section \<open>Properties of a segment\<close>


text \<open>A system that cuts the third call, a write, after five bytes.\<close>

definition cut_env :: posix_env where
  "cut_env = healthy_env\<lparr>os_write := (\<lambda>n k. if n = 2 then Some 5 else Some k)\<rparr>"

definition empty_fs :: posix where
  "empty_fs = \<lparr>pf_files = (\<lambda>_. None), pf_ops = 0\<rparr>"

lemma cut_env_run:
  "\<exists>seg fs seg' fs'. seg_reach cut_env ''w'' seg fs [(1, [7])]
     \<and> seg_WriteEntry cut_env seg 2 (Some [8]) (of_nat (length [8 :: u8])) fs = Inr (False, seg', fs')
     \<and> length (file_at fs' ''w'') = 37"
proof -
  have b: "Build s (Some [x]) 1 = Inr (wal_block s [x])" for s and x :: u8
    using Build_eq [of "[x]" s] by (simp add: payload_fits_def plen_def)
  obtain seg0 fs0 where n: "WalSegment_new cut_env ''w'' 0 False empty_fs = (seg0, fs0)" by fastforce
  have r0: "seg_reach cut_env ''w'' seg0 fs0 []" "seg_path seg0 = ''w''" "seg_fd seg0 = Some 0" "pf_ops fs0 = 1"
    "file_at fs0 ''w'' = []" "\<not> seg_is_sealed seg0" "\<not> seg_read_only seg0"
    using n seg_reach.created [OF _ n]
    by (auto simp: WalSegment_new_def posix_open_def cut_env_def healthy_env_def empty_fs_def tick_def file_put_def file_at_def)
  obtain ok seg1 fs1 where w: "seg_WriteEntry cut_env seg0 1 (Some [7]) (of_nat (length [7 :: u8])) fs0 = Inr (ok, seg1, fs1)"
    and r1: "ok" "seg_path seg1 = ''w''" "seg_fd seg1 = Some 32" "pf_ops fs1 = 2" "length (file_at fs1 ''w'') = 32"
    "\<not> seg_is_sealed seg1" "\<not> seg_read_only seg1"
    using r0 by (simp add: seg_WriteEntry_def b posix_write_def cut_env_def healthy_env_def length_bytes_put padded_def)
      (simp add: tick_def file_put_def)
  have "\<exists>seg2 fs2. seg_WriteEntry cut_env seg1 2 (Some [8]) (of_nat (length [8 :: u8])) fs1 = Inr (False, seg2, fs2)
      \<and> length (file_at fs2 ''w'') = 37"
    using r1 by (simp add: seg_WriteEntry_def b posix_write_def cut_env_def healthy_env_def length_bytes_put padded_def)
  then show ?thesis using seg_reach.written [OF r0(1) _ w [unfolded r1(1) [THEN eqTrueI]]] by auto
qed


end
