(* ===== verification/HD_WalRefine.thy ===== *)
theory HD_WalRefine
  imports HD_WalLog
begin

text \<open>
  The manager of the write-ahead log implements an append-only list. The abstract state is the
  list of the pairs of sequence number and payload that were acknowledged; the concrete one is the
  segment files. The theory also shows how recovery after a restart breaks the contract.
\<close>

section \<open>File names\<close>

lemma fmt_06d_short:
  assumes "0 \<le> i" and "i < 2 ^ 31"
  shows "length (fmt_06d i) \<le> 10"
proof -
  have "length (to_string (nat i)) \<le> 10" using assms by (intro length_to_string) simp_all
  then show ?thesis using assms by (simp add: fmt_06d_def)
qed

lemma uint_small: "unat (n :: u32) < 2 ^ 31 \<Longrightarrow> uint n < 2 ^ 31"
  using nat_less_iff [OF uint_ge_0, of n "2 ^ 31"] unfolding unat_eq_nat_uint by simp

lemma sint_small:
  fixes n :: u32
  assumes "unat n < 2 ^ 31"
  shows "sint n = int (unat n)"
proof -
  have "uint n < 2 ^ 31" using assms by (rule uint_small)
  then have "\<not> bit (uint n) 31" by (simp add: bit_iff_odd)
  then show ?thesis using \<open>uint n < 2 ^ 31\<close>
    by (simp add: sint_uint signed_take_bit_eq_if_positive take_bit_int_eq_self)
qed

definition seg_file :: "string \<Rightarrow> nat \<Rightarrow> string" where
  "seg_file dir n = dir @ ''/wal-seg-'' @ fmt_06d (int n) @ ''.log''"

lemma SegmentPath_eq:
  assumes "unat n < 2 ^ 31"
  shows "SegmentPath m n = seg_file (wm_data_dir m) (unat n)"
proof -
  have "length (fmt_06d (int (unat n))) \<le> 10" using uint_small [OF assms] by (intro fmt_06d_short) simp_all
  then have "take 63 (''wal-seg-'' @ fmt_06d (int (unat n)) @ ''.log'') = ''wal-seg-'' @ fmt_06d (int (unat n)) @ ''.log''"
    by (intro take_all) simp
  then show ?thesis
    unfolding SegmentPath_def seg_file_def sint_small [OF assms] by (simp only: append_Cons append_Nil)
qed

lemma seg_file_inj [simp]: "seg_file dir i = seg_file dir j \<longleftrightarrow> i = j"
  using fmt_06d_inj [of "int i" "int j"] by (auto simp: seg_file_def)

lemma seg_file_not_ckpt [simp]: "seg_file (wm_data_dir m) i \<noteq> CheckpointPath m"
  by (simp add: seg_file_def CheckpointPath_def)


section \<open>Segments on a healthy system\<close>

definition seg_small :: "posix \<Rightarrow> WalSegment \<Rightarrow> (u64 \<times> u8 list) list \<Rightarrow> bool" where
  "seg_small fs seg es \<longleftrightarrow> seg_holds fs seg es \<and> length (blocks es) < 2 ^ 34"

lemma seg_small_frame:
  "seg_small fs seg es \<Longrightarrow> pf_files fs' (seg_path seg) = pf_files fs (seg_path seg) \<Longrightarrow> seg_small fs' seg es"
  by (simp add: seg_small_def seg_holds_def)

lemma ReadAllEntries_small:
  assumes "healthy env" and "seg_small fs seg es"
  shows "ReadAllEntries env seg fs = Some (Inr (entries_of es, seg, tick fs))"
proof -
  have "seg\<lparr>seg_fd := Some (length (blocks es))\<rparr> = seg" using assms(2) by (simp add: seg_small_def seg_holds_def)
  then show ?thesis
    using ReadAllEntries_healthy [OF assms(1), of seg "length (blocks es)" fs "blocks es"] assms(2)
    by (simp add: seg_small_def seg_holds_def file_at_def read_loop_complete unat_of_nat take_bit_nat_eq_self)
qed

lemma read_segments_small:
  "healthy env \<Longrightarrow> list_all2 (seg_small fs) segs ess \<Longrightarrow>
   \<exists>fs'. read_segments env segs fs = Some (Inr (entries_of (concat ess), segs, fs')) \<and> pf_files fs' = pf_files fs"
proof (induction segs arbitrary: ess fs)
  case (Cons seg segs)
  then obtain es ess' where e: "ess = es # ess'" "seg_small fs seg es" "list_all2 (seg_small fs) segs ess'"
    by (auto simp: list_all2_Cons1)
  have "list_all2 (seg_small (tick fs)) segs ess'"
    using e(3) by (rule list_all2_mono) (simp add: seg_small_def seg_holds_def)
  then show ?case using Cons.IH [OF Cons.prems(1)] e(1) ReadAllEntries_small [OF Cons.prems(1) e(2)] by fastforce
qed simp

lemma seg_write_healthy:
  assumes "healthy env" and "seg_small fs seg es" and "\<not> IsFull seg" and "\<not> seg_is_sealed seg" "\<not> seg_read_only seg"
    and p: "payload_fits p"
  shows "\<exists>seg' fs'. seg_WriteEntry env seg s (Some p) (plen p) fs = Inr (True, seg', fs') \<and> seg_small fs' seg' (es @ [(s, p)])
    \<and> seg_path seg' = seg_path seg \<and> \<not> seg_is_sealed seg' \<and> \<not> seg_read_only seg'
    \<and> (\<forall>q. q \<noteq> seg_path seg \<longrightarrow> pf_files fs' q = pf_files fs q)"
proof -
  have h: "seg_holds fs seg es" using assms(2) by (simp add: seg_small_def)
  then obtain seg' fs' where w: "seg_WriteEntry env seg s (Some p) (plen p) fs = Inr (True, seg', fs')"
    using assms by (auto simp: seg_WriteEntry_def seg_holds_def Build_eq posix_write_healthy)
  have "length (blocks es) < 2 ^ 26"
    using assms(2,3) by (simp add: seg_small_def seg_holds_def IsFull_def WAL_SEGMENT_SIZE_def word_le_nat_alt
        unat_of_nat take_bit_nat_eq_self)
  then have "length (blocks (es @ [(s, p)])) < 2 ^ 34"
    using p padded_bounds(2) [of p] by (simp add: payload_fits_def)
  then show ?thesis
    using seg_holds_write [OF h p w] w assms(4,5) by (auto simp: seg_small_def)
qed

section \<open>The invariant of the manager\<close>

text \<open>Sequence numbers count up from 1.\<close>

definition numbered :: "(u64 \<times> u8 list) list \<Rightarrow> bool" where
  "numbered log \<longleftrightarrow> map fst log = map of_nat [1..<Suc (length log)]"

lemma numbered_Nil: "numbered []"
  by (simp add: numbered_def)

lemma numbered_snoc: "numbered log \<Longrightarrow> numbered (log @ [(of_nat (Suc (length log)), p)])"
  by (simp add: numbered_def)

text \<open>The files of the sealed segments.\<close>

definition sealed_names :: "string \<Rightarrow> WalSegment list \<Rightarrow> nat \<Rightarrow> bool" where
  "sealed_names dir segs n \<longleftrightarrow> map seg_path segs = map (seg_file dir) [1..<n]"

lemma sealed_names_snoc:
  "sealed_names dir segs n \<Longrightarrow> 0 < n \<Longrightarrow> seg_path seg = seg_file dir n \<Longrightarrow> sealed_names dir (segs @ [seg]) (Suc n)"
  by (simp add: sealed_names_def)

definition wal_shape ::
  "string \<Rightarrow> WalManager \<Rightarrow> posix \<Rightarrow> (u64 \<times> u8 list) list \<Rightarrow>
   WalSegment \<Rightarrow> (u64 \<times> u8 list) list list \<Rightarrow> (u64 \<times> u8 list) list \<Rightarrow> bool" where
  "wal_shape dir m fs log seg sess es \<longleftrightarrow>
     wm_data_dir m = dir \<and> wm_is_open m \<and> wm_active_segment m = Some seg
     \<and> \<not> seg_is_sealed seg \<and> \<not> seg_read_only seg \<and> seg_small fs seg es
     \<and> list_all2 (seg_small fs) (wm_sealed_segments m) sess \<and> log = concat sess @ es
     \<and> seg_path seg = seg_file dir (unat (wm_next_segment_number m))
     \<and> sealed_names dir (wm_sealed_segments m) (unat (wm_next_segment_number m))
     \<and> 0 < unat (wm_next_segment_number m)
     \<and> (\<forall>j > unat (wm_next_segment_number m). pf_files fs (seg_file dir j) = None)
     \<and> wf_next_seq_id (wm_seq_fence m) = of_nat (Suc (length log))
     \<and> numbered log"

lemma wal_shapeD:
  assumes "wal_shape dir m fs log seg sess es"
  shows "wm_data_dir m = dir" "wm_is_open m" "wm_active_segment m = Some seg"
    "\<not> seg_is_sealed seg" "\<not> seg_read_only seg" "seg_small fs seg es"
    "list_all2 (seg_small fs) (wm_sealed_segments m) sess" "log = concat sess @ es"
    "seg_path seg = seg_file dir (unat (wm_next_segment_number m))"
    "sealed_names dir (wm_sealed_segments m) (unat (wm_next_segment_number m))"
    "0 < unat (wm_next_segment_number m)"
    "\<And>j. unat (wm_next_segment_number m) < j \<Longrightarrow> pf_files fs (seg_file dir j) = None"
    "wf_next_seq_id (wm_seq_fence m) = of_nat (Suc (length log))" "numbered log"
  using assms unfolding wal_shape_def by - (elim conjE, (assumption | (drule spec, erule mp, assumption)))+

lemma wal_shapeI:
  assumes "wm_data_dir m = dir" "wm_is_open m" "wm_active_segment m = Some seg"
    "\<not> seg_is_sealed seg" "\<not> seg_read_only seg" "seg_small fs seg es"
    "list_all2 (seg_small fs) (wm_sealed_segments m) sess" "log = concat sess @ es"
    "seg_path seg = seg_file dir (unat (wm_next_segment_number m))"
    "sealed_names dir (wm_sealed_segments m) (unat (wm_next_segment_number m))"
    "0 < unat (wm_next_segment_number m)"
    "\<And>j. unat (wm_next_segment_number m) < j \<Longrightarrow> pf_files fs (seg_file dir j) = None"
    "wf_next_seq_id (wm_seq_fence m) = of_nat (Suc (length log))" "numbered log"
  shows "wal_shape dir m fs log seg sess es"
  unfolding wal_shape_def by (intro conjI allI impI assms)

definition wal_inv :: "string \<Rightarrow> WalManager \<Rightarrow> posix \<Rightarrow> (u64 \<times> u8 list) list \<Rightarrow> bool" where
  "wal_inv dir m fs log \<longleftrightarrow> (\<exists>seg sess es. wal_shape dir m fs log seg sess es \<and> \<not> IsFull seg)"

text \<open>A change of other files does not disturb the sealed segments.\<close>

lemma sealed_frame:
  assumes "list_all2 (seg_small fs) segs sess" and "sealed_names dir segs n"
    and "\<And>i. i < n \<Longrightarrow> pf_files fs' (seg_file dir i) = pf_files fs (seg_file dir i)"
  shows "list_all2 (seg_small fs') segs sess"
proof -
  have "\<exists>i < n. seg_path x = seg_file dir i" if "x \<in> set segs" for x
  proof -
    have "seg_path x \<in> set (map seg_path segs)" using that by simp
    then show ?thesis unfolding assms(2) [unfolded sealed_names_def] by auto
  qed
  then have "pf_files fs' (seg_path x) = pf_files fs (seg_path x)" if "x \<in> set segs" for x
    using that assms(3) by metis
  then show ?thesis using assms(1) by (auto elim!: list.rel_mono_strong intro: seg_small_frame)
qed

lemma wal_shape_files:
  assumes w: "wal_shape dir m fs log seg sess es" and f: "\<And>i. pf_files fs' (seg_file dir i) = pf_files fs (seg_file dir i)"
  shows "wal_shape dir m fs' log seg sess es"
proof -
  note D = wal_shapeD [OF w]
  have "list_all2 (seg_small fs') (wm_sealed_segments m) sess" using D(7,10) f by (rule sealed_frame)
  moreover have "seg_small fs' seg es" using D(6) by (rule seg_small_frame) (simp add: D(9) f)
  moreover have "pf_files fs' (seg_file dir j) = None" if "unat (wm_next_segment_number m) < j" for j
    using D(12) [OF that] by (simp add: f)
  ultimately show ?thesis by (intro wal_shapeI D(1-5,8-11,13,14))
qed

lemma wal_shape_write:
  assumes env: "healthy env" and w: "wal_shape dir m fs log seg sess es" and full: "\<not> IsFull seg"
    and p: "payload_fits p"
  shows "\<exists>seg' fs'. seg_WriteEntry env seg (of_nat (Suc (length log))) (Some p) (plen p) fs = Inr (True, seg', fs')
    \<and> wal_shape dir (m\<lparr>wm_seq_fence := snd (fence_Next (wm_seq_fence m)), wm_active_segment := Some seg'\<rparr>) fs'
        (log @ [(of_nat (Suc (length log)), p)]) seg' sess (es @ [(of_nat (Suc (length log)), p)])"
proof -
  note D = wal_shapeD [OF w]
  let ?s = "of_nat (Suc (length log)) :: u64" and ?n = "unat (wm_next_segment_number m)"
  obtain seg' fs' where wr: "seg_WriteEntry env seg ?s (Some p) (plen p) fs = Inr (True, seg', fs')"
      "seg_small fs' seg' (es @ [(?s, p)])" "seg_path seg' = seg_path seg" "\<not> seg_is_sealed seg'" "\<not> seg_read_only seg'"
      and fr: "\<forall>q. q \<noteq> seg_path seg \<longrightarrow> pf_files fs' q = pf_files fs q"
    using seg_write_healthy [OF env D(6) full D(4,5) p, of ?s] by blast
  have f: "pf_files fs' (seg_file dir j) = pf_files fs (seg_file dir j)" if "j \<noteq> ?n" for j
    using fr that by (simp add: D(9))
  have s: "list_all2 (seg_small fs') (wm_sealed_segments m) sess"
    using D(7,10) by (rule sealed_frame) (simp add: f)
  have "wal_shape dir (m\<lparr>wm_seq_fence := snd (fence_Next (wm_seq_fence m)), wm_active_segment := Some seg'\<rparr>) fs'
        (log @ [(?s, p)]) seg' sess (es @ [(?s, p)])"
    by (intro wal_shapeI numbered_snoc D(14) wr(2)) (simp_all add: D(1-2,9-11) wr(3-5) s fence_Next_def D(13) f D(12), rule D(8))
  then show ?thesis using wr(1) by blast
qed

lemma wal_shape_rollover:
  assumes env: "healthy env" and w: "wal_shape dir m fs log seg sess es" and n: "unat (wm_next_segment_number m) < 2 ^ 31 - 1"
    and t: "TriggerSegmentRollover env m fs = (m', fs')"
  shows "wal_inv dir m' fs' log"
proof -
  note D = wal_shapeD [OF w]
  let ?n = "unat (wm_next_segment_number m)"
  have n1: "unat (wm_next_segment_number m + 1) = Suc ?n"
    using n by (subst unat_add_lem [THEN iffD1]) simp_all
  have path: "SegmentPath m (wm_next_segment_number m + 1) = seg_file dir (Suc ?n)"
    using SegmentPath_eq [of "wm_next_segment_number m + 1" m] n n1 D(1) by simp
  obtain new where new: "WalSegment_new env (seg_file dir (Suc ?n)) (fence_Current (wm_seq_fence m)) False fs
      = (new, tick (file_put fs (seg_file dir (Suc ?n)) []))" and h: "seg_fd new = Some 0" "seg_file_size new = 0"
      "seg_entry_count new = 0" "seg_path new = seg_file dir (Suc ?n)" "\<not> seg_is_sealed new" "\<not> seg_read_only new"
    using env D(12) [of "Suc ?n"] by (simp add: WalSegment_new_def posix_open_def healthy_def)
  have m': "m' = m\<lparr>wm_sealed_segments := wm_sealed_segments m @ [Seal seg],
       wm_next_segment_number := wm_next_segment_number m + 1, wm_active_segment := Some new\<rparr>"
    and fs': "fs' = tick (file_put fs (seg_file dir (Suc ?n)) [])"
    using t new by (simp_all add: TriggerSegmentRollover_def path D(3) Let_def)
  have s: "list_all2 (seg_small fs') (wm_sealed_segments m) sess"
    using D(7,10) by (rule sealed_frame) (simp add: fs')
  have "seg_small fs' seg es" using D(6) by (rule seg_small_frame) (simp add: fs' D(9))
  then have sl: "seg_small fs' (Seal seg) es" "seg_path (Seal seg) = seg_path seg"
    by (simp_all add: seg_small_def seg_holds_def Seal_def)
  have nm: "sealed_names dir (wm_sealed_segments m @ [Seal seg]) (Suc ?n)"
    using D(10,11) by (rule sealed_names_snoc) (simp add: sl D(9))
  have "seg_small fs' new []" unfolding seg_small_def seg_holds_def h fs' by simp
  moreover have "list_all2 (seg_small fs') (wm_sealed_segments m @ [Seal seg]) (sess @ [es])"
    using s sl by (simp add: list_all2_append list_all2_lengthD)
  moreover have "log = concat (sess @ [es]) @ []" using D(8) by simp
  moreover have "pf_files fs' (seg_file dir j) = None" if "Suc ?n < j" for j
    using that D(12) [of j] by (simp add: fs')
  moreover have "wm_data_dir m' = dir" "wm_is_open m'" "wm_active_segment m' = Some new" "wm_seq_fence m' = wm_seq_fence m"
      "wm_sealed_segments m' = wm_sealed_segments m @ [Seal seg]" "unat (wm_next_segment_number m') = Suc ?n"
    by (simp_all add: m' D(1,2) n1)
  ultimately have "wal_shape dir m' fs' log new (sess @ [es]) []"
    using nm h D(13,14) by (intro wal_shapeI) (simp_all only: zero_less_Suc not_False_eq_True)
  moreover have "\<not> IsFull new" by (simp add: IsFull_def h WAL_SEGMENT_SIZE_def WAL_MAX_ENTRIES_def)
  ultimately show ?thesis unfolding wal_inv_def by blast
qed

lemma wal_inv_files:
  assumes "wal_inv dir m fs log" and "\<And>i. pf_files fs' (seg_file dir i) = pf_files fs (seg_file dir i)"
  shows "wal_inv dir m fs' log"
  using assms unfolding wal_inv_def by (blast intro: wal_shape_files)

lemma wal_inv_rollover:
  assumes "healthy env" and "wal_inv dir m fs log" and "unat (wm_next_segment_number m) < 2 ^ 31 - 1"
    and "TriggerSegmentRollover env m fs = (m', fs')"
  shows "wal_inv dir m' fs' log"
  using assms(2) wal_shape_rollover [OF assms(1) _ assms(3,4)] unfolding wal_inv_def by blast

lemma mgr_WriteEntry_ok:
  assumes "wm_active_segment m = Some seg" and "wm_is_open m" and "fence_Next (wm_seq_fence m) = (s, f)"
    and "seg_WriteEntry env seg s (Some p) n fs = Inr (True, seg', fs1)"
  shows "mgr_WriteEntry env m (Some p) n fs
    = Inr (s, RollOverIfNeeded env (m\<lparr>wm_seq_fence := f, wm_active_segment := Some seg'\<rparr>) fs1)"
  using assms by (simp add: mgr_WriteEntry_def case_prod_unfold)

lemma wal_inv_write:
  assumes env: "healthy env" and inv: "wal_inv dir m fs log" and n: "unat (wm_next_segment_number m) < 2 ^ 31 - 1"
    and p: "payload_fits p"
  shows "\<exists>m' fs'. mgr_WriteEntry env m (Some p) (plen p) fs = Inr (of_nat (Suc (length log)), m', fs')
    \<and> wal_inv dir m' fs' (log @ [(of_nat (Suc (length log)), p)])"
proof -
  let ?s = "of_nat (Suc (length log)) :: u64"
  obtain seg sess es where w: "wal_shape dir m fs log seg sess es" and full: "\<not> IsFull seg"
    using inv unfolding wal_inv_def by blast
  note D = wal_shapeD [OF w]
  obtain seg' fs1 where wr: "seg_WriteEntry env seg ?s (Some p) (plen p) fs = Inr (True, seg', fs1)"
    and w1: "wal_shape dir (m\<lparr>wm_seq_fence := snd (fence_Next (wm_seq_fence m)), wm_active_segment := Some seg'\<rparr>) fs1
        (log @ [(?s, p)]) seg' sess (es @ [(?s, p)])"
    using wal_shape_write [OF env w full p] by blast
  define m1 where "m1 = m\<lparr>wm_seq_fence := snd (fence_Next (wm_seq_fence m)), wm_active_segment := Some seg'\<rparr>"
  have f: "fence_Next (wm_seq_fence m) = (?s, snd (fence_Next (wm_seq_fence m)))"
    by (simp only: fence_Next_def D(13) snd_conv)
  note M = mgr_WriteEntry_ok [OF D(3,2) f wr, folded m1_def]
  have a1: "wm_active_segment m1 = Some seg'" "unat (wm_next_segment_number m1) < 2 ^ 31 - 1"
    using n by (simp_all add: m1_def)
  show ?thesis
  proof (cases "IsFull seg'")
    case True
    obtain m3 fs3 where t: "TriggerSegmentRollover env m1 fs1 = (m3, fs3)" by fastforce
    have "wal_inv dir m3 fs3 (log @ [(?s, p)])"
      using wal_shape_rollover [OF env w1 [folded m1_def] a1(2) t] .
    then show ?thesis unfolding M RollOverIfNeeded_def a1 using True t by simp
  next
    case False
    have "wal_inv dir m1 fs1 (log @ [(?s, p)])" using w1 [folded m1_def] False unfolding wal_inv_def by blast
    then show ?thesis unfolding M RollOverIfNeeded_def a1 using False by simp
  qed
qed

lemma wal_inv_collect:
  assumes env: "healthy env" and inv: "wal_inv dir m fs log"
  shows "\<exists>fs'. CollectEntriesForReplay env m fs = Some (Inr (entries_of log, m, fs')) \<and> pf_files fs' = pf_files fs"
proof -
  obtain seg sess es where w: "wal_shape dir m fs log seg sess es" using inv unfolding wal_inv_def by blast
  note D = wal_shapeD [OF w]
  obtain fs1 where r: "read_segments env (wm_sealed_segments m) fs = Some (Inr (entries_of (concat sess), wm_sealed_segments m, fs1))"
    and f: "pf_files fs1 = pf_files fs" using read_segments_small [OF env D(7)] by blast
  have "seg_small fs1 seg es" using D(6) by (rule seg_small_frame) (simp add: f)
  then have "ReadAllEntries env seg fs1 = Some (Inr (entries_of es, seg, tick fs1))" by (rule ReadAllEntries_small [OF env])
  moreover have "m\<lparr>wm_sealed_segments := wm_sealed_segments m, wm_active_segment := Some seg\<rparr> = m" using D(3) by simp
  ultimately show ?thesis by (simp add: CollectEntriesForReplay_def r D(3) f D(8))
qed

lemma WriteCheckpoint_open:
  "os_open env (pf_ops fs) \<Longrightarrow> WriteCheckpoint env now m k fs =
     (let (n, fs2) = posix_write env (CheckpointPath m) 0 (bytes_of_string (to_string (unat k) @ '','' @ to_string now @ '','' @
            (case wm_active_segment m of Some seg \<Rightarrow> seg_path seg | None \<Rightarrow> []) @ [CHR 0x0A]))
          (tick (file_put fs (CheckpointPath m) []))
      in (case n of None \<Rightarrow> False | Some k \<Rightarrow> 0 < k, fs2))"
  by (simp add: WriteCheckpoint_def posix_open_def)

lemma WriteCheckpoint_files:
  assumes w: "WriteCheckpoint env now m k fs = (ok, fs')" and q: "q \<noteq> CheckpointPath m"
  shows "pf_files fs' q = pf_files fs q"
proof (cases "os_open env (pf_ops fs)")
  case True
  then obtain n d where "posix_write env (CheckpointPath m) 0 d (tick (file_put fs (CheckpointPath m) [])) = (n, fs')"
    using w unfolding WriteCheckpoint_open [OF True] Let_def case_prod_unfold by (metis prod.collapse snd_conv)
  then show ?thesis using posix_write_files(1) q by fastforce
next
  case False
  then show ?thesis using w by (auto simp: WriteCheckpoint_def posix_open_def)
qed

lemma WriteCheckpoint_present:
  assumes "healthy env" and "WriteCheckpoint env now m k fs = (ok, fs')"
  shows "pf_files fs' (CheckpointPath m) \<noteq> None"
  using assms by (auto simp: WriteCheckpoint_open healthy_def posix_write_def)

lemma ReadCheckpoint_open:
  "os_open env (pf_ops fs) \<Longrightarrow> pf_files fs (CheckpointPath m) \<noteq> None \<Longrightarrow> ReadCheckpoint env m fs =
     (let (r, fs2) = posix_read env (CheckpointPath m) 0 1023 (tick fs)
      in (case r of None \<Rightarrow> no_checkpoint
          | Some data \<Rightarrow> if data = [] then no_checkpoint else parse_checkpoint (c_string (string_of_bytes data)), fs2))"
  by (simp add: ReadCheckpoint_def posix_open_existing split: prod.split option.split)

lemma ReadCheckpoint_files: "pf_files (snd (ReadCheckpoint env m fs)) = pf_files fs"
proof (cases "os_open env (pf_ops fs) \<and> pf_files fs (CheckpointPath m) \<noteq> None")
  case True
  then have r: "os_open env (pf_ops fs)" "pf_files fs (CheckpointPath m) \<noteq> None" by blast+
  show ?thesis unfolding ReadCheckpoint_open [OF r] Let_def case_prod_unfold by (simp add: posix_read_files)
next
  case False
  then show ?thesis by (simp add: ReadCheckpoint_def posix_open_fails)
qed

lemma CrashReplay_inv:
  assumes env: "healthy env" and inv: "wal_inv dir m fs log" and dir: "wm_data_dir m = dir"
  shows "\<exists>fs2 ok fs'. CrashReplay env now m fs = Some (Inr (True, m, fs')) \<and> wal_inv dir m fs' log
    \<and> WriteCheckpoint env now m (replay_scan (flushed_seq_id (fst (ReadCheckpoint env m fs))) (entries_of log) 0) fs2 = (ok, fs')
    \<and> pf_files fs2 = pf_files fs"
proof -
  obtain cp fs1 where cp: "ReadCheckpoint env m fs = (cp, fs1)" by fastforce
  then have f1: "pf_files fs1 = pf_files fs" using ReadCheckpoint_files [of env m fs] by simp
  have "wal_inv dir m fs1 log" using inv by (rule wal_inv_files) (simp add: f1)
  then obtain fs2 where c: "CollectEntriesForReplay env m fs1 = Some (Inr (entries_of log, m, fs2))" and f2: "pf_files fs2 = pf_files fs1"
    using wal_inv_collect [OF env] by blast
  obtain ok fs3 where wc: "WriteCheckpoint env now m (replay_scan (flushed_seq_id cp) (entries_of log) 0) fs2 = (ok, fs3)" by fastforce
  have "wal_inv dir m fs3 log"
    using inv by (rule wal_inv_files) (use WriteCheckpoint_files [OF wc] f1 f2 seg_file_not_ckpt [of m] dir in auto)
  then show ?thesis using c wc f1 f2 by (auto simp: CrashReplay_def cp)
qed

lemma Open_empty:
  assumes env: "healthy env" and f: "\<And>i. pf_files fs (seg_file dir i) = None" and c: "pf_files fs (dir @ ''/wal.ckpt'') = None"
    and o: "Open env (WalManager_new dir) fs = (m, fs')"
  shows "wal_inv dir m fs' []"
proof -
  have path: "SegmentPath (WalManager_new dir) 1 = seg_file dir 1"
    using SegmentPath_eq [of 1 "WalManager_new dir"] by (simp add: WalManager_new_def)
  have num: "wm_next_segment_number (WalManager_new dir) = 1" by (simp add: WalManager_new_def)
  have r: "ReadCheckpoint env (WalManager_new dir) fs = (no_checkpoint, tick fs)"
    using c by (simp add: ReadCheckpoint_def posix_open_def CheckpointPath_def WalManager_new_def)
  obtain seg fs1 where n: "WalSegment_new env (seg_file dir 1) 0 False (tick fs) = (seg, fs1)" by fastforce
  have h: "seg_fd seg = Some 0" "seg_file_size seg = 0" "seg_entry_count seg = 0" "seg_path seg = seg_file dir 1"
    "\<not> seg_is_sealed seg" "\<not> seg_read_only seg" and fs1: "fs1 = tick (file_put (tick fs) (seg_file dir 1) [])"
    using n env f [of 1] by (auto simp: WalSegment_new_def posix_open_def healthy_def)
  have m: "m = (WalManager_new dir)\<lparr>wm_seq_fence := fence_Reset 1, wm_active_segment := Some seg, wm_is_open := True\<rparr>" and "fs' = fs1"
    using o n path num by (simp_all add: Open_def r no_checkpoint_def fence_Reset_def fence_Current_def)
  have "seg_small fs1 seg []" unfolding seg_small_def seg_holds_def h fs1 by simp
  then have "wal_shape dir m fs1 [] seg [] []"
    by (intro wal_shapeI) (simp_all add: m WalManager_new_def h fence_Reset_def numbered_Nil sealed_names_def, simp add: fs1 f)
  moreover have "\<not> IsFull seg" using h by (simp add: IsFull_def WAL_SEGMENT_SIZE_def WAL_MAX_ENTRIES_def)
  ultimately show ?thesis using \<open>fs' = fs1\<close> unfolding wal_inv_def by blast
qed

section \<open>The runs of a manager\<close>

text \<open>
  A manager that was opened in an empty directory and the entries whose write it acknowledged, in
  order. Segment numbers stay below \<open>2 ^ 31\<close>, where \<^verbatim>\<open>%06d\<close> prints them unsigned.
\<close>

inductive wal_reach :: "posix_env \<Rightarrow> string \<Rightarrow> WalManager \<Rightarrow> posix \<Rightarrow> (u64 \<times> u8 list) list \<Rightarrow> bool" for env dir where
  opened: "(\<And>i. pf_files fs (seg_file dir i) = None) \<Longrightarrow> pf_files fs (dir @ ''/wal.ckpt'') = None \<Longrightarrow>
    Open env (WalManager_new dir) fs = (m, fs') \<Longrightarrow> wal_reach env dir m fs' []"
| written: "wal_reach env dir m fs log \<Longrightarrow> length p + 26 < 2 ^ 32 \<Longrightarrow> unat (wm_next_segment_number m) < 2 ^ 31 - 1 \<Longrightarrow>
    mgr_WriteEntry env m (Some p) (of_nat (length p)) fs = Inr (s, m', fs') \<Longrightarrow> wal_reach env dir m' fs' (log @ [(s, p)])"
| rolled: "wal_reach env dir m fs log \<Longrightarrow> unat (wm_next_segment_number m) < 2 ^ 31 - 1 \<Longrightarrow>
    TriggerSegmentRollover env m fs = (m', fs') \<Longrightarrow> wal_reach env dir m' fs' log"
| collected: "wal_reach env dir m fs log \<Longrightarrow> CollectEntriesForReplay env m fs = Some (Inr (es, m', fs')) \<Longrightarrow>
    wal_reach env dir m' fs' log"
| checkpointed: "wal_reach env dir m fs log \<Longrightarrow> WriteCheckpoint env now m k fs = (ok, fs') \<Longrightarrow> wal_reach env dir m fs' log"
| replayed: "wal_reach env dir m fs log \<Longrightarrow> CrashReplay env now m fs = Some (Inr (ok, m', fs')) \<Longrightarrow>
    wal_reach env dir m' fs' log"

lemma payload_fits_len: "length p + 26 < 2 ^ 32 \<Longrightarrow> payload_fits p"
  by (simp add: payload_fits_def)

lemma wal_inv_dir: "wal_inv dir m fs log \<Longrightarrow> wm_data_dir m = dir"
  unfolding wal_inv_def using wal_shapeD(1) by blast

lemma wal_inv_numbered: "wal_inv dir m fs log \<Longrightarrow> numbered log"
  unfolding wal_inv_def using wal_shapeD(14) by blast

lemma wal_reach_inv: "wal_reach env dir m fs log \<Longrightarrow> healthy env \<Longrightarrow> wal_inv dir m fs log"
proof (induction rule: wal_reach.induct)
  case (opened fs m fs')
  then show ?case using Open_empty by blast
next
  case (written m fs log p s m' fs')
  have "wal_inv dir m fs log" by (rule written.IH [OF written.prems])
  from wal_inv_write [OF written.prems this written.hyps(3) payload_fits_len [OF written.hyps(2)]]
  show ?case using written.hyps(4) by (auto simp: plen_def simp del: of_nat_Suc)
next
  case (rolled m fs log m' fs')
  then show ?case using wal_inv_rollover by blast
next
  case (collected m fs log es m' fs')
  then obtain "m' = m" "pf_files fs' = pf_files fs" using wal_inv_collect [of env dir m fs log] by auto
  then show ?case using collected.IH [OF collected.prems] by (auto intro: wal_inv_files)
next
  case (checkpointed m fs log now k ok fs')
  have i: "wal_inv dir m fs log" by (rule checkpointed.IH [OF checkpointed.prems])
  then show ?case
    by (rule wal_inv_files) (use WriteCheckpoint_files [OF checkpointed.hyps(2)] seg_file_not_ckpt [of m] wal_inv_dir [OF i] in auto)
next
  case (replayed m fs log now ok m' fs')
  have i: "wal_inv dir m fs log" by (rule replayed.IH [OF replayed.prems])
  from CrashReplay_inv [OF replayed.prems i wal_inv_dir [OF i], of now] show ?case using replayed.hyps(2) by auto
qed

section \<open>Recovery\<close>

lemma WriteCheckpoint_read:
  assumes env: "healthy env" and w: "WriteCheckpoint env now m k fs = (ok, fs')"
    and same: "pf_files fs'' (CheckpointPath m') = pf_files fs' (CheckpointPath m)"
  shows "flushed_seq_id (fst (ReadCheckpoint env m' fs'')) = k"
proof -
  let ?tk = "to_string (unat k)"
  obtain rest where f: "pf_files fs' (CheckpointPath m) = Some (bytes_of_string (?tk @ CHR '','' # rest))"
    using w env by (auto simp: WriteCheckpoint_open healthy_def posix_write_def bytes_put_def)
  have u: "unat k < 2 ^ 64" by (rule order_less_le_trans [OF unsigned_less]) simp
  have len: "length ?tk \<le> 20" by (rule length_to_string [OF order_less_trans [OF u]]) simp_all
  obtain r2 where t: "take 1023 (?tk @ CHR '','' # rest) = ?tk @ CHR '','' # r2"
    using len by (cases "1023 - length ?tk") simp_all
  have nz: "\<forall>c \<in> set ?tk. c \<noteq> CHR 0x00 \<and> c \<noteq> CHR '',''" using to_string_digits [of "unat k"] isdigit_not by blast
  have c: "c_string (?tk @ CHR '','' # r2) = ?tk @ CHR '','' # takeWhile (\<lambda>c. c \<noteq> CHR 0x00) r2"
    using nz unfolding c_string_def by (subst takeWhile_append2) auto
  have tok: "strtok_r (CHR '','') (?tk @ CHR '','' # r) = (Some ?tk, r)" for r
    using nz by (intro strtok_r_token) auto
  have "strtoull ?tk = k" using strtoull_to_string [OF u] by simp
  then have p: "flushed_seq_id (parse_checkpoint (c_string (?tk @ CHR '','' # r2))) = k"
    by (simp add: c parse_checkpoint_def tok Let_def case_prod_unfold)
  have o: "os_open env (pf_ops fs'')" "pf_files fs'' (CheckpointPath m') \<noteq> None"
    using env f same by (simp_all add: healthy_def)
  have "ReadCheckpoint env m' fs'' = (parse_checkpoint (c_string (?tk @ CHR '','' # r2)), tick (tick fs''))"
    unfolding ReadCheckpoint_open [OF o] posix_read_healthy [OF env]
    using f same t by (simp add: file_at_def string_of_bytes_take) (simp add: bytes_of_string_def)
  then show ?thesis using p by simp
qed

lemma replay_scan_last:
  "\<forall>e \<in> set es. we_seq_id e \<noteq> 0 \<Longrightarrow> replay_scan 0 es prev = (if es = [] then prev else we_seq_id (last es))"
  by (induction es arbitrary: prev) auto

lemma replay_scan_numbered:
  assumes "numbered log" and "length log < 2 ^ 64" and "log \<noteq> []"
  shows "replay_scan 0 (entries_of log) 0 = of_nat (length log)"
proof -
  have m: "map we_seq_id (entries_of log) = map of_nat [1..<Suc (length log)]"
    using assms(1) by (simp add: entries_of_seq numbered_def)
  have "we_seq_id e \<noteq> 0" if "e \<in> set (entries_of log)" for e
  proof -
    have "we_seq_id e \<in> set (map of_nat [1..<Suc (length log)])" unfolding m [symmetric] using that by simp
    then obtain i where i: "we_seq_id e = of_nat i" "1 \<le> i" "i \<le> length log" by auto
    then have "unat (we_seq_id e) = i" using assms(2) by (simp add: unat_of_nat take_bit_nat_eq_self)
    then show ?thesis using i(2) by auto
  qed
  then have "\<forall>e \<in> set (entries_of log). we_seq_id e \<noteq> 0" by blast
  moreover have "entries_of log \<noteq> []" using assms(3) by (simp add: entries_of_def)
  moreover have "we_seq_id (last (entries_of log)) = last (map of_nat [1..<Suc (length log)])"
    unfolding m [symmetric] using \<open>entries_of log \<noteq> []\<close> by (simp add: last_map)
  moreover have "last (map of_nat [1..<Suc (length log)]) = (of_nat (length log) :: u64)"
    using assms(3) by (cases "length log") (simp_all add: last_map)
  ultimately show ?thesis using replay_scan_last by simp
qed


text \<open>A directory with one segment and no checkpoint that is opened again.\<close>

lemma Open_again:
  assumes env: "healthy env" and s: "pf_files fs (seg_file dir 1) = Some data" and c: "pf_files fs (dir @ ''/wal.ckpt'') = None"
    and o: "Open env (WalManager_new dir) fs = (m, fs')"
  shows "\<exists>seg. m = (WalManager_new dir)\<lparr>wm_seq_fence := fence_Reset 1, wm_active_segment := Some seg, wm_is_open := True\<rparr>
    \<and> fs' = tick (tick fs) \<and> seg_path seg = seg_file dir 1 \<and> seg_fd seg = Some 0 \<and> seg_entry_count seg = 0
    \<and> seg_file_size seg = of_nat (length data) \<and> \<not> seg_is_sealed seg \<and> \<not> seg_read_only seg"
proof -
  have path: "SegmentPath (WalManager_new dir) 1 = seg_file dir 1"
    using SegmentPath_eq [of 1 "WalManager_new dir"] by (simp add: WalManager_new_def)
  have num: "wm_next_segment_number (WalManager_new dir) = 1" by (simp add: WalManager_new_def)
  have r: "ReadCheckpoint env (WalManager_new dir) fs = (no_checkpoint, tick fs)"
    using c by (simp add: ReadCheckpoint_def posix_open_fails CheckpointPath_def WalManager_new_def)
  obtain seg fs1 where n: "WalSegment_new env (seg_file dir 1) 0 False (tick fs) = (seg, fs1)" by fastforce
  have m: "m = (WalManager_new dir)\<lparr>wm_seq_fence := fence_Reset 1, wm_active_segment := Some seg, wm_is_open := True\<rparr>" and f: "fs' = fs1"
    using o n path num by (simp_all add: Open_def r no_checkpoint_def fence_Reset_def fence_Current_def)
  have "fs1 = tick (tick fs) \<and> seg_path seg = seg_file dir 1 \<and> seg_fd seg = Some 0 \<and> seg_entry_count seg = 0
    \<and> seg_file_size seg = of_nat (length data) \<and> \<not> seg_is_sealed seg \<and> \<not> seg_read_only seg"
    using n env s by (auto simp: WalSegment_new_def posix_open_existing healthy_def file_at_def)
  then show ?thesis using m f by blast
qed

lemma RollOverIfNeeded_ckpt:
  assumes "pf_files fs (CheckpointPath m) \<noteq> None" and "unat (wm_next_segment_number m) < 2 ^ 31 - 1"
    and "RollOverIfNeeded env m fs = (m', fs')"
  shows "CheckpointPath m' = CheckpointPath m \<and> pf_files fs' (CheckpointPath m) = pf_files fs (CheckpointPath m)"
proof -
  have n: "unat (wm_next_segment_number m + 1) = Suc (unat (wm_next_segment_number m))"
    using assms(2) by (subst unat_add_lem [THEN iffD1]) simp_all
  have "SegmentPath m (wm_next_segment_number m + 1) \<noteq> CheckpointPath m"
    using SegmentPath_eq [of "wm_next_segment_number m + 1" m] n assms(2) seg_file_not_ckpt by simp
  then show ?thesis
    using assms(3)
    by (auto simp: RollOverIfNeeded_def TriggerSegmentRollover_def WalSegment_new_def posix_open_def CheckpointPath_def Let_def
        split: option.splits if_splits)
qed

lemma wal_inv_first_segment:
  assumes "wal_inv dir m fs log" and "wm_next_segment_number m = 1"
  shows "pf_files fs (seg_file dir 1) = Some (blocks log) \<and> fits_all log \<and> length (blocks log) < 2 ^ 26"
proof -
  obtain seg sess es where w: "wal_shape dir m fs log seg sess es" and full: "\<not> IsFull seg"
    using assms(1) unfolding wal_inv_def by blast
  note D = wal_shapeD [OF w]
  have "wm_sealed_segments m = []" using D(10) by (simp add: assms(2) sealed_names_def)
  then have "log = es" using D(7,8) by simp
  then show ?thesis
    using D(6,9) full by (simp add: assms(2) seg_small_def seg_holds_def IsFull_def WAL_SEGMENT_SIZE_def word_le_nat_alt
        unat_of_nat take_bit_nat_eq_self)
qed

section \<open>Properties of the manager\<close>


lemma wal_run:
  "\<exists>m fs m' fs'. wal_reach healthy_env ''d'' m fs [] \<and> wm_next_segment_number m = 1
     \<and> mgr_WriteEntry healthy_env m (Some [7]) (of_nat (length [7 :: u8])) fs = Inr (1, m', fs')
     \<and> wm_next_segment_number m' = 1 \<and> pf_files fs' (''d'' @ ''/wal.ckpt'') = None
     \<and> wal_reach healthy_env ''d'' m' fs' [(1, [7])]"
proof -
  obtain m fs where o: "Open healthy_env (WalManager_new ''d'') empty_fs = (m, fs)" by fastforce
  have r: "wal_reach healthy_env ''d'' m fs []" by (rule wal_reach.opened [OF _ _ o]) (simp_all add: empty_fs_def)
  have path: "SegmentPath (WalManager_new ''d'') 1 = seg_file ''d'' 1"
    using SegmentPath_eq [of 1 "WalManager_new ''d''"] by (simp add: WalManager_new_def)
  have num: "wm_next_segment_number (WalManager_new ''d'') = 1" by (simp add: WalManager_new_def)
  have rc: "ReadCheckpoint healthy_env (WalManager_new ''d'') empty_fs = (no_checkpoint, tick empty_fs)"
    by (simp add: ReadCheckpoint_def posix_open_fails empty_fs_def)
  have b: "Build s (Some [x]) 1 = Inr (wal_block s [x])" for s and x :: u8
    using Build_eq [of "[x]" s] by (simp add: payload_fits_def plen_def)
  have hs: "os_open healthy_env n" "os_fstat healthy_env n" "os_write healthy_env n k = Some k" "pf_files empty_fs q = None" for n k q
    by (simp_all add: healthy_env_def empty_fs_def)
  have ne: "''d/wal.ckpt'' \<noteq> seg_file ''d'' (Suc 0)" by (simp add: seg_file_def)
  have w: "\<exists>m' fs'. mgr_WriteEntry healthy_env m (Some [7]) (of_nat (length [7 :: u8])) fs = Inr (1, m', fs')
     \<and> wm_next_segment_number m' = 1 \<and> pf_files fs' (''d'' @ ''/wal.ckpt'') = None" and n1: "wm_next_segment_number m = 1"
    using o num ne by (auto simp: Open_def rc no_checkpoint_def fence_Reset_def fence_Current_def path WalSegment_new_def
        posix_open_def hs mgr_WriteEntry_def fence_Next_def seg_WriteEntry_def b posix_write_def padded_def
        RollOverIfNeeded_def IsFull_def WAL_SEGMENT_SIZE_def WAL_MAX_ENTRIES_def Let_def word_le_nat_alt)
  then obtain m' fs' where w': "mgr_WriteEntry healthy_env m (Some [7]) (of_nat (length [7 :: u8])) fs = Inr (1, m', fs')"
     "wm_next_segment_number m' = 1" "pf_files fs' (''d'' @ ''/wal.ckpt'') = None" by blast
  have "wal_reach healthy_env ''d'' m' fs' ([] @ [(1, [7])])" by (rule wal_reach.written [OF r _ _ w'(1)]) (simp_all add: n1)
  then show ?thesis using r n1 w' by auto
qed



text \<open>The replay of the reopened segment, and the write after it.\<close>

lemma replay_again:
  assumes env: "healthy env" and log: "fits_all log" "numbered log" "log \<noteq> []" "length log < 2 ^ 64" and len: "length (blocks log) < 2 ^ 26"
    and s: "pf_files fs (seg_file dir 1) = Some (blocks log)" and c: "pf_files fs (dir @ ''/wal.ckpt'') = None"
    and o: "Open env (WalManager_new dir) fs = (m1, fs1)"
  shows "\<exists>seg ok fs1' fs2. m1 = (WalManager_new dir)\<lparr>wm_seq_fence := fence_Reset 1, wm_active_segment := Some seg, wm_is_open := True\<rparr>
    \<and> CrashReplay env now m1 fs1 = Some (Inr (True, m1\<lparr>wm_active_segment := Some (seg\<lparr>seg_fd := Some (length (blocks log))\<rparr>)\<rparr>, fs2))
    \<and> WriteCheckpoint env now (m1\<lparr>wm_active_segment := Some (seg\<lparr>seg_fd := Some (length (blocks log))\<rparr>)\<rparr>) (of_nat (length log)) fs1' = (ok, fs2)
    \<and> seg_small fs2 (seg\<lparr>seg_fd := Some (length (blocks log))\<rparr>) log \<and> seg_path seg = seg_file dir 1
    \<and> \<not> IsFull seg \<and> \<not> seg_is_sealed seg \<and> \<not> seg_read_only seg"
proof -
  obtain seg where m1: "m1 = (WalManager_new dir)\<lparr>wm_seq_fence := fence_Reset 1, wm_active_segment := Some seg, wm_is_open := True\<rparr>"
    and fs1: "fs1 = tick (tick fs)" and sg: "seg_path seg = seg_file dir 1" "seg_fd seg = Some 0" "seg_entry_count seg = 0"
    "seg_file_size seg = of_nat (length (blocks log))" "\<not> seg_is_sealed seg" "\<not> seg_read_only seg"
    using Open_again [OF env s c o] by blast
  let ?seg = "seg\<lparr>seg_fd := Some (length (blocks log))\<rparr>" and ?m = "m1\<lparr>wm_active_segment := Some (seg\<lparr>seg_fd := Some (length (blocks log))\<rparr>)\<rparr>"
  have a: "wm_active_segment m1 = Some seg" "wm_sealed_segments m1 = []" "CheckpointPath m1 = dir @ ''/wal.ckpt''" "CheckpointPath ?m = dir @ ''/wal.ckpt''"
    by (simp_all add: m1 WalManager_new_def CheckpointPath_def)
  have rc: "ReadCheckpoint env m1 fs1 = (no_checkpoint, tick fs1)"
    using c by (simp add: ReadCheckpoint_def posix_open_fails a(3) fs1)
  have "ReadAllEntries env seg (tick fs1) = Some (Inr (entries_of log, ?seg, tick (tick fs1)))"
    by (rule ReadAllEntries_healthy [OF env sg(2)])
      (use len in \<open>simp_all add: sg fs1 file_at_def s [unfolded One_nat_def] read_loop_complete log(1) unat_of_nat take_bit_nat_eq_self\<close>)
  then have col: "CollectEntriesForReplay env m1 (tick fs1) = Some (Inr (entries_of log, ?m, tick (tick fs1)))"
    using a(1,2) by (cases m1) (simp add: CollectEntriesForReplay_def)
  obtain ok fs2 where wc: "WriteCheckpoint env now ?m (of_nat (length log)) (tick (tick fs1)) = (ok, fs2)" by fastforce
  have cr: "CrashReplay env now m1 fs1 = Some (Inr (True, ?m, fs2))"
    using wc by (simp add: CrashReplay_def rc col no_checkpoint_def replay_scan_numbered [OF log(2,4,3)])
  have "seg_file dir 1 \<noteq> CheckpointPath ?m" using seg_file_not_ckpt [of "?m" 1] by (simp add: m1 WalManager_new_def)
  then have "pf_files fs2 (seg_file dir 1) = Some (blocks log)" using WriteCheckpoint_files [OF wc] s by (simp add: fs1)
  then have "seg_small fs2 ?seg log" using len log(1) sg by (simp add: seg_small_def seg_holds_def)
  moreover have "\<not> IsFull seg"
    using sg len by (simp add: IsFull_def WAL_SEGMENT_SIZE_def WAL_MAX_ENTRIES_def word_le_nat_alt unat_of_nat take_bit_nat_eq_self)
  ultimately show ?thesis using m1 cr wc sg by blast
qed

text \<open>
  Recovery restarts the sequence numbers. Take a log of one segment that was never
  checkpointed, as after a crash. Opening it again, replaying it and writing one more entry
  succeeds, but the new entry gets the sequence number 1 again, while the checkpoint that the
  replay left says that everything up to the length of the old log is flushed: the next replay
  skips the acknowledged entry.
\<close>

theorem wal_recovery_reuses_ids:
  assumes "healthy env" and "wal_reach env dir m fs log" and "log \<noteq> []" and "length log < 2 ^ 64"
    and "wm_next_segment_number m = 1" and "pf_files fs (dir @ ''/wal.ckpt'') = None"
    and "Open env (WalManager_new dir) fs = (m1, fs1)" and "length p + 26 < 2 ^ 32"
  shows "\<exists>m2 fs2 m3 fs3. CrashReplay env now m1 fs1 = Some (Inr (True, m2, fs2))
    \<and> mgr_WriteEntry env m2 (Some p) (of_nat (length p)) fs2 = Inr (1, m3, fs3)
    \<and> flushed_seq_id (fst (ReadCheckpoint env m3 fs3)) = of_nat (length log) \<and> fst (hd log) = 1"
proof -
  note inv = wal_reach_inv [OF assms(2,1)] and env = assms(1)
  note first = wal_inv_first_segment [OF inv assms(5)]
  have num: "numbered log" by (rule wal_inv_numbered [OF inv])
  obtain seg ok fs1' fs2 where m1: "m1 = (WalManager_new dir)\<lparr>wm_seq_fence := fence_Reset 1, wm_active_segment := Some seg, wm_is_open := True\<rparr>"
    and cr: "CrashReplay env now m1 fs1 = Some (Inr (True, m1\<lparr>wm_active_segment := Some (seg\<lparr>seg_fd := Some (length (blocks log))\<rparr>)\<rparr>, fs2))"
    and wc: "WriteCheckpoint env now (m1\<lparr>wm_active_segment := Some (seg\<lparr>seg_fd := Some (length (blocks log))\<rparr>)\<rparr>) (of_nat (length log)) fs1' = (ok, fs2)"
    and sm: "seg_small fs2 (seg\<lparr>seg_fd := Some (length (blocks log))\<rparr>) log" and sg: "seg_path seg = seg_file dir 1"
    "\<not> IsFull seg" "\<not> seg_is_sealed seg" "\<not> seg_read_only seg"
    using replay_again [OF env _ num assms(3,4) _ _ assms(6,7), of now] first by blast
  define m2 where "m2 = m1\<lparr>wm_active_segment := Some (seg\<lparr>seg_fd := Some (length (blocks log))\<rparr>)\<rparr>"
  have f: "fence_Next (wm_seq_fence m2) = (1, fence_Reset 2)" "wm_is_open m2" "CheckpointPath m2 = dir @ ''/wal.ckpt''"
    "wm_active_segment m2 = Some (seg\<lparr>seg_fd := Some (length (blocks log))\<rparr>)" "wm_next_segment_number m2 = 1"
    by (simp_all add: m2_def m1 fence_Next_def fence_Reset_def CheckpointPath_def WalManager_new_def)
  have "\<not> IsFull (seg\<lparr>seg_fd := Some (length (blocks log))\<rparr>)" using sg by (simp add: IsFull_def)
  then obtain seg' fs3 where w: "seg_WriteEntry env (seg\<lparr>seg_fd := Some (length (blocks log))\<rparr>) 1 (Some p) (of_nat (length p)) fs2 = Inr (True, seg', fs3)"
    and fr: "\<forall>q. q \<noteq> seg_path seg \<longrightarrow> pf_files fs3 q = pf_files fs2 q"
    using seg_write_healthy [OF env sm _ _ _ payload_fits_len [OF assms(8)], of 1] sg unfolding plen_def by auto
  note W = mgr_WriteEntry_ok [OF f(4,2,1) w]
  define m2' where "m2' = m2\<lparr>wm_seq_fence := fence_Reset 2, wm_active_segment := Some seg'\<rparr>"
  obtain m3 fs4 where ro: "RollOverIfNeeded env m2' fs3 = (m3, fs4)" by fastforce
  have p2: "CheckpointPath m2' = CheckpointPath m2" "unat (wm_next_segment_number m2') < 2 ^ 31 - 1"
    by (simp_all add: m2'_def CheckpointPath_def f(5))
  have "seg_file dir 1 \<noteq> CheckpointPath m2" using f(3) seg_file_not_ckpt [of m2 1] by (simp add: m2_def m1 WalManager_new_def)
  then have f3: "pf_files fs3 (CheckpointPath m2) = pf_files fs2 (CheckpointPath m2)" using fr sg(1) by auto
  have "flushed_seq_id (fst (ReadCheckpoint env m3 fs4)) = of_nat (length log)"
    by (rule WriteCheckpoint_read [OF env wc [folded m2_def]])
      (use RollOverIfNeeded_ckpt [OF _ p2(2) ro] p2(1) f3 WriteCheckpoint_present [OF env wc [folded m2_def]] in auto)
  moreover have "fst (hd log) = 1" using num assms(3) by (cases log) (auto simp: numbered_def upt_conv_Cons simp del: upt_Suc)
  ultimately show ?thesis using cr W ro unfolding m2_def [symmetric] m2'_def [symmetric] by auto
qed

theorem wal_recovery_reuses_ids_witness:
  "\<exists>m1 fs1 m2 fs2 m3 fs3. CrashReplay healthy_env 0 m1 fs1 = Some (Inr (True, m2, fs2))
    \<and> mgr_WriteEntry healthy_env m2 (Some [8]) (of_nat (length [8 :: u8])) fs2 = Inr (1, m3, fs3)
    \<and> flushed_seq_id (fst (ReadCheckpoint healthy_env m3 fs3)) = 1"
proof -
  obtain m fs where r: "wm_next_segment_number m = 1" "pf_files fs (''d'' @ ''/wal.ckpt'') = None"
    "wal_reach healthy_env ''d'' m fs [(1, [7])]" using wal_run by blast
  obtain m1 fs1 where o: "Open healthy_env (WalManager_new ''d'') fs = (m1, fs1)" by fastforce
  from wal_recovery_reuses_ids [OF healthy_healthy_env r(3) _ _ r(1,2) o, of "[8]" 0] show ?thesis by fastforce
qed

end
