(* ===== verification/HD_Assoc.thy ===== *)
theory HD_Assoc
  imports HD_Prelude "HOL-Library.AList"
begin

text \<open>
  Association lists with distinct keys, which model the unordered maps of the C++ sources: what an
  update and a deletion do to the keys and to a sum over the values.
\<close>

lemma assoc_delete_head: "distinct (map fst ((k, e) # q)) \<Longrightarrow> AList.delete k ((k, e) # q) = q"
  by (auto simp: AList.delete_eq filter_id_conv image_iff)

lemma assoc_delete_none: "map_of q k = None \<Longrightarrow> AList.delete k q = q"
  by (auto simp: AList.delete_eq map_of_eq_None_iff filter_id_conv image_iff)

lemma assoc_delete_keys: "distinct (map fst q) \<Longrightarrow> map fst (AList.delete k q) = remove1 k (map fst q)"
  by (simp add: AList.delete_eq distinct_remove1_removeAll removeAll_filter_not_eq filter_map comp_def case_prod_unfold eq_commute)

lemma assoc_delete_sum:
  fixes f :: "'v \<Rightarrow> nat"
  assumes "map_of q k = Some e" and "distinct (map fst q)"
  shows "sum_list (map (\<lambda>(k, e). f e) q) = f e + sum_list (map (\<lambda>(k, e). f e) (AList.delete k q))"
  using assms
proof (induction q)
  case (Cons p q)
  then show ?case using assoc_delete_head [of "fst p" "snd p" q] by (auto split: if_splits simp: case_prod_unfold)
qed simp

lemma assoc_delete_subset: "set (AList.delete k q) \<subseteq> set q"
  by (auto simp: AList.delete_eq)

lemma assoc_update_keys: "map_of q k = Some e \<Longrightarrow> map fst (AList.update k e' q) = map fst q"
  by (induction q) auto

lemma assoc_update_sum:
  fixes f :: "'v \<Rightarrow> nat"
  shows "map_of q k = Some e \<Longrightarrow> distinct (map fst q) \<Longrightarrow> f e' = f e \<Longrightarrow>
    map (\<lambda>(k, e). f e) (AList.update k e' q) = map (\<lambda>(k, e). f e) q"
  by (induction q) (auto split: if_splits dest: map_of_SomeD)

lemma assoc_update_same: "map_of q k = Some e \<Longrightarrow> AList.update k e q = q"
  by (induction q) (auto split: if_splits)

lemma assoc_update_new: "map_of q k = None \<Longrightarrow> AList.update k e q = q @ [(k, e)]"
  by (induction q) (auto split: if_splits)

lemma assoc_update_ball:
  "(\<forall>(k, e) \<in> set q. P k e) \<Longrightarrow> P k e' \<Longrightarrow> \<forall>(k, e) \<in> set (AList.update k e' q). P k e"
  by (induction q) auto

end
