(* ===== verification/HD_TinyLFU.thy ===== *)
theory HD_TinyLFU
  imports HD_Assoc
begin

text \<open>
  The W-TinyLFU cache of the client (\<^verbatim>\<open>client/smart_cache/w_tinylfu.cpp\<close>): the count-min sketch,
  the frequency filter \<^verbatim>\<open>TinyLFU\<close> that resets it, and the cache with its three queues. The
  unordered map of entries is an association list, whose order the code never observes. Whether
  \<^verbatim>\<open>malloc\<close> succeeds is a parameter of \<^verbatim>\<open>Put\<close>. Faults are a division by a zero width and accesses
  out of the bounds of a vector or of the caller's buffer.
\<close>

section \<open>CountMinSketch\<close>

record CountMinSketch =
  cm_width :: u32
  cm_depth :: u32
  cm_table :: "u32 list list"
  cm_seeds :: "u32 list"

definition CountMinSketch_new :: "u32 \<Rightarrow> u32 \<Rightarrow> CountMinSketch" where
  "CountMinSketch_new width depth =
     \<lparr>cm_width = width, cm_depth = depth, cm_table = replicate (unat depth) (replicate (unat width) 0),
      cm_seeds = map (\<lambda>i. 2654435761 * (of_nat i + 1)) [0..<unat depth]\<rparr>"

definition cm_mix :: "u64 \<Rightarrow> u32 \<Rightarrow> u64" where
  "cm_mix key seed =
     (let h0 = key XOR ucast seed;
          h1 = (drop_bit 16 h0 XOR h0) * 0x45d9f3b;
          h2 = (drop_bit 16 h1 XOR h1) * 0x45d9f3b
      in drop_bit 16 h2 XOR h2)"

definition cm_Hash :: "CountMinSketch \<Rightarrow> u64 \<Rightarrow> u32 \<Rightarrow> u32 res" where
  "cm_Hash cm key seed =
     (if cm_width cm = 0 then Inl DivideByZero else Inr (ucast (cm_mix key seed mod ucast (cm_width cm))))"

definition cm_Add :: "CountMinSketch \<Rightarrow> u64 \<Rightarrow> u32 \<Rightarrow> CountMinSketch res" where
  "cm_Add cm key count =
     rbind (res_fold (\<lambda>t d.
         rbind (vec_at (cm_seeds cm) d) (\<lambda>seed.
         rbind (cm_Hash cm key seed) (\<lambda>idx.
         rbind (vec_at t d) (\<lambda>row.
         rbind (vec_at row (unat idx)) (\<lambda>v. Inr (t[d := row[unat idx := v + count]]))))))
       (cm_table cm) [0..<unat (cm_depth cm)])
       (\<lambda>t. Inr (cm\<lparr>cm_table := t\<rparr>))"

definition cm_Estimate :: "CountMinSketch \<Rightarrow> u64 \<Rightarrow> u32 res" where
  "cm_Estimate cm key =
     res_fold (\<lambda>min_val d.
         rbind (vec_at (cm_seeds cm) d) (\<lambda>seed.
         rbind (cm_Hash cm key seed) (\<lambda>idx.
         rbind (vec_at (cm_table cm) d) (\<lambda>row.
         rbind (vec_at row (unat idx)) (\<lambda>v. Inr (min min_val v))))))
       (- 1) [0..<unat (cm_depth cm)]"

definition cm_Reset :: "CountMinSketch \<Rightarrow> CountMinSketch" where
  "cm_Reset cm = cm\<lparr>cm_table := map (map (\<lambda>_. 0)) (cm_table cm)\<rparr>"

section \<open>TinyLFU\<close>

record TinyLFU =
  tl_capacity :: u32
  tl_cm :: CountMinSketch
  tl_total_access :: u64
  tl_reset_threshold :: u32

definition TinyLFU_new :: "u32 \<Rightarrow> u32 \<Rightarrow> u32 \<Rightarrow> TinyLFU" where
  "TinyLFU_new capacity width depth =
     \<lparr>tl_capacity = capacity, tl_cm = CountMinSketch_new width depth, tl_total_access = 0,
      tl_reset_threshold = capacity * 10\<rparr>"

definition tl_Access :: "TinyLFU \<Rightarrow> u64 \<Rightarrow> TinyLFU res" where
  "tl_Access lf key =
     rbind (cm_Add (tl_cm lf) key 1) (\<lambda>cm.
       let total = tl_total_access lf + 1
       in if ucast (tl_reset_threshold lf) \<le> total
          then Inr (lf\<lparr>tl_cm := cm_Reset cm, tl_total_access := 0\<rparr>)
          else Inr (lf\<lparr>tl_cm := cm, tl_total_access := total\<rparr>))"

definition tl_Estimate :: "TinyLFU \<Rightarrow> u64 \<Rightarrow> u32 res" where
  "tl_Estimate lf key = cm_Estimate (tl_cm lf) key"

definition tl_Reset :: "TinyLFU \<Rightarrow> TinyLFU" where
  "tl_Reset lf = lf\<lparr>tl_cm := cm_Reset (tl_cm lf), tl_total_access := 0\<rparr>"

section \<open>WTinyLFUCache\<close>

datatype QueueType = Window | Probation | Protected

record LfuEntry =
  le_key :: u64
  le_data :: "u8 list option"
  le_size :: u32
  le_queue :: QueueType

record WTinyLFUCache =
  window_capacity :: u32
  protected_capacity :: u32
  probation_capacity :: u32
  total_capacity :: u32
  lfu_entries :: "(u64 \<times> LfuEntry) list"
  window_queue :: "u64 list"
  probation_queue :: "u64 list"
  protected_queue :: "u64 list"
  tinylfu :: TinyLFU
  hit_count :: u64
  miss_count :: u64
  eviction_count :: u64
  insert_count :: u64
  total_size :: u64

definition WTinyLFUCache_new :: "u32 \<Rightarrow> u32 \<Rightarrow> u32 \<Rightarrow> WTinyLFUCache" where
  "WTinyLFUCache_new capacity window_pct protected_pct =
     (let window = (capacity * window_pct) div 100;
          protect = (capacity * protected_pct) div 100;
          probation = capacity - window - protect
      in \<lparr>window_capacity = (if window = 0 then 1 else window),
          protected_capacity = (if protect = 0 then 1 else protect),
          probation_capacity = (if probation = 0 then 1 else probation),
          total_capacity = capacity, lfu_entries = [], window_queue = [], probation_queue = [], protected_queue = [],
          tinylfu = TinyLFU_new capacity 256 4, hit_count = 0, miss_count = 0, eviction_count = 0, insert_count = 0,
          total_size = 0\<rparr>)"

text \<open>The scan of the probation queue: the least frequent of its first 16 keys and its index.\<close>

fun evict_scan :: "TinyLFU \<Rightarrow> (nat \<times> u64) list \<Rightarrow> u32 \<Rightarrow> (u64 \<times> nat) option \<Rightarrow> (u64 \<times> nat) option res" where
  "evict_scan lf [] min_freq victim = Inr victim"
| "evict_scan lf ((i, k) # ks) min_freq victim =
     rbind (tl_Estimate lf k) (\<lambda>f.
       if f < min_freq then (if f = 0 then Inr (Some (k, i)) else evict_scan lf ks f (Some (k, i)))
       else evict_scan lf ks min_freq victim)"

definition erase_victim :: "u64 \<Rightarrow> WTinyLFUCache \<Rightarrow> WTinyLFUCache" where
  "erase_victim key c =
     (case map_of (lfu_entries c) key of
        None \<Rightarrow> c
      | Some e \<Rightarrow> c\<lparr>total_size := total_size c - ucast (le_size e), lfu_entries := AList.delete key (lfu_entries c),
                    eviction_count := eviction_count c + 1\<rparr>)"

definition EvictOne :: "WTinyLFUCache \<Rightarrow> (bool \<times> WTinyLFUCache) res" where
  "EvictOne c =
     (case window_queue c of
        k # ks \<Rightarrow> Inr (True, erase_victim k (c\<lparr>window_queue := ks\<rparr>))
      | [] \<Rightarrow>
          if probation_queue c \<noteq> [] then
            rbind (evict_scan (tinylfu c) (take 16 (enumerate 0 (probation_queue c))) (- 1) None) (\<lambda>victim.
              case victim of
                None \<Rightarrow> Inr (False, c)
              | Some (k, i) \<Rightarrow>
                  Inr (True, erase_victim k (c\<lparr>probation_queue := take i (probation_queue c) @ drop (Suc i) (probation_queue c)\<rparr>)))
          else (case protected_queue c of
                  k # ks \<Rightarrow> Inr (True, erase_victim k (c\<lparr>protected_queue := ks\<rparr>))
                | [] \<Rightarrow> Inr (False, c)))"

text \<open>The loop of \<^verbatim>\<open>Put\<close> that makes room; every successful eviction shortens a queue.\<close>

definition queued :: "WTinyLFUCache \<Rightarrow> nat" where
  "queued c = length (window_queue c) + length (probation_queue c) + length (protected_queue c)"

lemma erase_victim_simps [simp]:
  "queued (erase_victim k c) = queued c" "window_queue (erase_victim k c) = window_queue c"
  "probation_queue (erase_victim k c) = probation_queue c" "protected_queue (erase_victim k c) = protected_queue c"
  "total_capacity (erase_victim k c) = total_capacity c" "tinylfu (erase_victim k c) = tinylfu c"
  by (simp_all add: erase_victim_def queued_def split: option.split)

lemma evict_scan_in: "evict_scan lf ks m v = Inr (Some (k, i)) \<Longrightarrow> (i, k) \<in> set ks \<or> v = Some (k, i)"
  by (induction lf ks m v rule: evict_scan.induct) (auto simp: rbind_Inr_iff split: if_splits)

lemma EvictOne_queued: "EvictOne c = Inr (True, c') \<Longrightarrow> queued c' < queued c"
proof -
  have i: "(i, k) \<in> set (take 16 (enumerate 0 q)) \<Longrightarrow> i < length q" for i k and q :: "u64 list"
    using in_set_takeD [of "(i, k)" 16 "enumerate 0 q"] by (simp add: in_set_enumerate_eq)
  show "EvictOne c = Inr (True, c') \<Longrightarrow> queued c' < queued c"
    by (auto simp: EvictOne_def queued_def rbind_Inr_iff dest!: evict_scan_in i
        split: list.splits if_splits option.splits)
qed

function make_room :: "WTinyLFUCache \<Rightarrow> WTinyLFUCache res" where
  "make_room c =
     (if unat (total_capacity c) \<le> length (lfu_entries c)
      then (case EvictOne c of
              Inl e \<Rightarrow> Inl e
            | Inr (ok, c') \<Rightarrow> if ok then make_room c' else Inr c')
      else Inr c)"
  by pat_completeness auto
termination
  by (relation "measure queued") (auto simp: EvictOne_queued)

declare make_room.simps [simp del]

definition lfu_Access :: "WTinyLFUCache \<Rightarrow> u64 \<Rightarrow> WTinyLFUCache res" where
  "lfu_Access c key = rbind (tl_Access (tinylfu c) key) (\<lambda>lf. Inr (c\<lparr>tinylfu := lf\<rparr>))"

text \<open>\<open>alloc\<close> is the outcome of \<^verbatim>\<open>malloc\<close>; a null \<open>data\<close> is \<^term>\<open>None\<close>.\<close>

definition lfu_Put :: "bool \<Rightarrow> WTinyLFUCache \<Rightarrow> u64 \<Rightarrow> u8 list option \<Rightarrow> u32 \<Rightarrow> (bool \<times> WTinyLFUCache) res" where
  "lfu_Put alloc c key data sz =
     (case map_of (lfu_entries c) key of
        Some e \<Rightarrow>
          rbind (lfu_Access c key) (\<lambda>c1.
            case le_data e of
              Some old \<Rightarrow>
                if 0 < sz then
                  (case data of
                     None \<Rightarrow> Inl NullDereference
                   | Some d \<Rightarrow>
                       rbind (mem_read d 0 (unat (min sz (le_size e)))) (\<lambda>bytes.
                       rbind (mem_write old 0 bytes) (\<lambda>new.
                         Inr (True, c1\<lparr>lfu_entries := AList.update key (e\<lparr>le_data := Some new\<rparr>) (lfu_entries c1)\<rparr>))))
                else Inr (True, c1)
            | None \<Rightarrow> Inr (True, c1))
      | None \<Rightarrow>
          rbind (make_room c) (\<lambda>c1.
          rbind (case data of
                   Some d \<Rightarrow> if 0 < sz \<and> alloc then rbind (mem_read d 0 (unat sz)) (\<lambda>b. Inr (Some b)) else Inr None
                 | None \<Rightarrow> Inr None) (\<lambda>copy.
            let entry = \<lparr>le_key = key, le_data = copy, le_size = sz, le_queue = Window\<rparr>;
                c2 = c1\<lparr>lfu_entries := AList.update key entry (lfu_entries c1), window_queue := window_queue c1 @ [key],
                        insert_count := insert_count c1 + 1, total_size := total_size c1 + ucast sz\<rparr>
            in rbind (lfu_Access c2 key) (\<lambda>c3. Inr (True, c3)))))"

text \<open>The loop of \<^verbatim>\<open>Get\<close> that demotes protected keys.\<close>

fun demote :: "nat \<Rightarrow> (u64 \<times> LfuEntry) list \<Rightarrow> u64 list \<Rightarrow> u64 list \<Rightarrow> ((u64 \<times> LfuEntry) list \<times> u64 list \<times> u64 list) res" where
  "demote cap entries probation [] = (if cap = 0 then Inl OutOfBounds else Inr (entries, probation, []))"
| "demote cap entries probation (k # ks) =
     (if cap \<le> length (k # ks)
      then (case map_of entries k of
              Some e \<Rightarrow> demote cap (AList.update k (e\<lparr>le_queue := Probation\<rparr>) entries) (probation @ [k]) ks
            | None \<Rightarrow> demote cap entries probation ks)
      else Inr (entries, probation, k # ks))"

text \<open>The result is the return value, \<^verbatim>\<open>out_size\<close> and the caller's buffer.\<close>

definition lfu_Get ::
  "WTinyLFUCache \<Rightarrow> u64 \<Rightarrow> u8 list option \<Rightarrow> u32 \<Rightarrow> ((bool \<times> u32 \<times> u8 list option) \<times> WTinyLFUCache) res" where
  "lfu_Get c key buffer buffer_size =
     (case map_of (lfu_entries c) key of
        None \<Rightarrow> Inr ((False, 0, buffer), c\<lparr>miss_count := miss_count c + 1\<rparr>)
      | Some e \<Rightarrow>
          rbind (lfu_Access c key) (\<lambda>c1.
            let c2 = c1\<lparr>hit_count := hit_count c1 + 1\<rparr>
            in rbind (case (buffer, le_data e) of
                        (Some b, Some d) \<Rightarrow>
                          if le_size e \<le> buffer_size
                          then rbind (mem_read d 0 (unat (le_size e))) (\<lambda>bytes.
                               rbind (mem_write b 0 bytes) (\<lambda>b'. Inr (Some b')))
                          else Inr buffer
                      | _ \<Rightarrow> Inr buffer) (\<lambda>buffer'.
               if le_queue e = Probation
               then rbind (demote (unat (protected_capacity c2))
                        (AList.update key (e\<lparr>le_queue := Protected\<rparr>) (lfu_entries c2))
                        (remove1 key (probation_queue c2)) (protected_queue c2)) (\<lambda>(es, pb, pt).
                    Inr ((True, le_size e, buffer'),
                         c2\<lparr>lfu_entries := es, probation_queue := pb, protected_queue := pt @ [key]\<rparr>))
               else Inr ((True, le_size e, buffer'), c2))))"

definition lfu_Contains :: "WTinyLFUCache \<Rightarrow> u64 \<Rightarrow> bool" where
  "lfu_Contains c key \<longleftrightarrow> map_of (lfu_entries c) key \<noteq> None"

definition lfu_Remove :: "WTinyLFUCache \<Rightarrow> u64 \<Rightarrow> bool \<times> WTinyLFUCache" where
  "lfu_Remove c key =
     (case map_of (lfu_entries c) key of
        None \<Rightarrow> (False, c)
      | Some e \<Rightarrow>
          let c1 = c\<lparr>total_size := total_size c - ucast (le_size e)\<rparr>;
              c2 = (case le_queue e of
                      Window \<Rightarrow> c1\<lparr>window_queue := remove1 key (window_queue c1)\<rparr>
                    | Probation \<Rightarrow> c1\<lparr>probation_queue := remove1 key (probation_queue c1)\<rparr>
                    | Protected \<Rightarrow> c1\<lparr>protected_queue := remove1 key (protected_queue c1)\<rparr>)
          in (True, c2\<lparr>lfu_entries := AList.delete key (lfu_entries c2)\<rparr>))"

definition lfu_Clear :: "WTinyLFUCache \<Rightarrow> WTinyLFUCache" where
  "lfu_Clear c = c\<lparr>lfu_entries := [], window_queue := [], probation_queue := [], protected_queue := [], total_size := 0\<rparr>"

definition lfu_Count :: "WTinyLFUCache \<Rightarrow> u32" where
  "lfu_Count c = of_nat (length (lfu_entries c))"

definition lfu_Capacity :: "WTinyLFUCache \<Rightarrow> u32" where "lfu_Capacity c = total_capacity c"
definition lfu_TotalSize :: "WTinyLFUCache \<Rightarrow> u64" where "lfu_TotalSize c = total_size c"

text \<open>The quotient of the hit rate is a division of doubles, which is a parameter.\<close>

record 'd CacheStats =
  st_hit_count :: u64
  st_miss_count :: u64
  st_eviction_count :: u64
  st_insert_count :: u64
  st_hit_rate :: 'd

definition lfu_GetStats :: "(u64 \<Rightarrow> u64 \<Rightarrow> 'd) \<Rightarrow> 'd \<Rightarrow> WTinyLFUCache \<Rightarrow> 'd CacheStats" where
  "lfu_GetStats fdiv zero c =
     (let total = hit_count c + miss_count c in
      \<lparr>st_hit_count = hit_count c, st_miss_count = miss_count c, st_eviction_count = eviction_count c,
       st_insert_count = insert_count c, st_hit_rate = (if 0 < total then fdiv (hit_count c) total else zero)\<rparr>)"

definition ResetStats :: "WTinyLFUCache \<Rightarrow> WTinyLFUCache" where
  "ResetStats c = c\<lparr>hit_count := 0, miss_count := 0, eviction_count := 0, insert_count := 0\<rparr>"

section \<open>The sketch counts\<close>

definition cm_ok :: "CountMinSketch \<Rightarrow> bool" where
  "cm_ok cm \<longleftrightarrow> cm_width cm \<noteq> 0 \<and> length (cm_table cm) = unat (cm_depth cm) \<and> length (cm_seeds cm) = unat (cm_depth cm)
     \<and> (\<forall>row \<in> set (cm_table cm). length row = unat (cm_width cm))"

definition cm_idx :: "CountMinSketch \<Rightarrow> nat \<Rightarrow> u64 \<Rightarrow> nat" where
  "cm_idx cm d key = unat (ucast (cm_mix key (cm_seeds cm ! d) mod ucast (cm_width cm)) :: u32)"

lemma cm_idx_less: "cm_width cm \<noteq> 0 \<Longrightarrow> cm_idx cm d key < unat (cm_width cm)"
proof -
  assume w: "cm_width cm \<noteq> 0"
  let ?w = "ucast (cm_width cm) :: u64"
  have u: "unat ?w = unat (cm_width cm)" by (simp add: unsigned_ucast_eq take_bit_nat_eq_self order_less_trans [OF unsigned_less])
  have "0 < unat (cm_width cm)" using w by (simp add: unat_gt_0)
  then have "unat (cm_mix key (cm_seeds cm ! d) mod ?w) < unat (cm_width cm)" by (simp add: unat_mod_distrib u)
  moreover have "unat (cm_width cm) < 2 ^ 32" by (rule order_less_le_trans [OF unsigned_less]) simp
  ultimately show ?thesis by (simp add: cm_idx_def unsigned_ucast_eq take_bit_nat_eq_self)
qed

lemma cm_Hash_ok: "cm_width cm \<noteq> 0 \<Longrightarrow> cm_Hash cm key (cm_seeds cm ! d) = Inr (of_nat (cm_idx cm d key))"
  by (simp add: cm_Hash_def cm_idx_def)

lemma unat_of_idx [simp]: "unat (of_nat (cm_idx cm d key) :: u32) = cm_idx cm d key"
  by (simp add: cm_idx_def)

lemma row_length: "cm_ok cm \<Longrightarrow> d < unat (cm_depth cm) \<Longrightarrow> cm_idx cm d key < length (cm_table cm ! d)"
  using cm_idx_less by (simp add: cm_ok_def)

lemma res_fold_upd:
  assumes "\<And>t d. d < n \<Longrightarrow> length t = length t0 \<Longrightarrow> t ! d = t0 ! d \<Longrightarrow> f t d = Inr (t[d := g d])" and "n \<le> length t0"
  shows "res_fold f t0 [0..<n] = Inr (map g [0..<n] @ drop n t0)"
  using assms
proof (induction n)
  case (Suc n)
  have "res_fold f t0 [0..<n] = Inr (map g [0..<n] @ drop n t0)" by (rule Suc.IH) (use Suc.prems in auto)
  moreover have "drop n t0 = t0 ! n # drop (Suc n) t0" using Suc.prems(2) by (simp add: Cons_nth_drop_Suc)
  moreover have "f (map g [0..<n] @ t0 ! n # drop (Suc n) t0) n = Inr ((map g [0..<n] @ t0 ! n # drop (Suc n) t0)[n := g n])"
    using Suc.prems(2) by (intro Suc.prems(1)) (simp_all add: nth_append)
  ultimately show ?case by (simp add: res_fold_append list_update_append)
qed simp

lemma cm_Add_eq:
  assumes "cm_ok cm"
  shows "cm_Add cm key n = Inr (cm\<lparr>cm_table := map (\<lambda>d. (cm_table cm ! d)[cm_idx cm d key := cm_table cm ! d ! cm_idx cm d key + n])
    [0..<unat (cm_depth cm)]\<rparr>)"
proof -
  have "length (cm_table cm) = unat (cm_depth cm)" using assms by (simp add: cm_ok_def)
  then show ?thesis
    unfolding cm_Add_def
    by (subst res_fold_upd [where g = "\<lambda>d. (cm_table cm ! d)[cm_idx cm d key := cm_table cm ! d ! cm_idx cm d key + n]"])
      (use assms row_length [OF assms] in \<open>auto simp: cm_ok_def cm_Hash_ok\<close>)
qed

lemma cm_Estimate_eq:
  assumes "cm_ok cm"
  shows "cm_Estimate cm key = Inr (fold (\<lambda>d m. min m (cm_table cm ! d ! cm_idx cm d key)) [0..<unat (cm_depth cm)] (- 1))"
proof -
  have "res_fold (\<lambda>min_val d.
         rbind (vec_at (cm_seeds cm) d) (\<lambda>seed.
         rbind (cm_Hash cm key seed) (\<lambda>idx.
         rbind (vec_at (cm_table cm) d) (\<lambda>row.
         rbind (vec_at row (unat idx)) (\<lambda>v. Inr (min min_val v)))))) m [0..<n]
     = Inr (fold (\<lambda>d m. min m (cm_table cm ! d ! cm_idx cm d key)) [0..<n] m)" if "n \<le> unat (cm_depth cm)" for n m
    using that
  proof (induction n)
    case (Suc n)
    then show ?case using assms row_length [OF assms, of n key] by (simp add: res_fold_append cm_ok_def cm_Hash_ok)
  qed simp
  then show ?thesis by (simp add: cm_Estimate_def)
qed

text \<open>The table after the keys of a list were added once each to an empty sketch.\<close>

definition cm_counts :: "CountMinSketch \<Rightarrow> u64 list \<Rightarrow> bool" where
  "cm_counts cm ks \<longleftrightarrow> cm_ok cm \<and> (\<forall>d < unat (cm_depth cm). \<forall>j < unat (cm_width cm).
     cm_table cm ! d ! j = of_nat (length (filter (\<lambda>k. cm_idx cm d k = j) ks)))"

lemma cm_counts_new: "width \<noteq> 0 \<Longrightarrow> cm_counts (CountMinSketch_new width depth) []"
  by (simp add: cm_counts_def cm_ok_def CountMinSketch_new_def)

lemma cm_counts_Reset: "cm_counts cm ks \<Longrightarrow> cm_counts (cm_Reset cm) []"
  by (auto simp: cm_counts_def cm_ok_def cm_Reset_def)

lemma cm_counts_Add:
  assumes "cm_counts cm ks"
  shows "\<exists>cm'. cm_Add cm key 1 = Inr cm' \<and> cm_counts cm' (ks @ [key]) \<and> cm_depth cm' = cm_depth cm \<and> cm_width cm' = cm_width cm"
proof -
  have ok: "cm_ok cm" using assms by (simp add: cm_counts_def)
  let ?t = "map (\<lambda>d. (cm_table cm ! d)[cm_idx cm d key := cm_table cm ! d ! cm_idx cm d key + 1]) [0..<unat (cm_depth cm)]"
  have i: "cm_idx (cm\<lparr>cm_table := t\<rparr>) d k = cm_idx cm d k" for t d k by (simp add: cm_idx_def)
  have "cm_ok (cm\<lparr>cm_table := ?t\<rparr>)" using ok by (auto simp: cm_ok_def)
  moreover have "?t ! d ! j = of_nat (length (filter (\<lambda>k. cm_idx cm d k = j) (ks @ [key])))"
    if "d < unat (cm_depth cm)" "j < unat (cm_width cm)" for d j
    using that assms row_length [OF ok that(1), of key] by (auto simp: cm_counts_def)
  ultimately show ?thesis using cm_Add_eq [OF ok] by (auto simp: cm_counts_def i)
qed

lemma fold_min_bounds:
  fixes f :: "nat \<Rightarrow> u32"
  shows "(\<And>d. d < n \<Longrightarrow> lo \<le> unat (f d)) \<Longrightarrow> lo \<le> unat m \<Longrightarrow> lo \<le> unat (fold (\<lambda>d m. min m (f d)) [0..<n] m)"
    and "fold (\<lambda>d m. min m (f d)) [0..<n] m \<le> m" and "0 < n \<Longrightarrow> fold (\<lambda>d m. min m (f d)) [0..<n] m \<le> f 0"
proof (induction n)
  case (Suc n)
  { case 1 then show ?case using Suc(1) by (simp add: min_def) }
  { case 2 then show ?case using Suc(2) by (simp add: min.coboundedI1) }
  { case 3 then show ?case using Suc(3) by (cases n) (simp_all add: min.coboundedI1 del: upt_Suc add: upt_Suc_append) }
qed simp_all

lemma cm_Estimate_bounds:
  assumes c: "cm_counts cm ks" and "0 < unat (cm_depth cm)" and "length ks < 2 ^ 32"
  shows "\<exists>e. cm_Estimate cm key = Inr e \<and> count_list ks key \<le> unat e \<and> unat e \<le> length ks"
proof -
  have ok: "cm_ok cm" using c by (simp add: cm_counts_def)
  let ?f = "\<lambda>d. cm_table cm ! d ! cm_idx cm d key" and ?l = "\<lambda>d. length (filter (\<lambda>k. cm_idx cm d k = cm_idx cm d key) ks)"
  have l: "?l d \<le> length ks" "count_list ks key \<le> ?l d" for d
    by (auto simp: count_list_eq_length_filter intro!: length_filter_le) (induction ks; auto)+
  have f: "unat (?f d) = ?l d" if "d < unat (cm_depth cm)" for d
  proof -
    have "?f d = of_nat (?l d)" using c that cm_idx_less [of cm d key] ok by (simp add: cm_counts_def cm_ok_def)
    moreover have "?l d < 2 ^ 32" using l(1) [of d] assms(3) by (rule order_le_less_trans)
    ultimately show ?thesis by (simp add: unat_of_nat take_bit_nat_eq_self)
  qed
  let ?e = "fold (\<lambda>d m. min m (?f d)) [0..<unat (cm_depth cm)] (- 1)"
  have "count_list ks key \<le> unat ?e"
    by (rule fold_min_bounds(1)) (use f l(2) order_trans [OF l(2) l(1)] assms(3) in \<open>auto simp: unsigned_minus_1_eq_mask mask_eq_exp_minus_1\<close>)
  moreover have "unat ?e \<le> length ks"
    using fold_min_bounds(3) [OF assms(2), of ?f "- 1"] f [OF assms(2)] l(1) [of 0] unfolding word_le_nat_alt by linarith
  ultimately show ?thesis using cm_Estimate_eq [OF ok] by blast
qed

section \<open>The frequency filter\<close>

lemma lastn_snoc: "m \<le> length ks \<Longrightarrow> lastn (Suc m) (ks @ [k]) = lastn m ks @ [k]"
  by (simp add: lastn_def)

lemma lastn_0 [simp]: "lastn 0 ks = []"
  by (simp add: lastn_def)

definition tl_inv :: "TinyLFU \<Rightarrow> nat \<Rightarrow> u64 list \<Rightarrow> bool" where
  "tl_inv lf q ks \<longleftrightarrow> unat (tl_reset_threshold lf) = q \<and> 0 < q \<and> tl_total_access lf = of_nat (length ks mod q)
     \<and> 0 < unat (cm_depth (tl_cm lf)) \<and> cm_counts (tl_cm lf) (lastn (length ks mod q) ks)"

lemma tl_inv_Access:
  assumes "tl_inv lf q ks"
  shows "\<exists>lf'. tl_Access lf k = Inr lf' \<and> tl_inv lf' q (ks @ [k])"
proof -
  let ?m = "length ks mod q"
  have q: "unat (tl_reset_threshold lf) = q" "0 < q" "tl_total_access lf = of_nat ?m" "0 < unat (cm_depth (tl_cm lf))"
    and c: "cm_counts (tl_cm lf) (lastn ?m ks)" using assms by (auto simp: tl_inv_def)
  obtain cm where cm: "cm_Add (tl_cm lf) k 1 = Inr cm" "cm_counts cm (lastn ?m ks @ [k])" "cm_depth cm = cm_depth (tl_cm lf)"
    using cm_counts_Add [OF c] by blast
  have m: "?m < q" using q(2) by simp
  have "unat (tl_reset_threshold lf) < 2 ^ 32" by (rule order_less_le_trans [OF unsigned_less]) simp
  then have lt: "q < 2 ^ 32" using q(1) by simp
  have t: "ucast (tl_reset_threshold lf) \<le> (of_nat ?m + 1 :: u64) \<longleftrightarrow> q \<le> Suc ?m"
    using m lt q(1) by (simp add: word_le_nat_alt unat_word_ariths unat_of_nat take_bit_nat_eq_self unsigned_ucast_eq)
  have s: "Suc (length ks) mod q = (if q \<le> Suc ?m then 0 else Suc ?m)"
    using m by (simp add: mod_Suc)
  have "cm_counts (cm_Reset cm) []" using cm(2) by (rule cm_counts_Reset)
  moreover have "cm_depth (cm_Reset cm) = cm_depth cm" by (simp add: cm_Reset_def)
  moreover have "lastn (Suc ?m) (ks @ [k]) = lastn ?m ks @ [k]" by (rule lastn_snoc) simp
  ultimately show ?thesis
    using q cm t s by (simp add: tl_Access_def tl_inv_def Let_def add.commute)
qed

lemma tl_inv_run:
  "tl_inv lf q ks \<Longrightarrow> \<exists>lf'. res_fold tl_Access lf ks' = Inr lf' \<and> tl_inv lf' q (ks @ ks')"
proof (induction ks' arbitrary: lf ks)
  case (Cons k ks')
  from tl_inv_Access [OF Cons.prems, of k] obtain lf1 where l: "tl_Access lf k = Inr lf1" "tl_inv lf1 q (ks @ [k])" by blast
  from Cons.IH [OF l(2)] show ?case using l(1) by auto
qed auto

lemma tl_inv_new:
  "width \<noteq> 0 \<Longrightarrow> depth \<noteq> 0 \<Longrightarrow> capacity * 10 \<noteq> 0 \<Longrightarrow> tl_inv (TinyLFU_new capacity width depth) (unat (capacity * 10)) []"
  by (simp add: tl_inv_def TinyLFU_new_def cm_counts_new unat_gt_0) (simp add: CountMinSketch_new_def unat_gt_0)



section \<open>The cache is a queue\<close>

definition lfu_core :: "WTinyLFUCache \<Rightarrow> bool" where
  "lfu_core c \<longleftrightarrow> window_queue c = map fst (lfu_entries c) \<and> distinct (map fst (lfu_entries c))
     \<and> probation_queue c = [] \<and> protected_queue c = []
     \<and> (\<forall>(k, e) \<in> set (lfu_entries c). le_queue e = Window \<and> (\<forall>d. le_data e = Some d \<longrightarrow> length d = unat (le_size e)))
     \<and> total_size c = of_nat (sum_list (map (\<lambda>(k, e). unat (le_size e)) (lfu_entries c)))
     \<and> cm_ok (tl_cm (tinylfu c))"

lemma tl_Access_ok: "cm_ok (tl_cm lf) \<Longrightarrow> \<exists>lf'. tl_Access lf k = Inr lf' \<and> cm_ok (tl_cm lf')"
proof -
  assume ok: "cm_ok (tl_cm lf)"
  then obtain cm where "cm_Add (tl_cm lf) k 1 = Inr cm" "cm_ok cm" "cm_ok (cm_Reset cm)"
    using cm_Add_eq [OF ok, of k 1] by (auto simp: cm_ok_def cm_Reset_def)
  then show ?thesis by (simp add: tl_Access_def Let_def)
qed

lemma lfu_Access_ok:
  "lfu_core c \<Longrightarrow> \<exists>lf. lfu_Access c k = Inr (c\<lparr>tinylfu := lf\<rparr>) \<and> lfu_core (c\<lparr>tinylfu := lf\<rparr>)"
  using tl_Access_ok [of "tinylfu c" k] by (auto simp: lfu_core_def lfu_Access_def)

lemma EvictOne_core:
  assumes "lfu_core c" and "lfu_entries c = (k, e) # es"
  shows "\<exists>c'. EvictOne c = Inr (True, c') \<and> lfu_core c' \<and> lfu_entries c' = es \<and> total_capacity c' = total_capacity c"
proof -
  have d: "AList.delete k (lfu_entries c) = es"
    using assms assoc_delete_head [of k e es] by (simp add: lfu_core_def)
  show ?thesis using assms d
    by (auto simp: EvictOne_def erase_victim_def lfu_core_def)
qed

text \<open>Making room drops the oldest entries.\<close>

lemma make_room_core:
  "lfu_core c \<Longrightarrow> \<exists>c'. make_room c = Inr c' \<and> lfu_core c' \<and> total_capacity c' = total_capacity c
     \<and> lfu_entries c' = drop (Suc (length (lfu_entries c)) - unat (total_capacity c)) (lfu_entries c)"
proof (induction "length (lfu_entries c)" arbitrary: c)
  case 0
  then have "EvictOne c = Inr (False, c)" by (simp add: EvictOne_def lfu_core_def)
  then show ?case using 0 by (simp add: make_room.simps)
next
  case (Suc n)
  then obtain k e es where es: "lfu_entries c = (k, e) # es" by (cases "lfu_entries c") auto
  obtain c1 where c1: "EvictOne c = Inr (True, c1)" "lfu_core c1" "lfu_entries c1 = es" "total_capacity c1 = total_capacity c"
    using EvictOne_core [OF Suc.prems es] by blast
  obtain c2 where c2: "make_room c1 = Inr c2" "lfu_core c2" "total_capacity c2 = total_capacity c"
      "lfu_entries c2 = drop (Suc (length es) - unat (total_capacity c)) es"
    using Suc.hyps(1) [of c1] Suc.hyps(2) c1 es by auto
  show ?case
  proof (cases "unat (total_capacity c) \<le> length (lfu_entries c)")
    case True
    then have "make_room c = Inr c2" using c1(1) c2(1) by (simp add: make_room.simps [of c])
    then show ?thesis using c2 True es by (simp add: Suc_diff_le)
  next
    case False
    then show ?thesis using Suc.prems by (simp add: make_room.simps [of c])
  qed
qed

definition fifo_entry :: "bool \<Rightarrow> u64 \<Rightarrow> u8 list \<Rightarrow> LfuEntry" where
  "fifo_entry alloc key d = \<lparr>le_key = key, le_data = (if d \<noteq> [] \<and> alloc then Some d else None),
     le_size = of_nat (length d), le_queue = Window\<rparr>"

definition overwrite :: "u8 list \<Rightarrow> LfuEntry \<Rightarrow> LfuEntry" where
  "overwrite d e = (case le_data e of
     Some old \<Rightarrow> e\<lparr>le_data := Some (take (length old) d @ drop (length d) old)\<rparr> | None \<Rightarrow> e)"

lemma overwrite_Nil: "overwrite [] e = e"
  by (cases e) (simp add: overwrite_def split: option.split)

text \<open>A first-in-first-out cache with in-place update.\<close>

definition fifo_put :: "nat \<Rightarrow> bool \<Rightarrow> u64 \<Rightarrow> u8 list \<Rightarrow> (u64 \<times> LfuEntry) list \<Rightarrow> (u64 \<times> LfuEntry) list" where
  "fifo_put cap alloc key d q =
     (case map_of q key of
        Some e \<Rightarrow> AList.update key (overwrite d e) q
      | None \<Rightarrow> drop (Suc (length q) - cap) q @ [(key, fifo_entry alloc key d)])"

lemma Put_existing:
  assumes c: "lfu_core c" and e: "map_of (lfu_entries c) key = Some e" and d: "length d < 2 ^ 32"
  shows "\<exists>c'. lfu_Put alloc c key (Some d) (of_nat (length d)) = Inr (True, c') \<and> lfu_core c'
    \<and> lfu_entries c' = AList.update key (overwrite d e) (lfu_entries c) \<and> total_capacity c' = total_capacity c"
proof -
  obtain lf where a: "lfu_Access c key = Inr (c\<lparr>tinylfu := lf\<rparr>)" and cl: "lfu_core (c\<lparr>tinylfu := lf\<rparr>)"
    using lfu_Access_ok [OF c] by blast
  have ent: "le_queue e = Window" "\<And>x. le_data e = Some x \<Longrightarrow> length x = unat (le_size e)"
    using c map_of_SomeD [OF e] by (auto simp: lfu_core_def)
  have ud: "unat (of_nat (length d) :: u32) = length d" using d by (simp add: unat_of_nat take_bit_nat_eq_self)
  have m: "unat (min (of_nat (length d)) (le_size e)) = min (length d) (unat (le_size e))"
    using ud by (simp add: min_def word_le_nat_alt)
  let ?c = "c\<lparr>tinylfu := lf, lfu_entries := AList.update key (overwrite d e) (lfu_entries c)\<rparr>"
  have o: "le_queue (overwrite d e) = Window" "le_size (overwrite d e) = le_size e"
    "\<forall>x. le_data (overwrite d e) = Some x \<longrightarrow> length x = unat (le_size (overwrite d e))"
    using ent by (auto simp: overwrite_def split: option.splits)
  note same = assoc_update_same [OF e]
  have "lfu_Put alloc c key (Some d) (of_nat (length d)) = Inr (True, ?c)"
  proof (cases "le_data e")
    case None
    then show ?thesis using e a by (simp add: lfu_Put_def overwrite_def same)
  next
    case (Some old)
    then show ?thesis using e a ent(2) [OF Some] m ud
      by (cases "d = []") (simp_all add: lfu_Put_def overwrite_Nil same, auto simp: overwrite_def min_def word_less_nat_alt)
  qed
  moreover have "\<forall>(k, e) \<in> set (AList.update key (overwrite d e) (lfu_entries c)).
      le_queue e = Window \<and> (\<forall>x. le_data e = Some x \<longrightarrow> length x = unat (le_size e))"
    by (rule assoc_update_ball) (use c o(1,3) in \<open>auto simp: lfu_core_def\<close>)
  then have "lfu_core ?c"
    using cl assoc_update_keys [OF e, of "overwrite d e"] assoc_update_sum [OF e, of "\<lambda>e. unat (le_size e)" "overwrite d e"] o(2) by (simp add: lfu_core_def)
  ultimately show ?thesis by auto
qed

lemma sum_unat_app: "of_nat (sum_list (map (\<lambda>(k, e). unat (le_size e)) (q @ [(k, e)])))
    = (of_nat (sum_list (map (\<lambda>(k, e). unat (le_size e)) q)) + ucast (le_size e) :: u64)"
  by simp

lemma Put_new:
  assumes c: "lfu_core c" and e: "map_of (lfu_entries c) key = None" and d: "length d < 2 ^ 32"
  shows "\<exists>c'. lfu_Put alloc c key (Some d) (of_nat (length d)) = Inr (True, c') \<and> lfu_core c'
    \<and> lfu_entries c' = drop (Suc (length (lfu_entries c)) - unat (total_capacity c)) (lfu_entries c) @ [(key, fifo_entry alloc key d)]
    \<and> total_capacity c' = total_capacity c"
proof -
  let ?q = "drop (Suc (length (lfu_entries c)) - unat (total_capacity c)) (lfu_entries c)"
  obtain c1 where c1: "make_room c = Inr c1" "lfu_core c1" "total_capacity c1 = total_capacity c" "lfu_entries c1 = ?q"
    using make_room_core [OF c] by blast
  have "key \<notin> set (map fst ?q)" using e by (auto simp: map_of_eq_None_iff dest!: in_set_dropD)
  then have n: "AList.update key (fifo_entry alloc key d) ?q = ?q @ [(key, fifo_entry alloc key d)]" and kq: "key \<notin> fst ` set ?q"
    by (auto intro!: assoc_update_new simp: map_of_eq_None_iff)
  have ud: "unat (of_nat (length d) :: u32) = length d" using d by (simp add: unat_of_nat take_bit_nat_eq_self)
  then have uc: "ucast (of_nat (length d) :: u32) = (of_nat (length d) :: u64)" by (metis of_nat_unat)
  have pos: "0 < (of_nat (length d) :: u32) \<longleftrightarrow> d \<noteq> []" using ud by (simp add: word_less_nat_alt)
  define c2 where "c2 = c1\<lparr>lfu_entries := ?q @ [(key, fifo_entry alloc key d)], window_queue := window_queue c1 @ [key],
      insert_count := insert_count c1 + 1, total_size := total_size c1 + ucast (of_nat (length d) :: u32)\<rparr>"
  have "lfu_core c2"
    using c1(2) kq ud uc unfolding lfu_core_def c2_def c1(4) by (auto simp: fifo_entry_def)
  then obtain lf where a: "lfu_Access c2 key = Inr (c2\<lparr>tinylfu := lf\<rparr>)" and cl: "lfu_core (c2\<lparr>tinylfu := lf\<rparr>)"
    using lfu_Access_ok by blast
  have "lfu_Put alloc c key (Some d) (of_nat (length d)) = rbind (lfu_Access c2 key) (\<lambda>c3. Inr (True, c3))"
    using e c1(1) ud pos n c1(4) unfolding lfu_Put_def c2_def fifo_entry_def by (cases "d \<noteq> [] \<and> alloc") (auto simp: Let_def)
  then show ?thesis using a cl c1(3) by (auto simp: c2_def)
qed

lemma Get_core:
  assumes c: "lfu_core c" and b: "length b < 2 ^ 32"
  shows "\<exists>c'. lfu_Get c key (Some b) (of_nat (length b)) =
      Inr (case map_of (lfu_entries c) key of
             None \<Rightarrow> (False, 0, Some b)
           | Some e \<Rightarrow> (True, le_size e, Some (case le_data e of
                 Some d \<Rightarrow> if length d \<le> length b then d @ drop (length d) b else b | None \<Rightarrow> b)), c')
    \<and> lfu_core c' \<and> lfu_entries c' = lfu_entries c \<and> total_capacity c' = total_capacity c"
proof (cases "map_of (lfu_entries c) key")
  case None
  then show ?thesis using c by (simp add: lfu_Get_def lfu_core_def)
next
  case (Some e)
  obtain lf where a: "lfu_Access c key = Inr (c\<lparr>tinylfu := lf\<rparr>)" and cl: "lfu_core (c\<lparr>tinylfu := lf\<rparr>)"
    using lfu_Access_ok [OF c] by blast
  have ent: "le_queue e = Window" "\<And>x. le_data e = Some x \<Longrightarrow> length x = unat (le_size e)"
    using c map_of_SomeD [OF Some] by (auto simp: lfu_core_def)
  have ub: "le_size e \<le> of_nat (length b) \<longleftrightarrow> unat (le_size e) \<le> length b"
    using b by (simp add: word_le_nat_alt unat_of_nat take_bit_nat_eq_self)
  have "lfu_core (c\<lparr>tinylfu := lf, hit_count := hit_count c + 1\<rparr>)" using cl by (simp add: lfu_core_def)
  then show ?thesis
    using Some a ent ub by (cases "le_data e") (auto simp: lfu_Get_def)
qed

lemma Remove_core:
  assumes c: "lfu_core c"
  shows "fst (lfu_Remove c key) = lfu_Contains c key \<and> lfu_core (snd (lfu_Remove c key))
    \<and> lfu_entries (snd (lfu_Remove c key)) = AList.delete key (lfu_entries c)
    \<and> total_capacity (snd (lfu_Remove c key)) = total_capacity c"
proof (cases "map_of (lfu_entries c) key")
  case None
  then have "AList.delete key (lfu_entries c) = lfu_entries c"
    by (auto simp: AList.delete_eq map_of_eq_None_iff filter_id_conv image_iff)
  then show ?thesis using None c by (simp add: lfu_Remove_def lfu_Contains_def)
next
  case (Some e)
  have D: "distinct (map fst (lfu_entries c))" using c by (simp add: lfu_core_def)
  have "le_queue e = Window" using c map_of_SomeD [OF Some] by (auto simp: lfu_core_def)
  moreover have "distinct (remove1 key (map fst (lfu_entries c)))" using D by (rule distinct_remove1)
  moreover have "\<forall>p \<in> set (AList.delete key (lfu_entries c)). p \<in> set (lfu_entries c)" by (auto simp: AList.delete_eq)
  ultimately show ?thesis
    using Some c assoc_delete_keys [OF D, of key] assoc_delete_sum [OF Some D, of "\<lambda>e. unat (le_size e)"]
    by (auto simp: lfu_Remove_def lfu_Contains_def lfu_core_def)
qed

section \<open>The runs of a cache\<close>

inductive lfu_reach :: "u32 \<Rightarrow> WTinyLFUCache \<Rightarrow> bool" for cap where
  created: "lfu_reach cap (WTinyLFUCache_new cap window_ratio protected_ratio)"
| put: "lfu_reach cap c \<Longrightarrow> length d < 2 ^ 32 \<Longrightarrow> lfu_Put alloc c key (Some d) (of_nat (length d)) = Inr (r, c') \<Longrightarrow> lfu_reach cap c'"
| get: "lfu_reach cap c \<Longrightarrow> length b < 2 ^ 32 \<Longrightarrow> lfu_Get c key (Some b) (of_nat (length b)) = Inr (r, c') \<Longrightarrow> lfu_reach cap c'"
| removed: "lfu_reach cap c \<Longrightarrow> lfu_reach cap (snd (lfu_Remove c key))"
| cleared: "lfu_reach cap c \<Longrightarrow> lfu_reach cap (lfu_Clear c)"
| stats_reset: "lfu_reach cap c \<Longrightarrow> lfu_reach cap (ResetStats c)"

lemma Put_core:
  assumes c: "lfu_core c" and d: "length d < 2 ^ 32"
  shows "\<exists>c'. lfu_Put alloc c key (Some d) (of_nat (length d)) = Inr (True, c') \<and> lfu_core c'
    \<and> lfu_entries c' = fifo_put (unat (total_capacity c)) alloc key d (lfu_entries c) \<and> total_capacity c' = total_capacity c"
  using Put_existing [OF c _ d] Put_new [OF c _ d] unfolding fifo_put_def
  by (cases "map_of (lfu_entries c) key") simp_all

lemma length_fifo_put: "length q \<le> max 1 cap \<Longrightarrow> length (fifo_put cap alloc key d q) \<le> max 1 cap"
  using assoc_update_keys [of q key _, THEN arg_cong [of _ _ length]] by (auto simp: fifo_put_def split: option.splits)

lemma lfu_reach_core:
  "lfu_reach cap c \<Longrightarrow> lfu_core c \<and> total_capacity c = cap \<and> length (lfu_entries c) \<le> max 1 (unat cap)"
proof (induction rule: lfu_reach.induct)
  case (created w p)
  have "cm_ok (CountMinSketch_new 256 4)" using cm_counts_new [of 256 4] by (simp add: cm_counts_def)
  then show ?case by (simp add: WTinyLFUCache_new_def lfu_core_def Let_def TinyLFU_new_def)
next
  case (put c d alloc key r c')
  then show ?case using Put_core [of c d alloc key] length_fifo_put by auto
next
  case (get c b key r c')
  then show ?case using Get_core [of c b key] by auto
next
  case (removed c key)
  have "length (AList.delete key (lfu_entries c)) \<le> length (lfu_entries c)" by (simp add: AList.delete_eq)
  then show ?case using removed.IH Remove_core [of c key] by (auto intro: order_trans)
next
  case (cleared c)
  then show ?case by (simp add: lfu_core_def lfu_Clear_def)
next
  case (stats_reset c)
  then show ?case by (simp add: lfu_core_def ResetStats_def)
qed

text \<open>
  C31. The W-TinyLFU cache is a first-in-first-out cache. In every state that puts, gets, removals
  and clears can reach, the probation and protected queues are empty, the window queue lists the
  entries in the order of their insertion, the size counter is the sum of the sizes and there are
  at most \<^verbatim>\<open>max(1, capacity)\<close> entries. A put succeeds without a fault and drops the oldest entries
  first, whatever the frequency sketch says; a put of a cached key overwrites at most the bytes of
  the old value; a get returns the value and changes no entry; a removal deletes exactly its key.
\<close>

theorem tinylfu_is_fifo:
  assumes "lfu_reach cap c" and "length d < 2 ^ 32" and "length b < 2 ^ 32"
  shows "probation_queue c = [] \<and> protected_queue c = [] \<and> window_queue c = map fst (lfu_entries c)
    \<and> total_size c = of_nat (sum_list (map (\<lambda>(k, e). unat (le_size e)) (lfu_entries c)))
    \<and> length (lfu_entries c) \<le> max 1 (unat cap)
    \<and> (\<exists>c'. lfu_Put alloc c key (Some d) (of_nat (length d)) = Inr (True, c')
         \<and> lfu_entries c' = fifo_put (unat cap) alloc key d (lfu_entries c))
    \<and> (\<exists>c'. lfu_Get c key (Some b) (of_nat (length b)) =
           Inr (case map_of (lfu_entries c) key of
                  None \<Rightarrow> (False, 0, Some b)
                | Some e \<Rightarrow> (True, le_size e, Some (case le_data e of
                      Some d \<Rightarrow> if length d \<le> length b then d @ drop (length d) b else b | None \<Rightarrow> b)), c')
         \<and> lfu_entries c' = lfu_entries c)
    \<and> lfu_entries (snd (lfu_Remove c key)) = AList.delete key (lfu_entries c)"
proof -
  have c: "lfu_core c" and cap: "total_capacity c = cap" "length (lfu_entries c) \<le> max 1 (unat cap)"
    using lfu_reach_core [OF assms(1)] by auto
  show ?thesis
    using c cap Put_core [OF c assms(2), of alloc key] Get_core [OF c assms(3), of key] Remove_core [OF c, of key]
    by (intro conjI) (auto simp: lfu_core_def)
qed

theorem tinylfu_is_fifo_witness:
  "\<exists>c c'. lfu_Put True (WTinyLFUCache_new 2 1 80) 7 (Some [1]) (of_nat (length [1 :: u8])) = Inr (True, c)
     \<and> lfu_Get c 7 (Some [0]) (of_nat (length [0 :: u8])) = Inr ((True, 1, Some [1]), c')"
proof -
  have r: "lfu_reach 2 (WTinyLFUCache_new 2 1 80)" by (rule lfu_reach.created)
  obtain c where p: "lfu_Put True (WTinyLFUCache_new 2 1 80) 7 (Some [1]) (of_nat (length [1 :: u8])) = Inr (True, c)"
    and e: "lfu_entries c = [(7, fifo_entry True 7 [1])]"
    using tinylfu_is_fifo [OF r, of "[1]" "[]" True 7] by (auto simp: fifo_put_def WTinyLFUCache_new_def Let_def)
  have "lfu_reach 2 c" by (rule lfu_reach.put [OF r _ p]) simp
  from tinylfu_is_fifo [OF this, of "[]" "[0]" True 7] p show ?thesis by (auto simp: e fifo_entry_def)
qed

end
