(* ===== verification/HD_Caches.thy ===== *)
theory HD_Caches
  imports HD_Assoc "HOL-Library.Multiset"
begin

text \<open>
  The block caches in memory: \<^verbatim>\<open>L3SsdCache\<close> of the server (\<^verbatim>\<open>server/cache_engine/l3_ssd_cache.cpp\<close>),
  \<^verbatim>\<open>L1RamCache\<close> of the client (\<^verbatim>\<open>client/smart_cache/l1_ram_cache.cpp\<close>) and the \<^verbatim>\<open>RamOverlay\<close>
  (\<^verbatim>\<open>client/overlay_mgr/ram_overlay.cpp\<close>). What a reader in front of a slower store relies on is
  the locale \<open>block_cache\<close>; the three classes interpret it. Unordered maps are association lists,
  whose order is not observed. The watermark of the L3 cache is a product of doubles: its value,
  converted to 64 bits, is the parameter \<open>high\<close> of the definitions. The clock is the parameter
  \<open>now\<close>.
\<close>

section \<open>L3SsdCache\<close>

record L3Entry =
  l3_block_key :: u64
  l3_data :: "u8 list"
  l3_access_count :: u32
  l3_last_access_ns :: u64

text \<open>
  \<open>l3_lru_map\<close> lists the keys that have an iterator; the iterator of a key stands for the node of
  the list that holds the key.
\<close>

record L3SsdCache =
  l3_capacity_bytes :: u64
  l3_used_bytes :: u64
  l3_hit_count :: u64
  l3_miss_count :: u64
  l3_entries :: "(u64 \<times> L3Entry) list"
  l3_lru_list :: "u64 list"
  l3_lru_map :: "u64 list"

definition L3SsdCache_new :: "u64 \<Rightarrow> L3SsdCache" where
  "L3SsdCache_new capacity_bytes =
     \<lparr>l3_capacity_bytes = capacity_bytes, l3_used_bytes = 0, l3_hit_count = 0, l3_miss_count = 0,
      l3_entries = [], l3_lru_list = [], l3_lru_map = []\<rparr>"

definition L3_Lookup :: "u64 \<Rightarrow> L3SsdCache \<Rightarrow> u64 \<Rightarrow> (u8 list option \<times> L3SsdCache) res" where
  "L3_Lookup now c key =
     (case map_of (l3_entries c) key of
        Some e \<Rightarrow>
          let e' = e\<lparr>l3_access_count := l3_access_count e + 1, l3_last_access_ns := now\<rparr>
          in if key \<in> set (l3_lru_map c)
             then Inr (Some (l3_data e),
                    c\<lparr>l3_hit_count := l3_hit_count c + 1, l3_entries := AList.update key e' (l3_entries c),
                      l3_lru_list := key # remove1 key (l3_lru_list c)\<rparr>)
             else Inl NullDereference
      | None \<Rightarrow> Inr (None, c\<lparr>l3_miss_count := l3_miss_count c + 1\<rparr>))"

text \<open>One turn of the loop of \<^verbatim>\<open>EvictIfNeeded\<close>: the last key of the list goes.\<close>

definition evict_last :: "L3SsdCache \<Rightarrow> L3SsdCache" where
  "evict_last c =
     (let victim = last (l3_lru_list c);
          c1 = c\<lparr>l3_lru_list := butlast (l3_lru_list c), l3_lru_map := removeAll victim (l3_lru_map c)\<rparr>
      in (case map_of (l3_entries c1) victim of
            Some e \<Rightarrow> c1\<lparr>l3_used_bytes := l3_used_bytes c1 - of_nat (length (l3_data e)),
                        l3_entries := AList.delete victim (l3_entries c1)\<rparr>
          | None \<Rightarrow> c1))"

lemma evict_last_lru: "l3_lru_list (evict_last c) = butlast (l3_lru_list c)"
  by (simp add: evict_last_def Let_def split: option.split)

function EvictIfNeeded :: "(u64 \<Rightarrow> u64) \<Rightarrow> L3SsdCache \<Rightarrow> L3SsdCache" where
  "EvictIfNeeded high c =
     (if high (l3_capacity_bytes c) < l3_used_bytes c \<and> l3_lru_list c \<noteq> [] then EvictIfNeeded high (evict_last c) else c)"
  by pat_completeness auto
termination
  by (relation "measure (\<lambda>(high, c). length (l3_lru_list c))") (auto simp: evict_last_lru)

declare EvictIfNeeded.simps [simp del]

definition L3_Insert :: "(u64 \<Rightarrow> u64) \<Rightarrow> u64 \<Rightarrow> L3SsdCache \<Rightarrow> u64 \<Rightarrow> u8 list \<Rightarrow> L3SsdCache" where
  "L3_Insert high now c key data =
     (if map_of (l3_entries c) key \<noteq> None then c
      else let entry = \<lparr>l3_block_key = key, l3_data = data, l3_access_count = 1, l3_last_access_ns = now\<rparr>
           in EvictIfNeeded high (c\<lparr>l3_used_bytes := l3_used_bytes c + of_nat (length data),
                l3_lru_list := key # l3_lru_list c, l3_lru_map := key # l3_lru_map c,
                l3_entries := AList.update key entry (l3_entries c)\<rparr>))"

definition L3_Invalidate :: "L3SsdCache \<Rightarrow> u64 \<Rightarrow> L3SsdCache" where
  "L3_Invalidate c key =
     (case map_of (l3_entries c) key of
        Some e \<Rightarrow>
          let c1 = c\<lparr>l3_used_bytes := l3_used_bytes c - of_nat (length (l3_data e))\<rparr>;
              c2 = (if key \<in> set (l3_lru_map c1)
                    then c1\<lparr>l3_lru_list := remove1 key (l3_lru_list c1), l3_lru_map := removeAll key (l3_lru_map c1)\<rparr>
                    else c1)
          in c2\<lparr>l3_entries := AList.delete key (l3_entries c2)\<rparr>
      | None \<Rightarrow> c)"

section \<open>L1RamCache\<close>

record L1RamCache =
  l1_capacity :: u64
  l1_used :: u64
  l1_hits :: u64
  l1_misses :: u64
  l1_store :: "(u64 \<times> u8 list) list"

definition L1RamCache_new :: "u64 \<Rightarrow> L1RamCache" where
  "L1RamCache_new capacity_bytes =
     \<lparr>l1_capacity = capacity_bytes, l1_used = 0, l1_hits = 0, l1_misses = 0, l1_store = []\<rparr>"

definition L1_Lookup :: "L1RamCache \<Rightarrow> u64 \<Rightarrow> u8 list option \<times> L1RamCache" where
  "L1_Lookup c key =
     (case map_of (l1_store c) key of
        Some d \<Rightarrow> (Some d, c\<lparr>l1_hits := l1_hits c + 1\<rparr>)
      | None \<Rightarrow> (None, c\<lparr>l1_misses := l1_misses c + 1\<rparr>))"

definition L1_Insert :: "L1RamCache \<Rightarrow> u64 \<Rightarrow> u8 list \<Rightarrow> L1RamCache" where
  "L1_Insert c key data =
     c\<lparr>l1_used := (if map_of (l1_store c) key = None then l1_used c + of_nat (length data) else l1_used c),
       l1_store := AList.update key data (l1_store c)\<rparr>"

definition L1_Invalidate :: "L1RamCache \<Rightarrow> u64 \<Rightarrow> L1RamCache" where
  "L1_Invalidate c key =
     (case map_of (l1_store c) key of
        Some d \<Rightarrow> c\<lparr>l1_used := l1_used c - of_nat (length d), l1_store := AList.delete key (l1_store c)\<rparr>
      | None \<Rightarrow> c)"

section \<open>RamOverlay\<close>

record RamOverlay =
  ro_data :: "(u64 \<times> u8 list) list"

definition RamOverlay_Write :: "RamOverlay \<Rightarrow> u64 \<Rightarrow> u8 list \<Rightarrow> bool \<times> RamOverlay" where
  "RamOverlay_Write o1 offset data = (True, o1\<lparr>ro_data := AList.update offset data (ro_data o1)\<rparr>)"

definition RamOverlay_Read :: "RamOverlay \<Rightarrow> u64 \<Rightarrow> u8 list option" where
  "RamOverlay_Read o1 offset = map_of (ro_data o1) offset"

definition RamOverlay_Clear :: "RamOverlay \<Rightarrow> RamOverlay" where
  "RamOverlay_Clear o1 = o1\<lparr>ro_data := []\<rparr>"

section \<open>The contract of a cache in front of a store\<close>

text \<open>
  The state of the cache, what a lookup finds, and three changes: a lookup that hits, an insert and
  a discard. A cache may forget, but it never makes up data.
\<close>

locale block_cache =
  fixes good :: "'c \<Rightarrow> bool" and found :: "'c \<Rightarrow> u64 \<Rightarrow> u8 list option"
    and touch :: "'c \<Rightarrow> u64 \<Rightarrow> 'c" and fill :: "'c \<Rightarrow> u64 \<Rightarrow> u8 list \<Rightarrow> 'c" and discard :: "'c \<Rightarrow> u64 \<Rightarrow> 'c"
  assumes good_touch: "good c \<Longrightarrow> good (touch c k)"
    and good_fill: "good c \<Longrightarrow> good (fill c k d)"
    and good_discard: "good c \<Longrightarrow> good (discard c k)"
    and found_touch: "good c \<Longrightarrow> found (touch c k) j = found c j"
    and found_fill: "good c \<Longrightarrow> found (fill c k d) j \<noteq> None \<Longrightarrow>
      found (fill c k d) j = found c j \<or> j = k \<and> found (fill c k d) j = Some d"
    and found_discard_same: "good c \<Longrightarrow> found (discard c k) k = None"
    and found_discard: "good c \<Longrightarrow> found (discard c k) j \<noteq> None \<Longrightarrow> found (discard c k) j = found c j"
begin

text \<open>Everything the cache finds is what the store holds.\<close>

definition coherent :: "'c \<Rightarrow> (u64 \<Rightarrow> u8 list) \<Rightarrow> bool" where
  "coherent c disk \<longleftrightarrow> good c \<and> (\<forall>k d. found c k = Some d \<longrightarrow> d = disk k)"

lemma coherent_touch: "coherent c disk \<Longrightarrow> coherent (touch c k) disk"
  by (simp add: coherent_def good_touch found_touch)

lemma coherent_fill: "coherent c disk \<Longrightarrow> coherent (fill c k (disk k)) disk"
proof -
  assume c: "coherent c disk"
  have "d = disk j" if "found (fill c k (disk k)) j = Some d" for j d
    using found_fill [of c k "disk k" j] that c by (auto simp: coherent_def)
  then show ?thesis using c good_fill by (simp add: coherent_def)
qed

lemma coherent_write: "coherent c disk \<Longrightarrow> coherent (discard c k) (disk(k := d))"
proof -
  assume c: "coherent c disk"
  have "e = (disk(k := d)) j" if "found (discard c k) j = Some e" for j e
    using found_discard [of c k j] found_discard_same [of c k] that c by (cases "j = k") (auto simp: coherent_def)
  then show ?thesis using c good_discard by (simp add: coherent_def)
qed

text \<open>A read: the cache first, then the store, whose answer is put into the cache.\<close>

definition read_through :: "'c \<Rightarrow> (u64 \<Rightarrow> u8 list) \<Rightarrow> u64 \<Rightarrow> u8 list \<times> 'c" where
  "read_through c disk k = (case found c k of Some d \<Rightarrow> (d, touch c k) | None \<Rightarrow> (disk k, fill (touch c k) k (disk k)))"

lemma read_through_exact:
  "coherent c disk \<Longrightarrow> fst (read_through c disk k) = disk k \<and> coherent (snd (read_through c disk k)) disk"
proof (cases "found c k")
  case None
  assume "coherent c disk"
  then show ?thesis using None coherent_fill [OF coherent_touch] by (simp add: read_through_def)
next
  case (Some d)
  assume c: "coherent c disk"
  then have "d = disk k" using Some unfolding coherent_def by blast
  then show ?thesis using c Some coherent_touch by (simp add: read_through_def)
qed

end

section \<open>The L3 cache keeps its books\<close>

definition l3_found :: "L3SsdCache \<Rightarrow> u64 \<Rightarrow> u8 list option" where
  "l3_found c k = map_option l3_data (map_of (l3_entries c) k)"

definition l3_bytes :: "L3SsdCache \<Rightarrow> nat" where
  "l3_bytes c = sum_list (map (\<lambda>(k, e). length (l3_data e)) (l3_entries c))"

definition l3_good :: "L3SsdCache \<Rightarrow> bool" where
  "l3_good c \<longleftrightarrow> distinct (map fst (l3_entries c)) \<and> mset (l3_lru_list c) = mset (map fst (l3_entries c))
     \<and> set (l3_lru_map c) = set (l3_lru_list c) \<and> l3_used_bytes c = of_nat (l3_bytes c)"

definition l3_touch :: "u64 \<Rightarrow> L3SsdCache \<Rightarrow> u64 \<Rightarrow> L3SsdCache" where
  "l3_touch now c k = (case L3_Lookup now c k of Inr (_, c') \<Rightarrow> c' | Inl _ \<Rightarrow> c)"

lemma l3_goodD:
  assumes "l3_good c"
  shows "distinct (map fst (l3_entries c))" "mset (l3_lru_list c) = mset (map fst (l3_entries c))"
    "set (l3_lru_map c) = set (l3_lru_list c)" "l3_used_bytes c = of_nat (l3_bytes c)"
    "set (l3_lru_list c) = fst ` set (l3_entries c)" "distinct (l3_lru_list c)"
  using assms mset_eq_setD [of "l3_lru_list c" "map fst (l3_entries c)"]
    mset_eq_imp_distinct_iff [of "l3_lru_list c" "map fst (l3_entries c)"]
  by (simp_all add: l3_good_def)

lemma l3_delete_good:
  assumes g: "l3_good c" and e: "map_of (l3_entries c) k = Some e"
    and c': "l3_entries c' = AList.delete k (l3_entries c)" "l3_lru_list c' = remove1 k (l3_lru_list c)"
      "set (l3_lru_map c') = set (l3_lru_map c) - {k}" "l3_used_bytes c' = l3_used_bytes c - of_nat (length (l3_data e))"
  shows "l3_good c'"
proof -
  note D = l3_goodD [OF g]
  have "mset (l3_lru_list c') = mset (map fst (l3_entries c'))"
    using D(2) assoc_delete_keys [OF D(1), of k] by (simp only: c' mset_remove1)
  moreover have "set (l3_lru_map c') = set (l3_lru_list c')" using D(3,6) by (simp add: c' set_remove1_eq)
  moreover have "l3_used_bytes c' = of_nat (l3_bytes c')"
    using assoc_delete_sum [OF e D(1), of "\<lambda>e. length (l3_data e)"] D(4) by (simp add: c' l3_bytes_def)
  moreover have "distinct (map fst (l3_entries c'))" using D(1) assoc_delete_keys [OF D(1), of k] by (simp add: c' distinct_remove1)
  ultimately show ?thesis by (simp add: l3_good_def)
qed

lemma butlast_remove1: "distinct xs \<Longrightarrow> xs \<noteq> [] \<Longrightarrow> butlast xs = remove1 (last xs) xs"
  by (induction xs) auto

lemma evict_last_good:
  assumes g: "l3_good c" and "l3_lru_list c \<noteq> []"
  shows "l3_good (evict_last c)" and "map_of (l3_entries (evict_last c)) = (map_of (l3_entries c))(last (l3_lru_list c) := None)"
    and "l3_capacity_bytes (evict_last c) = l3_capacity_bytes c"
proof -
  note D = l3_goodD [OF g]
  have "last (l3_lru_list c) \<in> fst ` set (l3_entries c)" using D(5) assms(2) last_in_set by blast
  then obtain e where e: "map_of (l3_entries c) (last (l3_lru_list c)) = Some e" by (metis map_of_eq_None_iff not_None_eq)
  show "l3_good (evict_last c)"
    by (rule l3_delete_good [OF g e]) (use e in \<open>auto simp: evict_last_def Let_def butlast_remove1 [OF D(6) assms(2)]\<close>)
  show "map_of (l3_entries (evict_last c)) = (map_of (l3_entries c))(last (l3_lru_list c) := None)"
    using e by (simp add: evict_last_def Let_def AList.delete_conv')
  show "l3_capacity_bytes (evict_last c) = l3_capacity_bytes c" by (simp add: evict_last_def Let_def split: option.split)
qed

lemma EvictIfNeeded_good:
  "l3_good c \<Longrightarrow> l3_good (EvictIfNeeded high c) \<and> (\<forall>k. map_of (l3_entries (EvictIfNeeded high c)) k \<in> {None, map_of (l3_entries c) k})"
proof (induction high c rule: EvictIfNeeded.induct)
  case (1 high c)
  show ?case
  proof (cases "high (l3_capacity_bytes c) < l3_used_bytes c \<and> l3_lru_list c \<noteq> []")
    case True
    then have eq: "EvictIfNeeded high c = EvictIfNeeded high (evict_last c)" by (subst EvictIfNeeded.simps) simp
    note m = evict_last_good(2) [OF "1.prems" conjunct2 [OF True]]
    note I = "1.IH" [OF True evict_last_good(1) [OF "1.prems" conjunct2 [OF True]]]
    have "map_of (l3_entries (EvictIfNeeded high (evict_last c))) k \<in> {None, map_of (l3_entries c) k}" for k
      using spec [OF conjunct2 [OF I], of k] by (simp add: m split: if_splits)
    then show ?thesis unfolding eq using conjunct1 [OF I] by blast
  next
    case False
    then have "EvictIfNeeded high c = c" by (subst EvictIfNeeded.simps) auto
    then show ?thesis using "1.prems" by simp
  qed
qed

text \<open>The cache before the eviction of an insert.\<close>

definition l3_added :: "u64 \<Rightarrow> L3SsdCache \<Rightarrow> u64 \<Rightarrow> u8 list \<Rightarrow> L3SsdCache" where
  "l3_added now c key data = c\<lparr>l3_used_bytes := l3_used_bytes c + of_nat (length data),
     l3_lru_list := key # l3_lru_list c, l3_lru_map := key # l3_lru_map c,
     l3_entries := l3_entries c @ [(key, \<lparr>l3_block_key = key, l3_data = data, l3_access_count = 1, l3_last_access_ns = now\<rparr>)]\<rparr>"

lemma l3_added_good: "l3_good c \<Longrightarrow> map_of (l3_entries c) key = None \<Longrightarrow> l3_good (l3_added now c key data)"
  by (auto simp: l3_good_def l3_added_def l3_bytes_def map_of_eq_None_iff)

lemma L3_Insert_added:
  "map_of (l3_entries c) key = None \<Longrightarrow> L3_Insert high now c key data = EvictIfNeeded high (l3_added now c key data)"
  by (simp add: L3_Insert_def l3_added_def assoc_update_new)

lemma L3_Lookup_hit:
  assumes g: "l3_good c" and e: "map_of (l3_entries c) k = Some e"
  shows "\<exists>c'. L3_Lookup now c k = Inr (Some (l3_data e), c') \<and> l3_good c' \<and> l3_lru_list c' = k # remove1 k (l3_lru_list c)
    \<and> (\<forall>j. l3_found c' j = l3_found c j) \<and> l3_bytes c' = l3_bytes c \<and> l3_capacity_bytes c' = l3_capacity_bytes c"
proof -
  note D = l3_goodD [OF g]
  define e' where "e' = e\<lparr>l3_access_count := l3_access_count e + 1, l3_last_access_ns := now\<rparr>"
  define c' where "c' = c\<lparr>l3_hit_count := l3_hit_count c + 1, l3_entries := AList.update k e' (l3_entries c),
      l3_lru_list := k # remove1 k (l3_lru_list c)\<rparr>"
  have k: "k \<in> set (l3_lru_list c)" using D(5) map_of_SomeD [OF e] by force
  have m: "map (\<lambda>(k, e). length (l3_data e)) (AList.update k e' (l3_entries c)) = map (\<lambda>(k, e). length (l3_data e)) (l3_entries c)"
    by (rule assoc_update_sum [OF e D(1)]) (simp add: e'_def)
  have "L3_Lookup now c k = Inr (Some (l3_data e), c')" using e k D(3) by (simp add: L3_Lookup_def c'_def e'_def)
  moreover have "l3_good c'"
    using D assoc_update_keys [OF e, of e'] m k
    by (simp add: l3_good_def c'_def l3_bytes_def set_remove1_eq insert_absorb)
  moreover have "l3_found c' j = l3_found c j" for j
    using e by (simp add: l3_found_def c'_def AList.update_conv' e'_def)
  moreover have "l3_lru_list c' = k # remove1 k (l3_lru_list c) \<and> l3_bytes c' = l3_bytes c
      \<and> l3_capacity_bytes c' = l3_capacity_bytes c" by (simp add: c'_def l3_bytes_def m)
  ultimately show ?thesis by blast
qed

lemma L3_Lookup_miss:
  assumes g: "l3_good c" and "map_of (l3_entries c) k = None"
  shows "L3_Lookup now c k = Inr (None, c\<lparr>l3_miss_count := l3_miss_count c + 1\<rparr>) \<and> l3_good (c\<lparr>l3_miss_count := l3_miss_count c + 1\<rparr>)"
  using assms by (simp add: L3_Lookup_def l3_good_def l3_bytes_def)

lemma L3_Invalidate_good:
  assumes g: "l3_good c"
  shows "l3_good (L3_Invalidate c k) \<and> map_of (l3_entries (L3_Invalidate c k)) = (map_of (l3_entries c))(k := None)
    \<and> l3_lru_list (L3_Invalidate c k) = remove1 k (l3_lru_list c) \<and> l3_capacity_bytes (L3_Invalidate c k) = l3_capacity_bytes c
    \<and> l3_bytes (L3_Invalidate c k) \<le> l3_bytes c"
proof (cases "map_of (l3_entries c) k")
  case None
  moreover have "k \<notin> set (l3_lru_list c)" using l3_goodD(5) [OF g] None by (simp add: map_of_eq_None_iff)
  ultimately show ?thesis using g by (simp add: L3_Invalidate_def remove1_idem fun_upd_idem)
next
  case (Some e)
  note D = l3_goodD [OF g]
  have k: "k \<in> set (l3_lru_map c)" using D(3,5) map_of_SomeD [OF Some] by force
  have "l3_good (L3_Invalidate c k)"
    by (rule l3_delete_good [OF g Some]) (use Some k in \<open>auto simp: L3_Invalidate_def Let_def\<close>)
  then show ?thesis using Some k assoc_delete_sum [OF Some D(1), of "\<lambda>e. length (l3_data e)"]
    by (simp add: L3_Invalidate_def Let_def AList.delete_conv' l3_bytes_def)
qed

interpretation l3: block_cache l3_good l3_found "l3_touch now" "L3_Insert high now" L3_Invalidate for high now
proof
  fix c k j and d :: "u8 list"
  assume g: "l3_good c"
  show "l3_good (l3_touch now c k)" "l3_found (l3_touch now c k) j = l3_found c j"
    using L3_Lookup_hit [OF g, of k _ now] L3_Lookup_miss [OF g, of k now]
    by (cases "map_of (l3_entries c) k"; force simp: l3_touch_def l3_found_def)+
  show "l3_good (L3_Insert high now c k d)"
    using g EvictIfNeeded_good [OF l3_added_good [OF g]]
    by (cases "map_of (l3_entries c) k") (simp_all add: L3_Insert_added, simp add: L3_Insert_def)
  show "l3_found (L3_Insert high now c k d) j \<noteq> None \<Longrightarrow>
      l3_found (L3_Insert high now c k d) j = l3_found c j \<or> j = k \<and> l3_found (L3_Insert high now c k d) j = Some d"
  proof (cases "map_of (l3_entries c) k")
    case None
    assume f: "l3_found (L3_Insert high now c k d) j \<noteq> None"
    have "map_of (l3_entries (L3_Insert high now c k d)) j \<in> {None, map_of (l3_entries (l3_added now c k d)) j}"
      using EvictIfNeeded_good [OF l3_added_good [OF g None]] by (simp only: L3_Insert_added [OF None])
    then show ?thesis using f None by (auto simp: l3_found_def l3_added_def map_add_def split: option.splits if_splits)
  qed (simp add: L3_Insert_def)
  show "l3_good (L3_Invalidate c k)" "l3_found (L3_Invalidate c k) k = None"
    "l3_found (L3_Invalidate c k) j \<noteq> None \<Longrightarrow> l3_found (L3_Invalidate c k) j = l3_found c j"
    using L3_Invalidate_good [OF g, of k] by (auto simp: l3_found_def split: if_splits)
qed

interpretation l1: block_cache "\<lambda>_. True" "\<lambda>c. map_of (l1_store c)" "\<lambda>c k. snd (L1_Lookup c k)" L1_Insert L1_Invalidate
  by unfold_locales
    (auto simp: L1_Lookup_def L1_Insert_def L1_Invalidate_def AList.update_conv' AList.delete_conv' split: option.splits if_splits)

interpretation ro: block_cache "\<lambda>_. True" RamOverlay_Read "\<lambda>c k. c" "\<lambda>c k d. snd (RamOverlay_Write c k d)" "\<lambda>c k. RamOverlay_Clear c"
  by unfold_locales (auto simp: RamOverlay_Read_def RamOverlay_Write_def RamOverlay_Clear_def AList.update_conv' split: if_splits)

section \<open>The L3 cache keeps the most recently used blocks\<close>

definition l3_size :: "L3SsdCache \<Rightarrow> u64 \<Rightarrow> nat" where
  "l3_size c k = (case l3_found c k of Some d \<Rightarrow> length d | None \<Rightarrow> 0)"

text \<open>The longest prefix of a list whose sizes add up to at most a limit.\<close>

fun fit :: "nat \<Rightarrow> ('k \<Rightarrow> nat) \<Rightarrow> 'k list \<Rightarrow> 'k list" where
  "fit lim f [] = []"
| "fit lim f (k # ks) = (if f k \<le> lim then k # fit (lim - f k) f ks else [])"

lemma fit_snoc: "fit lim f (xs @ [x]) = (if sum_list (map f (xs @ [x])) \<le> lim then xs @ [x] else fit lim f xs)"
  by (induction xs arbitrary: lim) auto

lemma fit_all: "sum_list (map f xs) \<le> lim \<Longrightarrow> fit lim f xs = xs"
  by (induction xs arbitrary: lim) auto

lemma fit_cong: "(\<And>k. k \<in> set xs \<Longrightarrow> f k = g k) \<Longrightarrow> fit lim f xs = fit lim g xs"
  by (induction xs arbitrary: lim) auto

lemma l3_bytes_lru:
  assumes g: "l3_good c"
  shows "l3_bytes c = sum_list (map (l3_size c) (l3_lru_list c))"
proof -
  note D = l3_goodD [OF g]
  have "map (l3_size c) (map fst (l3_entries c)) = map (\<lambda>(k, e). length (l3_data e)) (l3_entries c)"
    using D(1) by (auto simp: l3_size_def l3_found_def dest: map_of_is_SomeI)
  moreover have "sum_list (map (l3_size c) (l3_lru_list c)) = sum_list (map (l3_size c) (map fst (l3_entries c)))"
    using D(2) by (metis mset_map sum_mset_sum_list)
  ultimately show ?thesis by (simp only: l3_bytes_def)
qed

lemma evict_last_size:
  assumes "l3_good c" and "l3_lru_list c \<noteq> []" and "k \<in> set (butlast (l3_lru_list c))"
  shows "l3_size (evict_last c) k = l3_size c k"
proof -
  have "distinct (butlast (l3_lru_list c) @ [last (l3_lru_list c)])" using l3_goodD(6) [OF assms(1)] assms(2) by simp
  then have "k \<noteq> last (l3_lru_list c)" using assms(3) by auto
  then show ?thesis using evict_last_good(2) [OF assms(1,2)] by (simp add: l3_size_def l3_found_def)
qed

lemma Evict_lru:
  "l3_good c \<Longrightarrow> l3_bytes c < 2 ^ 64 \<Longrightarrow>
   l3_lru_list (EvictIfNeeded high c) = fit (unat (high (l3_capacity_bytes c))) (l3_size c) (l3_lru_list c)
   \<and> l3_bytes (EvictIfNeeded high c) \<le> unat (high (l3_capacity_bytes c)) \<and> l3_capacity_bytes (EvictIfNeeded high c) = l3_capacity_bytes c"
proof (induction high c rule: EvictIfNeeded.induct)
  case (1 high c)
  note g = "1.prems"(1) and D = l3_goodD [OF "1.prems"(1)] and B = l3_bytes_lru [OF "1.prems"(1)]
  let ?h = "unat (high (l3_capacity_bytes c))"
  have u: "high (l3_capacity_bytes c) < l3_used_bytes c \<longleftrightarrow> ?h < l3_bytes c"
    using "1.prems"(2) by (simp add: D(4) word_less_nat_alt unat_of_nat take_bit_nat_eq_self)
  show ?case
  proof (cases "high (l3_capacity_bytes c) < l3_used_bytes c \<and> l3_lru_list c \<noteq> []")
    case True
    then have eq: "EvictIfNeeded high c = EvictIfNeeded high (evict_last c)" by (subst EvictIfNeeded.simps) simp
    note ne = conjunct2 [OF True]
    note E = evict_last_good [OF g ne]
    have sz: "map (l3_size (evict_last c)) (butlast (l3_lru_list c)) = map (l3_size c) (butlast (l3_lru_list c))"
      using evict_last_size [OF g ne] by simp
    have sp: "l3_lru_list c = butlast (l3_lru_list c) @ [last (l3_lru_list c)]" using ne by simp
    have "l3_bytes (evict_last c) \<le> l3_bytes c"
      unfolding l3_bytes_lru [OF E(1)] evict_last_lru sz unfolding B by (subst (2) sp) (simp only: map_append sum_list_append)
    then have "l3_bytes (evict_last c) < 2 ^ 64" using "1.prems"(2) by simp
    note I = "1.IH" [OF True E(1) this]
    have "fit ?h (l3_size c) (l3_lru_list c) = fit ?h (l3_size c) (butlast (l3_lru_list c))"
      using True u B by (subst (1) sp) (subst fit_snoc, simp add: sp [symmetric])
    also have "\<dots> = fit ?h (l3_size (evict_last c)) (butlast (l3_lru_list c))"
      by (rule fit_cong) (simp add: evict_last_size [OF g ne])
    finally show ?thesis unfolding eq using I by (simp add: E(3) evict_last_lru)
  next
    case False
    then have eq: "EvictIfNeeded high c = c" by (subst EvictIfNeeded.simps) auto
    have "l3_bytes c \<le> ?h" using False u B by auto
    then show ?thesis unfolding eq using B by (simp add: fit_all)
  qed
qed

lemma Evict_found:
  assumes "l3_good c"
  shows "l3_found (EvictIfNeeded high c) k = (if k \<in> set (l3_lru_list (EvictIfNeeded high c)) then l3_found c k else None)"
proof -
  note E = EvictIfNeeded_good [OF assms, of high]
  note D = l3_goodD [OF conjunct1 [OF E]]
  have "map_of (l3_entries (EvictIfNeeded high c)) k = None \<longleftrightarrow> k \<notin> set (l3_lru_list (EvictIfNeeded high c))"
    by (simp add: D(5) map_of_eq_None_iff)
  then show ?thesis using spec [OF conjunct2 [OF E], of k] by (auto simp: l3_found_def)
qed

section \<open>The runs of an L3 cache\<close>

inductive l3_reach :: "(u64 \<Rightarrow> u64) \<Rightarrow> u64 \<Rightarrow> L3SsdCache \<Rightarrow> bool" for high cap where
  created: "l3_reach high cap (L3SsdCache_new cap)"
| looked: "l3_reach high cap c \<Longrightarrow> L3_Lookup now c k = Inr (r, c') \<Longrightarrow> l3_reach high cap c'"
| inserted: "l3_reach high cap c \<Longrightarrow> length d + unat (high cap) < 2 ^ 64 \<Longrightarrow> l3_reach high cap (L3_Insert high now c k d)"
| invalidated: "l3_reach high cap c \<Longrightarrow> l3_reach high cap (L3_Invalidate c k)"

lemma l3_new_good: "l3_good (L3SsdCache_new cap)"
  by (simp add: L3SsdCache_new_def l3_good_def l3_bytes_def)

lemma l3_added_bytes: "map_of (l3_entries c) k = None \<Longrightarrow> l3_bytes (l3_added now c k d) = l3_bytes c + length d"
  by (simp add: l3_added_def l3_bytes_def)

lemma l3_reach_good:
  "l3_reach high cap c \<Longrightarrow> l3_good c \<and> l3_capacity_bytes c = cap \<and> l3_bytes c \<le> unat (high cap)"
proof (induction rule: l3_reach.induct)
  case created
  then show ?case using l3_new_good by (simp add: L3SsdCache_new_def l3_bytes_def)
next
  case (looked c now k r c')
  then have g: "l3_good c" by blast
  show ?case
  proof (cases "map_of (l3_entries c) k")
    case None
    then show ?thesis using L3_Lookup_miss [OF g None, of now] looked by (simp add: l3_bytes_def)
  next
    case (Some e)
    then show ?thesis using L3_Lookup_hit [OF g Some, of now] looked by auto
  qed
next
  case (inserted c d now k)
  then have g: "l3_good c" by blast
  show ?case
  proof (cases "map_of (l3_entries c) k")
    case None
    note A = l3_added_good [OF g None, of now d]
    have b: "l3_bytes (l3_added now c k d) < 2 ^ 64" using inserted None by (simp add: l3_added_bytes)
    have "l3_capacity_bytes (l3_added now c k d) = cap" using inserted by (simp add: l3_added_def)
    then show ?thesis using EvictIfNeeded_good [OF A, of high] Evict_lru [OF A b, of high] by (simp add: L3_Insert_added [OF None])
  next
    case (Some e)
    then show ?thesis using inserted by (simp add: L3_Insert_def)
  qed
next
  case (invalidated c k)
  then show ?case using L3_Invalidate_good [of c k] by auto
qed

text \<open>
  C7. The L3 cache is an exact least-recently-used cache. In every state that lookups, inserts and
  invalidations can reach, \<^verbatim>\<open>used_bytes_\<close> is the number of bytes stored and at most the high
  watermark. A lookup returns the block and moves it to the front of the list. An insert of a new
  block keeps exactly the longest prefix of the list, with the new block in front, that fits under
  the watermark, and every kept block keeps its data; an insert of a present block changes nothing.
\<close>

theorem l3_lru_exact:
  assumes "l3_reach high cap c" and "length d + unat (high cap) < 2 ^ 64"
  shows "unat (l3_used_bytes c) = l3_bytes c \<and> l3_bytes c \<le> unat (high cap)
    \<and> (\<exists>c'. L3_Lookup now c k = Inr (l3_found c k, c')
         \<and> l3_lru_list c' = (if l3_found c k = None then l3_lru_list c else k # remove1 k (l3_lru_list c)))
    \<and> (let c' = L3_Insert high now c k d in
        if l3_found c k = None
        then l3_lru_list c' = fit (unat (high cap)) (\<lambda>j. if j = k then length d else l3_size c j) (k # l3_lru_list c)
          \<and> (\<forall>j. l3_found c' j = (if j \<notin> set (l3_lru_list c') then None else if j = k then Some d else l3_found c j))
        else c' = c)"
proof -
  have g: "l3_good c" and cap: "l3_capacity_bytes c = cap" and b: "l3_bytes c \<le> unat (high cap)"
    using l3_reach_good [OF assms(1)] by auto
  have "l3_bytes c < 2 ^ 64" using b assms(2) by simp
  then have "unat (l3_used_bytes c) = l3_bytes c" by (simp add: l3_goodD(4) [OF g] unat_of_nat take_bit_nat_eq_self)
  moreover have "\<exists>c'. L3_Lookup now c k = Inr (l3_found c k, c')
         \<and> l3_lru_list c' = (if l3_found c k = None then l3_lru_list c else k # remove1 k (l3_lru_list c))"
  proof (cases "map_of (l3_entries c) k")
    case None
    then show ?thesis using L3_Lookup_miss [OF g None, of now] by (simp add: l3_found_def)
  next
    case (Some e)
    then show ?thesis using L3_Lookup_hit [OF g Some, of now] by (auto simp: l3_found_def)
  qed
  moreover have "let c' = L3_Insert high now c k d in
        if l3_found c k = None
        then l3_lru_list c' = fit (unat (high cap)) (\<lambda>j. if j = k then length d else l3_size c j) (k # l3_lru_list c)
          \<and> (\<forall>j. l3_found c' j = (if j \<notin> set (l3_lru_list c') then None else if j = k then Some d else l3_found c j))
        else c' = c"
  proof (cases "map_of (l3_entries c) k")
    case None
    note A = l3_added_good [OF g None, of now d]
    have f: "l3_found (l3_added now c k d) j = (if j = k then Some d else l3_found c j)" for j
      using None by (auto simp: l3_found_def l3_added_def map_add_def split: option.splits)
    have b2: "l3_bytes (l3_added now c k d) < 2 ^ 64" using b assms(2) None by (simp add: l3_added_bytes)
    have "l3_size (l3_added now c k d) = (\<lambda>j. if j = k then length d else l3_size c j)" by (auto simp: l3_size_def f)
    then have "l3_lru_list (L3_Insert high now c k d) = fit (unat (high cap)) (\<lambda>j. if j = k then length d else l3_size c j) (k # l3_lru_list c)"
      using Evict_lru [OF A b2, of high] cap by (simp add: L3_Insert_added [OF None] l3_added_def)
    moreover have "l3_found c k = None" using None by (simp add: l3_found_def)
    ultimately show ?thesis
      using Evict_found [OF A, of high] unfolding L3_Insert_added [OF None, symmetric] f by (simp add: Let_def del: fit.simps)
  next
    case (Some e)
    then show ?thesis by (simp add: L3_Insert_def l3_found_def)
  qed
  ultimately show ?thesis using b by blast
qed

theorem l3_lru_exact_witness:
  "l3_lru_list (L3_Insert (\<lambda>c. c - 1) 0 (L3SsdCache_new 3) 7 [1, 2]) = [7]"
  using l3_lru_exact [OF l3_reach.created [of "\<lambda>c. c - 1" 3], of "[1, 2]" 0 7]
  by (simp add: l3_found_def L3SsdCache_new_def Let_def)

text \<open>
  A server that keeps blocks on a slow disk behind the cache: a read asks the cache and fills it on
  a miss, a write changes the disk and invalidates the block.
\<close>

inductive l3_sys :: "(u64 \<Rightarrow> u64) \<Rightarrow> L3SsdCache \<Rightarrow> (u64 \<Rightarrow> u8 list) \<Rightarrow> bool" for high where
  start: "l3_sys high (L3SsdCache_new cap) disk"
| hit: "l3_sys high c disk \<Longrightarrow> L3_Lookup now c k = Inr (Some d, c') \<Longrightarrow> l3_sys high c' disk"
| miss: "l3_sys high c disk \<Longrightarrow> L3_Lookup now c k = Inr (None, c') \<Longrightarrow> l3_sys high (L3_Insert high now c' k (disk k)) disk"
| store: "l3_sys high c disk \<Longrightarrow> l3_sys high (L3_Invalidate c k) (disk(k := d))"

lemma l3_sys_coherent: "l3_sys high c disk \<Longrightarrow> l3.coherent c disk"
proof (induction rule: l3_sys.induct)
  case (start cap disk)
  have "l3_found (L3SsdCache_new cap) k = None" for k by (simp add: l3_found_def L3SsdCache_new_def)
  then show ?case unfolding l3.coherent_def using l3_new_good by simp
next
  case (hit c disk now k d c')
  then show ?case using l3.coherent_touch [of c disk now k] by (simp add: l3_touch_def)
next
  case (miss c disk now k c')
  then show ?case using l3.coherent_fill [OF l3.coherent_touch [of c disk now k], of high now k] by (simp add: l3_touch_def)
next
  case (store c disk k d)
  show ?case by (rule l3.coherent_write [OF store.IH])
qed



text \<open>
  The L1 cache never compares its size with its capacity, and an insert that replaces a block does
  not adjust \<^verbatim>\<open>used_\<close>: replacing a block by a longer one and invalidating it makes the counter wrap.
\<close>

lemma l1_used_drifts:
  assumes "length d < length d'" and "length d' < 2 ^ 63"
  shows "unat (l1_used (L1_Invalidate (L1_Insert (L1_Insert (L1RamCache_new cap) k d) k d') k))
    = 2 ^ 64 - (length d' - length d)"
proof -
  have u: "unat (of_nat n :: u64) = n" if "n < 2 ^ 63" for n
    using that by (simp add: unat_of_nat take_bit_nat_eq_self)
  have "l1_used (L1_Invalidate (L1_Insert (L1_Insert (L1RamCache_new cap) k d) k d') k) = of_nat (length d) - of_nat (length d')"
    by (simp add: L1_Invalidate_def L1_Insert_def L1RamCache_new_def)
  then show ?thesis using assms u [of "length d"] u [of "length d'"] by (simp add: unat_sub_if')
qed

end
