(* ===== verification/HD_ImageService.thy ===== *)
theory HD_ImageService
  imports HD_Assoc HD_CString HD_Posix
begin

text \<open>
  The image server (\<^verbatim>\<open>server/image_server/image_service.cpp\<close>): images are files of a directory,
  blocks of 4096 bytes are read and written with \<^verbatim>\<open>pread\<close> and \<^verbatim>\<open>pwrite\<close>. Only images whose file
  is open are in the table, so the descriptor of an image stands for its file.
\<close>

section \<open>State and operations\<close>

definition BLOCK_SIZE :: nat where "BLOCK_SIZE = 4096"

record BlockRequest =
  rq_image_id :: u64
  rq_block_offset :: u64
  rq_block_count :: u32
  rq_layer_id :: u8

record BlockResponse =
  rp_image_id :: u64
  rp_block_offset :: u64
  rp_block_count :: u32
  rp_status :: int
  rp_data :: "u8 list"

record ImageFile =
  img_image_id :: u64
  img_name :: string
  img_path :: string
  img_total_size :: u64
  img_block_count :: u32

record ImageService =
  is_data_dir :: string
  is_images :: "(u64 \<times> ImageFile) list"

definition ImageService_new :: "string \<Rightarrow> ImageService" where
  "ImageService_new data_dir = \<lparr>is_data_dir = data_dir, is_images = []\<rparr>"

definition image_path :: "string \<Rightarrow> u64 \<Rightarrow> string" where
  "image_path dir image_id = dir @ ''/'' @ to_string (unat image_id) @ ''.img''"

definition CreateImage ::
  "posix_env \<Rightarrow> ImageService \<Rightarrow> u64 \<Rightarrow> string \<Rightarrow> u64 \<Rightarrow> posix \<Rightarrow> bool \<times> ImageService \<times> posix" where
  "CreateImage env s image_id name sz fs =
     (if map_of (is_images s) image_id \<noteq> None then (False, s, fs)
      else let img = \<lparr>img_image_id = image_id, img_name = name, img_path = image_path (is_data_dir s) image_id,
                      img_total_size = sz, img_block_count = ucast (sz div of_nat BLOCK_SIZE)\<rparr>
           in (case posix_open env (img_path img) True True fs of
                 (False, fs1) \<Rightarrow> (False, s, fs1)
               | (True, fs1) \<Rightarrow>
                   (case posix_ftruncate env (img_path img) (sint sz) fs1 of
                      (False, fs2) \<Rightarrow> (False, s, fs2)
                    | (True, fs2) \<Rightarrow> (True, s\<lparr>is_images := AList.update image_id img (is_images s)\<rparr>, fs2))))"

definition DeleteImage :: "posix_env \<Rightarrow> ImageService \<Rightarrow> u64 \<Rightarrow> posix \<Rightarrow> bool \<times> ImageService \<times> posix" where
  "DeleteImage env s image_id fs =
     (case map_of (is_images s) image_id of
        None \<Rightarrow> (False, s, fs)
      | Some img \<Rightarrow>
          (True, s\<lparr>is_images := AList.delete image_id (is_images s)\<rparr>, posix_unlink env (img_path img) fs))"

definition FindImage :: "ImageService \<Rightarrow> u64 \<Rightarrow> ImageFile option" where
  "FindImage s image_id = map_of (is_images s) image_id"

text \<open>The byte offset is a 64-bit product that is then read as a signed number.\<close>

definition byte_offset :: "u64 \<Rightarrow> int" where
  "byte_offset block_offset = sint (block_offset * of_nat BLOCK_SIZE)"

definition ReadBlocks :: "posix_env \<Rightarrow> ImageService \<Rightarrow> BlockRequest \<Rightarrow> posix \<Rightarrow> BlockResponse \<times> posix" where
  "ReadBlocks env s req fs =
     (let resp = \<lparr>rp_image_id = rq_image_id req, rp_block_offset = rq_block_offset req,
                  rp_block_count = rq_block_count req, rp_status = 0, rp_data = []\<rparr>
      in (case FindImage s (rq_image_id req) of
            None \<Rightarrow> (resp\<lparr>rp_status := -1\<rparr>, fs)
          | Some img \<Rightarrow>
              (case posix_pread env (img_path img) (byte_offset (rq_block_offset req))
                      (unat (rq_block_count req) * BLOCK_SIZE) fs of
                 (None, fs1) \<Rightarrow> (resp\<lparr>rp_status := -2\<rparr>, fs1)
               | (Some d, fs1) \<Rightarrow> (resp\<lparr>rp_data := d\<rparr>, fs1))))"

definition WriteBlocks :: "posix_env \<Rightarrow> ImageService \<Rightarrow> BlockRequest \<Rightarrow> u8 list \<Rightarrow> posix \<Rightarrow> bool \<times> posix" where
  "WriteBlocks env s req data fs =
     (case FindImage s (rq_image_id req) of
        None \<Rightarrow> (False, fs)
      | Some img \<Rightarrow>
          (case posix_pwrite env (img_path img) (byte_offset (rq_block_offset req)) data fs of
             (n, fs1) \<Rightarrow> (n = Some (length data), fs1)))"

definition ListImages :: "ImageService \<Rightarrow> ImageFile list" where
  "ListImages s = map snd (is_images s)"

section \<open>Every image has its own file\<close>

lemma to_string_inj: "to_string a = to_string b \<longleftrightarrow> a = b"
  using digits_val_to_string by metis

lemma image_path_inj [simp]: "image_path dir a = image_path dir b \<longleftrightarrow> a = b"
  by (simp add: image_path_def to_string_inj word_unat_eq_iff)

definition images_ok :: "ImageService \<Rightarrow> bool" where
  "images_ok s \<longleftrightarrow> (\<forall>(iid, img) \<in> set (is_images s). img_path img = image_path (is_data_dir s) iid)"

inductive image_reach :: "posix_env \<Rightarrow> string \<Rightarrow> ImageService \<Rightarrow> posix \<Rightarrow> bool" for env dir where
  started: "image_reach env dir (ImageService_new dir) fs"
| created: "image_reach env dir s fs \<Longrightarrow> CreateImage env s iid name sz fs = (r, s', fs') \<Longrightarrow> image_reach env dir s' fs'"
| deleted: "image_reach env dir s fs \<Longrightarrow> DeleteImage env s iid fs = (r, s', fs') \<Longrightarrow> image_reach env dir s' fs'"
| read: "image_reach env dir s fs \<Longrightarrow> ReadBlocks env s req fs = (resp, fs') \<Longrightarrow> image_reach env dir s fs'"
| written: "image_reach env dir s fs \<Longrightarrow> WriteBlocks env s req d fs = (r, fs') \<Longrightarrow> image_reach env dir s fs'"

lemma images_ok_create: "images_ok s \<Longrightarrow> CreateImage env s iid name sz fs = (r, s', fs') \<Longrightarrow> images_ok s' \<and> is_data_dir s' = is_data_dir s"
proof -
  assume ok: "images_ok s" and c: "CreateImage env s iid name sz fs = (r, s', fs')"
  define img where "img = \<lparr>img_image_id = iid, img_name = name, img_path = image_path (is_data_dir s) iid,
      img_total_size = sz, img_block_count = ucast (sz div of_nat BLOCK_SIZE)\<rparr>"
  have "s' = s \<or> s' = s\<lparr>is_images := AList.update iid img (is_images s)\<rparr>"
    using c by (auto simp: CreateImage_def Let_def img_def split: if_splits prod.splits bool.splits)
  moreover have "\<forall>(i, m) \<in> set (AList.update iid img (is_images s)). img_path m = image_path (is_data_dir s) i"
    by (rule assoc_update_ball) (use ok in \<open>auto simp: images_ok_def img_def\<close>)
  ultimately show ?thesis using ok by (auto simp: images_ok_def)
qed

lemma image_reach_ok: "image_reach env dir s fs \<Longrightarrow> images_ok s \<and> is_data_dir s = dir"
proof (induction rule: image_reach.induct)
  case (started fs)
  then show ?case by (simp add: images_ok_def ImageService_new_def)
next
  case (created s fs iid name sz r s' fs')
  then show ?case using images_ok_create by blast
next
  case (deleted s fs iid r s' fs')
  have "\<forall>p \<in> set (AList.delete iid (is_images s)). case p of (i, m) \<Rightarrow> img_path m = image_path (is_data_dir s) i"
    using conjunct1 [OF deleted.IH] assoc_delete_subset [of iid "is_images s"] unfolding images_ok_def by blast
  then show ?case using deleted by (auto simp: DeleteImage_def images_ok_def split: option.splits)
qed simp_all

lemma byte_offset_small: "unat off * 4096 < 2 ^ 63 \<Longrightarrow> byte_offset off = int (unat off * 4096)"
proof -
  assume s: "unat off * 4096 < 2 ^ 63"
  then have u: "unat (off * 4096) = unat off * 4096" by (simp add: unat_word_ariths)
  then have "uint (off * 4096) = int (unat off * 4096)" by (metis uint_nat)
  moreover have "int (unat off * 4096) < 2 ^ 63" using s by (metis of_nat_less_iff of_nat_numeral of_nat_power)
  ultimately show ?thesis
    by (simp add: byte_offset_def BLOCK_SIZE_def sint_uint signed_take_bit_eq_if_positive bit_iff_odd take_bit_int_eq_self)
qed

section \<open>Properties\<close>

lemma bytes_put_outside:
  assumes "i < length f" and "i < pos \<or> pos + length d \<le> i"
  shows "bytes_put f pos d ! i = f ! i"
proof (cases "i < pos")
  case True
  then show ?thesis using assms(1) by (simp add: bytes_put_def nth_append)
next
  case False
  then have "pos + length d \<le> i" "pos \<le> length f" "\<not> i - pos < length d" using assms by auto
  then show ?thesis using assms(1) by (simp add: bytes_put_def nth_append)
qed

lemma take_drop_bytes_put:
  assumes "k + n \<le> pos \<or> pos + length d \<le> k" and "k + n \<le> length f"
  shows "take n (drop k (bytes_put f pos d)) = take n (drop k f)"
proof (rule nth_equalityI)
  show "length (take n (drop k (bytes_put f pos d))) = length (take n (drop k f))"
    using assms(2) by (simp add: length_bytes_put)
  fix i assume i: "i < length (take n (drop k (bytes_put f pos d)))"
  then have "bytes_put f pos d ! (k + i) = f ! (k + i)"
    using assms by (intro bytes_put_outside) (auto simp: length_bytes_put)
  then show "take n (drop k (bytes_put f pos d)) ! i = take n (drop k f) ! i"
    using i assms(2) by (simp add: length_bytes_put)
qed

lemma ReadBlocks_healthy:
  assumes "healthy env" and "map_of (is_images s) (rq_image_id req) = Some img" and "unat (rq_block_offset req) * 4096 < 2 ^ 63"
  shows "rp_status (fst (ReadBlocks env s req fs)) = 0 \<and> rp_data (fst (ReadBlocks env s req fs))
    = take (unat (rq_block_count req) * 4096) (drop (unat (rq_block_offset req) * 4096) (file_at fs (img_path img)))"
  using assms
  by (simp add: ReadBlocks_def FindImage_def byte_offset_small posix_pread_def posix_read_healthy BLOCK_SIZE_def Let_def
      nat_mult_distrib flip: of_nat_mult)

lemma ReadBlocks_same_file:
  assumes "\<And>img. map_of (is_images s) (rq_image_id req) = Some img \<Longrightarrow> file_at fs' (img_path img) = file_at fs (img_path img)" and "healthy env"
  shows "fst (ReadBlocks env s req fs') = fst (ReadBlocks env s req fs)"
  using assms by (auto simp: ReadBlocks_def FindImage_def posix_pread_def posix_read_healthy Let_def split: option.splits)


lemma image_run:
  "\<exists>s fs. image_reach healthy_env ''d'' s fs \<and> (\<exists>img. map_of (is_images s) 1 = Some img)"
proof -
  obtain r s fs where c: "CreateImage healthy_env (ImageService_new ''d'') 1 ''n'' 4096 \<lparr>pf_files = (\<lambda>_. None), pf_ops = 0\<rparr> = (r, s, fs)"
    by (metis prod.collapse)
  then have "\<exists>img. map_of (is_images s) 1 = Some img"
    by (auto simp: CreateImage_def ImageService_new_def posix_open_def posix_ftruncate_def healthy_env_def Let_def)
  then show ?thesis using image_reach.created [OF image_reach.started c] by blast
qed


text \<open>
  Block offsets are taken modulo \<open>2 ^ 52\<close>: the byte offset is a 64-bit product and there is no
  check against the size of the image, so a request that far beyond the end of any image reads and
  overwrites its first blocks.
\<close>

theorem image_offset_wraps:
  "rp_status (fst (ReadBlocks env s (req\<lparr>rq_block_offset := rq_block_offset req + 2 ^ 52\<rparr>) fs)) = rp_status (fst (ReadBlocks env s req fs))
   \<and> rp_data (fst (ReadBlocks env s (req\<lparr>rq_block_offset := rq_block_offset req + 2 ^ 52\<rparr>) fs)) = rp_data (fst (ReadBlocks env s req fs))
   \<and> WriteBlocks env s (req\<lparr>rq_block_offset := rq_block_offset req + 2 ^ 52\<rparr>) d fs = WriteBlocks env s req d fs"
proof -
  have "(b + 2 ^ 52) * 4096 = b * (4096 :: u64)" for b by (simp add: distrib_right)
  then have "byte_offset (b + 2 ^ 52) = byte_offset b" for b by (simp only: byte_offset_def BLOCK_SIZE_def of_nat_numeral)
  then show ?thesis by (simp add: ReadBlocks_def WriteBlocks_def Let_def case_prod_unfold split: option.split)
qed

end
