(* ===== verification/HD_NetState.thy ===== *)
theory HD_NetState
  imports HD_CString "HOL-Library.Signed_Division"
begin

text \<open>
  The reconnect state machine of the client (\<^verbatim>\<open>client/disk_runtime/network_state_machine.cpp\<close>).
  Every call of \<^verbatim>\<open>steady_clock::now()\<close> in an operation is a value \<open>clk i\<close> in nanoseconds, \<open>i\<close>
  counting the calls of the operation. The product \<^verbatim>\<open>backoff * backoff_multiplier\<close> of doubles,
  converted back to 32 bits, is the function \<open>multiply\<close> of the configuration. The callback that
  tries to connect is a parameter of \<^verbatim>\<open>Tick\<close>; the calls of the other callbacks are recorded in
  the state. All operations hold the mutex of the object and are therefore atomic.
\<close>

section \<open>State\<close>

datatype ConnectionState = Connected | Detecting | Disconnected | Reconnecting | Recovering | Offline

record ReconnectConfig =
  detect_timeout_ms :: u32
  min_backoff_ms :: u32
  max_backoff_ms :: u32
  multiply :: "u32 \<Rightarrow> u32"
  max_retry_count :: u32
  recovery_timeout_ms :: u32

record ServerEndpoint =
  se_host :: string
  se_port :: u16
  se_is_primary :: bool

record NetworkStateMachine =
  nm_config :: ReconnectConfig
  nm_servers :: "ServerEndpoint list"
  nm_current_server_idx :: nat
  nm_state :: ConnectionState
  nm_retry_count :: u32
  nm_current_backoff_ms :: u32
  nm_last_heartbeat :: int
  nm_state_enter_time :: int
  nm_last_reconnect_attempt :: int
  nm_pending_io_count :: u32
  nm_running :: bool
  nm_changes :: "(ConnectionState \<times> ConnectionState) list"
  nm_recoveries :: nat

definition NetworkStateMachine_new :: "ReconnectConfig \<Rightarrow> NetworkStateMachine" where
  "NetworkStateMachine_new config =
     \<lparr>nm_config = config, nm_servers = [], nm_current_server_idx = 0, nm_state = Offline, nm_retry_count = 0,
      nm_current_backoff_ms = min_backoff_ms config, nm_last_heartbeat = 0, nm_state_enter_time = 0,
      nm_last_reconnect_attempt = 0, nm_pending_io_count = 0, nm_running = False, nm_changes = [], nm_recoveries = 0\<rparr>"

section \<open>Operations\<close>

text \<open>\<open>t1\<close> and \<open>t2\<close> are the two readings of the clock.\<close>

definition TransitionTo :: "int \<Rightarrow> int \<Rightarrow> NetworkStateMachine \<Rightarrow> ConnectionState \<Rightarrow> NetworkStateMachine" where
  "TransitionTo t1 t2 m new =
     (if nm_state m = new then m
      else m\<lparr>nm_state := new, nm_state_enter_time := t1,
             nm_last_reconnect_attempt := (if new = Reconnecting then t2 else nm_last_reconnect_attempt m),
             nm_changes := nm_changes m @ [(nm_state m, new)]\<rparr>)"

fun first_primary :: "ServerEndpoint list \<Rightarrow> nat \<Rightarrow> nat option" where
  "first_primary [] i = None"
| "first_primary (s # ss) i = (if se_is_primary s then Some i else first_primary ss (Suc i))"

definition SetServers :: "NetworkStateMachine \<Rightarrow> ServerEndpoint list \<Rightarrow> NetworkStateMachine" where
  "SetServers m servers =
     (let m1 = m\<lparr>nm_servers := servers\<rparr>
      in if servers = [] then m1
         else m1\<lparr>nm_current_server_idx := (case first_primary servers 0 of Some i \<Rightarrow> i | None \<Rightarrow> 0)\<rparr>)"

definition Start :: "(nat \<Rightarrow> int) \<Rightarrow> NetworkStateMachine \<Rightarrow> NetworkStateMachine" where
  "Start clk m =
     (let m1 = m\<lparr>nm_running := True, nm_retry_count := 0, nm_current_backoff_ms := min_backoff_ms (nm_config m),
                 nm_state_enter_time := clk 0, nm_last_heartbeat := clk 1\<rparr>
      in TransitionTo (clk 2) (clk 3) m1 (if nm_servers m1 \<noteq> [] then Connected else Offline))"

definition Stop :: "(nat \<Rightarrow> int) \<Rightarrow> NetworkStateMachine \<Rightarrow> NetworkStateMachine" where
  "Stop clk m = TransitionTo (clk 0) (clk 1) (m\<lparr>nm_running := False\<rparr>) Offline"

definition OnHeartbeatSuccess :: "(nat \<Rightarrow> int) \<Rightarrow> NetworkStateMachine \<Rightarrow> NetworkStateMachine" where
  "OnHeartbeatSuccess clk m =
     (let m1 = m\<lparr>nm_last_heartbeat := clk 0\<rparr>;
          m2 = m1\<lparr>nm_retry_count := 0, nm_current_backoff_ms := min_backoff_ms (nm_config m1)\<rparr>
      in if nm_state m = Detecting \<or> nm_state m = Reconnecting then TransitionTo (clk 1) (clk 2) m2 Connected
         else if nm_state m = Recovering
         then (let m3 = TransitionTo (clk 1) (clk 2) m2 Connected in m3\<lparr>nm_recoveries := Suc (nm_recoveries m3)\<rparr>)
         else m1)"

definition OnHeartbeatTimeout :: "(nat \<Rightarrow> int) \<Rightarrow> NetworkStateMachine \<Rightarrow> NetworkStateMachine" where
  "OnHeartbeatTimeout clk m =
     (if nm_state m = Connected then TransitionTo (clk 0) (clk 1) m Detecting
      else if nm_state m = Detecting then TransitionTo (clk 0) (clk 1) m Disconnected
      else m)"

definition OnIoSuccess :: "(nat \<Rightarrow> int) \<Rightarrow> NetworkStateMachine \<Rightarrow> NetworkStateMachine" where
  "OnIoSuccess clk m =
     m\<lparr>nm_pending_io_count := (if 0 < nm_pending_io_count m then nm_pending_io_count m - 1 else nm_pending_io_count m),
       nm_last_heartbeat := clk 0\<rparr>"

definition OnIoError :: "(nat \<Rightarrow> int) \<Rightarrow> NetworkStateMachine \<Rightarrow> NetworkStateMachine" where
  "OnIoError clk m =
     (let m1 = m\<lparr>nm_pending_io_count := nm_pending_io_count m + 1\<rparr>
      in if nm_state m1 = Connected then TransitionTo (clk 0) (clk 1) m1 Detecting else m1)"

record ConnectionStateInfo =
  ci_state :: ConnectionState
  ci_retry_count :: u32
  ci_current_backoff_ms :: u32
  ci_last_heartbeat_ms :: u64
  ci_state_enter_time_ms :: u64
  ci_active_server :: string
  ci_pending_io_count :: u32

definition GetStateInfo :: "NetworkStateMachine \<Rightarrow> ConnectionStateInfo" where
  "GetStateInfo m =
     \<lparr>ci_state = nm_state m, ci_retry_count = nm_retry_count m, ci_current_backoff_ms = nm_current_backoff_ms m,
      ci_last_heartbeat_ms = of_int (nm_last_heartbeat m sdiv 1000000),
      ci_state_enter_time_ms = of_int (nm_state_enter_time m sdiv 1000000),
      ci_active_server =
        (if nm_servers m \<noteq> [] \<and> nm_current_server_idx m < length (nm_servers m)
         then se_host (nm_servers m ! nm_current_server_idx m) @ '':'' @
              to_string (unat (se_port (nm_servers m ! nm_current_server_idx m)))
         else []),
      ci_pending_io_count = nm_pending_io_count m\<rparr>"

definition GetActiveServer :: "NetworkStateMachine \<Rightarrow> ServerEndpoint res" where
  "GetActiveServer m = vec_at (nm_servers m) (nm_current_server_idx m)"

definition IsConnected :: "NetworkStateMachine \<Rightarrow> bool" where
  "IsConnected m \<longleftrightarrow> nm_state m = Connected"

definition CanPerformIo :: "NetworkStateMachine \<Rightarrow> bool" where
  "CanPerformIo m \<longleftrightarrow> nm_state m = Connected \<or> nm_state m = Detecting"

definition TryReconnect :: "int \<Rightarrow> int \<Rightarrow> NetworkStateMachine \<Rightarrow> NetworkStateMachine" where
  "TryReconnect t1 t2 m =
     TransitionTo t1 t2 (m\<lparr>nm_retry_count := 0, nm_current_backoff_ms := min_backoff_ms (nm_config m)\<rparr>) Reconnecting"

fun next_server :: "nat \<Rightarrow> nat \<Rightarrow> nat list \<Rightarrow> nat option" where
  "next_server n cur [] = None"
| "next_server n cur (i # is) =
     (let next = (cur + 1 + i) mod n in if next = cur then next_server n cur is else Some next)"

definition TryNextServer :: "NetworkStateMachine \<Rightarrow> bool \<times> NetworkStateMachine" where
  "TryNextServer m =
     (let n = length (nm_servers m)
      in if n \<le> 1 then (False, m)
         else (case next_server n (nm_current_server_idx m) [0..<n] of
                 Some next \<Rightarrow> (True, m\<lparr>nm_current_server_idx := next\<rparr>)
               | None \<Rightarrow> (False, m)))"

fun backoff_loop :: "ReconnectConfig \<Rightarrow> nat \<Rightarrow> u32 \<Rightarrow> u32" where
  "backoff_loop cfg 0 backoff = backoff"
| "backoff_loop cfg (Suc n) backoff =
     (let b = multiply cfg backoff in if max_backoff_ms cfg \<le> b then max_backoff_ms cfg else backoff_loop cfg n b)"

definition ComputeBackoff :: "NetworkStateMachine \<Rightarrow> u32" where
  "ComputeBackoff m = backoff_loop (nm_config m) (unat (nm_retry_count m)) (min_backoff_ms (nm_config m))"

text \<open>\<^verbatim>\<open>duration_cast<milliseconds>(b - a).count()\<close>\<close>

definition elapsed_ms :: "int \<Rightarrow> int \<Rightarrow> int" where
  "elapsed_ms a b = (b - a) sdiv 1000000"

text \<open>\<open>conn\<close> is the connect callback, if one is set.\<close>

definition Tick :: "(ServerEndpoint \<Rightarrow> bool) option \<Rightarrow> (nat \<Rightarrow> int) \<Rightarrow> NetworkStateMachine \<Rightarrow> NetworkStateMachine res" where
  "Tick conn clk m =
     (let cfg = nm_config m; now = clk 0 in
      if \<not> nm_running m then Inr m
      else case nm_state m of
        Connected \<Rightarrow>
          Inr (if uint (detect_timeout_ms cfg) < elapsed_ms (nm_last_heartbeat m) now
               then TransitionTo (clk 1) (clk 2) m Detecting else m)
      | Detecting \<Rightarrow>
          Inr (if uint (detect_timeout_ms cfg) < elapsed_ms (nm_state_enter_time m) now
               then TransitionTo (clk 1) (clk 2) m Disconnected else m)
      | Disconnected \<Rightarrow> Inr (TryReconnect (clk 1) (clk 2) m)
      | Reconnecting \<Rightarrow>
          if uint (nm_current_backoff_ms m) \<le> elapsed_ms (nm_last_reconnect_attempt m) now
          then (case conn of
                  None \<Rightarrow> Inr m
                | Some connect \<Rightarrow>
                    if nm_servers m = [] then Inr m
                    else rbind (vec_at (nm_servers m) (nm_current_server_idx m)) (\<lambda>server.
                      if connect server
                      then Inr (TransitionTo (clk 1) (clk 2)
                                  (m\<lparr>nm_retry_count := 0, nm_current_backoff_ms := min_backoff_ms cfg\<rparr>) Recovering)
                      else let m1 = m\<lparr>nm_retry_count := nm_retry_count m + 1\<rparr>
                           in if max_retry_count cfg \<le> nm_retry_count m1
                              then (case TryNextServer m1 of
                                      (False, m2) \<Rightarrow> Inr (TransitionTo (clk 1) (clk 2) m2 Offline)
                                    | (True, m2) \<Rightarrow> Inr (TransitionTo (clk 1) (clk 2) (m2\<lparr>nm_retry_count := 0\<rparr>) Reconnecting))
                              else Inr (m1\<lparr>nm_current_backoff_ms := ComputeBackoff m1, nm_last_reconnect_attempt := now\<rparr>)))
          else Inr m
      | Recovering \<Rightarrow>
          Inr (if uint (recovery_timeout_ms cfg) < elapsed_ms (nm_state_enter_time m) now
               then TransitionTo (clk 1) (clk 2) m Disconnected else m)
      | Offline \<Rightarrow> Inr m)"

section \<open>Events\<close>

datatype nm_event =
  EvServers "ServerEndpoint list" | EvStart | EvStop | EvHeartbeat | EvHeartbeatTimeout | EvIoSuccess | EvIoError | EvTick

fun nm_apply ::
  "(ServerEndpoint \<Rightarrow> bool) option \<Rightarrow> (nat \<Rightarrow> int) \<Rightarrow> nm_event \<Rightarrow> NetworkStateMachine \<Rightarrow> NetworkStateMachine res" where
  "nm_apply conn clk (EvServers ss) m = Inr (SetServers m ss)"
| "nm_apply conn clk EvStart m = Inr (Start clk m)"
| "nm_apply conn clk EvStop m = Inr (Stop clk m)"
| "nm_apply conn clk EvHeartbeat m = Inr (OnHeartbeatSuccess clk m)"
| "nm_apply conn clk EvHeartbeatTimeout m = Inr (OnHeartbeatTimeout clk m)"
| "nm_apply conn clk EvIoSuccess m = Inr (OnIoSuccess clk m)"
| "nm_apply conn clk EvIoError m = Inr (OnIoError clk m)"
| "nm_apply conn clk EvTick m = Tick conn clk m"

inductive nm_reach :: "ReconnectConfig \<Rightarrow> NetworkStateMachine \<Rightarrow> bool" for cfg where
  created: "nm_reach cfg (NetworkStateMachine_new cfg)"
| event: "nm_reach cfg m \<Longrightarrow> nm_apply conn clk ev m = Inr m' \<Longrightarrow> nm_reach cfg m'"

text \<open>The transitions that heartbeats, input and output and the timer make.\<close>

fun nm_edge :: "ConnectionState \<Rightarrow> ConnectionState \<Rightarrow> bool" where
  "nm_edge Connected b = (b = Detecting)"
| "nm_edge Detecting b = (b = Connected \<or> b = Disconnected)"
| "nm_edge Disconnected b = (b = Reconnecting)"
| "nm_edge Reconnecting b = (b = Connected \<or> b = Recovering \<or> b = Offline)"
| "nm_edge Recovering b = (b = Connected \<or> b = Disconnected)"
| "nm_edge Offline b = False"

text \<open>A multiplier of at least one, and sensible limits.\<close>

definition cfg_ok :: "ReconnectConfig \<Rightarrow> bool" where
  "cfg_ok cfg \<longleftrightarrow> min_backoff_ms cfg \<le> max_backoff_ms cfg \<and> (\<forall>b. b \<le> max_backoff_ms cfg \<longrightarrow> b \<le> multiply cfg b)"

definition nm_ok :: "NetworkStateMachine \<Rightarrow> bool" where
  "nm_ok m \<longleftrightarrow> (nm_servers m \<noteq> [] \<longrightarrow> nm_current_server_idx m < length (nm_servers m))
     \<and> min_backoff_ms (nm_config m) \<le> nm_current_backoff_ms m \<and> nm_current_backoff_ms m \<le> max_backoff_ms (nm_config m)"

lemma TransitionTo_simps [simp]:
  "nm_state (TransitionTo t1 t2 m s) = s" "nm_servers (TransitionTo t1 t2 m s) = nm_servers m"
  "nm_current_server_idx (TransitionTo t1 t2 m s) = nm_current_server_idx m"
  "nm_current_backoff_ms (TransitionTo t1 t2 m s) = nm_current_backoff_ms m" "nm_config (TransitionTo t1 t2 m s) = nm_config m"
  "nm_running (TransitionTo t1 t2 m s) = nm_running m" "nm_retry_count (TransitionTo t1 t2 m s) = nm_retry_count m"
  by (auto simp: TransitionTo_def)

lemma nm_ok_TransitionTo [simp]: "nm_ok (TransitionTo t1 t2 m s) = nm_ok m"
  by (simp add: nm_ok_def)

lemma first_primary_less: "first_primary ss i = Some j \<Longrightarrow> j < i + length ss"
  by (induction ss i rule: first_primary.induct) (auto split: if_splits)

lemma next_server_less: "next_server n cur is = Some j \<Longrightarrow> 0 < n \<Longrightarrow> j < n"
  by (induction n cur "is" rule: next_server.induct) (auto simp: Let_def split: if_splits)

lemma backoff_loop_bounds:
  "cfg_ok cfg \<Longrightarrow> min_backoff_ms cfg \<le> b \<Longrightarrow> b \<le> max_backoff_ms cfg \<Longrightarrow>
   min_backoff_ms cfg \<le> backoff_loop cfg n b \<and> backoff_loop cfg n b \<le> max_backoff_ms cfg"
proof (induction cfg n b rule: backoff_loop.induct)
  case (2 cfg n b)
  show ?case
  proof (cases "max_backoff_ms cfg \<le> multiply cfg b")
    case True
    then show ?thesis using 2(2) by (simp add: cfg_ok_def)
  next
    case False
    have "b \<le> multiply cfg b" using 2(2,4) unfolding cfg_ok_def by blast
    then show ?thesis using 2(1) [OF refl False 2(2)] 2(3) False by (simp add: Let_def)
  qed
qed simp

lemma SetServers_ok: "nm_ok m \<Longrightarrow> nm_ok (SetServers m ss) \<and> nm_config (SetServers m ss) = nm_config m \<and> nm_state (SetServers m ss) = nm_state m"
  using first_primary_less [of ss 0] by (auto simp: nm_ok_def SetServers_def Let_def split: option.split)

lemma TryNextServer_ok:
  assumes "TryNextServer m = (r, m')" and "nm_ok m"
  shows "nm_ok m' \<and> nm_config m' = nm_config m \<and> nm_state m' = nm_state m \<and> nm_running m' = nm_running m
    \<and> nm_servers m' = nm_servers m \<and> (r \<longleftrightarrow> 2 \<le> length (nm_servers m))"
proof (cases "length (nm_servers m) \<le> 1")
  case True
  then show ?thesis using assms by (simp add: TryNextServer_def)
next
  case False
  let ?n = "length (nm_servers m)" and ?c = "nm_current_server_idx m"
  have c: "?c < ?n" using assms(2) False by (cases "nm_servers m") (auto simp: nm_ok_def)
  have "(?c + 1 + 0) mod ?n \<noteq> ?c" using c False by (cases "Suc ?c = ?n") auto
  moreover have "0 < ?n" using False by linarith
  then have "[0..<?n] = 0 # [Suc 0..<?n]" by (rule upt_conv_Cons)
  ultimately have "next_server ?n ?c [0..<?n] = Some ((?c + 1 + 0) mod ?n)" by (simp add: Let_def)
  then show ?thesis using assms False by (auto simp: TryNextServer_def Let_def nm_ok_def)
qed

lemma ComputeBackoff_ok: "cfg_ok (nm_config m) \<Longrightarrow>
    min_backoff_ms (nm_config m) \<le> ComputeBackoff m \<and> ComputeBackoff m \<le> max_backoff_ms (nm_config m)"
  unfolding ComputeBackoff_def by (rule backoff_loop_bounds) (auto simp: cfg_ok_def)

text \<open>A connect attempt that is due and fails.\<close>

definition attempt_failed :: "(nat \<Rightarrow> int) \<Rightarrow> NetworkStateMachine \<Rightarrow> NetworkStateMachine" where
  "attempt_failed clk m =
     (let m1 = m\<lparr>nm_retry_count := nm_retry_count m + 1\<rparr>
      in if max_retry_count (nm_config m) \<le> nm_retry_count m1
         then (case TryNextServer m1 of
                 (False, m2) \<Rightarrow> TransitionTo (clk 1) (clk 2) m2 Offline
               | (True, m2) \<Rightarrow> TransitionTo (clk 1) (clk 2) (m2\<lparr>nm_retry_count := 0\<rparr>) Reconnecting)
         else m1\<lparr>nm_current_backoff_ms := ComputeBackoff m1, nm_last_reconnect_attempt := clk 0\<rparr>)"

lemma attempt_failed_ok:
  assumes ok: "nm_ok m" and cfg: "cfg_ok (nm_config m)" and s: "nm_state m = Reconnecting"
  shows "nm_ok (attempt_failed clk m)" "nm_config (attempt_failed clk m) = nm_config m"
    "nm_servers (attempt_failed clk m) = nm_servers m" "nm_running (attempt_failed clk m) = nm_running m"
    "nm_state (attempt_failed clk m) = (if max_retry_count (nm_config m) \<le> nm_retry_count m + 1 \<and> length (nm_servers m) < 2
       then Offline else Reconnecting)"
proof -
  let ?m1 = "m\<lparr>nm_retry_count := nm_retry_count m + 1\<rparr>"
  obtain r m2 where t: "TryNextServer ?m1 = (r, m2)" by fastforce
  have ok1: "nm_ok ?m1" using ok by (simp add: nm_ok_def)
  note T = TryNextServer_ok [OF t ok1]
  have b: "nm_ok (?m1\<lparr>nm_current_backoff_ms := ComputeBackoff ?m1, nm_last_reconnect_attempt := clk 0\<rparr>)"
    using ok ComputeBackoff_ok [of ?m1] cfg by (simp add: nm_ok_def)
  have "nm_ok m2" using T by blast
  then have r2: "nm_ok (m2\<lparr>nm_retry_count := 0\<rparr>)" by (simp add: nm_ok_def)
  show "nm_ok (attempt_failed clk m)" "nm_config (attempt_failed clk m) = nm_config m"
    "nm_servers (attempt_failed clk m) = nm_servers m" "nm_running (attempt_failed clk m) = nm_running m"
    "nm_state (attempt_failed clk m) = (if max_retry_count (nm_config m) \<le> nm_retry_count m + 1 \<and> length (nm_servers m) < 2
       then Offline else Reconnecting)"
    using T t b r2 s by (cases r; simp add: attempt_failed_def Let_def)+
qed

definition due :: "(nat \<Rightarrow> int) \<Rightarrow> NetworkStateMachine \<Rightarrow> bool" where
  "due clk m \<longleftrightarrow> uint (nm_current_backoff_ms m) \<le> elapsed_ms (nm_last_reconnect_attempt m) (clk 0)"

lemma Tick_reconnecting:
  assumes "nm_ok m" and "nm_running m" and "nm_state m = Reconnecting"
  shows "Tick conn clk m = Inr (if \<not> due clk m \<or> conn = None \<or> nm_servers m = [] then m
    else if the conn (nm_servers m ! nm_current_server_idx m)
    then TransitionTo (clk 1) (clk 2) (m\<lparr>nm_retry_count := 0, nm_current_backoff_ms := min_backoff_ms (nm_config m)\<rparr>) Recovering
    else attempt_failed clk m)"
  using assms by (auto simp: Tick_def Let_def due_def attempt_failed_def nm_ok_def split: option.split prod.split bool.split)

lemma nm_ok_reset: "nm_ok m \<Longrightarrow> cfg_ok (nm_config m) \<Longrightarrow> nm_ok (m\<lparr>nm_retry_count := r, nm_current_backoff_ms := min_backoff_ms (nm_config m)\<rparr>)"
  by (simp add: nm_ok_def cfg_ok_def)

lemma Tick_ok:
  assumes ok: "nm_ok m" and cfg: "cfg_ok (nm_config m)"
  shows "\<exists>m'. Tick conn clk m = Inr m' \<and> nm_ok m' \<and> nm_config m' = nm_config m
    \<and> (nm_state m' = nm_state m \<or> nm_edge (nm_state m) (nm_state m'))"
proof (cases "nm_running m \<and> nm_state m = Reconnecting")
  case True
  then show ?thesis
    using Tick_reconnecting [OF ok, of conn clk] attempt_failed_ok [OF ok cfg, of clk] nm_ok_reset [OF ok cfg, of 0] ok by auto
next
  case False
  then show ?thesis using ok nm_ok_reset [OF ok cfg, of 0]
    by (cases "nm_state m") (auto simp: Tick_def TryReconnect_def Let_def)
qed

lemma event_ok:
  assumes ok: "nm_ok m" and cfg: "cfg_ok (nm_config m)" and a: "nm_apply conn clk ev m = Inr m'"
  shows "nm_ok m' \<and> nm_config m' = nm_config m"
proof (cases ev)
  case (EvServers ss)
  then show ?thesis using SetServers_ok [OF ok, of ss] a by auto
next
  case EvTick
  then show ?thesis using Tick_ok [OF ok cfg, of conn clk] a by auto
next
  case EvStart
  then show ?thesis using a ok cfg by (auto simp: Start_def Let_def) (simp_all add: nm_ok_def cfg_ok_def)
next
  case EvStop
  then show ?thesis using a ok by (auto simp: Stop_def) (simp add: nm_ok_def)
next
  case EvHeartbeat
  then show ?thesis using a ok cfg by (auto simp: OnHeartbeatSuccess_def Let_def) (simp_all add: nm_ok_def cfg_ok_def)
next
  case EvHeartbeatTimeout
  then show ?thesis using a ok by (auto simp: OnHeartbeatTimeout_def)
next
  case EvIoSuccess
  then show ?thesis using a ok by (auto simp: OnIoSuccess_def nm_ok_def)
next
  case EvIoError
  then show ?thesis using a ok by (cases "nm_state m = Connected") (auto simp: OnIoError_def Let_def nm_ok_def)
qed

lemma nm_reach_ok: "nm_reach cfg m \<Longrightarrow> cfg_ok cfg \<Longrightarrow> nm_ok m \<and> nm_config m = cfg"
proof (induction rule: nm_reach.induct)
  case created
  then show ?case by (simp add: NetworkStateMachine_new_def nm_ok_def cfg_ok_def)
next
  case (event m conn clk ev m')
  then have ok: "nm_ok m" and c: "nm_config m = cfg" by blast+
  show ?case using event_ok [OF ok _ event.hyps(2)] event.prems c by simp
qed

section \<open>Properties\<close>


text \<open>The default configuration, with doubling.\<close>

definition default_config :: ReconnectConfig where
  "default_config = \<lparr>detect_timeout_ms = 5000, min_backoff_ms = 1000, max_backoff_ms = 30000, multiply = (\<lambda>b. b * 2),
     max_retry_count = 10, recovery_timeout_ms = 30000\<rparr>"

lemma default_config_ok: "cfg_ok default_config"
proof -
  have "b \<le> b * 2" if "b \<le> 30000" for b :: u32
    using that by (simp add: word_le_nat_alt unat_word_ariths)
  then show ?thesis by (simp add: cfg_ok_def default_config_def)
qed


section \<open>Giving up\<close>

lemma elapsed_ms_ge: "p + int g * 1000000 \<le> t \<Longrightarrow> int g \<le> elapsed_ms p t"
proof -
  assume a: "p + int g * 1000000 \<le> t"
  then have "elapsed_ms p t = (t - p) div 1000000" by (simp add: elapsed_ms_def signed_divide_int_def sgn_if)
  moreover have "int g * 1000000 div 1000000 \<le> (t - p) div 1000000" using a by (intro zdiv_mono1) auto
  ultimately show ?thesis by simp
qed

text \<open>Readings of the clock, one function for each tick, at least \<open>g\<close> milliseconds apart.\<close>

fun spaced :: "nat \<Rightarrow> int \<Rightarrow> (nat \<Rightarrow> int) list \<Rightarrow> bool" where
  "spaced g p [] = True"
| "spaced g p (c # cs) = (p + int g * 1000000 \<le> c 0 \<and> spaced g (c 0) cs)"

lemma due_spaced:
  assumes "nm_ok m" and "nm_last_reconnect_attempt m + int (unat (max_backoff_ms (nm_config m))) * 1000000 \<le> clk 0"
  shows "due clk m"
proof -
  have "unat (nm_current_backoff_ms m) \<le> unat (max_backoff_ms (nm_config m))" using assms(1) by (simp add: nm_ok_def word_le_nat_alt)
  then have "int (unat (nm_current_backoff_ms m)) \<le> elapsed_ms (nm_last_reconnect_attempt m) (clk 0)"
    using elapsed_ms_ge [OF assms(2)] by linarith
  then show ?thesis by (simp add: due_def)
qed

lemma Tick_fails:
  assumes ok: "nm_ok m" and cfg: "cfg_ok (nm_config m)" and m: "nm_running m" "nm_state m = Reconnecting" "nm_servers m \<noteq> []"
    and d: "due clk m"
  shows "Tick (Some (\<lambda>_. False)) clk m = Inr (attempt_failed clk m)"
  using Tick_reconnecting [OF ok m(1,2)] d m(3) by simp

lemma single_server_run:
  assumes "nm_ok m" and "cfg_ok (nm_config m)" and "nm_running m" and "nm_state m = Reconnecting" and "length (nm_servers m) = 1"
    and "spaced (unat (max_backoff_ms (nm_config m))) (nm_last_reconnect_attempt m) cs"
    and "unat (nm_retry_count m) + length cs \<le> unat (max_retry_count (nm_config m))" and "unat (nm_retry_count m) < unat (max_retry_count (nm_config m))"
  shows "\<exists>m'. res_fold (\<lambda>m clk. Tick (Some (\<lambda>_. False)) clk m) m cs = Inr m'
    \<and> nm_state m' = (if unat (nm_retry_count m) + length cs = unat (max_retry_count (nm_config m)) then Offline else Reconnecting)"
  using assms
proof (induction cs arbitrary: m)
  case Nil
  then show ?case by simp
next
  case (Cons c cs)
  let ?R = "unat (max_retry_count (nm_config m))" and ?m = "attempt_failed c m"
  have ne: "nm_servers m \<noteq> []" using Cons.prems(5) by auto
  have "due c m" using Cons.prems(1,6) by (intro due_spaced) simp_all
  then have t: "Tick (Some (\<lambda>_. False)) c m = Inr ?m" by (rule Tick_fails [OF Cons.prems(1-4) ne])
  note A = attempt_failed_ok [OF Cons.prems(1,2,4), of c]
  have "?R < 2 ^ 32" by (rule order_less_le_trans [OF unsigned_less]) simp
  then have u: "unat (nm_retry_count m + 1) = unat (nm_retry_count m) + 1"
    using Cons.prems(8) by (simp add: unat_word_ariths)
  then have w: "max_retry_count (nm_config m) \<le> nm_retry_count m + 1 \<longleftrightarrow> ?R \<le> unat (nm_retry_count m) + 1"
    by (simp add: word_le_nat_alt)
  show ?case
  proof (cases "?R \<le> unat (nm_retry_count m) + 1")
    case True
    then have "length cs = 0" using Cons.prems(7) unfolding list.size by linarith
    then have "cs = []" by simp
    moreover have "nm_state ?m = Offline" using A(5) True w Cons.prems(5) by simp
    ultimately show ?thesis using t Cons.prems(7,8) True by simp
  next
    case False
    have f: "nm_retry_count ?m = nm_retry_count m + 1" "nm_last_reconnect_attempt ?m = c 0" "nm_state ?m = Reconnecting"
      using False w A(5) by (simp_all add: attempt_failed_def Let_def)
    have "\<exists>m'. res_fold (\<lambda>m clk. Tick (Some (\<lambda>_. False)) clk m) ?m cs = Inr m'
      \<and> nm_state m' = (if unat (nm_retry_count ?m) + length cs = unat (max_retry_count (nm_config ?m)) then Offline else Reconnecting)"
      by (rule Cons.IH) (use A f u Cons.prems False in auto)
    then show ?thesis using t f u A(2) by simp
  qed
qed

lemma two_server_run:
  assumes "nm_ok m" and "cfg_ok (nm_config m)" and "nm_state m = Reconnecting" and "2 \<le> length (nm_servers m)"
  shows "\<exists>m'. res_fold (\<lambda>m clk. Tick (Some (\<lambda>_. False)) clk m) m cs = Inr m' \<and> nm_state m' = Reconnecting"
  using assms
proof (induction cs arbitrary: m)
  case (Cons c cs)
  show ?case
  proof (cases "nm_running m \<and> due c m")
    case True
    have ne: "nm_servers m \<noteq> []" using Cons.prems(4) by auto
    note A = attempt_failed_ok [OF Cons.prems(1-3), of c]
    have "\<exists>m'. res_fold (\<lambda>m clk. Tick (Some (\<lambda>_. False)) clk m) (attempt_failed c m) cs = Inr m' \<and> nm_state m' = Reconnecting"
      by (rule Cons.IH) (use A Cons.prems in auto)
    then show ?thesis using Tick_fails [OF Cons.prems(1,2) _ Cons.prems(3) ne, of c] True by simp
  next
    case False
    then have "Tick (Some (\<lambda>_. False)) c m = Inr m"
      using Cons.prems(3) by (auto simp: Tick_def Let_def due_def)
    then show ?thesis using Cons.IH [OF Cons.prems] by simp
  qed
qed simp



end
