(* ===== verification/HD_BootMeta.thy ===== *)
theory HD_BootMeta
  imports HD_FrameCodec HD_CString
begin

text \<open>
  The boot metadata of the client, \<^verbatim>\<open>client/boot_agent/boot_meta.{h,cpp}\<close>: the packed struct of 310
  bytes, its checksum, the file it is loaded from and saved to, and the request to the image
  server. Streams and sockets are parameters: what a file stream delivers, whether a call
  succeeds, which bytes arrive. The uninitialised stack buffers of \<^verbatim>\<open>LoadFromServer\<close> are arguments.
\<close>

section \<open>The struct\<close>

record BootMeta =
  bm_magic :: u32
  bm_version :: u16
  bm_image_id :: u64
  bm_disk_size :: u64
  bm_block_size :: u32
  bm_block_count :: u32
  bm_layer_id :: u8
  bm_write_policy :: u8
  bm_reserved1 :: "u8 list"
  bm_primary_server :: "u8 list"
  bm_primary_port :: u16
  bm_secondary_server :: "u8 list"
  bm_secondary_port :: u16
  bm_overlay_path :: "u8 list"
  bm_block_map_offset :: u64
  bm_block_map_count :: u32
  bm_crc32c :: u32

definition BOOT_META_MAGIC :: u32 where "BOOT_META_MAGIC = 0x4844424D"
definition BOOT_META_VERSION :: u16 where "BOOT_META_VERSION = 1"

text \<open>The lengths of the arrays, part of the type in the source.\<close>

definition meta_wf :: "BootMeta \<Rightarrow> bool" where
  "meta_wf m \<longleftrightarrow> length (bm_reserved1 m) = 2 \<and> length (bm_primary_server m) = 64
     \<and> length (bm_secondary_server m) = 64 \<and> length (bm_overlay_path m) = 128"

definition meta_head :: "BootMeta \<Rightarrow> u8 list" where
  "meta_head m =
     le_bytes 4 (bm_magic m) @ le_bytes 2 (bm_version m) @ le_bytes 8 (bm_image_id m) @ le_bytes 8 (bm_disk_size m)
     @ le_bytes 4 (bm_block_size m) @ le_bytes 4 (bm_block_count m) @ [bm_layer_id m, bm_write_policy m]
     @ bm_reserved1 m @ bm_primary_server m @ le_bytes 2 (bm_primary_port m) @ bm_secondary_server m
     @ le_bytes 2 (bm_secondary_port m) @ bm_overlay_path m @ le_bytes 8 (bm_block_map_offset m)
     @ le_bytes 4 (bm_block_map_count m)"

definition meta_bytes :: "BootMeta \<Rightarrow> u8 list" where
  "meta_bytes m = meta_head m @ le_bytes 4 (bm_crc32c m)"

definition sizeof_BootMeta :: nat where "sizeof_BootMeta = 310"

definition meta_of_bytes :: "u8 list \<Rightarrow> BootMeta" where
  "meta_of_bytes bs =
     \<lparr>bm_magic = le_word 4 bs, bm_version = le_word 2 (drop 4 bs), bm_image_id = le_word 8 (drop 6 bs),
      bm_disk_size = le_word 8 (drop 14 bs), bm_block_size = le_word 4 (drop 22 bs),
      bm_block_count = le_word 4 (drop 26 bs), bm_layer_id = bs ! 30, bm_write_policy = bs ! 31,
      bm_reserved1 = take 2 (drop 32 bs), bm_primary_server = take 64 (drop 34 bs),
      bm_primary_port = le_word 2 (drop 98 bs), bm_secondary_server = take 64 (drop 100 bs),
      bm_secondary_port = le_word 2 (drop 164 bs), bm_overlay_path = take 128 (drop 166 bs),
      bm_block_map_offset = le_word 8 (drop 294 bs), bm_block_map_count = le_word 4 (drop 302 bs),
      bm_crc32c = le_word 4 (drop 306 bs)\<rparr>"

section \<open>BootMetaCache\<close>

record BootMetaCache =
  bc_meta :: BootMeta
  bc_valid :: bool

definition ComputeCrc :: "BootMetaCache \<Rightarrow> u32" where
  "ComputeCrc bc = boot_meta_Crc32c (take 306 (meta_bytes (bc_meta bc)))"

definition ValidateCrc :: "BootMetaCache \<Rightarrow> bool" where
  "ValidateCrc bc \<longleftrightarrow> bm_crc32c (bc_meta bc) = ComputeCrc bc"

text \<open>\<^verbatim>\<open>strncpy\<close> into an array of \<open>n\<close> zero bytes whose last byte is not written.\<close>

definition strncpy_zero :: "nat \<Rightarrow> string \<Rightarrow> u8 list" where
  "strncpy_zero n s = take (n - 1) (bytes_of_string s) @ replicate (n - min (n - 1) (length s)) 0"

definition default_meta :: BootMeta where
  "default_meta =
     \<lparr>bm_magic = BOOT_META_MAGIC, bm_version = BOOT_META_VERSION, bm_image_id = 0, bm_disk_size = 0,
      bm_block_size = 4096, bm_block_count = 0, bm_layer_id = 0, bm_write_policy = 0, bm_reserved1 = replicate 2 0,
      bm_primary_server = strncpy_zero 64 ''10.10.200.10'', bm_primary_port = 9527,
      bm_secondary_server = replicate 64 0, bm_secondary_port = 0, bm_overlay_path = replicate 128 0,
      bm_block_map_offset = 0, bm_block_map_count = 0, bm_crc32c = 0\<rparr>"

definition ApplyDefaults :: "BootMetaCache \<Rightarrow> BootMetaCache" where
  "ApplyDefaults bc = bc\<lparr>bc_meta := default_meta\<rparr>"

text \<open>\<open>file\<close> is what the input stream delivers, \<^term>\<open>None\<close> if it cannot be opened.\<close>

definition Load :: "BootMetaCache \<Rightarrow> u8 list option \<Rightarrow> bool \<times> BootMetaCache" where
  "Load bc file =
     (case file of
        None \<Rightarrow> (False, (ApplyDefaults bc)\<lparr>bc_valid := False\<rparr>)
      | Some bs \<Rightarrow>
          if length bs < sizeof_BootMeta \<or> bm_magic (meta_of_bytes bs) \<noteq> BOOT_META_MAGIC
          then (False, (ApplyDefaults bc)\<lparr>bc_valid := False\<rparr>)
          else let bc1 = bc\<lparr>bc_meta := meta_of_bytes (take sizeof_BootMeta bs)\<rparr>
               in if \<not> ValidateCrc bc1 then (False, (ApplyDefaults bc1)\<lparr>bc_valid := False\<rparr>)
                  else (True, bc1\<lparr>bc_valid := True\<rparr>))"

text \<open>\<open>open_ok\<close> and \<open>write_ok\<close>: the outcome of the output stream. The last component is what it wrote.\<close>

definition Save :: "bool \<Rightarrow> bool \<Rightarrow> BootMetaCache \<Rightarrow> bool \<times> BootMetaCache \<times> u8 list option" where
  "Save open_ok write_ok bc =
     (let bc1 = bc\<lparr>bc_meta := (bc_meta bc)\<lparr>bm_magic := BOOT_META_MAGIC, bm_version := BOOT_META_VERSION\<rparr>\<rparr>;
          bc2 = bc1\<lparr>bc_meta := (bc_meta bc1)\<lparr>bm_crc32c := ComputeCrc bc1\<rparr>\<rparr>
      in if \<not> open_ok then (False, bc2, None)
         else if write_ok then (True, bc2, Some (meta_bytes (bc_meta bc2)))
         else (False, bc2, None))"

definition SetMeta :: "BootMetaCache \<Rightarrow> BootMeta \<Rightarrow> BootMetaCache" where
  "SetMeta bc m = bc\<lparr>bc_meta := m, bc_valid := (bm_magic m = BOOT_META_MAGIC)\<rparr>"

text \<open>\<^verbatim>\<open>std::string(p, strnlen(p, n))\<close>\<close>

definition PrimaryServer :: "BootMetaCache \<Rightarrow> string" where
  "PrimaryServer bc = c_string (string_of_bytes (bm_primary_server (bc_meta bc)))"

definition SecondaryServer :: "BootMetaCache \<Rightarrow> string" where
  "SecondaryServer bc = c_string (string_of_bytes (bm_secondary_server (bc_meta bc)))"

section \<open>LoadFromServer\<close>

record net_env =
  ne_startup :: bool
  ne_socket :: bool
  ne_connect :: bool
  ne_send :: bool
  ne_recv :: "u8 list"

definition read_req_bytes :: "u64 \<Rightarrow> u64 \<Rightarrow> u32 \<Rightarrow> u8 \<Rightarrow> u8 list" where
  "read_req_bytes image_id block_offset block_count layer_id =
     le_bytes 8 image_id @ le_bytes 8 block_offset @ le_bytes 4 block_count @ [layer_id]"

text \<open>
  The handling of the answer: \<open>recv_buf\<close> holds \<open>n\<close> received bytes, \<open>payload\<close> is the uninitialised
  buffer of the same size.
\<close>

definition meta_from_reply :: "BootMetaCache \<Rightarrow> u8 list \<Rightarrow> nat \<Rightarrow> u8 list \<Rightarrow> (bool \<times> BootMetaCache) res" where
  "meta_from_reply bc recv_buf n payload =
     rbind (DecodeFrame recv_buf (of_nat n) (frame_of_bytes (replicate 40 0)) (Some payload) 65536 0)
       (\<lambda>(ok, hdr, pl, payload_len).
         if \<not> ok then Inr (False, bc)
         else if fh_opcode hdr = opcode_value BLOCK_READ_RSP \<and> 0 < payload_len then
           rbind (mem_read (the pl) 20 4) (\<lambda>status.
             if le_word 4 status = (0 :: u32) \<and> 24 < payload_len then
               let data_len = unat payload_len - 24 in
               if sizeof_BootMeta \<le> data_len then
                 rbind (mem_read (the pl) 24 sizeof_BootMeta) (\<lambda>d.
                   let bc1 = bc\<lparr>bc_meta := meta_of_bytes d\<rparr>;
                       v = (bm_magic (bc_meta bc1) = BOOT_META_MAGIC \<and> ValidateCrc bc1)
                   in Inr (v, bc1\<lparr>bc_valid := v\<rparr>))
               else Inr (False, bc)
             else Inr (False, bc))
         else Inr (False, bc))"

definition LoadFromServer ::
  "net_env \<Rightarrow> u8 list \<Rightarrow> u8 list \<Rightarrow> u8 list \<Rightarrow> BootMetaCache \<Rightarrow> (bool \<times> BootMetaCache \<times> u8 list option) res" where
  "LoadFromServer env send_buf recv_rest payload bc =
     (if \<not> ne_startup env \<or> \<not> ne_socket env \<or> \<not> ne_connect env then Inr (False, bc, None)
      else let m = bc_meta bc;
               hdr = EncodeHeader BLOCK_READ_REQ 0 1 21 (bm_image_id m) 0 1 (bm_layer_id m);
               req = read_req_bytes (bm_image_id m) 0 1 (bm_layer_id m)
           in rbind (EncodeFrame send_buf 65 hdr (Some req) 21) (\<lambda>(ok, buf, total_len).
                if \<not> ok then Inr (False, bc, None)
                else rbind (mem_read buf 0 (unat total_len)) (\<lambda>sent.
                  if \<not> ne_send env then Inr (False, bc, None)
                  else if ne_recv env = [] then Inr (False, bc, Some sent)
                  else rbind (meta_from_reply bc (ne_recv env @ recv_rest) (length (ne_recv env)) payload)
                         (\<lambda>(r, bc'). Inr (r, bc', Some sent)))))"

section \<open>The layout\<close>

lemma length_meta_head [simp]: "meta_wf m \<Longrightarrow> length (meta_head m) = 306"
  by (simp add: meta_head_def meta_wf_def)

lemma length_meta_bytes [simp]: "meta_wf m \<Longrightarrow> length (meta_bytes m) = 310"
  by (simp add: meta_bytes_def)

lemma meta_of_meta_bytes: "meta_wf m \<Longrightarrow> meta_of_bytes (meta_bytes m) = m"
  by (cases m) (simp add: meta_of_bytes_def meta_bytes_def meta_head_def meta_wf_def le_word_append le_word_le_bytes nth_append)

lemma meta_of_bytes_take: "310 \<le> length bs \<Longrightarrow> meta_of_bytes (take 310 bs) = meta_of_bytes bs"
  by (simp add: meta_of_bytes_def drop_take le_word_take min_def)

lemma take_split: "k \<le> n \<Longrightarrow> take n (drop i xs) = take k (drop i xs) @ take (n - k) (drop (i + k) xs)"
  using take_add [of k "n - k" "drop i xs"] by (simp add: add.commute)

lemma le_bytes_at:
  assumes "i + n \<le> length bs" and "n * 8 \<le> LENGTH('a::len)"
  shows "le_bytes n (le_word n (drop i bs) :: 'a word) = take n (drop i bs)"
  using le_bytes_le_word [of "take n (drop i bs)" n, where 'a = 'a] assms by (simp add: le_word_take)

lemma meta_head_of_bytes:
  assumes l: "length bs = 310"
  shows "meta_head (meta_of_bytes bs) = take 306 bs"
proof -
  have one: "[bs ! i] = take 1 (drop i bs)" if "i < 310" for i using that l by (simp add: take_Suc_conv_app_nth hd_drop_conv_nth take_Suc)
  have "meta_head (meta_of_bytes bs) = take 4 bs @ take 2 (drop 4 bs) @ take 8 (drop 6 bs) @ take 8 (drop 14 bs)
     @ take 4 (drop 22 bs) @ take 4 (drop 26 bs) @ take 1 (drop 30 bs) @ take 1 (drop 31 bs) @ take 2 (drop 32 bs) @ take 64 (drop 34 bs)
     @ take 2 (drop 98 bs) @ take 64 (drop 100 bs) @ take 2 (drop 164 bs) @ take 128 (drop 166 bs) @ take 8 (drop 294 bs) @ take 4 (drop 302 bs)"
    using l one [of 30] one [of 31] le_bytes_at [of 0 4 bs, where 'a = 32]
    by (simp add: meta_head_def meta_of_bytes_def le_bytes_at del: One_nat_def)
  also have "\<dots> = take 306 bs"
    by (simp only: take_split [of 4 306 0 bs, simplified]
      take_split [of 2 302 4 bs, simplified]
      take_split [of 8 300 6 bs, simplified]
      take_split [of 8 292 14 bs, simplified]
      take_split [of 4 284 22 bs, simplified]
      take_split [of 4 280 26 bs, simplified]
      take_split [of 1 276 30 bs, simplified]
      take_split [of 1 275 31 bs, simplified]
      take_split [of 2 274 32 bs, simplified]
      take_split [of 64 272 34 bs, simplified]
      take_split [of 2 208 98 bs, simplified]
      take_split [of 64 206 100 bs, simplified]
      take_split [of 2 142 164 bs, simplified]
      take_split [of 128 140 166 bs, simplified]
      take_split [of 8 12 294 bs, simplified] One_nat_def)
  finally show ?thesis by simp
qed

lemma meta_bytes_of_bytes:
  assumes "length bs = 310"
  shows "meta_bytes (meta_of_bytes bs) = bs"
proof -
  have "le_bytes 4 (bm_crc32c (meta_of_bytes bs)) = drop 306 bs"
    using assms by (simp add: meta_of_bytes_def le_bytes_at)
  then show ?thesis by (simp add: meta_bytes_def meta_head_of_bytes [OF assms])
qed

lemma meta_wf_of_bytes: "length bs = 310 \<Longrightarrow> meta_wf (meta_of_bytes bs)"
  by (simp add: meta_wf_def meta_of_bytes_def)

text \<open>The check of the checksum in terms of the bytes.\<close>

lemma ValidateCrc_bytes:
  assumes "length bs = 310"
  shows "ValidateCrc (bc\<lparr>bc_meta := meta_of_bytes bs\<rparr>) \<longleftrightarrow> crc32c (take 306 bs) = le_word 4 (take 4 (drop 306 bs))"
  using assms by (simp add: ValidateCrc_def ComputeCrc_def meta_bytes_of_bytes boot_meta_crc_ref)
    (auto simp: meta_of_bytes_def)

definition saved_meta :: "BootMeta \<Rightarrow> BootMeta" where
  "saved_meta m =
     (let m1 = m\<lparr>bm_magic := BOOT_META_MAGIC, bm_version := BOOT_META_VERSION\<rparr> in m1\<lparr>bm_crc32c := crc32c (meta_head m1)\<rparr>)"

lemma meta_head_crc [simp]: "meta_head (m\<lparr>bm_crc32c := c\<rparr>) = meta_head m"
  by (simp add: meta_head_def)

lemma meta_wf_simps [simp]:
  "meta_wf (m\<lparr>bm_crc32c := c\<rparr>) = meta_wf m" "meta_wf (m\<lparr>bm_magic := a, bm_version := v\<rparr>) = meta_wf m"
  by (simp_all add: meta_wf_def)

lemma Save_eq: "meta_wf (bc_meta bc) \<Longrightarrow> Save True True bc
    = (True, bc\<lparr>bc_meta := saved_meta (bc_meta bc)\<rparr>, Some (meta_bytes (saved_meta (bc_meta bc))))"
  by (simp add: Save_def saved_meta_def ComputeCrc_def boot_meta_crc_ref meta_bytes_def Let_def)

lemma saved_meta_facts:
  assumes "meta_wf m"
  shows "meta_wf (saved_meta m)" "bm_magic (saved_meta m) = BOOT_META_MAGIC"
    "take 306 (meta_bytes (saved_meta m)) = meta_head (saved_meta m)"
    "drop 306 (meta_bytes (saved_meta m)) = le_bytes 4 (crc32c (meta_head (saved_meta m)))"
proof -
  show wf: "meta_wf (saved_meta m)" using assms by (simp add: saved_meta_def Let_def)
  show "bm_magic (saved_meta m) = BOOT_META_MAGIC" by (simp add: saved_meta_def Let_def)
  show "take 306 (meta_bytes (saved_meta m)) = meta_head (saved_meta m)" using wf by (simp add: meta_bytes_def)
  show "drop 306 (meta_bytes (saved_meta m)) = le_bytes 4 (crc32c (meta_head (saved_meta m)))"
    using wf by (simp add: meta_bytes_def) (simp add: saved_meta_def Let_def)
qed

lemma Load_bytes:
  assumes "310 \<le> length bs"
  shows "Load bc (Some bs) =
    (if bm_magic (meta_of_bytes bs) = BOOT_META_MAGIC \<and> crc32c (take 306 bs) = le_word 4 (take 4 (drop 306 bs))
     then (True, bc\<lparr>bc_meta := meta_of_bytes bs, bc_valid := True\<rparr>)
     else (False, bc\<lparr>bc_meta := default_meta, bc_valid := False\<rparr>))"
  using assms ValidateCrc_bytes [of "take 310 bs" bc]
  by (simp add: Load_def sizeof_BootMeta_def ApplyDefaults_def meta_of_bytes_take Let_def drop_take)

section \<open>Properties\<close>

text \<open>
  C27. The metadata file is read back as it was saved, and a damaged file is rejected: loading a
  file that \<^verbatim>\<open>Save\<close> wrote succeeds with the saved metadata, whatever follows in the file; a file
  that was cut short, or in which up to four consecutive bytes of the checked part or of the
  checksum were changed, is refused and replaced by the defaults.
\<close>

theorem boot_meta_file:
  assumes "meta_wf (bc_meta bc)" and "Save True True bc = (ok, bc1, Some bs)"
    and "bs = xs @ w @ ys" and "length w = length w'" and "length w \<le> 4" and "w \<noteq> w'"
    and "length xs + length w \<le> 306 \<or> 306 \<le> length xs" and "n < 310"
  shows "ok \<and> Load bc2 (Some (bs @ rest)) = (True, bc2\<lparr>bc_meta := bc_meta bc1, bc_valid := True\<rparr>)
    \<and> Load bc2 (Some (take n bs)) = (False, bc2\<lparr>bc_meta := default_meta, bc_valid := False\<rparr>)
    \<and> Load bc2 (Some (xs @ w' @ ys)) = (False, bc2\<lparr>bc_meta := default_meta, bc_valid := False\<rparr>)"
proof -
  let ?m = "saved_meta (bc_meta bc)"
  note F = saved_meta_facts [OF assms(1)]
  have e: "ok" "bc_meta bc1 = ?m" "bs = meta_bytes ?m" using assms(2) by (auto simp: Save_eq [OF assms(1)])
  have l: "length bs = 310" using F(1) by (simp add: e)
  have st: "take 4 (drop 306 bs) = le_bytes 4 (crc32c (take 306 bs))" using F(3,4) by (simp add: e)
  have "Load bc2 (Some (bs @ rest)) = (True, bc2\<lparr>bc_meta := ?m, bc_valid := True\<rparr>)"
  proof -
    have "meta_of_bytes (bs @ rest) = ?m"
      using meta_of_bytes_take [of "bs @ rest"] l meta_of_meta_bytes [OF F(1)] by (simp add: e)
    then show ?thesis using l st F(2) by (simp add: Load_bytes le_word_le_bytes)
  qed
  moreover have "Load bc2 (Some (take n bs)) = (False, bc2\<lparr>bc_meta := default_meta, bc_valid := False\<rparr>)"
    using assms(8) l by (simp add: Load_def sizeof_BootMeta_def ApplyDefaults_def)
  moreover have "crc32c (take 306 (xs @ w' @ ys)) \<noteq> le_word 4 (take 4 (drop 306 (xs @ w' @ ys)))"
    by (rule crc_field_detects [OF assms(3) refl assms(4-6) st]) (use l assms(3,7) in auto)
  then have "Load bc2 (Some (xs @ w' @ ys)) = (False, bc2\<lparr>bc_meta := default_meta, bc_valid := False\<rparr>)"
    using l assms(3,4) by (simp add: Load_bytes)
  ultimately show ?thesis using e by simp
qed

definition sample_cache :: BootMetaCache where
  "sample_cache = \<lparr>bc_meta = default_meta\<lparr>bm_image_id := 7\<rparr>, bc_valid = True\<rparr>"

lemma sample_cache_wf: "meta_wf (bc_meta sample_cache)"
  by (simp add: sample_cache_def meta_wf_def default_meta_def strncpy_zero_def)

theorem boot_meta_file_witness:
  "\<exists>bs bc1. Save True True sample_cache = (True, bc1, Some bs)
     \<and> Load sample_cache (Some (bs @ [])) = (True, sample_cache\<lparr>bc_meta := bc_meta bc1, bc_valid := True\<rparr>)"
proof -
  let ?bs = "meta_bytes (saved_meta (bc_meta sample_cache))"
  have s: "Save True True sample_cache = (True, sample_cache\<lparr>bc_meta := saved_meta (bc_meta sample_cache)\<rparr>, Some ?bs)"
    by (rule Save_eq [OF sample_cache_wf])
  have "length ?bs = 310" using saved_meta_facts(1) [OF sample_cache_wf] by simp
  then obtain b ys where b: "?bs = [] @ [b] @ ys" by (cases ?bs) auto
  show ?thesis
    using boot_meta_file [OF sample_cache_wf s b, of "[b + 1]" 0 sample_cache "[]"] s by auto
qed

section \<open>The request to the server\<close>

lemma if_nest: "(if a then if b then if c then x else y else y else y) = (if a \<and> b \<and> c then x else y)"
  by simp

lemma meta_from_reply_safe:
  assumes n: "n \<le> length buf" "length buf = 65536" and p: "length payload = 65536"
  shows "\<exists>r bc'. meta_from_reply bc buf n payload = Inr (r, bc')
    \<and> (r \<longrightarrow> 374 \<le> n \<and> bc' = bc\<lparr>bc_meta := meta_of_bytes (take 310 (drop 64 buf)), bc_valid := True\<rparr>
         \<and> bm_magic (bc_meta bc') = BOOT_META_MAGIC \<and> ValidateCrc bc')
    \<and> (\<not> r \<longrightarrow> bc' = bc \<or> \<not> bc_valid bc')"
proof -
  have un: "unat (of_nat n :: u32) = n" using n by (simp add: unat_of_nat take_bit_nat_eq_self)
  have mx: "unat (65536 :: u32) + 40 < 2 ^ 32" by simp
  obtain ok hdr pl l where d: "DecodeFrame buf (of_nat n) (frame_of_bytes (replicate 40 0)) (Some payload) 65536 0 = Inr (ok, hdr, pl, l)"
    using DecodeFrame_no_fault [of "of_nat n" buf 65536 payload "frame_of_bytes (replicate 40 0)" 0] n p un by auto
  show ?thesis
  proof (cases ok)
    case False
    then have "meta_from_reply bc buf n payload = Inr (False, bc)" using d by (simp add: meta_from_reply_def)
    then show ?thesis by blast
  next
    case True
    note D = DecodeFrame_True_D [OF d [unfolded True [THEN eqTrueI]] mx]
    have ll: "unat l \<le> 65536" "40 + unat l \<le> n" using D(4,5) un by simp_all
    define PL where "PL = take (unat l) (drop 40 buf) @ drop (unat l) payload"
    have lp: "length PL = 65536" using ll n p by (simp add: PL_def)
    have dat: "take 310 (drop 24 PL) = take 310 (drop 64 buf)" if "310 \<le> unat l - 24"
      using that ll n by (simp add: PL_def drop_take min_def)
    have pl: "pl = Some PL" using D(6) by (simp add: PL_def)
    define bc1 where "bc1 = bc\<lparr>bc_meta := meta_of_bytes (take 310 (drop 64 buf))\<rparr>"
    define v where "v \<longleftrightarrow> bm_magic (bc_meta bc1) = BOOT_META_MAGIC \<and> ValidateCrc bc1"
    define cond where "cond \<longleftrightarrow> (fh_opcode hdr = opcode_value BLOCK_READ_RSP \<and> 0 < l)
       \<and> (le_word 4 (take 4 (drop 20 PL)) = (0 :: u32) \<and> 24 < l) \<and> 310 \<le> unat l - 24"
    have dat': "take 310 (drop 24 PL) = take 310 (drop 64 buf)" if cond using dat that unfolding cond_def by blast
    have r: "mem_read PL 20 4 = Inr (take 4 (drop 20 PL))" "mem_read PL 24 310 = Inr (take 310 (drop 24 PL))"
      using lp by simp_all
    have eq: "meta_from_reply bc buf n payload = (if cond then Inr (v, bc1\<lparr>bc_valid := v\<rparr>) else Inr (False, bc))"
    proof -
      have "meta_from_reply bc buf n payload =
          (if fh_opcode hdr = opcode_value BLOCK_READ_RSP \<and> 0 < l
           then if le_word 4 (take 4 (drop 20 PL)) = (0 :: u32) \<and> 24 < l
                then if 310 \<le> unat l - 24
                     then let b = bc\<lparr>bc_meta := meta_of_bytes (take 310 (drop 24 PL))\<rparr>;
                              w = (bm_magic (bc_meta b) = BOOT_META_MAGIC \<and> ValidateCrc b) in Inr (w, b\<lparr>bc_valid := w\<rparr>)
                     else Inr (False, bc) else Inr (False, bc) else Inr (False, bc))"
        unfolding meta_from_reply_def d rbind_simps prod.case pl option.sel r sizeof_BootMeta_def Let_def using \<open>ok\<close> by (simp only: if_False not_True_eq_False)
      then show ?thesis unfolding if_nest cond_def [symmetric] by (cases cond) (simp_all add: dat' Let_def v_def bc1_def)
    qed
    have val: "ValidateCrc (bc1\<lparr>bc_valid := b\<rparr>) = ValidateCrc bc1" for b by (simp add: ValidateCrc_def ComputeCrc_def)
    show ?thesis
    proof (cases "cond \<and> v")
      case True
      let ?bc = "bc\<lparr>bc_meta := meta_of_bytes (take 310 (drop 64 buf)), bc_valid := True\<rparr>"
      have b: "?bc = bc1\<lparr>bc_valid := True\<rparr>" by (simp add: bc1_def)
      have "meta_from_reply bc buf n payload = Inr (True, ?bc)" using eq True b by simp
      moreover have "374 \<le> n" using True ll unfolding cond_def by linarith
      moreover have "bm_magic (bc_meta ?bc) = BOOT_META_MAGIC \<and> ValidateCrc ?bc"
        using True val [of True] unfolding b by (simp add: v_def)
      ultimately show ?thesis by blast
    next
      case False
      then have "meta_from_reply bc buf n payload = Inr (False, if cond then bc1\<lparr>bc_valid := False\<rparr> else bc)" using eq by auto
      then show ?thesis by auto
    qed
  qed
qed

text \<open>
  Loading the metadata from a server is safe whatever the server sends: no call reads or
  writes out of bounds; what is sent is a frame of 61 bytes that \<^verbatim>\<open>DecodeFrame\<close> reads back as the
  request for the first block of the image; and when the call reports success, the metadata is
  exactly the received bytes after frame header and response header and passed magic and
  checksum. A failed call leaves the cache as it was or marks it invalid.
\<close>

theorem boot_meta_server:
  assumes "length send_buf = 65" and "length (ne_recv env) + length rest = 65536" and "length payload = 65536"
  shows "\<exists>r bc' sent. LoadFromServer env send_buf rest payload bc = Inr (r, bc', sent)
    \<and> (\<forall>s. sent = Some s \<longrightarrow> length s = 61 \<and> DecodeFrame s 61 h0 (Some (replicate 21 0)) 21 0
         = Inr (True, EncodeHeader BLOCK_READ_REQ 0 1 21 (bm_image_id (bc_meta bc)) 0 1 (bm_layer_id (bc_meta bc)),
                Some (read_req_bytes (bm_image_id (bc_meta bc)) 0 1 (bm_layer_id (bc_meta bc))), 21))
    \<and> (r \<longrightarrow> 374 \<le> length (ne_recv env) \<and> bc_valid bc' \<and> bm_magic (bc_meta bc') = BOOT_META_MAGIC \<and> ValidateCrc bc'
         \<and> bc_meta bc' = meta_of_bytes (take 310 (drop 64 (ne_recv env))))
    \<and> (\<not> r \<longrightarrow> bc' = bc \<or> \<not> bc_valid bc')"
proof (cases "ne_startup env \<and> ne_socket env \<and> ne_connect env")
  case True
  let ?hdr = "EncodeHeader BLOCK_READ_REQ 0 1 21 (bm_image_id (bc_meta bc)) 0 1 (bm_layer_id (bc_meta bc))"
  let ?req = "read_req_bytes (bm_image_id (bc_meta bc)) 0 1 (bm_layer_id (bc_meta bc))"
  let ?sent = "frame_bytes ?hdr @ ?req"
  have lr: "length ?req = 21" by (simp add: read_req_bytes_def)
  have enc: "EncodeFrame send_buf 65 ?hdr (Some ?req) 21 = Inr (True, ?sent @ drop 61 send_buf, 61)"
    using EncodeFrame_ok [of ?req 65 send_buf 21 ?hdr] assms(1) lr by simp
  have pl: "fh_payload_len ?hdr = 21" by (simp add: EncodeHeader_def)
  have dec: "DecodeFrame ?sent 61 h0 (Some (replicate 21 0)) 21 0 = Inr (True, ?hdr, Some ?req, 21)"
    using DecodeFrame_ok [of ?hdr ?req 61 ?sent 21 "replicate 21 0" h0 0] lr pl by simp
  let ?buf = "ne_recv env @ rest"
  obtain r bc' where m: "meta_from_reply bc ?buf (length (ne_recv env)) payload = Inr (r, bc')"
    and f: "r \<Longrightarrow> 374 \<le> length (ne_recv env) \<and> bc' = bc\<lparr>bc_meta := meta_of_bytes (take 310 (drop 64 ?buf)), bc_valid := True\<rparr>
         \<and> bm_magic (bc_meta bc') = BOOT_META_MAGIC \<and> ValidateCrc bc'" "\<not> r \<Longrightarrow> bc' = bc \<or> \<not> bc_valid bc'"
    using meta_from_reply_safe [of "length (ne_recv env)" ?buf payload bc] assms(2,3) by auto
  have "LoadFromServer env send_buf rest payload bc =
      (if \<not> ne_send env then Inr (False, bc, None) else if ne_recv env = [] then Inr (False, bc, Some ?sent) else Inr (r, bc', Some ?sent))"
    using True enc lr m by (simp add: LoadFromServer_def Let_def)
  moreover have ls: "length ?sent = 61" by (simp add: lr)
  moreover have "take 310 (drop 64 ?buf) = take 310 (drop 64 (ne_recv env))" if "374 \<le> length (ne_recv env)" using that by simp
  ultimately consider "LoadFromServer env send_buf rest payload bc = Inr (False, bc, None)"
    | "LoadFromServer env send_buf rest payload bc = Inr (False, bc, Some ?sent)"
    | "LoadFromServer env send_buf rest payload bc = Inr (r, bc', Some ?sent)" by metis
  then show ?thesis
  proof cases
    case 3
    have "r \<longrightarrow> 374 \<le> length (ne_recv env) \<and> bc_valid bc' \<and> bm_magic (bc_meta bc') = BOOT_META_MAGIC \<and> ValidateCrc bc'
         \<and> bc_meta bc' = meta_of_bytes (take 310 (drop 64 (ne_recv env)))"
      using f(1) by (cases r) auto
    then show ?thesis using 3 dec ls f(2) by blast
  qed (use dec ls in blast)+
qed (auto simp: LoadFromServer_def)

theorem boot_meta_server_witness:
  "\<exists>r bc' sent. LoadFromServer \<lparr>ne_startup = True, ne_socket = True, ne_connect = True, ne_send = True, ne_recv = replicate 400 0\<rparr>
      (replicate 65 0) (replicate 65136 0) (replicate 65536 0) sample_cache = Inr (r, bc', sent)
      \<and> (\<not> r \<longrightarrow> bc' = sample_cache \<or> \<not> bc_valid bc')"
  using boot_meta_server [of "replicate 65 0" "\<lparr>ne_startup = True, ne_socket = True, ne_connect = True, ne_send = True, ne_recv = replicate 400 0\<rparr>"
      "replicate 65136 0" "replicate 65536 0" sample_cache "frame_of_bytes (replicate 40 0)"]
  by auto

end
