(* ===== verification/HD_DiagChecks.thy ===== *)
theory HD_DiagChecks
  imports HD_FrameCodec HD_CString
begin

text \<open>
  The checks of the boot diagnosis tool, \<^verbatim>\<open>tools/bootdiag/bootdiag_checks.c\<close>, as compiled for
  Windows. The device, the files, the heap, the network and the clock are the environment
  \<open>diag_env\<close>. A check returns its result code and what it wrote into the result record; an access
  out of a buffer or an undefined shift is a fault. Details are cut to the 255 characters of their
  buffer.
\<close>

section \<open>Environment and results\<close>

text \<open>
  \<open>dg_read path off n\<close> are the bytes \<^verbatim>\<open>ReadFile\<close> delivers at a byte offset of the device, \<open>dg_file\<close>
  the files by path, with \<open>dg_file_read\<close> whether \<^verbatim>\<open>ReadFile\<close> succeeds on them, and \<open>dg_recv\<close> what
  \<^verbatim>\<open>recv\<close> returns after a request was sent, with the clock before and after. The settings of the
  tool a check uses are the fields \<open>device_path\<close>, \<open>server_addr\<close> and \<open>server_port\<close> of its context.
\<close>

record diag_env =
  dg_open :: "string \<Rightarrow> bool"
  dg_seek :: "string \<Rightarrow> u64 \<Rightarrow> bool"
  dg_read :: "string \<Rightarrow> u64 \<Rightarrow> nat \<Rightarrow> u8 list"
  dg_file :: "string \<Rightarrow> u8 list option"
  dg_file_read :: "string \<Rightarrow> bool"
  dg_malloc :: "u32 \<Rightarrow> bool"
  dg_wsa :: bool
  dg_connect :: "string \<Rightarrow> u16 \<Rightarrow> bool"
  dg_recv :: "u8 list \<Rightarrow> int \<times> u64 \<times> u64"

record diag_target =
  device_path :: string
  server_addr :: string
  server_port :: u16

definition BOOTDIAG_RESULT_PASS :: u32 where "BOOTDIAG_RESULT_PASS = 0"
definition BOOTDIAG_RESULT_FAIL :: u32 where "BOOTDIAG_RESULT_FAIL = 1"
definition BOOTDIAG_RESULT_SKIP :: u32 where "BOOTDIAG_RESULT_SKIP = 2"

text \<open>The return value, the error code and the detail, if the check writes them.\<close>

record outcome =
  oc_ret :: u32
  oc_error :: "u32 option"
  oc_detail :: "string option"

definition fail_with :: "u32 \<Rightarrow> string \<Rightarrow> outcome res" where
  "fail_with code detail = Inr \<lparr>oc_ret = BOOTDIAG_RESULT_FAIL, oc_error = Some code, oc_detail = Some (take 255 detail)\<rparr>"

definition pass_with :: "string \<Rightarrow> outcome res" where
  "pass_with detail = Inr \<lparr>oc_ret = BOOTDIAG_RESULT_PASS, oc_error = None, oc_detail = Some (take 255 detail)\<rparr>"

section \<open>Reading\<close>

text \<open>\<^term>\<open>Inl rc\<close> is a failure with the return code \<open>rc\<close>.\<close>

definition read_device_sector :: "diag_env \<Rightarrow> diag_target \<Rightarrow> u64 \<Rightarrow> u32 \<Rightarrow> int + u8 list" where
  "read_device_sector env ctx lba sector_size =
     (if \<not> dg_open env (device_path ctx) then Inl (-1)
      else let offset = lba * ucast sector_size in
        if \<not> dg_seek env (device_path ctx) offset then Inl (-2)
        else let d = dg_read env (device_path ctx) offset (unat sector_size) in
          if length d \<noteq> unat sector_size then Inl (-3) else Inr d)"

definition read_file_bytes :: "diag_env \<Rightarrow> string \<Rightarrow> u64 \<Rightarrow> u32 \<Rightarrow> int + u8 list" where
  "read_file_bytes env path offset n =
     (case dg_file env path of
        None \<Rightarrow> Inl (-1)
      | Some f \<Rightarrow> let d = take (unat n) (drop (unat offset) f) in if \<not> dg_file_read env path \<or> length d \<noteq> unat n then Inl (-3) else Inr d)"

fun first_file :: "diag_env \<Rightarrow> string list \<Rightarrow> u32 \<Rightarrow> u8 list option" where
  "first_file env [] n = None"
| "first_file env (p # ps) n = (case read_file_bytes env p 0 n of Inr d \<Rightarrow> Some d | Inl _ \<Rightarrow> first_file env ps n)"

definition format_gpt_guid :: "u8 list \<Rightarrow> string" where
  "format_gpt_guid guid =
     (let x = \<lambda>i. fmt_0X 2 (unat (guid ! i))
      in fmt_0X 8 (unat (le_word 4 guid :: u32)) @ ''-'' @ fmt_0X 4 (unat (le_word 2 (drop 4 guid) :: u16)) @ ''-'' @
         fmt_0X 4 (unat (le_word 2 (drop 6 guid) :: u16)) @ ''-'' @ x 8 @ x 9 @ ''-'' @
         x 10 @ x 11 @ x 12 @ x 13 @ x 14 @ x 15)"

section \<open>V1: the partition table\<close>

definition efi_sp_guid :: "u8 list" where
  "efi_sp_guid = [0x28, 0x73, 0x2A, 0xC1, 0x1F, 0xF8, 0xD2, 0x11, 0xBA, 0x4B, 0x00, 0xA0, 0xC9, 0x3E, 0xC9, 0x3B]"
definition win_guid :: "u8 list" where
  "win_guid = [0xA2, 0xA0, 0xD0, 0xEB, 0xE5, 0xB9, 0x33, 0x44, 0x87, 0xC0, 0x68, 0xB6, 0xB7, 0x26, 0x99, 0xC7]"
definition msr_guid :: "u8 list" where
  "msr_guid = [0x16, 0xE3, 0xC9, 0xE3, 0x5C, 0x0B, 0x78, 0x42, 0x81, 0x9D, 0x9A, 0x0C, 0x4E, 0xFC, 0x7E, 0x7C]"

text \<open>
  The sectors of the partition array, read one by one. \<open>part_buf + s * 512\<close> stays inside the buffer,
  whose size is the number of sectors times 512 as 32-bit numbers.
\<close>

fun read_partition_array :: "diag_env \<Rightarrow> diag_target \<Rightarrow> nat \<Rightarrow> nat \<Rightarrow> nat + u8 list" where
  "read_partition_array env ctx s 0 = Inr []"
| "read_partition_array env ctx s (Suc n) =
     (case read_device_sector env ctx (of_nat (2 + s)) 512 of
        Inl _ \<Rightarrow> Inl (2 + s)
      | Inr d \<Rightarrow> (case read_partition_array env ctx (Suc s) n of Inl e \<Rightarrow> Inl e | Inr r \<Rightarrow> Inr (d @ r)))"

record part_count =
  pc_count :: u32
  pc_efi :: bool
  pc_os :: bool
  pc_msr :: bool

text \<open>The scan of the entries; \<open>i * entry_size\<close> is a 32-bit product.\<close>

definition scan_entry :: "u8 list \<Rightarrow> part_count \<Rightarrow> nat \<Rightarrow> part_count res" where
  "scan_entry part_buf pc i =
     rbind (mem_read part_buf (unat (of_nat i * 128 :: u32)) 16) (\<lambda>g.
       if \<forall>b \<in> set g. b = 0 then Inr pc
       else let pc1 = pc\<lparr>pc_count := pc_count pc + 1\<rparr>
            in Inr (if g = efi_sp_guid then pc1\<lparr>pc_efi := True\<rparr>
                    else if g = win_guid then pc1\<lparr>pc_os := True\<rparr>
                    else if g = msr_guid then pc1\<lparr>pc_msr := True\<rparr> else pc1))"

definition flag01 :: "bool \<Rightarrow> string" where
  "flag01 b = (if b then ''1'' else ''0'')"

text \<open>The part of \<^verbatim>\<open>bootdiag_v1_gpt\<close> after the header was accepted; \<open>sector\<close> is LBA 1.\<close>

definition v1_partitions :: "diag_env \<Rightarrow> diag_target \<Rightarrow> u8 list \<Rightarrow> outcome res" where
  "v1_partitions env ctx sector =
     (let num_entries = le_word 4 (drop 80 sector) :: u32;
          entry_size = le_word 4 (drop 84 sector) :: u32 in
      if entry_size \<noteq> 128 then fail_with 1014 (''PartitionEntrySize='' @ to_string (unat entry_size) @ '' (expected 128)'')
      else let sectors = (num_entries * entry_size + 511) div 512 in
        if \<not> dg_malloc env (sectors * 512) then fail_with 1015 ''Out of memory for partition entries''
        else (case read_partition_array env ctx 0 (unat sectors) of
          Inl lba \<Rightarrow> fail_with 1016 (''Cannot read partition entry LBA '' @ to_string lba)
        | Inr part_buf \<Rightarrow>
            let stored_part_crc = le_word 4 (drop 88 sector) :: u32 in
            rbind (mem_read part_buf 0 (unat (num_entries * entry_size))) (\<lambda>arr.
            let computed_part_crc = fst (bootdiag_compute_crc32c crc_state_static arr) in
            if computed_part_crc \<noteq> stored_part_crc
            then fail_with 1020 (''Partition table CRC mismatch: computed=0x'' @ fmt_0X 8 (unat computed_part_crc) @
                   '', stored=0x'' @ fmt_0X 8 (unat stored_part_crc))
            else rbind (res_fold (scan_entry part_buf) \<lparr>pc_count = 0, pc_efi = False, pc_os = False, pc_msr = False\<rparr>
                          [0..<unat num_entries]) (\<lambda>pc.
              if \<not> pc_efi pc \<or> \<not> pc_os pc
              then fail_with 1017 (''Required partition missing: EFI='' @ flag01 (pc_efi pc) @ '' OS='' @ flag01 (pc_os pc) @
                     '' MSR='' @ flag01 (pc_msr pc))
              else pass_with (to_string (unat (pc_count pc)) @ '' partitions: EFI='' @ flag01 (pc_efi pc) @ '' OS='' @
                     flag01 (pc_os pc) @ '' MSR='' @ flag01 (pc_msr pc))))))"

definition v1_header :: "diag_env \<Rightarrow> diag_target \<Rightarrow> u8 list \<Rightarrow> outcome res" where
  "v1_header env ctx sector =
     (if take 8 sector \<noteq> bytes_of_string ''EFI PART'' then fail_with 1011 (''GPT signature mismatch: '' @ fmt_s 8 sector)
      else let header_size = le_word 4 (drop 12 sector) :: u32 in
      if header_size \<noteq> 92 then fail_with 1012 (''HeaderSize='' @ to_string (unat header_size) @ '' (expected 92)'')
      else let my_lba = le_word 8 (drop 24 sector) :: u64 in
      if my_lba \<noteq> 1 then fail_with 1018 (''MyLBA='' @ to_string (unat my_lba) @ '' (expected 1)'')
      else let alternate_lba = le_word 8 (drop 32 sector) :: u64 in
      if alternate_lba = 0 then fail_with 1019 ''AlternateLBA=0 (invalid, backup GPT missing)''
      else let stored_crc = le_word 4 (drop 16 sector) :: u32;
               header_copy = take 16 sector @ replicate 4 0 @ take 72 (drop 20 sector);
               computed_crc = fst (bootdiag_compute_crc32c crc_state_static header_copy) in
      if computed_crc \<noteq> stored_crc
      then fail_with 1013 (''Header CRC mismatch: computed=0x'' @ fmt_0X 8 (unat computed_crc) @ '', stored=0x'' @
             fmt_0X 8 (unat stored_crc))
      else v1_partitions env ctx sector)"

definition bootdiag_v1_gpt :: "diag_env \<Rightarrow> diag_target \<Rightarrow> outcome res" where
  "bootdiag_v1_gpt env ctx =
     (case read_device_sector env ctx 0 512 of
        Inl rc \<Rightarrow> fail_with 1001 (''Cannot read LBA 0 (protective MBR): error '' @ fmt_d rc)
      | Inr sector \<Rightarrow>
          let mbr_sig = le_word 2 (drop 510 sector) :: u16 in
          if mbr_sig \<noteq> 0x55AA
          then fail_with 1002 (''MBR signature invalid: 0x'' @ fmt_0X 4 (unat mbr_sig) @ '' (expected 0x55AA)'')
          else if sector ! 446 \<noteq> 0xEE
          then fail_with 1003 (''Partition type=0x'' @ fmt_0X 2 (unat (sector ! 446)) @ '' (expected 0xEE GPT protective)'')
          else (case read_device_sector env ctx 1 512 of
                  Inl rc \<Rightarrow> fail_with 1010 (''Cannot read LBA 1 (GPT header): error '' @ fmt_d rc)
                | Inr sector1 \<Rightarrow> v1_header env ctx sector1))"

section \<open>V2 and V3: the boot configuration and the loader\<close>

text \<open>A path from its components, each after a backslash.\<close>

definition win_path :: "string \<Rightarrow> string list \<Rightarrow> string" where
  "win_path drive comps = drive @ concat (List.map (\<lambda>c. CHR 0x5C # c) comps)"

definition bcd_paths :: "string list" where
  "bcd_paths = List.map (\<lambda>d. win_path d [''EFI'', ''Microsoft'', ''Boot'', ''BCD'']) ['''', ''C:'', ''X:'']"

definition bootmgr_guid :: string where "bootmgr_guid = ''{9dea8622-5cdd-4e70-acc1-f832d7f0cfb8}''"
definition osloader_guid :: string where "osloader_guid = ''{466fda14-11a7-4c38-8b39-0eb4ddc42b0c}''"

text \<open>The search loop: it sets the flag when some offset below 4092 matches.\<close>

definition bcd_has :: "string \<Rightarrow> u8 list \<Rightarrow> bool" where
  "bcd_has guid header =
     (\<exists>off \<in> set [0..<4096 - 4]. header ! off = 0x7B \<and> off + 38 < 4096 \<and> take 38 (drop off header) = bytes_of_string guid)"

definition bootdiag_v2_bcd :: "diag_env \<Rightarrow> diag_target \<Rightarrow> outcome res" where
  "bootdiag_v2_bcd env ctx =
     (case first_file env bcd_paths 4096 of
        None \<Rightarrow> fail_with 2001 ''BCD file not found or cannot open''
      | Some header \<Rightarrow>
          if take 4 header \<noteq> bytes_of_string ''regf''
          then fail_with 2002 (''BCD hive signature invalid: '' @ fmt_s 4 header @ '' (expected '' @ [CHR 0x27] @ ''regf'' @ [CHR 0x27] @ '')'')
          else if \<not> bcd_has bootmgr_guid header then fail_with 2003 ''Boot Manager entry {9dea8622} not found in BCD''
          else if \<not> bcd_has osloader_guid header then fail_with 2004 ''OS Loader entry {466fda14} not found in BCD''
          else pass_with (''2 entries: BootMgr='' @ flag01 (bcd_has bootmgr_guid header) @ '' OSLoader='' @
                 flag01 (bcd_has osloader_guid header)))"

definition winload_paths :: "string list" where
  "winload_paths = List.map (\<lambda>d. win_path d [''Windows'', ''System32'', ''winload.efi'']) ['''', ''C:'', ''X:'']"

text \<open>A 16-bit field at an offset of the buffer.\<close>

definition read16 :: "u8 list \<Rightarrow> u32 \<Rightarrow> u16 res" where
  "read16 header off = rbind (vec_at header (unat off)) (\<lambda>a. rbind (vec_at header (unat (off + 1))) (\<lambda>b. Inr (le_word 2 [a, b])))"

definition v3_optional :: "u8 list \<Rightarrow> u32 \<Rightarrow> outcome res" where
  "v3_optional header pe_offset =
     (if 4096 < pe_offset + 2 then fail_with 3006 ''PE optional header out of range''
      else rbind (read16 header pe_offset) (\<lambda>magic.
        if magic \<noteq> 0x20B then fail_with 3007 (''PE Magic=0x'' @ fmt_0X 4 (unat magic) @ '' (expected 0x20B PE32+)'')
        else let subsystem_offset = pe_offset + 68 in
          if subsystem_offset + 2 \<le> 4096
          then rbind (read16 header subsystem_offset) (\<lambda>subsystem.
                 if subsystem \<noteq> 10 \<and> subsystem \<noteq> 11
                 then fail_with 3008 (''Subsystem='' @ to_string (unat subsystem) @ '' (expected 10=EFI_APP or 11=EFI_BOOT)'')
                 else pass_with (''PE64+ EFI, Subsystem='' @ to_string (unat subsystem)))
          else pass_with ''PE64+ EFI (AMD64)''))"

text \<open>The signature test reads its four bytes one by one and stops at the first that differs.\<close>

definition v3_signature :: "u8 list \<Rightarrow> u32 \<Rightarrow> bool res" where
  "v3_signature header o1 =
     rbind (vec_at header (unat o1)) (\<lambda>b0. if b0 \<noteq> 0x50 then Inr False else
     rbind (vec_at header (unat (o1 + 1))) (\<lambda>b1. if b1 \<noteq> 0x45 then Inr False else
     rbind (vec_at header (unat (o1 + 2))) (\<lambda>b2. if b2 \<noteq> 0 then Inr False else
     rbind (vec_at header (unat (o1 + 3))) (\<lambda>b3. Inr (b3 = 0)))))"

definition v3_pe :: "u8 list \<Rightarrow> u32 \<Rightarrow> outcome res" where
  "v3_pe header e_lfanew =
     (if e_lfanew = 0 \<or> 4092 \<le> e_lfanew then fail_with 3003 (''e_lfanew='' @ to_string (unat e_lfanew) @ '' invalid'')
      else rbind (v3_signature header e_lfanew) (\<lambda>ok.
        if \<not> ok then fail_with 3004 (''PE signature mismatch at offset '' @ to_string (unat e_lfanew))
        else rbind (read16 header (e_lfanew + 4)) (\<lambda>machine.
          if machine \<noteq> 0x8664 then fail_with 3005 (''Machine=0x'' @ fmt_0X 4 (unat machine) @ '' (expected 0x8664 AMD64)'')
          else v3_optional header (e_lfanew + 24))))"

definition bootdiag_v3_winload :: "diag_env \<Rightarrow> diag_target \<Rightarrow> outcome res" where
  "bootdiag_v3_winload env ctx =
     (case first_file env winload_paths 4096 of
        None \<Rightarrow> fail_with 3001 ''winload.efi not found''
      | Some header \<Rightarrow>
          if header ! 0 \<noteq> 0x4D \<or> header ! 1 \<noteq> 0x5A
          then fail_with 3002 (''MZ signature mismatch: 0x'' @ fmt_0X 2 (unat (header ! 1)) @ fmt_0X 2 (unat (header ! 0)))
          else v3_pe header (le_word 4 (drop 60 header)))"

section \<open>V4 and V5: the server and paging\<close>

text \<open>
  The request of 64 bytes. \<^verbatim>\<open>SOCKET\<close> is unsigned on Windows, so the test \<^verbatim>\<open>sock < 0\<close> never holds and
  a failed \<^verbatim>\<open>socket\<close> is a failed \<^verbatim>\<open>connect\<close>.
\<close>

definition v4_request :: "u64 \<Rightarrow> u8 list" where
  "v4_request lba =
     (let body = le_bytes 4 (0x48444B47 :: u32) @ le_bytes 2 (1 :: u16) @ [0x01, 0] @ le_bytes 4 (1 :: u32) @ le_bytes 4 (24 :: u32) @
                 le_bytes 8 lba @ le_bytes 4 (1 :: u32) @ replicate 32 0
      in body @ le_bytes 4 (fst (bootdiag_compute_crc32c crc_state_static body)))"

definition v4_exchange :: "diag_env \<Rightarrow> u32 \<times> u32 \<Rightarrow> u64 \<Rightarrow> u32 \<times> u32" where
  "v4_exchange env acc lba =
     (case acc of (verified, latency) \<Rightarrow>
        (case dg_recv env (v4_request lba) of (recv_len, t1, t2) \<Rightarrow>
           if 0 < recv_len then (verified + 1, latency + ucast (t2 - t1)) else (verified, latency)))"

definition bootdiag_v4_block_read :: "diag_env \<Rightarrow> diag_target \<Rightarrow> outcome res" where
  "bootdiag_v4_block_read env ctx =
     (if \<not> dg_wsa env then fail_with 4001 ''WSAStartup failed''
      else if \<not> dg_connect env (server_addr ctx) (server_port ctx)
      then fail_with 4003 (''ImageServer '' @ server_addr ctx @ '':'' @ to_string (unat (server_port ctx)) @ '' unreachable'')
      else (case foldl (v4_exchange env) (0, 0) [0, 1, 2048] of (verified, latency) \<Rightarrow>
        if verified < 3 then fail_with 4004 (''Only '' @ to_string (unat verified) @ ''/3 blocks verified'')
        else let avg_latency = (if 0 < verified then latency div verified else 0)
             in pass_with (to_string (unat verified) @ '' blocks verified, avg latency='' @ to_string (unat avg_latency) @ ''ms'' @
                  (if 1000 < avg_latency then '' (WARN: high latency)'' else []))))"

fun open_first :: "diag_env \<Rightarrow> string list \<Rightarrow> string option" where
  "open_first env [] = None"
| "open_first env (p # ps) = (case dg_file env p of Some _ \<Rightarrow> Some p | None \<Rightarrow> open_first env ps)"

definition bootdiag_v5_paging_io :: "diag_env \<Rightarrow> diag_target \<Rightarrow> outcome res" where
  "bootdiag_v5_paging_io env ctx =
     (case open_first env (List.map (\<lambda>d. win_path d [''Windows'', ''System32'', ''ntoskrnl.exe'']) [''C:'', ''X:'']) of
        None \<Rightarrow> fail_with 5001 ''ntoskrnl.exe not accessible for paging IO test''
      | Some p \<Rightarrow>
          if \<not> dg_file_read env p then fail_with 5002 ''Paging IO read failed''
          else pass_with ''bypasses FastIO, bypasses SmartCache (user-mode verification)'')"

section \<open>V6 and V7: the registry hives and the file system\<close>

definition hive_names :: "string list" where
  "hive_names = [''SYSTEM'', ''SOFTWARE'', ''SAM'', ''SECURITY'']"

definition hive_paths :: "string \<Rightarrow> string list" where
  "hive_paths h = List.map (\<lambda>d. win_path d [''Windows'', ''System32'', ''config'', h]) ['''', ''C:'', ''X:'']"

text \<open>The text of the four hives stays below the 256 bytes of its buffer.\<close>

definition hive_step :: "diag_env \<Rightarrow> bool \<times> string \<Rightarrow> string \<Rightarrow> bool \<times> string" where
  "hive_step env acc h =
     (case acc of (all_pass, buf) \<Rightarrow>
        (case first_file env (hive_paths h) 4096 of
           None \<Rightarrow> (False, buf @ h @ '':NOT_FOUND '')
         | Some header \<Rightarrow>
             if take 4 header \<noteq> bytes_of_string ''regf'' then (False, buf @ h @ '':SIG_INVALID '')
             else (all_pass, buf @ h @ '':v'' @ to_string (unat (le_word 4 (drop 20 header) :: u32)) @ ''.'' @
                               to_string (unat (le_word 4 (drop 24 header) :: u32)) @ '' '')))"

definition bootdiag_v6_hive :: "diag_env \<Rightarrow> diag_target \<Rightarrow> outcome res" where
  "bootdiag_v6_hive env ctx =
     (case foldl (hive_step env) (True, []) hive_names of (all_pass, buf) \<Rightarrow>
        if \<not> all_pass then fail_with 6001 buf else pass_with buf)"

text \<open>
  \<^verbatim>\<open>bytes_per_sector * (1 << sectors_per_cluster)\<close> is computed in \<^verbatim>\<open>int\<close>: the shift is undefined from
  31 on, the product from \<open>2 ^ 31\<close> on.
\<close>

definition v7_cluster_size :: "u16 \<Rightarrow> u8 \<Rightarrow> u32 res" where
  "v7_cluster_size bytes_per_sector sectors_per_cluster =
     (if 31 \<le> unat sectors_per_cluster then Inl ShiftTooLarge
      else let p = unat bytes_per_sector * 2 ^ unat sectors_per_cluster in
        if 2 ^ 31 \<le> p then Inl SignedOverflow else Inr (of_nat p))"

definition v7_mft :: "diag_env \<Rightarrow> diag_target \<Rightarrow> u8 list \<Rightarrow> outcome res" where
  "v7_mft env ctx sector =
     (let bytes_per_sector = le_word 2 (drop 11 sector) :: u16;
          mft_start_lcn = le_word 8 (drop 48 sector) :: u64 in
      if bytes_per_sector \<noteq> 512 \<and> bytes_per_sector \<noteq> 4096
      then fail_with 7003 (''BytesPerSector='' @ to_string (unat bytes_per_sector) @ '' (expected 512 or 4096)'')
      else rbind (v7_cluster_size bytes_per_sector (sector ! 13)) (\<lambda>cluster_size.
        let mft_lba = 2048 + mft_start_lcn * ucast cluster_size div ucast bytes_per_sector in
        (case read_device_sector env ctx mft_lba 512 of
           Inl _ \<Rightarrow> fail_with 7004 (''$MFT record read failed at LBA '' @ to_string (unat mft_lba))
         | Inr mft_record \<Rightarrow>
             if take 4 mft_record \<noteq> bytes_of_string ''FILE''
             then fail_with 7005 (''$MFT signature mismatch: '' @ fmt_s 4 mft_record)
             else pass_with (''$MFT:1024B/rec, ClusterSize:'' @ to_string (unat (cluster_size div 1024)) @ ''KB, MFT_LCN:'' @
                    to_string (unat mft_start_lcn)))))"

definition v7_boot_sector :: "diag_env \<Rightarrow> diag_target \<Rightarrow> int + u8 list" where
  "v7_boot_sector env ctx =
     (case read_device_sector env ctx 2048 512 of Inr s \<Rightarrow> Inr s | Inl _ \<Rightarrow> read_device_sector env ctx 0 512)"

definition bootdiag_v7_ntfs :: "diag_env \<Rightarrow> diag_target \<Rightarrow> outcome res" where
  "bootdiag_v7_ntfs env ctx =
     (case v7_boot_sector env ctx of
        Inl rc \<Rightarrow> fail_with 7001 (''Cannot read OS partition boot sector: error '' @ fmt_d rc)
      | Inr sector \<Rightarrow>
          if take 8 (drop 3 sector) \<noteq> bytes_of_string ''NTFS    ''
          then fail_with 7002 (''NTFS BPB OEM mismatch: '' @ [CHR 0x27] @ fmt_s 8 (drop 3 sector) @ [CHR 0x27])
          else v7_mft env ctx sector)"

section \<open>Lemmas\<close>

text \<open>Which values a check may have: a pass, or a failure with a code.\<close>

definition judged :: "outcome res \<Rightarrow> bool" where
  "judged m \<longleftrightarrow> (case m of Inl _ \<Rightarrow> True | Inr oc \<Rightarrow>
     oc_ret oc = BOOTDIAG_RESULT_PASS \<and> oc_error oc = None \<or> oc_ret oc = BOOTDIAG_RESULT_FAIL \<and> oc_error oc \<noteq> None)"

lemma judged_fail [simp]: "judged (fail_with c d)"
  by (simp add: judged_def fail_with_def)

lemma judged_pass [simp]: "judged (pass_with d)"
  by (simp add: judged_def pass_with_def)

lemma fail_no_fault [simp]: "fail_with c d \<noteq> Inl f"
  by (simp add: fail_with_def)

lemma pass_no_fault [simp]: "pass_with d \<noteq> Inl f"
  by (simp add: pass_with_def)

lemma judged_rbind [simp]: "(\<And>a. judged (f a)) \<Longrightarrow> judged (rbind m f)"
  by (cases m) (simp_all add: judged_def)

lemma judged_checks:
  "judged (bootdiag_v1_gpt env ctx)" "judged (bootdiag_v2_bcd env ctx)" "judged (bootdiag_v3_winload env ctx)"
  "judged (bootdiag_v4_block_read env ctx)" "judged (bootdiag_v5_paging_io env ctx)"
  "judged (bootdiag_v6_hive env ctx)" "judged (bootdiag_v7_ntfs env ctx)"
  by (simp_all add: bootdiag_v1_gpt_def v1_header_def v1_partitions_def bootdiag_v2_bcd_def bootdiag_v3_winload_def
        v3_pe_def v3_optional_def bootdiag_v4_block_read_def bootdiag_v5_paging_io_def bootdiag_v6_hive_def
        bootdiag_v7_ntfs_def v7_mft_def Let_def case_prod_unfold split: sum.split option.split)

text \<open>What a read returns has the length asked for.\<close>

lemma read_device_length: "read_device_sector env ctx lba n = Inr d \<Longrightarrow> length d = unat n"
  by (auto simp: read_device_sector_def Let_def split: if_splits)

lemma first_file_length: "first_file env ps n = Some d \<Longrightarrow> length d = unat n"
  by (induction ps) (auto simp: read_file_bytes_def Let_def split: option.splits if_splits sum.splits)

lemma le_word_2:
  assumes "i + 1 < length bs"
  shows "le_word 2 (drop i bs) = ucast (bs ! i) OR push_bit 8 (ucast (bs ! (i + 1)))"
proof -
  have "le_word (Suc (Suc 0)) (drop i bs) = (0 OR push_bit (0 * 8) (ucast (drop i bs ! 0))) OR push_bit (Suc 0 * 8) (ucast (drop i bs ! Suc 0))"
    by (simp only: le_word_Suc le_word_0)
  then show ?thesis using assms by (simp add: numeral_2_eq_2)
qed

text \<open>
  A protective MBR ends with the bytes 55 and AA. Read as a little-endian number that is AA55, so
  V1 rejects it, whatever the rest of the disk holds.
\<close>

lemma v1_rejects_mbr:
  assumes "read_device_sector env ctx 0 512 = Inr sector" "sector ! 510 = 0x55" "sector ! 511 = 0xAA"
  shows "\<exists>d. bootdiag_v1_gpt env ctx = fail_with 1002 d"
proof -
  have len: "length sector = 512" using read_device_length [OF assms(1)] by simp
  have "(le_word 2 (drop 510 sector) :: u16) = ucast (sector ! 510) OR push_bit 8 (ucast (sector ! 511))"
    using le_word_2 [of 510 sector] len by simp
  then have "(le_word 2 (drop 510 sector) :: u16) = 0xAA55" using assms(2,3) by simp
  then have "(le_word 2 (drop 510 sector) :: u16) \<noteq> 0x55AA" by simp
  then have "bootdiag_v1_gpt env ctx =
      fail_with 1002 (''MBR signature invalid: 0x'' @ fmt_0X 4 (unat (le_word 2 (drop 510 sector) :: u16)) @ '' (expected 0x55AA)'')"
    unfolding bootdiag_v1_gpt_def Let_def assms(1) sum.case by (rule if_P)
  then show ?thesis ..
qed

text \<open>V3 reads past its buffer exactly for a signature in its last five bytes.\<close>

lemma unat_off: "unat (o1 :: u32) < 4300 \<Longrightarrow> k < 4300 \<Longrightarrow> unat (o1 + of_nat k) = unat o1 + k"
  by (simp add: unat_word_ariths unat_of_nat)

lemma take4_nth:
  assumes "n + 4 \<le> length xs"
  shows "take 4 (drop n xs) = [xs ! n, xs ! (n + 1), xs ! (n + 2), xs ! (n + 3)]"
proof -
  have d: "drop i xs = xs ! i # drop (i + 1) xs" if "i < n + 4" for i
    using Cons_nth_drop_Suc [of i xs] that assms by simp
  have "drop n xs = xs ! n # xs ! (n + 1) # xs ! (n + 2) # xs ! (n + 3) # drop (n + 4) xs"
    using d [of n] d [of "Suc n"] d [of "Suc (Suc n)"] d [of "Suc (Suc (Suc n))"] by (simp add: numeral_eq_Suc)
  then show ?thesis by (simp only: numeral_eq_Suc take_Suc_Cons pred_numeral_simps take_0 BitM.simps)
qed

lemma v3_signature_ok:
  assumes "length header = 4096" "unat o1 < 4092"
  shows "v3_signature header o1 = Inr (take 4 (drop (unat o1) header) = [0x50, 0x45, 0, 0])"
proof -
  have u: "unat (o1 + 1) = unat o1 + 1" "unat (o1 + 2) = unat o1 + 2" "unat (o1 + 3) = unat o1 + 3"
    using unat_off [of o1 1] unat_off [of o1 2] unat_off [of o1 3] assms by simp_all
  have "take 4 (drop (unat o1) header) =
      [header ! unat o1, header ! (unat o1 + 1), header ! (unat o1 + 2), header ! (unat o1 + 3)]"
    using take4_nth [of "unat o1" header] assms by simp
  then show ?thesis using assms by (simp add: v3_signature_def u)
qed

lemma read16_iff:
  assumes "length header = 4096" "unat off < 4300"
  shows "(\<exists>f. read16 header off = Inl f) \<longleftrightarrow> 4095 \<le> unat off" "read16 header off = Inl f \<Longrightarrow> f = OutOfBounds"
  using assms unat_off [of off 1] by (auto simp: read16_def vec_at_def rbind_def split: if_splits)

lemma v3_optional_safe:
  assumes "length header = 4096" "unat p < 4200"
  shows "v3_optional header p \<noteq> Inl f"
proof -
  have u: "unat (p + 2) = unat p + 2" "unat (p + 68) = unat p + 68" "unat (p + 68 + 2) = unat p + 70"
    using unat_off [of p 2] unat_off [of p 68] unat_off [of p 70] assms by (simp_all add: add.assoc)
  show ?thesis
  proof (cases "4096 < p + 2")
    case False
    then have le: "unat p + 2 \<le> 4096" using u by (simp add: word_less_nat_alt)
    then obtain m where m: "read16 header p = Inr m" using read16_iff(1) [of header p] assms by (cases "read16 header p") auto
    have "p + 68 + 2 \<le> 4096 \<Longrightarrow> \<exists>s. read16 header (p + 68) = Inr s"
      using read16_iff(1) [of header "p + 68"] assms u by (cases "read16 header (p + 68)") (auto simp: word_le_nat_alt)
    then show ?thesis using False m by (auto simp: v3_optional_def Let_def split: if_split_asm)
  qed (simp add: v3_optional_def)
qed

lemma v3_pe_fault_iff:
  assumes "length header = 4096"
  shows "v3_pe header e = Inl f \<longleftrightarrow> f = OutOfBounds \<and> e = 4091 \<and> take 4 (drop 4091 header) = [0x50, 0x45, 0, 0]"
proof (cases "e = 0 \<or> 4092 \<le> e")
  case False
  then have e: "unat e < 4092" by (simp add: word_le_nat_alt)
  have u: "unat (e + 4) = unat e + 4" "unat (e + 24) = unat e + 24"
    using unat_off [of e 4] unat_off [of e 24] e by simp_all
  have e91: "e = 4091 \<longleftrightarrow> 4095 \<le> unat (e + 4)" using e by (auto simp: u word_unat_eq_iff)
  have opt: "v3_optional header (e + 24) \<noteq> Inl f" using v3_optional_safe [OF assms] u e by simp
  have r: "(\<exists>f. read16 header (e + 4) = Inl f) \<longleftrightarrow> e = 4091"
    using read16_iff(1) [OF assms, of "e + 4"] e u e91 by simp
  have r2: "read16 header (e + 4) = Inl f' \<Longrightarrow> f' = OutOfBounds" for f' using read16_iff(2) [OF assms, of "e + 4"] e u by simp
  show ?thesis
  proof (cases "read16 header (e + 4)")
    case (Inl f')
    then have "e = 4091" "f' = OutOfBounds" using r r2 by auto
    then show ?thesis using Inl v3_signature_ok [OF assms e] False by (auto simp: v3_pe_def)
  next
    case (Inr m)
    then have "e \<noteq> 4091" using r by auto
    then show ?thesis using Inr v3_signature_ok [OF assms e] False opt by (auto simp: v3_pe_def)
  qed
qed (auto simp: v3_pe_def)

text \<open>
  V1: a header with \<open>2 ^ 25\<close> entries of 128 bytes makes the 32-bit size of the array zero. No sector
  is read, the buffer is empty, and the scan of the entries leaves it at once.
\<close>

lemma v1_crafted_count:
  assumes "le_word 4 (drop 80 sector) = (2 ^ 25 :: u32)" "le_word 4 (drop 84 sector) = (128 :: u32)"
    and "le_word 4 (drop 88 sector) = (0 :: u32)" "dg_malloc env 0"
  shows "v1_partitions env ctx sector = Inl OutOfBounds"
proof -
  have z: "(2 ^ 25 * 128 :: u32) = 0" by simp
  have sec: "(2 ^ 25 * 128 + 511 :: u32) div 512 = 0" unfolding z by (simp add: word_arith_nat_div)
  have crc: "fst (bootdiag_compute_crc32c crc_state_static []) = 0" by (simp add: bootdiag_crc_ref crc32c_def)
  have up: "[0..<unat (2 ^ 25 :: u32)] = 0 # [1..<unat (2 ^ 25 :: u32)]" by (subst upt_conv_Cons) simp_all
  have scan: "res_fold (scan_entry []) pc [0..<unat (2 ^ 25 :: u32)] = Inl OutOfBounds" for pc
    unfolding up by (simp add: scan_entry_def mem_read_def)
  show ?thesis
    unfolding v1_partitions_def Let_def assms(1-3) sec
    using assms(4) by (simp only: if_False not_True_eq_False simp_thms unat_0 read_partition_array.simps sum.case z mult_zero_left
      mem_read_Inr rbind_simps list.size add_0 take_0 crc scan order_refl)
qed

text \<open>V7: the shift is undefined for a cluster of 32 sectors and more, the product for large shifts below.\<close>

lemma v7_fault_iff:
  assumes "v7_boot_sector env ctx = Inr sector"
  shows "(\<exists>f. bootdiag_v7_ntfs env ctx = Inl f) \<longleftrightarrow>
     take 8 (drop 3 sector) = bytes_of_string ''NTFS    '' \<and>
     (le_word 2 (drop 11 sector) = (512 :: u16) \<and> 22 \<le> unat (sector ! 13) \<or>
      le_word 2 (drop 11 sector) = (4096 :: u16) \<and> 19 \<le> unat (sector ! 13))"
proof -
  have c: "(\<exists>f. v7_cluster_size b n = Inl f) \<longleftrightarrow> 22 \<le> unat n \<and> b = 512 \<or> 19 \<le> unat n \<and> b = 4096"
    if "b = 512 \<or> b = 4096" for b n
  proof -
    have a: "(2 :: nat) ^ 31 \<le> 512 * 2 ^ unat n \<longleftrightarrow> 22 \<le> unat n" "(2 :: nat) ^ 31 \<le> 4096 * 2 ^ unat n \<longleftrightarrow> 19 \<le> unat n"
      using power_increasing_iff [of "2 :: nat" 31 "9 + unat n"] power_increasing_iff [of "2 :: nat" 31 "12 + unat n"]
      by (simp_all add: power_add)
    show ?thesis using that a by (auto simp: v7_cluster_size_def Let_def)
  qed
  have m: "(\<exists>f. v7_mft env ctx sector = Inl f) \<longleftrightarrow>
      (let b = le_word 2 (drop 11 sector) :: u16 in (b = 512 \<or> b = 4096) \<and> (\<exists>f. v7_cluster_size b (sector ! 13) = Inl f))"
    by (cases "v7_cluster_size (le_word 2 (drop 11 sector)) (sector ! 13)")
       (auto simp: v7_mft_def Let_def split: sum.split if_split_asm)
  show ?thesis using assms c [of "le_word 2 (drop 11 sector)" "sector ! 13"] m
    by (auto simp: bootdiag_v7_ntfs_def Let_def)
qed

text \<open>The request of V4, read by the frame codec of the server.\<close>

lemma v4_request_frame:
  "v4_request lba = frame_bytes (EncodeHeader BLOCK_READ_REQ 0 1 24 lba 1 0 0) @ drop 40 (v4_request lba)"
  "length (v4_request lba) = 64"
proof -
  have z: "le_bytes 8 (1 :: u64) @ le_bytes 4 (0 :: u32) @ [0, 0, 0, 0] = le_bytes 4 (1 :: u32) @ replicate 12 0" by code_simp
  have r: "replicate 32 (0 :: u8) = replicate 12 0 @ replicate 20 0" by (simp flip: replicate_add)
  obtain c where c: "v4_request lba = le_bytes 4 (0x48444B47 :: u32) @ le_bytes 2 (1 :: u16) @ [0x01, 0] @ le_bytes 4 (1 :: u32) @
      le_bytes 4 (24 :: u32) @ le_bytes 8 lba @ le_bytes 4 (1 :: u32) @ replicate 32 0 @ c" and lc: "length c = 4"
    by (simp add: v4_request_def Let_def)
  have f: "frame_bytes (EncodeHeader BLOCK_READ_REQ 0 1 24 lba 1 0 0) = le_bytes 4 (0x48444B47 :: u32) @ le_bytes 2 (1 :: u16) @
      [0x01, 0] @ le_bytes 4 (1 :: u32) @ le_bytes 4 (24 :: u32) @ le_bytes 8 lba @ le_bytes 4 (1 :: u32) @ replicate 12 0"
    unfolding z [symmetric] by (simp add: frame_bytes_def EncodeHeader_def FRAME_MAGIC_def FRAME_VERSION_def)
  have "v4_request lba = frame_bytes (EncodeHeader BLOCK_READ_REQ 0 1 24 lba 1 0 0) @ replicate 20 0 @ c"
    unfolding c f r by simp
  then show "v4_request lba = frame_bytes (EncodeHeader BLOCK_READ_REQ 0 1 24 lba 1 0 0) @ drop 40 (v4_request lba)"
    "length (v4_request lba) = 64" using lc by simp_all
qed

lemma v4_counts_any_answer:
  assumes "\<And>req. 0 < fst (dg_recv env req)" "dg_wsa env" "dg_connect env (server_addr ctx) (server_port ctx)"
  shows "\<exists>d. bootdiag_v4_block_read env ctx = pass_with d"
  using assms by (auto simp: bootdiag_v4_block_read_def v4_exchange_def case_prod_unfold Let_def)

section \<open>Properties\<close>

text \<open>
  Check V3 of the boot diagnosis stays inside its 4096-byte buffer for every file but one kind:
  it reads past the end exactly when the file found has the MZ signature, a PE header at offset 4091
  and the PE signature there.
\<close>

theorem diag_v3_overrun_iff:
  "bootdiag_v3_winload env ctx = Inl f \<longleftrightarrow>
   f = OutOfBounds \<and>
   (\<exists>header. first_file env winload_paths 4096 = Some header \<and> header ! 0 = 0x4D \<and> header ! 1 = 0x5A \<and>
      le_word 4 (drop 60 header) = (4091 :: u32) \<and> take 4 (drop 4091 header) = [0x50, 0x45, 0, 0])"
proof (cases "first_file env winload_paths 4096")
  case (Some header)
  then have "length header = 4096" using first_file_length by fastforce
  then show ?thesis using Some by (auto simp: bootdiag_v3_winload_def v3_pe_fault_iff)
qed (simp add: bootdiag_v3_winload_def)

text \<open>
  The request that check V4 sends for a block is a valid frame, but the client library's codec reads
  it as another request: the block number arrives as the image id, the block offset is 1 and the block
  count 0, for every block.
\<close>

theorem diag_request_misread:
  assumes "24 \<le> unat mx" "unat mx \<le> length out"
  shows "\<exists>hdr payload. DecodeFrame (v4_request lba) 64 h0 (Some out) mx l0 = Inr (True, hdr, Some payload, 24) \<and>
           fh_opcode hdr = opcode_value BLOCK_READ_REQ \<and> fh_image_id hdr = lba \<and>
           fh_block_offset hdr = 1 \<and> fh_block_count hdr = 0"
  using DecodeFrame_ok [of "EncodeHeader BLOCK_READ_REQ 0 1 24 lba 1 0 0" "drop 40 (v4_request lba)" 64 "v4_request lba" mx out h0 l0]
    v4_request_frame [of lba] assms by (simp add: EncodeHeader_def ValidateHeader_iff)

theorem diag_request_misread_witness:
  "\<exists>hdr payload. DecodeFrame (v4_request 2048) 64 (EncodeHeader HEARTBEAT 0 0 0 0 0 0 0) (Some (replicate 24 0)) 24 0 =
       Inr (True, hdr, Some payload, 24) \<and>
     fh_opcode hdr = opcode_value BLOCK_READ_REQ \<and> fh_image_id hdr = 2048 \<and> fh_block_offset hdr = 1 \<and> fh_block_count hdr = 0"
  by (rule diag_request_misread) simp_all

end
