(* ===== verification/HD_BootDiag.thy ===== *)
theory HD_BootDiag
  imports HD_DiagChecks
begin

text \<open>
  The driver of the boot diagnosis tool, \<^verbatim>\<open>tools/bootdiag/main.c\<close>: the options, the seven checks with
  their retries, the totals, the gate and the flags. The environment of the \<open>n\<close>-th check that runs
  is \<open>me_env n\<close>, the \<open>n\<close>-th reading of the clock \<open>me_clk n\<close>. The retry loop has a 32-bit counter and
  a 32-bit bound; it is a partial function, so that not returning is a value.
\<close>

section \<open>Context and output\<close>

record BOOTDIAG_RESULT =
  br_check_id :: u8
  br_check_name :: string
  br_result :: u8
  br_elapsed_ms :: u32
  br_detail :: string
  br_error_code :: u32

datatype output_target = BOOTDIAG_OUTPUT_COM1 | BOOTDIAG_OUTPUT_CONSOLE | BOOTDIAG_OUTPUT_FILE

record BOOTDIAG_CONTEXT =
  bd_target :: diag_target
  bd_timeout_sec :: u32
  bd_output_target :: output_target
  bd_verbose :: bool
  bd_log_path :: string
  bd_results :: "BOOTDIAG_RESULT list"
  bd_total_pass :: u32
  bd_total_fail :: u32
  bd_total_skip :: u32
  bd_total_elapsed_ms :: u64
  bd_executed :: bool

text \<open>The context with the lines printed and logged, the checks run and the clock readings made.\<close>

record diag_state =
  ds_ctx :: BOOTDIAG_CONTEXT
  ds_console :: "string list"
  ds_log :: "string list"
  ds_checks :: nat
  ds_ticks :: nat

record main_env =
  me_env :: "nat \<Rightarrow> diag_env"
  me_clk :: "nat \<Rightarrow> u64"
  me_log_opens :: "string \<Rightarrow> bool"

definition bootdiag_get_tick_ms :: "main_env \<Rightarrow> diag_state \<Rightarrow> u64 \<times> diag_state" where
  "bootdiag_get_tick_ms me st = (me_clk me (ds_ticks st), st\<lparr>ds_ticks := ds_ticks st + 1\<rparr>)"

definition bootdiag_output :: "main_env \<Rightarrow> string \<Rightarrow> diag_state \<Rightarrow> diag_state" where
  "bootdiag_output me line st =
     (let buf = take 1023 line; ctx = ds_ctx st;
          st1 = (if bd_output_target ctx = BOOTDIAG_OUTPUT_CONSOLE \<or> bd_verbose ctx
                 then st\<lparr>ds_console := ds_console st @ [buf]\<rparr> else st)
      in if bd_output_target ctx = BOOTDIAG_OUTPUT_FILE \<and> bd_log_path ctx \<noteq> [] \<and> me_log_opens me (bd_log_path ctx)
         then st1\<lparr>ds_log := ds_log st1 @ [buf]\<rparr> else st1)"

definition status_str :: "u8 \<Rightarrow> string" where
  "status_str r = (if r = 0 then ''PASS'' else if r = 1 then ''FAIL'' else if r = 2 then ''SKIP''
                   else if r = 3 then ''TIMEOUT'' else ''UNKNOWN'')"

definition pad_right :: "nat \<Rightarrow> string \<Rightarrow> string" where
  "pad_right w s = s @ replicate (w - length s) CHR '' ''"

definition bootdiag_output_result :: "main_env \<Rightarrow> BOOTDIAG_RESULT \<Rightarrow> diag_state \<Rightarrow> diag_state" where
  "bootdiag_output_result me r st =
     (let st1 = bootdiag_output me (''  ['' @ to_string (unat (br_check_id r)) @ ''] '' @ pad_right 28 (br_check_name r) @ '' '' @
                  status_str (br_result r) @ ''   '' @ to_string (unat (br_elapsed_ms r)) @ ''ms'') st
      in if br_detail r \<noteq> [] then bootdiag_output me (''      '' @ br_detail r) st1 else st1)"

section \<open>The gate\<close>

definition BOOTDIAG_CHECK_CRITICAL_COUNT :: nat where "BOOTDIAG_CHECK_CRITICAL_COUNT = 3"
definition BOOTDIAG_CHECK_COUNT :: nat where "BOOTDIAG_CHECK_COUNT = 7"

definition bootdiag_is_critical_check :: "u8 \<Rightarrow> int" where
  "bootdiag_is_critical_check check_id = (if 1 \<le> check_id \<and> unat check_id \<le> BOOTDIAG_CHECK_CRITICAL_COUNT then 1 else 0)"

definition bootdiag_critical_fail_count :: "BOOTDIAG_CONTEXT \<Rightarrow> u32" where
  "bootdiag_critical_fail_count ctx =
     foldl (\<lambda>count i. if br_result (bd_results ctx ! i) = 1 then count + 1 else count) 0 [0..<BOOTDIAG_CHECK_CRITICAL_COUNT]"

definition bootdiag_gate_check :: "BOOTDIAG_CONTEXT \<Rightarrow> int" where
  "bootdiag_gate_check ctx = (if 0 < bootdiag_critical_fail_count ctx then 1 else 0)"

definition boot_meta_flags :: "BOOTDIAG_CONTEXT \<Rightarrow> u16" where
  "boot_meta_flags ctx =
     (let f0 = (if bd_executed ctx then set_bit 2 0 else 0);
          f1 = foldl (\<lambda>f i. if br_result (bd_results ctx ! i) = 1 then set_bit (3 + i) f else f) f0 [0..<BOOTDIAG_CHECK_COUNT]
      in if bd_total_fail ctx = 0 \<and> bd_total_pass ctx = of_nat BOOTDIAG_CHECK_COUNT then set_bit 10 f1 else f1)"

definition bootdiag_update_boot_meta_flags :: "main_env \<Rightarrow> diag_state \<Rightarrow> diag_state" where
  "bootdiag_update_boot_meta_flags me st =
     bootdiag_output me (''boot.meta flags update: 0x'' @ fmt_0X 4 (unat (boot_meta_flags (ds_ctx st)))) st"

section \<open>Options\<close>

text \<open>\<^verbatim>\<open>strncpy\<close> into a zeroed array of \<open>n\<close> bytes, bounded by \<open>n - 1\<close>.\<close>

definition set_array :: "nat \<Rightarrow> string \<Rightarrow> string" where
  "set_array n s = take (n - 1) s"

record settings =
  se_ctx :: BOOTDIAG_CONTEXT
  se_skip :: "bool list"
  se_retry :: u32

definition zero_result :: BOOTDIAG_RESULT where
  "zero_result = \<lparr>br_check_id = 0, br_check_name = [], br_result = 0, br_elapsed_ms = 0, br_detail = [], br_error_code = 0\<rparr>"

definition default_ctx :: BOOTDIAG_CONTEXT where
  "default_ctx =
     \<lparr>bd_target = \<lparr>device_path = [CHR 0x5C, CHR 0x5C, CHR ''.'', CHR 0x5C] @ ''HyperDisk0'', server_addr = ''10.10.200.10'', server_port = 9527\<rparr>,
      bd_timeout_sec = 30, bd_output_target = BOOTDIAG_OUTPUT_CONSOLE, bd_verbose = False,
      bd_log_path = win_path ''C:'' [''HyperDisk'', ''diag'', ''bootdiag.log''],
      bd_results = replicate 7 zero_result, bd_total_pass = 0, bd_total_fail = 0, bd_total_skip = 0,
      bd_total_elapsed_ms = 0, bd_executed = False\<rparr>"

definition has_prefix :: "string \<Rightarrow> string \<Rightarrow> bool" where
  "has_prefix p s = (take (length p) s = p)"

definition skip_tokens :: "string \<Rightarrow> bool list \<Rightarrow> bool list" where
  "skip_tokens s sk =
     foldl (\<lambda>sk tok. let id' = sint (atoi tok) in if 1 \<le> id' \<and> id' \<le> 7 then sk[nat id' - 1 := True] else sk)
       sk (tokens (CHR '','') (take 63 s))"

text \<open>One argument; \<^const>\<open>None\<close> is the exit after \<^verbatim>\<open>--help\<close>.\<close>

definition parse_arg :: "settings \<Rightarrow> string \<Rightarrow> settings option" where
  "parse_arg se a =
     (let ctx = se_ctx se; tgt = bd_target ctx in
      if has_prefix ''--device='' a then Some (se\<lparr>se_ctx := ctx\<lparr>bd_target := tgt\<lparr>device_path := set_array 256 (drop 9 a)\<rparr>\<rparr>\<rparr>)
      else if has_prefix ''--server='' a then Some (se\<lparr>se_ctx := ctx\<lparr>bd_target := tgt\<lparr>server_addr := set_array 64 (drop 9 a)\<rparr>\<rparr>\<rparr>)
      else if has_prefix ''--port='' a then Some (se\<lparr>se_ctx := ctx\<lparr>bd_target := tgt\<lparr>server_port := ucast (atoi (drop 7 a))\<rparr>\<rparr>\<rparr>)
      else if has_prefix ''--timeout='' a then Some (se\<lparr>se_ctx := ctx\<lparr>bd_timeout_sec := atoi (drop 10 a)\<rparr>\<rparr>)
      else if has_prefix ''--output='' a
      then (let t = drop 9 a in
            if t = ''com1'' then Some (se\<lparr>se_ctx := ctx\<lparr>bd_output_target := BOOTDIAG_OUTPUT_COM1\<rparr>\<rparr>)
            else if t = ''console'' then Some (se\<lparr>se_ctx := ctx\<lparr>bd_output_target := BOOTDIAG_OUTPUT_CONSOLE\<rparr>\<rparr>)
            else if t = ''file'' then Some (se\<lparr>se_ctx := ctx\<lparr>bd_output_target := BOOTDIAG_OUTPUT_FILE\<rparr>\<rparr>) else Some se)
      else if has_prefix ''--log='' a then Some (se\<lparr>se_ctx := ctx\<lparr>bd_log_path := set_array 260 (drop 6 a)\<rparr>\<rparr>)
      else if a = ''--verbose'' then Some (se\<lparr>se_ctx := ctx\<lparr>bd_verbose := True\<rparr>\<rparr>)
      else if has_prefix ''--skip='' a then Some (se\<lparr>se_skip := skip_tokens (drop 7 a) (se_skip se)\<rparr>)
      else if has_prefix ''--retry='' a then Some (se\<lparr>se_retry := atoi (drop 8 a)\<rparr>)
      else if a = ''--help'' then None
      else Some se)"

fun parse_args :: "settings \<Rightarrow> string list \<Rightarrow> settings option" where
  "parse_args se [] = Some se"
| "parse_args se (a # args) = (case parse_arg se a of None \<Rightarrow> None | Some se' \<Rightarrow> parse_args se' args)"

definition default_settings :: settings where
  "default_settings = \<lparr>se_ctx = default_ctx, se_skip = replicate 7 False, se_retry = 0\<rparr>"

section \<open>The checks\<close>

definition diag_checks :: "(string \<times> (diag_env \<Rightarrow> diag_target \<Rightarrow> outcome res)) list" where
  "diag_checks =
     [(''GPT Partition Table'', bootdiag_v1_gpt), (''BCD Boot Configuration'', bootdiag_v2_bcd),
      (''winload.efi Readable'', bootdiag_v3_winload), (''Block Read (ImageServer)'', bootdiag_v4_block_read),
      (''Paging IO Path'', bootdiag_v5_paging_io), (''Registry Hive'', bootdiag_v6_hive),
      (''NTFS Metadata'', bootdiag_v7_ntfs)]"

definition upd_result :: "nat \<Rightarrow> (BOOTDIAG_RESULT \<Rightarrow> BOOTDIAG_RESULT) \<Rightarrow> diag_state \<Rightarrow> diag_state" where
  "upd_result i f st =
     st\<lparr>ds_ctx := (ds_ctx st)\<lparr>bd_results := (bd_results (ds_ctx st))[i := f (bd_results (ds_ctx st) ! i)]\<rparr>\<rparr>"

definition apply_outcome :: "outcome \<Rightarrow> BOOTDIAG_RESULT \<Rightarrow> BOOTDIAG_RESULT" where
  "apply_outcome oc r =
     r\<lparr>br_error_code := (case oc_error oc of Some e \<Rightarrow> e | None \<Rightarrow> br_error_code r),
       br_detail := (case oc_detail oc of Some d \<Rightarrow> d | None \<Rightarrow> br_detail r)\<rparr>"

text \<open>The body of the retry loop, with the result of the check.\<close>

definition diag_attempt :: "main_env \<Rightarrow> nat \<Rightarrow> diag_state \<Rightarrow> (u32 \<times> diag_state) res" where
  "diag_attempt me i st =
     (case bootdiag_get_tick_ms me st of (check_start, st1) \<Rightarrow>
      rbind (snd (diag_checks ! i) (me_env me (ds_checks st1)) (bd_target (ds_ctx st1))) (\<lambda>oc.
        let st2 = upd_result i (apply_outcome oc) (st1\<lparr>ds_checks := ds_checks st1 + 1\<rparr>) in
        case bootdiag_get_tick_ms me st2 of (check_end, st3) \<Rightarrow>
          Inr (oc_ret oc, upd_result i (\<lambda>r. r\<lparr>br_elapsed_ms := ucast (check_end - check_start), br_result := ucast (oc_ret oc)\<rparr>) st3)))"

partial_function (option) retry_loop :: "main_env \<Rightarrow> nat \<Rightarrow> u32 \<Rightarrow> u32 \<Rightarrow> diag_state \<Rightarrow> (u32 \<times> diag_state) res option" where
  "retry_loop me i retry_count attempt st =
     (case diag_attempt me i st of
        Inl f \<Rightarrow> Some (Inl f)
      | Inr (check_result, st') \<Rightarrow>
          let attempt' = attempt + 1 in
          if check_result \<noteq> BOOTDIAG_RESULT_PASS \<and> attempt' \<le> retry_count
          then retry_loop me i retry_count attempt' st'
          else Some (Inr (check_result, st')))"

definition diag_total :: "u32 \<Rightarrow> diag_state \<Rightarrow> diag_state" where
  "diag_total check_result st =
     (let ctx = ds_ctx st in
      if check_result = BOOTDIAG_RESULT_PASS then st\<lparr>ds_ctx := ctx\<lparr>bd_total_pass := bd_total_pass ctx + 1\<rparr>\<rparr>
      else st\<lparr>ds_ctx := ctx\<lparr>bd_total_fail := bd_total_fail ctx + 1\<rparr>\<rparr>)"

definition show_result :: "main_env \<Rightarrow> nat \<Rightarrow> diag_state \<Rightarrow> diag_state" where
  "show_result me i st = bootdiag_output_result me (bd_results (ds_ctx st) ! i) st"

text \<open>The body of the loop over the checks.\<close>

definition run_check :: "main_env \<Rightarrow> bool list \<Rightarrow> u32 \<Rightarrow> nat \<Rightarrow> diag_state \<Rightarrow> diag_state res option" where
  "run_check me skip_checks retry_count i st =
     (let named = \<lambda>r. r\<lparr>br_check_id := of_nat (i + 1), br_check_name := set_array 32 (fst (diag_checks ! i))\<rparr> in
      if skip_checks ! i
      then let st1 = upd_result i (\<lambda>r. (named r)\<lparr>br_result := ucast BOOTDIAG_RESULT_SKIP, br_elapsed_ms := 0,
                                        br_detail := ''Skipped by --skip option''\<rparr>) st;
               st2 = st1\<lparr>ds_ctx := (ds_ctx st1)\<lparr>bd_total_skip := bd_total_skip (ds_ctx st1) + 1\<rparr>\<rparr>
           in Some (Inr (show_result me i st2))
      else (case retry_loop me i retry_count 0 (upd_result i named st) of
              None \<Rightarrow> None
            | Some (Inl f) \<Rightarrow> Some (Inl f)
            | Some (Inr (check_result, st1)) \<Rightarrow> Some (Inr (show_result me i (diag_total check_result st1)))))"

fun run_checks :: "main_env \<Rightarrow> bool list \<Rightarrow> u32 \<Rightarrow> nat list \<Rightarrow> diag_state \<Rightarrow> diag_state res option" where
  "run_checks me sk retry [] st = Some (Inr st)"
| "run_checks me sk retry (i # is) st =
     (case run_check me sk retry i st of
        None \<Rightarrow> None
      | Some (Inl f) \<Rightarrow> Some (Inl f)
      | Some (Inr st') \<Rightarrow> run_checks me sk retry is st')"

section \<open>The report and \<^verbatim>\<open>main\<close>\<close>

definition report_failures :: "main_env \<Rightarrow> string \<Rightarrow> nat list \<Rightarrow> diag_state \<Rightarrow> diag_state" where
  "report_failures me word is st =
     foldl (\<lambda>st i. let r = bd_results (ds_ctx st) ! i in
              if br_result r = 1
              then bootdiag_output me (''  '' @ word @ '' V'' @ to_string (i + 1) @ '' ('' @ br_check_name r @ ''): '' @ br_detail r) st
              else st) st is"

definition bootdiag_banner :: "main_env \<Rightarrow> diag_state \<Rightarrow> diag_state" where
  "bootdiag_banner me st =
     (let ctx = ds_ctx st in
      fold (bootdiag_output me)
        [replicate 40 (CHR ''=''), ''bootdiag.exe v1.0 '' @ [CHR 0xE2, CHR 0x80, CHR 0x94] @ '' HTKIS HyperDisk X'',
         ''Device: '' @ device_path (bd_target ctx),
         ''Server: '' @ server_addr (bd_target ctx) @ '':'' @ to_string (unat (server_port (bd_target ctx))),
         ''Timeout: '' @ to_string (unat (bd_timeout_sec ctx)) @ ''s per check'', replicate 40 (CHR ''='')] st)"

definition bootdiag_report :: "main_env \<Rightarrow> diag_state \<Rightarrow> diag_state" where
  "bootdiag_report me st =
     (let ctx = ds_ctx st; dash = [CHR 0xE2, CHR 0x80, CHR 0x94];
          st1 = fold (bootdiag_output me)
                  [replicate 44 (CHR ''=''),
                   ''Total: '' @ to_string (unat (bd_total_pass ctx)) @ ''/7 PASSED, '' @ to_string (unat (bd_total_fail ctx)) @
                   '' FAILED, '' @ to_string (unat (bd_total_skip ctx)) @ '' SKIPPED, Time: '' @
                   to_string (unat (bd_total_elapsed_ms ctx)) @ ''ms''] st;
          st2 = (if bootdiag_gate_check ctx = 0
                 then if bd_total_fail ctx = 0
                      then bootdiag_output me (''ALL CHECKS PASSED '' @ dash @ '' safe to proceed to BootMgr'') st1
                      else report_failures me ''WARN'' [BOOTDIAG_CHECK_CRITICAL_COUNT..<BOOTDIAG_CHECK_COUNT]
                             (bootdiag_output me (''CRITICAL CHECKS PASSED '' @ dash @ '' non-critical failures, degraded boot allowed'') st1)
                 else report_failures me ''FAIL'' [0..<BOOTDIAG_CHECK_CRITICAL_COUNT]
                        (bootdiag_output me ''Critical failures:''
                          (bootdiag_output me (''CRITICAL CHECKS FAILED '' @ dash @ '' blocking BootMgr startup'') st1)))
      in st2\<lparr>ds_ctx := (ds_ctx st2)\<lparr>bd_executed := True\<rparr>\<rparr>)"

definition bootdiag_run :: "main_env \<Rightarrow> settings \<Rightarrow> (int \<times> diag_state) res option" where
  "bootdiag_run me se =
     (let st0 = \<lparr>ds_ctx = se_ctx se, ds_console = [], ds_log = [], ds_checks = 0, ds_ticks = 0\<rparr> in
      case bootdiag_get_tick_ms me (bootdiag_banner me st0) of (total_start, st1) \<Rightarrow>
      case run_checks me (se_skip se) (se_retry se) [0..<BOOTDIAG_CHECK_COUNT] st1 of
        None \<Rightarrow> None
      | Some (Inl f) \<Rightarrow> Some (Inl f)
      | Some (Inr st2) \<Rightarrow>
          (case bootdiag_get_tick_ms me st2 of (total_end, st3) \<Rightarrow>
           let st4 = st3\<lparr>ds_ctx := (ds_ctx st3)\<lparr>bd_total_elapsed_ms := total_end - total_start\<rparr>\<rparr>;
               st5 = bootdiag_update_boot_meta_flags me (bootdiag_report me st4)
           in Some (Inr (bootdiag_gate_check (ds_ctx st5), st5))))"

text \<open>The exit status, with the final state unless the help was asked for.\<close>

definition bootdiag_main :: "main_env \<Rightarrow> string list \<Rightarrow> (int \<times> diag_state option) res option" where
  "bootdiag_main me args =
     (case parse_args default_settings args of
        None \<Rightarrow> Some (Inr (0, None))
      | Some se \<Rightarrow> map_option (map_sum (\<lambda>f. f) (\<lambda>(rc, st). (rc, Some st))) (bootdiag_run me se))"

section \<open>Lemmas\<close>

lemma ds_ctx_output [simp]: "ds_ctx (bootdiag_output me l st) = ds_ctx st"
  by (simp add: bootdiag_output_def Let_def)

lemma ds_ctx_outputs [simp]: "ds_ctx (fold (bootdiag_output me) ls st) = ds_ctx st"
  by (induction ls arbitrary: st) simp_all

lemma ds_ctx_report_failures [simp]: "ds_ctx (report_failures me w is st) = ds_ctx st"
  by (induction "is" arbitrary: st) (simp_all add: report_failures_def Let_def)

lemma ds_ctx_show [simp]: "ds_ctx (show_result me i st) = ds_ctx st"
  by (simp add: show_result_def bootdiag_output_result_def Let_def)

lemma ds_ctx_tick [simp]: "ds_ctx (snd (bootdiag_get_tick_ms me st)) = ds_ctx st"
  by (simp add: bootdiag_get_tick_ms_def)

abbreviation verdict_of :: "BOOTDIAG_CONTEXT \<Rightarrow> nat \<Rightarrow> u8" where
  "verdict_of c i \<equiv> br_result (bd_results c ! i)"

text \<open>What the work on check \<open>i\<close> leaves alone.\<close>

definition touches :: "nat \<Rightarrow> BOOTDIAG_CONTEXT \<Rightarrow> BOOTDIAG_CONTEXT \<Rightarrow> bool" where
  "touches i c c' \<longleftrightarrow> length (bd_results c') = length (bd_results c) \<and> (\<forall>j. j \<noteq> i \<longrightarrow> bd_results c' ! j = bd_results c ! j) \<and>
     bd_target c' = bd_target c \<and> bd_total_pass c' = bd_total_pass c \<and> bd_total_fail c' = bd_total_fail c \<and>
     bd_total_skip c' = bd_total_skip c"

lemma touches_trans: "touches i a b \<Longrightarrow> touches i b c \<Longrightarrow> touches i a c"
  by (simp add: touches_def)

lemma touches_upd [simp]: "touches i (ds_ctx st) (ds_ctx (upd_result i f st))"
  by (simp add: touches_def upd_result_def)

text \<open>One attempt runs the check once and stores what it returned.\<close>

lemma diag_attempt_Inr:
  assumes "diag_attempt me i st = Inr (r, st')" and "i < length (bd_results (ds_ctx st))"
  shows "touches i (ds_ctx st) (ds_ctx st')" and "verdict_of (ds_ctx st') i = ucast r"
    and "\<exists>oc. snd (diag_checks ! i) (me_env me (ds_checks st)) (bd_target (ds_ctx st)) = Inr oc \<and> oc_ret oc = r"
    and "ds_checks st' = ds_checks st + 1"
  using assms by (auto simp: diag_attempt_def bootdiag_get_tick_ms_def rbind_Inr_iff Let_def touches_def upd_result_def)

lemma diag_check_ret:
  assumes "i < 7" "snd (diag_checks ! i) env tgt = Inr oc"
  shows "oc_ret oc = 0 \<or> oc_ret oc = 1"
proof -
  have "judged (snd (diag_checks ! i) env tgt)"
    using assms(1) judged_checks by (auto simp: diag_checks_def less_Suc_eq numeral_eq_Suc)
  then show ?thesis using assms(2) by (auto simp: judged_def BOOTDIAG_RESULT_PASS_def BOOTDIAG_RESULT_FAIL_def)
qed

text \<open>The retry loop: what holds of the last attempt holds of the loop.\<close>

lemma retry_loop_Inr:
  assumes "retry_loop me i retry att st = Some y" and "y = Inr (r, st')" and "i < length (bd_results (ds_ctx st))" and "i < 7"
  shows "touches i (ds_ctx st) (ds_ctx st') \<and> verdict_of (ds_ctx st') i = ucast r \<and>
     (\<exists>n oc. snd (diag_checks ! i) (me_env me n) (bd_target (ds_ctx st)) = Inr oc \<and> oc_ret oc = r)"
  using assms
proof (induction arbitrary: r st' rule: retry_loop.raw_induct [rotated, consumes 1, case_names step])
  case (step loop me i retry att st y)
  obtain r1 st1 where a: "diag_attempt me i st = Inr (r1, st1)"
    using step.prems step.hyps by (cases "diag_attempt me i st") auto
  note at = diag_attempt_Inr [OF a step.prems(2)]
  have len: "i < length (bd_results (ds_ctx st1))" "bd_target (ds_ctx st1) = bd_target (ds_ctx st)"
    using at(1) step.prems(2) by (auto simp: touches_def)
  show ?case
  proof (cases "r1 \<noteq> BOOTDIAG_RESULT_PASS \<and> att + 1 \<le> retry")
    case True
    then have "loop me i retry (att + 1) st1 = Some y" using step.hyps a by (simp add: Let_def)
    from step.IH [OF this step.prems(1) len(1) step.prems(3)] show ?thesis
      using touches_trans [OF at(1)] len(2) by auto
  next
    case False
    then have "r1 = r" "st1 = st'" using step.hyps step.prems(1) a by (auto simp: Let_def split: if_splits)
    then show ?thesis using at by blast
  qed
qed

text \<open>It returns unless the bound is the largest 32-bit number.\<close>

lemma retry_loop_returns:
  assumes "retry \<noteq> - 1" "att \<le> retry"
  shows "\<exists>y. retry_loop me i retry att st = Some y"
  using assms(2)
proof (induction "unat retry - unat att" arbitrary: att st rule: less_induct)
  case less
  have "att \<noteq> - 1" using less.prems assms(1) by (metis word_order.extremum_unique)
  then have "unat att \<noteq> 2 ^ 32 - 1"
    by (simp add: word_unat_eq_iff unsigned_minus_1_eq_mask mask_eq_exp_minus_1)
  then have s: "unat (att + 1) = unat att + 1" using unat_less_u32 [of att] by (simp add: unat_word_ariths)
  show ?case
  proof (cases "\<exists>r st1. diag_attempt me i st = Inr (r, st1) \<and> r \<noteq> BOOTDIAG_RESULT_PASS \<and> att + 1 \<le> retry")
    case True
    then obtain r st1 where a: "diag_attempt me i st = Inr (r, st1)" "r \<noteq> BOOTDIAG_RESULT_PASS" "att + 1 \<le> retry" by blast
    then have "\<exists>y. retry_loop me i retry (att + 1) st1 = Some y"
      using s by (intro less.hyps) (auto simp: word_le_nat_alt)
    then show ?thesis using a by (subst retry_loop.simps) (simp add: Let_def)
  next
    case False
    then show ?thesis by (subst retry_loop.simps) (auto simp: Let_def split: sum.split)
  qed
qed

text \<open>With that bound it never returns when the check always fails.\<close>

lemma retry_loop_diverges:
  assumes fails: "\<And>n. \<exists>c d. snd (diag_checks ! i) (me_env me n) tgt = fail_with c d"
    and "bd_target (ds_ctx st) = tgt"
  shows "retry_loop me i (- 1) att st = None"
proof -
  have step: "\<exists>st1. diag_attempt me i st = Inr (BOOTDIAG_RESULT_FAIL, st1) \<and> bd_target (ds_ctx st1) = tgt"
    if "bd_target (ds_ctx st) = tgt" for st
    using fails [of "ds_checks st"] that
    by (auto simp: diag_attempt_def bootdiag_get_tick_ms_def fail_with_def Let_def upd_result_def)
  have never: "retry = - 1 \<Longrightarrow> me' = me \<Longrightarrow> j = i \<Longrightarrow> bd_target (ds_ctx st) = tgt \<Longrightarrow> False"
    if "retry_loop me' j retry att st = Some y" for me' j retry att st y
    using that
  proof (induction rule: retry_loop.raw_induct [rotated, consumes 1, case_names step])
    case (step loop me' j retry att st y)
    then show ?case using \<open>\<And>st. bd_target (ds_ctx st) = tgt \<Longrightarrow> _\<close> [of st]
      by (auto simp: Let_def BOOTDIAG_RESULT_FAIL_def BOOTDIAG_RESULT_PASS_def)
  qed
  show ?thesis
  proof (cases "retry_loop me i (- 1) att st")
    case (Some y)
    then show ?thesis using never [OF Some refl refl refl assms(2)] by blast
  qed
qed

text \<open>What one round of the loop over the checks does to the context.\<close>

definition counted :: "main_env \<Rightarrow> bool list \<Rightarrow> nat \<Rightarrow> BOOTDIAG_CONTEXT \<Rightarrow> BOOTDIAG_CONTEXT \<Rightarrow> bool" where
  "counted me sk i c c' \<longleftrightarrow>
     (\<forall>j. j \<noteq> i \<longrightarrow> bd_results c' ! j = bd_results c ! j) \<and> length (bd_results c') = length (bd_results c) \<and>
     bd_target c' = bd_target c \<and>
     (let v = verdict_of c' i in
      (v = 2 \<longleftrightarrow> sk ! i) \<and> (v = 0 \<or> v = 1 \<or> v = 2) \<and>
      bd_total_pass c' = bd_total_pass c + of_bool (v = 0) \<and>
      bd_total_fail c' = bd_total_fail c + of_bool (v = 1) \<and>
      bd_total_skip c' = bd_total_skip c + of_bool (v = 2) \<and>
      (\<not> sk ! i \<longrightarrow> (\<exists>n oc. snd (diag_checks ! i) (me_env me n) (bd_target c) = Inr oc \<and> v = ucast (oc_ret oc))))"

lemma run_check_counted:
  assumes rc: "run_check me sk retry i st = Some (Inr st')" and len: "i < length (bd_results (ds_ctx st))" and "i < 7"
  shows "counted me sk i (ds_ctx st) (ds_ctx st')"
proof (cases "sk ! i")
  case True
  then show ?thesis
    using rc len by (auto simp: counted_def run_check_def Let_def upd_result_def BOOTDIAG_RESULT_SKIP_def)
next
  case False
  let ?n = "\<lambda>r. r\<lparr>br_check_id := of_nat (i + 1), br_check_name := set_array 32 (fst (diag_checks ! i))\<rparr>"
  obtain r st1 where l: "retry_loop me i retry 0 (upd_result i ?n st) = Some (Inr (r, st1))"
    and st': "st' = show_result me i (diag_total r st1)"
    using rc False by (auto simp: run_check_def Let_def split: option.split_asm sum.split_asm)
  have len1: "i < length (bd_results (ds_ctx (upd_result i ?n st)))" using len by (simp add: upd_result_def)
  note q = retry_loop_Inr [OF l refl len1 \<open>i < 7\<close>]
  have t: "touches i (ds_ctx st) (ds_ctx st1)" using q touches_trans [OF touches_upd] by blast
  have tg: "bd_target (ds_ctx (upd_result i ?n st)) = bd_target (ds_ctx st)" by (simp add: upd_result_def)
  obtain n oc where oc: "snd (diag_checks ! i) (me_env me n) (bd_target (ds_ctx st)) = Inr oc" "oc_ret oc = r" using q tg by auto
  have r: "r = 0 \<or> r = 1" using diag_check_ret [OF \<open>i < 7\<close> oc(1)] oc(2) by simp
  have v: "verdict_of (ds_ctx st') i = ucast r" using q unfolding st' by (auto simp: diag_total_def Let_def)
  have ex: "\<exists>n oc. snd (diag_checks ! i) (me_env me n) (bd_target (ds_ctx st)) = Inr oc \<and> verdict_of (ds_ctx st') i = ucast (oc_ret oc)"
    using oc v by auto
  show ?thesis
    using t r v False ex unfolding st' touches_def counted_def by (auto simp: diag_total_def BOOTDIAG_RESULT_PASS_def Let_def)
qed

text \<open>The whole loop.\<close>

lemma run_checks_counted:
  assumes "run_checks me sk retry is st = Some (Inr st')" "\<forall>i \<in> set is. i < 7" "length (bd_results (ds_ctx st)) = 7" "distinct is"
  defines "c \<equiv> ds_ctx st" and "c' \<equiv> ds_ctx st'"
  shows "(\<forall>j. j \<notin> set is \<longrightarrow> bd_results c' ! j = bd_results c ! j) \<and> bd_target c' = bd_target c \<and>
    (\<forall>i \<in> set is. (verdict_of c' i = 2 \<longleftrightarrow> sk ! i) \<and> (verdict_of c' i = 0 \<or> verdict_of c' i = 1 \<or> verdict_of c' i = 2) \<and>
       (\<not> sk ! i \<longrightarrow> (\<exists>n oc. snd (diag_checks ! i) (me_env me n) (bd_target c) = Inr oc \<and> verdict_of c' i = ucast (oc_ret oc)))) \<and>
    bd_total_pass c' = bd_total_pass c + of_nat (length (filter (\<lambda>i. verdict_of c' i = 0) is)) \<and>
    bd_total_fail c' = bd_total_fail c + of_nat (length (filter (\<lambda>i. verdict_of c' i = 1) is)) \<and>
    bd_total_skip c' = bd_total_skip c + of_nat (length (filter (\<lambda>i. verdict_of c' i = 2) is))"
  using assms(1-4) unfolding c_def c'_def
proof (induction "is" arbitrary: st)
  case (Cons i "is")
  obtain st1 where r: "run_check me sk retry i st = Some (Inr st1)" and rs: "run_checks me sk retry is st1 = Some (Inr st')"
    using Cons.prems(1) by (auto split: option.split_asm sum.split_asm)
  have k: "counted me sk i (ds_ctx st) (ds_ctx st1)" using run_check_counted [OF r] Cons.prems by simp
  have l1: "length (bd_results (ds_ctx st1)) = 7" using k Cons.prems(3) by (simp add: counted_def)
  note ih = Cons.IH [OF rs _ l1]
  have same: "bd_results (ds_ctx st') ! i = bd_results (ds_ctx st1) ! i" using ih Cons.prems by simp
  show ?case using k ih Cons.prems(2,4) same unfolding counted_def Let_def by (auto simp: algebra_simps)
qed simp

text \<open>The gate and the flags.\<close>

lemma gate_iff: "bootdiag_gate_check c = (if \<exists>i < 3. verdict_of c i = 1 then 1 else 0)"
proof -
  have "(\<exists>i < 3. verdict_of c i = 1) \<longleftrightarrow> verdict_of c 0 = 1 \<or> verdict_of c 1 = 1 \<or> verdict_of c 2 = 1"
    by (auto simp: less_Suc_eq numeral_eq_Suc)
  moreover have "[0..<3] = [0, 1, 2 :: nat]" by (simp add: upt_rec)
  ultimately show ?thesis
    by (simp add: bootdiag_gate_check_def bootdiag_critical_fail_count_def BOOTDIAG_CHECK_CRITICAL_COUNT_def)
qed

lemma bit_fold_set:
  "bit (foldl (\<lambda>f i. if P i then set_bit (3 + i) f else f) (f0 :: u16) is) k \<longleftrightarrow>
     bit f0 k \<or> k < 16 \<and> (\<exists>i \<in> set is. P i \<and> k = 3 + i)"
  by (induction "is" arbitrary: f0) (auto simp: bit_set_bit_iff)

lemma bit_4: "bit (4 :: int) k \<longleftrightarrow> k = 2"
  using bit_exp_iff [where 'a = int, of 2 k] by auto

lemma flags_bits:
  "bit (boot_meta_flags c) 2 \<longleftrightarrow> bd_executed c"
  "i < 7 \<Longrightarrow> bit (boot_meta_flags c) (3 + i) \<longleftrightarrow> verdict_of c i = 1"
  "bit (boot_meta_flags c) 10 \<longleftrightarrow> bd_total_fail c = 0 \<and> bd_total_pass c = 7"
  by (auto simp: boot_meta_flags_def Let_def bit_fold_set bit_set_bit_iff bit_4 BOOTDIAG_CHECK_COUNT_def)

text \<open>Options leave the results and the totals at zero.\<close>

definition fresh_ctx :: "BOOTDIAG_CONTEXT \<Rightarrow> bool" where
  "fresh_ctx c \<longleftrightarrow> length (bd_results c) = 7 \<and> bd_total_pass c = 0 \<and> bd_total_fail c = 0 \<and> bd_total_skip c = 0"

lemma parse_arg_fresh: "parse_arg se a = Some se' \<Longrightarrow> fresh_ctx (se_ctx se) \<Longrightarrow> fresh_ctx (se_ctx se')"
  unfolding parse_arg_def Let_def fresh_ctx_def by (auto split: if_split_asm)

lemma parse_args_fresh: "parse_args se args = Some se' \<Longrightarrow> fresh_ctx (se_ctx se) \<Longrightarrow> fresh_ctx (se_ctx se')"
  by (induction args arbitrary: se) (auto split: option.split_asm dest: parse_arg_fresh)

lemma default_fresh: "fresh_ctx (se_ctx default_settings)"
  by (simp add: fresh_ctx_def default_settings_def default_ctx_def)

lemma main_fresh: "parse_args default_settings args = Some se \<Longrightarrow> fresh_ctx (se_ctx se)"
  using parse_args_fresh default_fresh by blast

text \<open>The run: the state in which the loop starts and the context the report ends with.\<close>

definition diag_start :: "main_env \<Rightarrow> settings \<Rightarrow> diag_state" where
  "diag_start me se = snd (bootdiag_get_tick_ms me (bootdiag_banner me
     \<lparr>ds_ctx = se_ctx se, ds_console = [], ds_log = [], ds_checks = 0, ds_ticks = 0\<rparr>))"

lemma diag_start_ctx [simp]: "ds_ctx (diag_start me se) = se_ctx se"
  by (simp add: diag_start_def bootdiag_banner_def Let_def)

lemma report_ctx: "ds_ctx (bootdiag_report me st) = (ds_ctx st)\<lparr>bd_executed := True\<rparr>"
  by (simp add: bootdiag_report_def Let_def)

lemma bootdiag_run_eq:
  "run_checks me (se_skip se) (se_retry se) [0..<7] (diag_start me se) = None \<Longrightarrow> bootdiag_run me se = None"
  "run_checks me (se_skip se) (se_retry se) [0..<7] (diag_start me se) = Some (Inl f) \<Longrightarrow> bootdiag_run me se = Some (Inl f)"
  "run_checks me (se_skip se) (se_retry se) [0..<7] (diag_start me se) = Some (Inr st) \<Longrightarrow>
     \<exists>st' ms. bootdiag_run me se = Some (Inr (bootdiag_gate_check (ds_ctx st'), st')) \<and>
       ds_ctx st' = (ds_ctx st)\<lparr>bd_total_elapsed_ms := ms, bd_executed := True\<rparr>"
  by (auto simp: bootdiag_run_def diag_start_def bootdiag_get_tick_ms_def BOOTDIAG_CHECK_COUNT_def Let_def
      bootdiag_update_boot_meta_flags_def report_ctx)

lemma bootdiag_run_Inr:
  assumes "bootdiag_run me se = Some (Inr (rc, st'))"
  shows "\<exists>st ms. run_checks me (se_skip se) (se_retry se) [0..<7] (diag_start me se) = Some (Inr st) \<and>
     rc = bootdiag_gate_check (ds_ctx st') \<and> ds_ctx st' = (ds_ctx st)\<lparr>bd_total_elapsed_ms := ms, bd_executed := True\<rparr>"
proof (cases "run_checks me (se_skip se) (se_retry se) [0..<7] (diag_start me se)")
  case None
  then show ?thesis using bootdiag_run_eq(1) assms by simp
next
  case (Some r)
  then show ?thesis using bootdiag_run_eq(2,3) [of me se] assms by (cases r) fastforce+
qed

lemma main_eq:
  "parse_args default_settings args = Some se \<Longrightarrow>
   bootdiag_main me args = map_option (map_sum (\<lambda>f. f) (\<lambda>(rc, st). (rc, Some st))) (bootdiag_run me se)"
  by (simp add: bootdiag_main_def)

lemma main_InrD:
  assumes "parse_args default_settings args = Some se" "bootdiag_main me args = Some (Inr (rc, x))"
  obtains st st' ms where "x = Some st'"
    "run_checks me (se_skip se) (se_retry se) [0..<7] (diag_start me se) = Some (Inr st)"
    "rc = bootdiag_gate_check (ds_ctx st')" "ds_ctx st' = (ds_ctx st)\<lparr>bd_total_elapsed_ms := ms, bd_executed := True\<rparr>"
proof -
  obtain st' where x: "x = Some st'" and run: "bootdiag_run me se = Some (Inr (rc, st'))"
    using assms(2) unfolding main_eq [OF assms(1)]
    by (cases "bootdiag_run me se"; cases "the (bootdiag_run me se)") auto
  show thesis using bootdiag_run_Inr [OF run] that [OF x] by blast
qed

text \<open>Three filters with exclusive conditions cover the list.\<close>

lemma filter_three:
  "\<forall>i \<in> set is. f i = (0 :: u8) \<or> f i = 1 \<or> f i = 2 \<Longrightarrow>
   length (filter (\<lambda>i. f i = 0) is) + length (filter (\<lambda>i. f i = 1) is) + length (filter (\<lambda>i. f i = 2) is) = length is"
  by (induction "is") auto

lemma run_checks_skip_all:
  "\<forall>i \<in> set is. sk ! i \<Longrightarrow> \<exists>st'. run_checks me sk retry is st = Some (Inr st')"
  by (induction "is" arbitrary: st) (auto simp: run_check_def Let_def)

lemma run_checks_returns:
  "retry \<noteq> - 1 \<Longrightarrow> \<exists>y. run_checks me sk retry is st = Some y"
proof (induction "is" arbitrary: st)
  case (Cons i "is")
  have l: "retry_loop me i retry 0 st' = None \<longleftrightarrow> False" for st'
    using retry_loop_returns [OF Cons.prems, of 0 me i st'] by auto
  have "run_check me sk retry i st \<noteq> None"
    by (auto simp: run_check_def Let_def l split: option.split sum.split)
  then obtain y where "run_check me sk retry i st = Some y" by blast
  then show ?case using Cons.IH [OF Cons.prems] by (cases y) auto
qed simp

text \<open>The checks run in order, so a run that starts with a diverging check diverges.\<close>

lemma run_checks_diverges:
  assumes "\<not> sk ! 0" "\<And>n. \<exists>c d. bootdiag_v1_gpt (me_env me n) (bd_target (ds_ctx st)) = fail_with c d"
  shows "run_checks me sk (- 1) [0..<7] st = None"
proof -
  have "retry_loop me 0 (- 1) 0 (upd_result 0 f st) = None" for f
    using assms(2) by (intro retry_loop_diverges) (auto simp: diag_checks_def upd_result_def)
  then have "run_check me sk (- 1) 0 st = None" using assms(1) by (simp add: run_check_def Let_def)
  moreover have "[0..<7] = 0 # [1..<7 :: nat]" by (simp add: upt_rec)
  ultimately show ?thesis by simp
qed

lemma filter_all7: "(\<forall>i < 7. v i = x) \<longleftrightarrow> length (filter (\<lambda>i. v i = x) [0..<7]) = 7"
proof
  assume "length (filter (\<lambda>i. v i = x) [0..<7]) = 7"
  then have "\<not> (\<exists>i \<in> set [0..<7]. v i \<noteq> x)" using length_filter_less [of _ "[0..<7]" "\<lambda>i. v i = x"] by fastforce
  then show "\<forall>i < 7. v i = x" by simp
next
  assume "\<forall>i < 7. v i = x"
  then have "filter (\<lambda>i. v i = x) [0..<7] = [0..<7]" by (simp add: filter_id_conv)
  then show "length (filter (\<lambda>i. v i = x) [0..<7]) = 7" by simp
qed

lemma unat_filter7: "unat (of_nat (length (filter P [0..<7])) :: u32) = length (filter P [0..<7])"
proof -
  have "length (filter P [0..<7]) \<le> 7" using length_filter_le [of P "[0..<7]"] by simp
  then show ?thesis by (simp add: unat_of_nat)
qed

text \<open>The results and the totals of a run.\<close>

lemma upt_7: "\<forall>i \<in> set [0..<7]. i < (7 :: nat)"
  by simp

lemma diag_results:
  assumes "parse_args default_settings args = Some se" "bootdiag_main me args = Some (Inr (rc, Some st))"
  shows "\<forall>i < 7. (verdict_of (ds_ctx st) i = 2 \<longleftrightarrow> se_skip se ! i) \<and>
      (verdict_of (ds_ctx st) i = 0 \<or> verdict_of (ds_ctx st) i = 1 \<or> verdict_of (ds_ctx st) i = 2)"
    and "i < 7 \<Longrightarrow> \<not> se_skip se ! i \<Longrightarrow>
      \<exists>n oc. snd (diag_checks ! i) (me_env me n) (bd_target (se_ctx se)) = Inr oc \<and> verdict_of (ds_ctx st) i = ucast (oc_ret oc)"
proof -
  obtain st1 ms where r: "run_checks me (se_skip se) (se_retry se) [0..<7] (diag_start me se) = Some (Inr st1)"
    and st: "ds_ctx st = (ds_ctx st1)\<lparr>bd_total_elapsed_ms := ms, bd_executed := True\<rparr>"
    using main_InrD [OF assms] by (metis option.inject)
  have fr: "length (bd_results (ds_ctx (diag_start me se))) = 7" using main_fresh [OF assms(1)] by (simp add: fresh_ctx_def)
  have k: "\<forall>i \<in> set [0..<7]. (verdict_of (ds_ctx st1) i = 2 \<longleftrightarrow> se_skip se ! i) \<and>
      (verdict_of (ds_ctx st1) i = 0 \<or> verdict_of (ds_ctx st1) i = 1 \<or> verdict_of (ds_ctx st1) i = 2) \<and>
      (\<not> se_skip se ! i \<longrightarrow> (\<exists>n oc. snd (diag_checks ! i) (me_env me n) (bd_target (ds_ctx (diag_start me se))) = Inr oc \<and>
         verdict_of (ds_ctx st1) i = ucast (oc_ret oc)))"
    using run_checks_counted [OF r upt_7 fr distinct_upt] by blast
  show "\<forall>i < 7. (verdict_of (ds_ctx st) i = 2 \<longleftrightarrow> se_skip se ! i) \<and>
      (verdict_of (ds_ctx st) i = 0 \<or> verdict_of (ds_ctx st) i = 1 \<or> verdict_of (ds_ctx st) i = 2)"
    "i < 7 \<Longrightarrow> \<not> se_skip se ! i \<Longrightarrow>
      \<exists>n oc. snd (diag_checks ! i) (me_env me n) (bd_target (se_ctx se)) = Inr oc \<and> verdict_of (ds_ctx st) i = ucast (oc_ret oc)"
    using k unfolding st by auto
qed

lemma diag_totals:
  assumes "parse_args default_settings args = Some se" "bootdiag_main me args = Some (Inr (rc, Some st))"
  shows "bd_total_pass (ds_ctx st) = of_nat (length (filter (\<lambda>i. verdict_of (ds_ctx st) i = 0) [0..<7]))"
    "bd_total_fail (ds_ctx st) = of_nat (length (filter (\<lambda>i. verdict_of (ds_ctx st) i = 1) [0..<7]))"
    "bd_total_skip (ds_ctx st) = of_nat (length (filter (\<lambda>i. verdict_of (ds_ctx st) i = 2) [0..<7]))"
proof -
  obtain st1 ms where r: "run_checks me (se_skip se) (se_retry se) [0..<7] (diag_start me se) = Some (Inr st1)"
    and st: "ds_ctx st = (ds_ctx st1)\<lparr>bd_total_elapsed_ms := ms, bd_executed := True\<rparr>"
    using main_InrD [OF assms] by (metis option.inject)
  have fr: "length (bd_results (ds_ctx (diag_start me se))) = 7" "bd_total_pass (se_ctx se) = 0"
      "bd_total_fail (se_ctx se) = 0" "bd_total_skip (se_ctx se) = 0"
    using main_fresh [OF assms(1)] by (simp_all add: fresh_ctx_def)
  note k = run_checks_counted [OF r upt_7 fr(1) distinct_upt]
  show "bd_total_pass (ds_ctx st) = of_nat (length (filter (\<lambda>i. verdict_of (ds_ctx st) i = 0) [0..<7]))"
    "bd_total_fail (ds_ctx st) = of_nat (length (filter (\<lambda>i. verdict_of (ds_ctx st) i = 1) [0..<7]))"
    "bd_total_skip (ds_ctx st) = of_nat (length (filter (\<lambda>i. verdict_of (ds_ctx st) i = 2) [0..<7]))"
    using k fr(2-4) unfolding st by simp_all
qed

section \<open>Properties\<close>


text \<open>An environment without a device, a file or a network, and one with a standard disk.\<close>

definition dead_env :: diag_env where
  "dead_env = \<lparr>dg_open = (\<lambda>_. False), dg_seek = (\<lambda>_ _. False), dg_read = (\<lambda>_ _ _. []), dg_file = (\<lambda>_. None),
     dg_file_read = (\<lambda>_. False), dg_malloc = (\<lambda>_. False), dg_wsa = False, dg_connect = (\<lambda>_ _. False), dg_recv = (\<lambda>_. (0, 0, 0))\<rparr>"

definition mbr_env :: diag_env where
  "mbr_env = dead_env\<lparr>dg_open := (\<lambda>_. True), dg_seek := (\<lambda>_ _. True), dg_read := (\<lambda>_ _ _. replicate 510 0 @ [0x55, 0xAA])\<rparr>"

definition still_env :: "diag_env \<Rightarrow> main_env" where
  "still_env env = \<lparr>me_env = (\<lambda>_. env), me_clk = (\<lambda>_. 0), me_log_opens = (\<lambda>_. False)\<rparr>"


text \<open>
  The tool returns for every retry bound but one: with \<^verbatim>\<open>--retry=-1\<close>, whose value as an unsigned
  number is the largest, the loop over the attempts of a check that always fails never ends.
\<close>

theorem diag_returns:
  assumes "parse_args default_settings args = Some se"
  shows "(se_retry se \<noteq> - 1 \<longrightarrow> (\<exists>r. bootdiag_main me args = Some r)) \<and>
         (se_retry se = - 1 \<and> \<not> se_skip se ! 0 \<and>
          (\<forall>n. \<exists>c d. bootdiag_v1_gpt (me_env me n) (bd_target (se_ctx se)) = fail_with c d) \<longrightarrow>
          bootdiag_main me args = None)"
proof (intro conjI impI)
  assume "se_retry se \<noteq> - 1"
  then obtain y where y: "run_checks me (se_skip se) (se_retry se) [0..<7] (diag_start me se) = Some y"
    using run_checks_returns by blast
  have "\<exists>r. bootdiag_run me se = Some r"
    using bootdiag_run_eq(2,3) [of me se] y by (cases y) blast+
  then show "\<exists>r. bootdiag_main me args = Some r" using main_eq [OF assms, of me] by auto
next
  assume a: "se_retry se = - 1 \<and> \<not> se_skip se ! 0 \<and>
          (\<forall>n. \<exists>c d. bootdiag_v1_gpt (me_env me n) (bd_target (se_ctx se)) = fail_with c d)"
  then have "run_checks me (se_skip se) (- 1) [0..<7] (diag_start me se) = None"
    by (intro run_checks_diverges) auto
  then show "bootdiag_main me args = None" using bootdiag_run_eq(1) [of me se] a main_eq [OF assms, of me] by simp
qed

theorem diag_returns_witness:
  "(\<exists>r. bootdiag_main (still_env dead_env) [] = Some r) \<and> bootdiag_main (still_env dead_env) [''--retry=-1''] = None"
proof
  have "parse_args default_settings [] = Some default_settings" by simp
  from diag_returns [OF this, of "still_env dead_env"] show "\<exists>r. bootdiag_main (still_env dead_env) [] = Some r"
    by (simp add: default_settings_def)
  have p: "parse_args default_settings [''--retry=-1''] = Some (default_settings\<lparr>se_retry := - 1\<rparr>)" by code_simp
  have "\<exists>c d. bootdiag_v1_gpt dead_env (bd_target default_ctx) = fail_with c d"
    by (auto simp: bootdiag_v1_gpt_def read_device_sector_def dead_env_def)
  then show "bootdiag_main (still_env dead_env) [''--retry=-1''] = None"
    using diag_returns [OF p, of "still_env dead_env"] by (simp add: default_settings_def still_env_def)
qed

text \<open>
  C19. The tool blocks every standard disk. If the first sector read from the device ends with the bytes
  55 AA, as the specification of the boot record demands, and V1 is not skipped, then a run that ends
  normally has V1 failed and exit status 1, which stops the boot.
\<close>

theorem diag_blocks_standard_disk:
  assumes "parse_args default_settings args = Some se" "\<not> se_skip se ! 0"
    and "\<And>n. \<exists>sector. read_device_sector (me_env me n) (bd_target (se_ctx se)) 0 512 = Inr sector \<and>
            sector ! 510 = 0x55 \<and> sector ! 511 = 0xAA"
    and "bootdiag_main me args = Some (Inr (rc, Some st))"
  shows "rc = 1 \<and> verdict_of (ds_ctx st) 0 = 1"
proof -
  obtain n oc where oc: "bootdiag_v1_gpt (me_env me n) (bd_target (se_ctx se)) = Inr oc" "verdict_of (ds_ctx st) 0 = ucast (oc_ret oc)"
    using diag_results(2) [OF assms(1,4), of 0] assms(2) by (auto simp: diag_checks_def)
  moreover obtain d where "bootdiag_v1_gpt (me_env me n) (bd_target (se_ctx se)) = fail_with 1002 d"
    using assms(3) [of n] v1_rejects_mbr by blast
  ultimately have v: "verdict_of (ds_ctx st) 0 = 1" by (auto simp: fail_with_def BOOTDIAG_RESULT_FAIL_def)
  then have "\<exists>i < 3. verdict_of (ds_ctx st) i = 1" by (intro exI [of _ 0]) simp
  then have "bootdiag_gate_check (ds_ctx st) = 1" by (simp add: gate_iff)
  then have "rc = 1" using main_InrD [OF assms(1,4)] by (metis option.inject)
  with v show ?thesis by simp
qed

theorem diag_blocks_standard_disk_witness:
  "\<exists>rc st. bootdiag_main (still_env mbr_env) [''--skip=2,3,4,5,6,7''] = Some (Inr (rc, Some st)) \<and> rc = 1 \<and> verdict_of (ds_ctx st) 0 = 1"
proof -
  let ?me = "still_env mbr_env" and ?args = "[''--skip=2,3,4,5,6,7'']"
  let ?se = "default_settings\<lparr>se_skip := [False, True, True, True, True, True, True]\<rparr>"
  have p: "parse_args default_settings ?args = Some ?se" by code_simp
  have rd: "read_device_sector mbr_env tgt 0 512 = Inr (replicate 510 0 @ [0x55, 0xAA])" for tgt
    by (simp add: read_device_sector_def mbr_env_def dead_env_def Let_def)
  have sec: "\<exists>sector. read_device_sector (me_env ?me n) tgt 0 512 = Inr sector \<and> sector ! 510 = 0x55 \<and> sector ! 511 = 0xAA" for n tgt
    using rd by (auto simp: still_env_def nth_append)
  have at: "diag_attempt ?me 0 st \<noteq> Inl f" for st f
    using v1_rejects_mbr [OF rd, of "bd_target (ds_ctx st)"]
    by (auto simp: diag_attempt_def bootdiag_get_tick_ms_def diag_checks_def still_env_def nth_append fail_with_def Let_def)
  have l: "\<exists>r st'. retry_loop ?me 0 0 0 st = Some (Inr (r, st'))" for st
    using at [of st] by (subst retry_loop.simps) (auto split: sum.split simp: Let_def)
  have c0: "\<exists>st'. run_check ?me (se_skip ?se) 0 0 st = Some (Inr st')" for st
    using l by (auto simp: run_check_def Let_def split: option.split sum.split) (metis (no_types) Inl_Inr_False option.distinct(1) option.inject)+
  have "\<forall>i \<in> set [1..<7]. se_skip ?se ! i" by code_simp
  then have c1: "\<exists>st'. run_checks ?me (se_skip ?se) 0 [1..<7] st = Some (Inr st')" for st by (rule run_checks_skip_all)
  have "[0..<7] = 0 # [1..<7 :: nat]" by (simp add: upt_rec)
  moreover obtain st0 where "run_check ?me (se_skip ?se) 0 0 (diag_start ?me ?se) = Some (Inr st0)" using c0 by blast
  moreover obtain st1 where "run_checks ?me (se_skip ?se) 0 [1..<7] st0 = Some (Inr st1)" using c1 by blast
  ultimately have "run_checks ?me (se_skip ?se) 0 [0..<7] (diag_start ?me ?se) = Some (Inr st1)"
    by (simp only: run_checks.simps option.case sum.case)
  then have "run_checks ?me (se_skip ?se) (se_retry ?se) [0..<7] (diag_start ?me ?se) = Some (Inr st1)"
    by (simp add: default_settings_def)
  then obtain rc st where r: "bootdiag_main ?me ?args = Some (Inr (rc, Some st))"
    using bootdiag_run_eq(3) main_eq [OF p, of ?me] by fastforce
  then show ?thesis using diag_blocks_standard_disk [OF p _ sec r] by simp
qed

end
