(* ===== verification/HD_BlackBox.thy ===== *)
theory HD_BlackBox
  imports HD_Crc32c
begin

text \<open>
  The boot black box: the recorder of \<^verbatim>\<open>client/blackbox/blackbox_recorder.cpp\<close>, which appends
  fixed-size entries to a buffer of 64 MiB and writes them to a file with a checksum, and the
  analyzer of \<^verbatim>\<open>tools/blackbox_analyzer/main.cpp\<close>, which reads such a file. The clock, the heap and the
  file are parameters. The report of the analyzer is a record of the values it prints; the two
  values it prints as floating-point numbers, the duration and the average latencies, are left out.
\<close>

section \<open>Layout\<close>

definition BB_MAGIC :: "u8 list" where
  "BB_MAGIC = bytes_of_string ''HDBBOX'' @ [0, 0]"

definition BB_VERSION :: u16 where "BB_VERSION = 1"
definition BB_ENTRY_SIZE :: u32 where "BB_ENTRY_SIZE = 26"
definition BB_RING_SIZE :: nat where "BB_RING_SIZE = 64 * 1024 * 1024"

datatype BbPhase = PXE | IPXE | BOOTAGENT | WINPE | BOOTDIAG | BOOTMGR | WINLOAD | KERNEL | DESKTOP

fun phase_value :: "BbPhase \<Rightarrow> u8" where
  "phase_value PXE = 0" | "phase_value IPXE = 1" | "phase_value BOOTAGENT = 2" | "phase_value WINPE = 3"
| "phase_value BOOTDIAG = 4" | "phase_value BOOTMGR = 5" | "phase_value WINLOAD = 6" | "phase_value KERNEL = 7"
| "phase_value DESKTOP = 8"

datatype BbStatus = BB_SUCCESS | BB_FAIL | BB_TIMEOUT | BB_RETRY | BB_WARN

fun status_value :: "BbStatus \<Rightarrow> u8" where
  "status_value BB_SUCCESS = 0" | "status_value BB_FAIL = 1" | "status_value BB_TIMEOUT = 2"
| "status_value BB_RETRY = 3" | "status_value BB_WARN = 4"

record BlackBoxEntry =
  bb_timestamp_delta_lo :: u32
  bb_timestamp_delta_hi :: u32
  bb_phase :: u8
  bb_status :: u8
  bb_latency_us :: u16
  bb_lba_lo :: u32
  bb_lba_hi :: u32
  bb_offset :: u16
  bb_size_lo :: u16
  bb_size_hi :: u8
  bb_reserved :: u8

definition bb_entry_bytes :: "BlackBoxEntry \<Rightarrow> u8 list" where
  "bb_entry_bytes e =
     le_bytes 4 (bb_timestamp_delta_lo e) @ le_bytes 4 (bb_timestamp_delta_hi e) @ [bb_phase e, bb_status e] @
     le_bytes 2 (bb_latency_us e) @ le_bytes 4 (bb_lba_lo e) @ le_bytes 4 (bb_lba_hi e) @ le_bytes 2 (bb_offset e) @
     le_bytes 2 (bb_size_lo e) @ [bb_size_hi e, bb_reserved e]"

definition bb_entry_of :: "u8 list \<Rightarrow> BlackBoxEntry" where
  "bb_entry_of bs =
     \<lparr>bb_timestamp_delta_lo = le_word 4 bs, bb_timestamp_delta_hi = le_word 4 (drop 4 bs),
      bb_phase = bs ! 8, bb_status = bs ! 9, bb_latency_us = le_word 2 (drop 10 bs),
      bb_lba_lo = le_word 4 (drop 12 bs), bb_lba_hi = le_word 4 (drop 16 bs), bb_offset = le_word 2 (drop 20 bs),
      bb_size_lo = le_word 2 (drop 22 bs), bb_size_hi = bs ! 24, bb_reserved = bs ! 25\<rparr>"

record BlackBoxFileHeader =
  bbh_magic :: "u8 list"
  bbh_version :: u16
  bbh_entry_size :: u16
  bbh_entry_count :: u32
  bbh_start_time_lo :: u32
  bbh_start_time_hi :: u32
  bbh_end_time_lo :: u32
  bbh_end_time_hi :: u32
  bbh_reserved :: u32

definition bb_header_bytes :: "BlackBoxFileHeader \<Rightarrow> u8 list" where
  "bb_header_bytes h =
     bbh_magic h @ le_bytes 2 (bbh_version h) @ le_bytes 2 (bbh_entry_size h) @ le_bytes 4 (bbh_entry_count h) @
     le_bytes 4 (bbh_start_time_lo h) @ le_bytes 4 (bbh_start_time_hi h) @ le_bytes 4 (bbh_end_time_lo h) @
     le_bytes 4 (bbh_end_time_hi h) @ le_bytes 4 (bbh_reserved h)"

definition bb_header_of :: "u8 list \<Rightarrow> BlackBoxFileHeader" where
  "bb_header_of bs =
     \<lparr>bbh_magic = take 8 bs, bbh_version = le_word 2 (drop 8 bs), bbh_entry_size = le_word 2 (drop 10 bs),
      bbh_entry_count = le_word 4 (drop 12 bs), bbh_start_time_lo = le_word 4 (drop 16 bs),
      bbh_start_time_hi = le_word 4 (drop 20 bs), bbh_end_time_lo = le_word 4 (drop 24 bs),
      bbh_end_time_hi = le_word 4 (drop 28 bs), bbh_reserved = le_word 4 (drop 32 bs)\<rparr>"

text \<open>The two halves of a 64-bit number, and the number they make.\<close>

definition lo32 :: "u64 \<Rightarrow> u32" where "lo32 x = ucast (x AND 0xFFFFFFFF)"
definition hi32 :: "u64 \<Rightarrow> u32" where "hi32 x = ucast (drop_bit 32 x)"
definition join64 :: "u32 \<Rightarrow> u32 \<Rightarrow> u64" where "join64 lo hi = ucast lo OR push_bit 32 (ucast hi)"

section \<open>The recorder\<close>

record BlackBoxRecorder =
  bbr_ring_buffer :: "u8 list option"
  bbr_write_pos :: u32
  bbr_read_pos :: u32
  bbr_entry_count :: u32
  bbr_overflow_count :: u32
  bbr_start_time :: u64
  bbr_initialized :: bool

definition BlackBoxRecorder_new :: BlackBoxRecorder where
  "BlackBoxRecorder_new =
     \<lparr>bbr_ring_buffer = None, bbr_write_pos = 0, bbr_read_pos = 0, bbr_entry_count = 0, bbr_overflow_count = 0,
      bbr_start_time = 0, bbr_initialized = False\<rparr>"

definition BB_Initialize :: "bool \<Rightarrow> u64 \<Rightarrow> BlackBoxRecorder \<Rightarrow> bool \<times> BlackBoxRecorder" where
  "BB_Initialize alloc now r =
     (if bbr_initialized r then (True, r)
      else if \<not> alloc then (False, r\<lparr>bbr_ring_buffer := None\<rparr>)
      else (True, r\<lparr>bbr_ring_buffer := Some (replicate BB_RING_SIZE 0), bbr_write_pos := 0, bbr_read_pos := 0,
                   bbr_entry_count := 0, bbr_overflow_count := 0, bbr_start_time := now, bbr_initialized := True\<rparr>))"

text \<open>The arguments of a call of \<^verbatim>\<open>Record\<close>, with the time at which it runs.\<close>

record bb_call =
  bc_now :: u64
  bc_phase :: BbPhase
  bc_lba :: u64
  bc_offset :: u32
  bc_size :: u32
  bc_status :: BbStatus
  bc_latency_us :: u16

definition bb_entry :: "u64 \<Rightarrow> bb_call \<Rightarrow> BlackBoxEntry" where
  "bb_entry start_time c =
     (let delta = bc_now c - start_time in
      \<lparr>bb_timestamp_delta_lo = lo32 delta, bb_timestamp_delta_hi = hi32 delta,
       bb_phase = phase_value (bc_phase c), bb_status = status_value (bc_status c), bb_latency_us = bc_latency_us c,
       bb_lba_lo = lo32 (bc_lba c), bb_lba_hi = hi32 (bc_lba c), bb_offset = ucast (bc_offset c AND 0xFFFF),
       bb_size_lo = ucast (bc_size c AND 0xFFFF), bb_size_hi = ucast (drop_bit 16 (bc_size c)), bb_reserved = 0\<rparr>)"

definition BB_Record :: "BlackBoxRecorder \<Rightarrow> bb_call \<Rightarrow> BlackBoxRecorder res" where
  "BB_Record r c =
     (if \<not> bbr_initialized r then Inr r
      else let entry = bb_entry (bbr_start_time r) c; pos = bbr_write_pos r; next_pos = pos + BB_ENTRY_SIZE in
        if BB_RING_SIZE < unat next_pos + unat BB_ENTRY_SIZE
        then Inr (r\<lparr>bbr_overflow_count := bbr_overflow_count r + 1\<rparr>)
        else (case bbr_ring_buffer r of
                None \<Rightarrow> Inl NullDereference
              | Some ring \<Rightarrow> rbind (mem_write ring (unat pos) (bb_entry_bytes entry)) (\<lambda>ring'.
                  Inr (r\<lparr>bbr_ring_buffer := Some ring', bbr_write_pos := next_pos,
                         bbr_entry_count := bbr_entry_count r + 1\<rparr>))))"

definition FillHeader :: "u64 \<Rightarrow> u32 \<Rightarrow> u64 \<Rightarrow> BlackBoxFileHeader" where
  "FillHeader end_time entry_count start_time =
     \<lparr>bbh_magic = BB_MAGIC, bbh_version = BB_VERSION, bbh_entry_size = ucast BB_ENTRY_SIZE, bbh_entry_count = entry_count,
      bbh_start_time_lo = lo32 start_time, bbh_start_time_hi = hi32 start_time,
      bbh_end_time_lo = lo32 end_time, bbh_end_time_hi = hi32 end_time, bbh_reserved = 0\<rparr>"

text \<open>
  \<^verbatim>\<open>FlushToDisk\<close>: the result and the content of the file. The results of the three \<^verbatim>\<open>fwrite\<close> calls are
  ignored; \<open>room\<close> is the number of bytes that reach the disk.
\<close>

definition FlushToDisk :: "bool \<Rightarrow> nat \<Rightarrow> u64 \<Rightarrow> BlackBoxRecorder \<Rightarrow> (bool \<times> u8 list option) res" where
  "FlushToDisk opens room now r =
     (if \<not> bbr_initialized r \<or> bbr_entry_count r = 0 then Inr (False, None)
      else if \<not> opens then Inr (False, None)
      else (case bbr_ring_buffer r of
              None \<Rightarrow> Inl NullDereference
            | Some ring \<Rightarrow> rbind (mem_read ring 0 (unat (bbr_write_pos r))) (\<lambda>data.
                let header = bb_header_bytes (FillHeader now (bbr_entry_count r) (bbr_start_time r));
                    footer = le_bytes 4 (blackbox_ComputeCrc32C data) @ le_bytes 4 (bbr_entry_count r) @ le_bytes 2 (0 :: u16)
                in Inr (True, Some (take room (header @ data @ footer))))))"

definition FlushEmergency :: "bool \<Rightarrow> nat \<Rightarrow> u64 \<Rightarrow> BlackBoxRecorder \<Rightarrow> (bool \<times> u8 list option) res" where
  "FlushEmergency opens room now r = FlushToDisk opens room now r"

definition BB_Shutdown :: "BlackBoxRecorder \<Rightarrow> BlackBoxRecorder" where
  "BB_Shutdown r = (if \<not> bbr_initialized r then r else r\<lparr>bbr_ring_buffer := None, bbr_initialized := False\<rparr>)"

section \<open>The analyzer\<close>

definition PhaseName :: "u8 \<Rightarrow> string" where
  "PhaseName p =
     (if p = 0 then ''PXE'' else if p = 1 then ''IPXE'' else if p = 2 then ''BOOTAGENT'' else if p = 3 then ''WINPE''
      else if p = 4 then ''BOOTDIAG'' else if p = 5 then ''BOOTMGR'' else if p = 6 then ''WINLOAD''
      else if p = 7 then ''KERNEL'' else if p = 8 then ''DESKTOP'' else ''UNKNOWN'')"

definition StatusName :: "u8 \<Rightarrow> string" where
  "StatusName s =
     (if s = 0 then ''OK'' else if s = 1 then ''FAIL'' else if s = 2 then ''TIMEOUT'' else if s = 3 then ''RETRY''
      else if s = 4 then ''WARN'' else ''?'')"

text \<open>A line of the timeline.\<close>

record bb_line =
  bl_ts :: u64
  bl_phase :: string
  bl_status :: string
  bl_lba :: u64
  bl_off :: u16
  bl_size :: u32
  bl_lat :: u16

definition bb_entry_lba :: "BlackBoxEntry \<Rightarrow> u64" where
  "bb_entry_lba e = join64 (bb_lba_lo e) (bb_lba_hi e)"

definition bb_timeline_line :: "BlackBoxEntry \<Rightarrow> bb_line" where
  "bb_timeline_line e =
     \<lparr>bl_ts = join64 (bb_timestamp_delta_lo e) (bb_timestamp_delta_hi e), bl_phase = PhaseName (bb_phase e),
      bl_status = StatusName (bb_status e), bl_lba = bb_entry_lba e, bl_off = bb_offset e,
      bl_size = ucast (bb_size_lo e) OR push_bit 16 (ucast (bb_size_hi e)), bl_lat = bb_latency_us e\<rparr>"

text \<open>The statistics of a phase: its name, the number of entries, and two percentiles.\<close>

definition phase_stat :: "BlackBoxEntry list \<Rightarrow> u8 \<Rightarrow> (string \<times> u32 \<times> u16 \<times> u16) res" where
  "phase_stat entries p =
     (let lats = List.map bb_latency_us (filter (\<lambda>e. bb_phase e = p) entries); sorted_lats = sort lats in
      rbind (vec_at sorted_lats (length sorted_lats * 95 div 100)) (\<lambda>p95.
      rbind (vec_at sorted_lats (length sorted_lats * 99 div 100)) (\<lambda>p99.
        Inr (PhaseName p, of_nat (length lats), p95, p99))))"

definition phase_stats :: "BlackBoxEntry list \<Rightarrow> (string \<times> u32 \<times> u16 \<times> u16) list res" where
  "phase_stats entries =
     res_fold (\<lambda>acc p. rbind (phase_stat entries p) (\<lambda>x. Inr (acc @ [x]))) [] (sort (remdups (List.map bb_phase entries)))"

text \<open>
  The blocks with their numbers of accesses in the order of a map, and the most frequent ones.
  \<^verbatim>\<open>std::sort\<close> leaves the order of equal counts open: it is the parameter \<open>std_sort\<close>.
\<close>

definition lba_freq :: "BlackBoxEntry list \<Rightarrow> (u64 \<times> u32) list" where
  "lba_freq entries =
     (let lbas = List.map bb_entry_lba entries
      in List.map (\<lambda>l. (l, of_nat (count_list lbas l))) (sort (remdups lbas)))"

type_synonym hot_sort = "(u64 \<times> u32) list \<Rightarrow> (u64 \<times> u32) list"

definition hot_blocks :: "hot_sort \<Rightarrow> BlackBoxEntry list \<Rightarrow> (u64 \<times> u32) list" where
  "hot_blocks std_sort entries = take 20 (std_sort (lba_freq entries))"

definition fault_step :: "BlackBoxEntry option \<times> BlackBoxEntry option \<Rightarrow> BlackBoxEntry \<Rightarrow> BlackBoxEntry option \<times> BlackBoxEntry option" where
  "fault_step acc e =
     (case acc of (last_success, first_fail) \<Rightarrow>
        (if bb_status e = status_value BB_SUCCESS then Some e else last_success,
         if bb_status e = status_value BB_FAIL \<and> first_fail = None then Some e else first_fail))"

record bb_report =
  rp_version :: u16
  rp_entry_size :: u16
  rp_entry_count :: u32
  rp_start_time :: u64
  rp_end_time :: u64
  rp_crc_ok :: bool
  rp_timeline :: "bb_line list"
  rp_phases :: "(string \<times> u32 \<times> u16 \<times> u16) list"
  rp_hot :: "(u64 \<times> u32) list"
  rp_last_success :: "BlackBoxEntry option"
  rp_first_fail :: "BlackBoxEntry option"

text \<open>The exit status with the report, or the end by an exception of the allocation.\<close>

datatype bb_outcome = BbExit int "bb_report option" | BbAbort

fun split_entries :: "nat \<Rightarrow> u8 list \<Rightarrow> BlackBoxEntry list" where
  "split_entries 0 bs = []"
| "split_entries (Suc n) bs = bb_entry_of (take 26 bs) # split_entries n (drop 26 bs)"

definition AnalyzeBlackBox :: "(u32 \<Rightarrow> bool) \<Rightarrow> hot_sort \<Rightarrow> u8 list option \<Rightarrow> bb_outcome res" where
  "AnalyzeBlackBox alloc std_sort file =
     (case file of
        None \<Rightarrow> Inr (BbExit 1 None)
      | Some f \<Rightarrow>
          if length f < 36 then Inr (BbExit 1 None)
          else let header = bb_header_of (take 36 f); count = bbh_entry_count header; data = drop 36 f in
          if bbh_magic header \<noteq> BB_MAGIC then Inr (BbExit 1 None)
          else if \<not> alloc count then Inr BbAbort
          else if length data < unat count * 26 then Inr (BbExit 1 None)
          else let raw = take (unat count * 26) data; footer = drop (unat count * 26) data in
          if length footer < 10 then Inr (BbExit 1 None)
          else let entries = split_entries (unat count) raw;
                   verify_crc = blackbox_ComputeCrc32C (take (unat (of_nat (unat count * 26) :: u32)) raw) in
               rbind (phase_stats entries) (\<lambda>phases.
               case foldl fault_step (None, None) entries of (last_success, first_fail) \<Rightarrow>
                 Inr (BbExit 0 (Some \<lparr>rp_version = bbh_version header, rp_entry_size = bbh_entry_size header,
                   rp_entry_count = count, rp_start_time = join64 (bbh_start_time_lo header) (bbh_start_time_hi header),
                   rp_end_time = join64 (bbh_end_time_lo header) (bbh_end_time_hi header),
                   rp_crc_ok = (verify_crc = le_word 4 footer), rp_timeline = List.map bb_timeline_line entries,
                   rp_phases = phases, rp_hot = hot_blocks std_sort entries,
                   rp_last_success = last_success, rp_first_fail = first_fail\<rparr>))))"

text \<open>\<^verbatim>\<open>main\<close>: the arguments and the file system.\<close>

definition blackbox_analyzer_main :: "(u32 \<Rightarrow> bool) \<Rightarrow> hot_sort \<Rightarrow> (string \<Rightarrow> u8 list option) \<Rightarrow> string list \<Rightarrow> bb_outcome res" where
  "blackbox_analyzer_main alloc std_sort files argv =
     (case argv of _ # path # _ \<Rightarrow> AnalyzeBlackBox alloc std_sort (files path) | _ \<Rightarrow> Inr (BbExit 1 None))"

section \<open>Layout lemmas\<close>

lemma mask_numerals: "0xFFFFFFFF = (mask 32 :: u64)" "0xFFFF = (mask 16 :: u32)" "0xFFFFFF = (mask 24 :: u32)"
  by (simp_all add: mask_eq_exp_minus_1)

lemma join64_lo_hi: "join64 (lo32 x) (hi32 x) = x"
proof (rule bit_eqI)
  fix n
  assume "possible_bit TYPE(64 word) n"
  then show "bit (join64 (lo32 x) (hi32 x)) n \<longleftrightarrow> bit x n"
    unfolding join64_def lo32_def hi32_def mask_numerals by (cases "n < 32") (auto simp: bit_simps)
qed

lemma size24: "ucast (ucast (x AND 0xFFFF) :: u16) OR push_bit 16 (ucast (ucast (drop_bit 16 x) :: u8)) = (x :: u32) AND 0xFFFFFF"
proof (rule bit_eqI)
  fix n
  assume "possible_bit TYPE(32 word) n"
  then show "bit (ucast (ucast (x AND 0xFFFF) :: u16) OR push_bit 16 (ucast (ucast (drop_bit 16 x) :: u8)) :: u32) n \<longleftrightarrow> bit (x AND 0xFFFFFF) n"
    unfolding mask_numerals by (cases "n < 16") (auto simp: bit_simps)
qed

lemma length_bb_entry_bytes [hd_len, simp]: "length (bb_entry_bytes e) = 26"
  by (simp add: bb_entry_bytes_def)

lemma bb_entry_of_bytes: "bb_entry_of (bb_entry_bytes e @ rest) = e"
  by (simp add: bb_entry_of_def bb_entry_bytes_def le_word_append le_word_le_bytes nth_append)

lemma length_bb_header_bytes [hd_len]: "length (bbh_magic h) = 8 \<Longrightarrow> length (bb_header_bytes h) = 36"
  by (simp add: bb_header_bytes_def)

lemma bb_header_of_bytes: "length (bbh_magic h) = 8 \<Longrightarrow> bb_header_of (bb_header_bytes h) = h"
  by (simp add: bb_header_of_def bb_header_bytes_def le_word_append le_word_le_bytes)

lemma length_BB_MAGIC [simp]: "length BB_MAGIC = 8"
  by (simp add: BB_MAGIC_def bytes_of_string_def)

definition bb_image :: "BlackBoxEntry list \<Rightarrow> u8 list" where
  "bb_image es = concat (List.map bb_entry_bytes es)"

lemma bb_image_simps [simp]:
  "bb_image [] = []" "bb_image (e # es) = bb_entry_bytes e @ bb_image es" "bb_image (es @ es') = bb_image es @ bb_image es'"
  by (simp_all add: bb_image_def)

lemma length_bb_image [hd_len, simp]: "length (bb_image es) = 26 * length es"
  by (induction es) simp_all

lemma split_bb_image: "split_entries (length es) (bb_image es) = es"
  by (induction es) (simp_all add: bb_entry_of_bytes [of _ "[]", simplified])

text \<open>A percentile of a non-empty list is inside it, and the statistics never fault.\<close>

lemma percentile_in: "q < 100 \<Longrightarrow> 0 < n \<Longrightarrow> n * q div 100 < (n :: nat)"
  by (simp add: div_less_iff_less_mult)

lemma phase_stat_ok: "p \<in> set (List.map bb_phase es) \<Longrightarrow> \<exists>x. phase_stat es p = Inr x"
proof -
  assume "p \<in> set (List.map bb_phase es)"
  then have "filter (\<lambda>e. bb_phase e = p) es \<noteq> []" by (auto simp: filter_empty_conv)
  then have n: "0 < length (sort (List.map bb_latency_us (filter (\<lambda>e. bb_phase e = p) es)))" (is "0 < length ?s") by simp
  have "vec_at ?s (length ?s * 95 div 100) = Inr (?s ! (length ?s * 95 div 100))"
      "vec_at ?s (length ?s * 99 div 100) = Inr (?s ! (length ?s * 99 div 100))"
    using percentile_in [OF _ n, of 95] percentile_in [OF _ n, of 99] by (auto simp only: vec_at_def if_True)
  then show ?thesis unfolding phase_stat_def Let_def by (simp only: rbind_simps) blast
qed

lemma res_fold_total:
  "(\<And>s x. x \<in> set xs \<Longrightarrow> \<exists>s'. f s x = Inr s') \<Longrightarrow> \<exists>s'. res_fold f s xs = Inr s'"
proof (induction xs arbitrary: s)
  case (Cons x xs)
  obtain s1 where "f s x = Inr s1" using Cons.prems [of x s] by auto
  moreover have "\<exists>s'. res_fold f s1 xs = Inr s'" using Cons.prems by (intro Cons.IH) auto
  ultimately show ?case by simp
qed simp

lemma phase_stats_ok: "\<exists>ps. phase_stats es = Inr ps"
  unfolding phase_stats_def
proof (rule res_fold_total)
  fix acc p
  assume "p \<in> set (sort (remdups (List.map bb_phase es)))"
  then obtain x where "phase_stat es p = Inr x" using phase_stat_ok by fastforce
  then show "\<exists>s'. rbind (phase_stat es p) (\<lambda>x. Inr (acc @ [x])) = Inr s'" by simp
qed

text \<open>The analyzer on a file of the right shape: any bytes for the entries, any footer.\<close>

lemma Analyze_ok:
  assumes h: "bbh_magic h = BB_MAGIC" and n: "length data = 26 * unat (bbh_entry_count h)" "26 * unat (bbh_entry_count h) < 2 ^ 32"
    and "length footer = 10" "alloc (bbh_entry_count h)"
  shows "\<exists>rep. AnalyzeBlackBox alloc srt (Some (bb_header_bytes h @ data @ footer)) = Inr (BbExit 0 (Some rep)) \<and>
     rp_entry_count rep = bbh_entry_count h \<and> rp_crc_ok rep = (blackbox_ComputeCrc32C data = le_word 4 footer) \<and>
     rp_timeline rep = List.map bb_timeline_line (split_entries (unat (bbh_entry_count h)) data)"
proof -
  obtain ps where ps: "phase_stats (split_entries (unat (bbh_entry_count h)) data) = Inr ps" using phase_stats_ok by blast
  have l: "length (bb_header_bytes h) = 36" using h by (simp add: length_bb_header_bytes)
  then have "bb_header_of (take 36 (bb_header_bytes h @ data @ footer)) = h" using bb_header_of_bytes h by simp
  moreover have "unat (of_nat (unat (bbh_entry_count h) * 26) :: u32) = unat (bbh_entry_count h) * 26"
    using n(2) by (intro unat_of_nat_u32) simp
  ultimately show ?thesis
    using assms ps l by (simp add: AnalyzeBlackBox_def Let_def case_prod_unfold mult.commute)
qed

section \<open>The recorder as a log\<close>

definition bb_capacity :: nat where "bb_capacity = 2581109"

definition bb_holds :: "BlackBoxRecorder \<Rightarrow> u64 \<Rightarrow> BlackBoxEntry list \<Rightarrow> bool" where
  "bb_holds r t0 es \<longleftrightarrow> bbr_initialized r \<and> bbr_start_time r = t0 \<and> length es \<le> bb_capacity \<and>
     bbr_entry_count r = of_nat (length es) \<and> unat (bbr_write_pos r) = 26 * length es \<and>
     (\<exists>ring. bbr_ring_buffer r = Some ring \<and> length ring = BB_RING_SIZE \<and> take (26 * length es) ring = bb_image es)"

lemma bb_Record_step:
  assumes "bb_holds r t0 es"
  shows "\<exists>r'. BB_Record r c = Inr r' \<and>
     (if length es < bb_capacity then bb_holds r' t0 (es @ [bb_entry t0 c]) \<and> bbr_overflow_count r' = bbr_overflow_count r
      else bb_holds r' t0 es \<and> bbr_overflow_count r' = bbr_overflow_count r + 1)"
proof -
  obtain ring where ring: "bbr_ring_buffer r = Some ring" "length ring = BB_RING_SIZE" "take (26 * length es) ring = bb_image es"
    and pos: "unat (bbr_write_pos r) = 26 * length es" and le: "length es \<le> bb_capacity"
    and i: "bbr_initialized r" "bbr_start_time r = t0" "bbr_entry_count r = of_nat (length es)"
    using assms by (auto simp: bb_holds_def)
  have np: "unat (bbr_write_pos r + BB_ENTRY_SIZE) = 26 * length es + 26"
    using pos le by (simp add: unat_word_ariths BB_ENTRY_SIZE_def bb_capacity_def)
  have full: "BB_RING_SIZE < unat (bbr_write_pos r + BB_ENTRY_SIZE) + unat BB_ENTRY_SIZE \<longleftrightarrow> \<not> length es < bb_capacity"
    using le unfolding np by (simp add: BB_RING_SIZE_def BB_ENTRY_SIZE_def bb_capacity_def) linarith
  show ?thesis
  proof (cases "length es < bb_capacity")
    case True
    let ?b = "bb_entry_bytes (bb_entry t0 c)"
    have fit: "26 * length es + 26 \<le> length ring" using True ring(2) by (simp add: BB_RING_SIZE_def bb_capacity_def)
    have w: "mem_write ring (26 * length es) ?b = Inr (bb_image es @ ?b @ drop (26 * length es + 26) ring)"
      using fit ring(3) by (simp add: mem_write_def)
    have "26 * length (es @ [bb_entry t0 c]) = length (bb_image es @ ?b)" by simp
    then show ?thesis using True full w i ring fit np
      by (simp add: BB_Record_def Let_def pos bb_holds_def)
  next
    case False
    then have "BB_Record r c = Inr (r\<lparr>bbr_overflow_count := bbr_overflow_count r + 1\<rparr>)"
      using full i by (simp add: BB_Record_def Let_def)
    moreover have "bb_holds (r\<lparr>bbr_overflow_count := bbr_overflow_count r + 1\<rparr>) t0 es"
      using assms unfolding bb_holds_def by simp
    ultimately show ?thesis using False by simp
  qed
qed

lemma bb_Initialize_holds:
  "\<not> bbr_initialized r0 \<Longrightarrow> BB_Initialize True t0 r0 = (True, r) \<Longrightarrow> bb_holds r t0 [] \<and> bbr_overflow_count r = 0"
  by (auto simp: BB_Initialize_def bb_holds_def bb_capacity_def)

lemma bb_Records:
  assumes "bb_holds r t0 es"
  shows "\<exists>r'. res_fold BB_Record r cs = Inr r' \<and> bb_holds r' t0 (take bb_capacity (es @ List.map (bb_entry t0) cs)) \<and>
     bbr_overflow_count r' = bbr_overflow_count r + of_nat (length es + length cs - bb_capacity)"
  using assms
proof (induction cs arbitrary: r es)
  case Nil
  then have "length es \<le> bb_capacity" by (simp add: bb_holds_def)
  then show ?case using Nil by simp
next
  case (Cons c cs)
  obtain r1 where r1: "BB_Record r c = Inr r1"
    and k: "if length es < bb_capacity then bb_holds r1 t0 (es @ [bb_entry t0 c]) \<and> bbr_overflow_count r1 = bbr_overflow_count r
      else bb_holds r1 t0 es \<and> bbr_overflow_count r1 = bbr_overflow_count r + 1"
    using bb_Record_step [OF Cons.prems] by blast
  have le: "length es \<le> bb_capacity" using Cons.prems by (simp add: bb_holds_def)
  show ?case
  proof (cases "length es < bb_capacity")
    case True
    then show ?thesis using Cons.IH [of r1 "es @ [bb_entry t0 c]"] k r1 by simp
  next
    case False
    then have "length es = bb_capacity" using le by simp
    then show ?thesis using Cons.IH [of r1 es] False k r1 by (simp add: algebra_simps)
  qed
qed

lemma bb_Flush_eq:
  assumes "bb_holds r t0 es" "es \<noteq> []"
  shows "FlushToDisk True room now r = Inr (True, Some (take room (bb_header_bytes (FillHeader now (of_nat (length es)) t0) @
     bb_image es @ le_bytes 4 (crc32c (bb_image es)) @ le_bytes 4 (of_nat (length es) :: u32) @ le_bytes 2 (0 :: u16))))"
proof -
  obtain ring where ring: "bbr_ring_buffer r = Some ring" "length ring = BB_RING_SIZE" "take (26 * length es) ring = bb_image es"
    and pos: "unat (bbr_write_pos r) = 26 * length es" and le: "length es \<le> bb_capacity"
    and i: "bbr_initialized r" "bbr_start_time r = t0" "bbr_entry_count r = of_nat (length es)"
    using assms by (auto simp: bb_holds_def)
  have "(of_nat (length es) :: u32) \<noteq> 0"
    using assms(2) le unat_of_nat_u32 [of "length es"] by (auto simp: bb_capacity_def)
  moreover have "26 * length es \<le> length ring" using le ring(2) by (simp add: bb_capacity_def BB_RING_SIZE_def)
  ultimately show ?thesis
    using i ring by (simp add: FlushToDisk_def pos blackbox_crc_ref Let_def)
qed

lemma FillHeader_simps [simp]:
  "bbh_magic (FillHeader now n t0) = BB_MAGIC" "bbh_entry_count (FillHeader now n t0) = n"
  by (simp_all add: FillHeader_def)

text \<open>What the analyzer shows of a call: the offset keeps 16 bits, the size 24.\<close>

definition bb_shown :: "u64 \<Rightarrow> bb_call \<Rightarrow> bb_line" where
  "bb_shown t0 c =
     \<lparr>bl_ts = bc_now c - t0, bl_phase = PhaseName (phase_value (bc_phase c)), bl_status = StatusName (status_value (bc_status c)),
      bl_lba = bc_lba c, bl_off = ucast (bc_offset c), bl_size = bc_size c AND 0xFFFFFF, bl_lat = bc_latency_us c\<rparr>"

lemma bb_line_entry: "bb_timeline_line (bb_entry t0 c) = bb_shown t0 c"
proof -
  have "(ucast (x AND 0xFFFF) :: u16) = ucast x" for x :: u32
    unfolding mask_numerals by (rule bit_eqI) (auto simp: bit_simps)
  then show ?thesis
    using size24 [of "bc_size c"] by (simp add: bb_timeline_line_def bb_entry_def bb_shown_def bb_entry_lba_def Let_def join64_lo_hi)
qed

text \<open>A recorder that holds the entries of \<open>calls\<close> writes a file that shows exactly these calls.\<close>

lemma bb_flush_analyze:
  assumes h: "bb_holds r t0 (List.map (bb_entry t0) calls)" and "calls \<noteq> []" and "67108906 \<le> room" "\<And>n. alloc n"
  obtains f rep where "FlushToDisk True room now r = Inr (True, Some f)"
    "AnalyzeBlackBox alloc std_sort (Some f) = Inr (BbExit 0 (Some rep))" "rp_crc_ok rep"
    "rp_timeline rep = List.map (bb_shown t0) calls"
proof -
  let ?es = "List.map (bb_entry t0) calls"
  let ?n = "of_nat (length ?es) :: u32"
  let ?foot = "le_bytes 4 (crc32c (bb_image ?es)) @ le_bytes 4 ?n @ le_bytes 2 (0 :: u16)"
  let ?file = "bb_header_bytes (FillHeader now ?n t0) @ bb_image ?es @ ?foot"
  have le: "length ?es \<le> bb_capacity" using h by (simp add: bb_holds_def)
  have un: "unat ?n = length ?es" using le by (intro unat_of_nat_u32) (simp add: bb_capacity_def)
  have ne: "?es \<noteq> []" using assms(2) by simp
  have "length ?file \<le> room" using assms(3) le by (simp add: length_bb_header_bytes bb_capacity_def)
  then have fl: "FlushToDisk True room now r = Inr (True, Some ?file)" using bb_Flush_eq [OF h ne, of room now] by simp
  have lt: "26 * length ?es < 2 ^ 32" using le by (simp add: bb_capacity_def)
  obtain rep where rep: "AnalyzeBlackBox alloc std_sort (Some ?file) = Inr (BbExit 0 (Some rep))"
      "rp_crc_ok rep = (blackbox_ComputeCrc32C (bb_image ?es) = le_word 4 ?foot)"
      "rp_timeline rep = List.map bb_timeline_line (split_entries (unat ?n) (bb_image ?es))"
    using Analyze_ok [of "FillHeader now ?n t0" "bb_image ?es" ?foot alloc std_sort] un lt assms(4) by auto
  have "rp_crc_ok rep" unfolding rep(2) by (simp add: blackbox_crc_ref le_word_append le_word_le_bytes)
  moreover have "rp_timeline rep = List.map (bb_shown t0) calls"
    unfolding rep(3) un split_bb_image by (simp add: bb_line_entry)
  ultimately show thesis using that [OF fl rep(1)] by simp
qed

section \<open>Properties\<close>

text \<open>
  C28. The black box is an exact log of its first 2581109 calls. After initialization and any list of
  calls of \<^verbatim>\<open>Record\<close> no access leaves the buffer, the counters are the number of entries kept and the
  number refused, and the file written by \<^verbatim>\<open>FlushToDisk\<close> is accepted by the analyzer, with a correct
  checksum and a timeline that shows exactly the calls kept, in order, their offsets modulo \<open>2 ^ 16\<close> and
  their sizes modulo \<open>2 ^ 24\<close>.
\<close>

theorem bb_exact_log:
  assumes "\<not> bbr_initialized r0" "BB_Initialize True t0 r0 = (True, r)" and "\<And>n. alloc n" and "calls \<noteq> []"
    and "67108906 \<le> room"
  shows "\<exists>r' file rep. res_fold BB_Record r calls = Inr r' \<and>
     bbr_entry_count r' = of_nat (min 2581109 (length calls)) \<and> bbr_overflow_count r' = of_nat (length calls - 2581109) \<and>
     FlushToDisk True room now r' = Inr (True, Some file) \<and>
     AnalyzeBlackBox alloc std_sort (Some file) = Inr (BbExit 0 (Some rep)) \<and> rp_crc_ok rep \<and>
     rp_timeline rep = List.map (bb_shown t0) (take 2581109 calls)"
proof -
  obtain r' where r': "res_fold BB_Record r calls = Inr r'" "bb_holds r' t0 (List.map (bb_entry t0) (take bb_capacity calls))"
      "bbr_overflow_count r' = of_nat (length calls - bb_capacity)"
    using bb_Records [of r t0 "[]" calls] bb_Initialize_holds [OF assms(1,2)] by (auto simp: take_map)
  have ne: "take bb_capacity calls \<noteq> []" using assms(4) by (simp add: bb_capacity_def)
  have "bbr_entry_count r' = of_nat (min bb_capacity (length calls))"
    using r'(2) by (simp add: bb_holds_def min.commute)
  moreover obtain f rep where "FlushToDisk True room now r' = Inr (True, Some f)"
    "AnalyzeBlackBox alloc std_sort (Some f) = Inr (BbExit 0 (Some rep))" "rp_crc_ok rep"
    "rp_timeline rep = List.map (bb_shown t0) (take bb_capacity calls)"
    using bb_flush_analyze [OF r'(2) ne assms(5,3), where now = now and std_sort = std_sort] .
  ultimately show ?thesis using r'(1,3) unfolding bb_capacity_def by blast
qed

theorem bb_exact_log_witness:
  "\<exists>r' file rep. res_fold BB_Record (snd (BB_Initialize True 5 BlackBoxRecorder_new))
       [\<lparr>bc_now = 7, bc_phase = KERNEL, bc_lba = 9, bc_offset = 65537, bc_size = 512, bc_status = BB_FAIL, bc_latency_us = 3\<rparr>] = Inr r' \<and>
     FlushToDisk True 67108906 8 r' = Inr (True, Some file) \<and>
     AnalyzeBlackBox (\<lambda>_. True) (\<lambda>xs. xs) (Some file) = Inr (BbExit 0 (Some rep)) \<and> rp_crc_ok rep \<and>
     List.map bl_off (rp_timeline rep) = [1]"
proof -
  let ?c = "\<lparr>bc_now = 7, bc_phase = KERNEL, bc_lba = 9, bc_offset = 65537, bc_size = 512, bc_status = BB_FAIL, bc_latency_us = 3\<rparr>"
  have "\<not> bbr_initialized BlackBoxRecorder_new" by (simp add: BlackBoxRecorder_new_def)
  moreover have "BB_Initialize True 5 BlackBoxRecorder_new = (True, snd (BB_Initialize True 5 BlackBoxRecorder_new))"
    by (simp add: BB_Initialize_def BlackBoxRecorder_new_def)
  ultimately show ?thesis
    using bb_exact_log [of BlackBoxRecorder_new 5 "snd (BB_Initialize True 5 BlackBoxRecorder_new)" "\<lambda>_. True" "[?c]" 67108906 8 "\<lambda>xs. xs"]
    by (auto simp: bb_shown_def)
qed

text \<open>
  The analyzer notices damage to the entries. If up to four consecutive bytes of the entries, or of
  the stored checksum, of a file written by \<^verbatim>\<open>FlushToDisk\<close> are changed, the report shows a mismatch of the
  checksum; the exit status is 0 all the same.
\<close>

theorem bb_damage_reported:
  assumes "\<not> bbr_initialized r0" "BB_Initialize True t0 r0 = (True, r)" "calls \<noteq> []" "res_fold BB_Record r calls = Inr r'"
    and "FlushToDisk True room now r' = Inr (True, Some file)" "67108906 \<le> room"
    and "drop 36 file = xs @ w @ ys" "length w = length w'" "length w \<le> 4" "w \<noteq> w'"
    and "n = 26 * min 2581109 (length calls)"
    and "length xs + length w \<le> n \<or> n \<le> length xs \<and> length xs + length w \<le> n + 4"
    and "\<And>m. alloc m"
  shows "\<exists>rep. AnalyzeBlackBox alloc std_sort (Some (take 36 file @ xs @ w' @ ys)) = Inr (BbExit 0 (Some rep)) \<and> \<not> rp_crc_ok rep"
proof -
  define es where "es = take bb_capacity (List.map (bb_entry t0) calls)"
  have hold: "bb_holds r' t0 es"
    using bb_Records [of r t0 "[]" calls] bb_Initialize_holds [OF assms(1,2)] assms(4) by (auto simp: es_def)
  have le: "length es \<le> bb_capacity" and ne: "es \<noteq> []" and n: "n = 26 * length es"
    using assms(3,11) by (simp_all add: es_def bb_capacity_def min.commute)
  define h where "h = FillHeader now (of_nat (length es)) t0"
  define D where "D = bb_image es @ le_bytes 4 (crc32c (bb_image es)) @ le_bytes 4 (of_nat (length es) :: u32) @ le_bytes 2 (0 :: u16)"
  define D' where "D' = xs @ w' @ ys"
  have h: "length (bb_header_bytes h) = 36" by (simp add: h_def length_bb_header_bytes)
  have un: "unat (of_nat (length es) :: u32) = length es" using le by (intro unat_of_nat_u32) (simp add: bb_capacity_def)
  have "length (bb_header_bytes h @ D) \<le> room" using assms(6) le by (simp add: h D_def bb_capacity_def)
  then have f: "file = bb_header_bytes h @ D"
    using bb_Flush_eq [OF hold ne, of room now, folded h_def D_def] assms(5) by simp
  then have D: "D = xs @ w @ ys" using assms(7) h by simp
  have len: "length D' = n + 10" using arg_cong [OF D, of length] assms(8) n by (simp add: D_def D'_def)
  have s: "take 4 (drop n D) = le_bytes 4 (crc32c (take n D))" "n + 4 \<le> length D" by (simp_all add: D_def n)
  have c: "crc32c (take n D') \<noteq> le_word 4 (drop n D')"
    using crc_field_detects [OF D D'_def assms(8-10) s assms(12)] by (simp add: le_word_take)
  obtain rep where "AnalyzeBlackBox alloc std_sort (Some (bb_header_bytes h @ take n D' @ drop n D')) = Inr (BbExit 0 (Some rep))"
    "rp_crc_ok rep = (blackbox_ComputeCrc32C (take n D') = le_word 4 (drop n D'))"
    using Analyze_ok [of h "take n D'" "drop n D'" alloc std_sort] un le len n assms(13)
    by (auto simp: bb_capacity_def h_def)
  then show ?thesis using c f h by (auto simp: blackbox_crc_ref simp flip: D'_def)
qed

theorem bb_damage_reported_witness:
  "\<exists>r' file rep. res_fold BB_Record (snd (BB_Initialize True 5 BlackBoxRecorder_new))
       [\<lparr>bc_now = 7, bc_phase = KERNEL, bc_lba = 9, bc_offset = 1, bc_size = 512, bc_status = BB_FAIL, bc_latency_us = 3\<rparr>] = Inr r' \<and>
     FlushToDisk True 67108906 8 r' = Inr (True, Some file) \<and>
     AnalyzeBlackBox (\<lambda>_. True) (\<lambda>xs. xs) (Some (take 36 file @ [] @ [drop 36 file ! 0 + 1] @ drop 37 file)) = Inr (BbExit 0 (Some rep)) \<and>
     \<not> rp_crc_ok rep"
proof -
  let ?cs = "[\<lparr>bc_now = 7, bc_phase = KERNEL, bc_lba = 9, bc_offset = 1, bc_size = 512, bc_status = BB_FAIL, bc_latency_us = 3\<rparr>]"
  let ?r = "snd (BB_Initialize True 5 BlackBoxRecorder_new)"
  have i: "\<not> bbr_initialized BlackBoxRecorder_new" "BB_Initialize True 5 BlackBoxRecorder_new = (True, ?r)"
    by (simp_all add: BB_Initialize_def BlackBoxRecorder_new_def)
  have hold: "bb_holds ?r 5 []" using bb_Initialize_holds [OF i] by simp
  obtain r' where r': "res_fold BB_Record ?r ?cs = Inr r'" "bb_holds r' 5 (List.map (bb_entry 5) ?cs)"
    using bb_Records [OF hold, of ?cs] by (auto simp: bb_capacity_def)
  obtain f where f: "FlushToDisk True 67108906 8 r' = Inr (True, Some f)" "length f = 72"
    using bb_Flush_eq [OF r'(2), of 67108906 8] by (auto simp: length_bb_header_bytes)
  have "drop 36 f = [] @ [drop 36 f ! 0] @ drop 37 f"
    using Cons_nth_drop_Suc [of 0 "drop 36 f"] f(2) by (simp add: add.commute)
  from bb_damage_reported [OF i _ r'(1) f(1) _ this, of "[drop 36 f ! 0 + 1]" 26 "\<lambda>_. True" "\<lambda>xs. xs"]
  show ?thesis using r'(1) f(1) by (simp add: min_def)
qed

end
