(* ===== verification/HD_Replay.thy ===== *)
theory HD_Replay
  imports HD_Crc32c HD_CString
begin

text \<open>
  The boot replay recorder, \<^verbatim>\<open>tools/replay_recorder/replay_recorder.{h,cpp}\<close>: a ring buffer of 33-byte
  entries, the file it is flushed to, the recorder that owns it and the analyzer that reads the file.
  The clock (in nanoseconds), the heap, the files and the serial port are parameters; the operations of
  the recorder run one after the other. Every \<^verbatim>\<open>memcpy\<close> is checked.
\<close>

section \<open>Layout\<close>

definition REPLAY_MAGIC :: u32 where "REPLAY_MAGIC = 0x48445852"
definition REPLAY_FOOTER_MAGIC :: u32 where "REPLAY_FOOTER_MAGIC = 0x48445846"
definition REPLAY_VERSION :: u16 where "REPLAY_VERSION = 1"
definition REPLAY_ENTRY_SIZE :: u32 where "REPLAY_ENTRY_SIZE = 33"
definition REPLAY_HEADER_SIZE :: nat where "REPLAY_HEADER_SIZE = 16"
definition REPLAY_FOOTER_SIZE :: nat where "REPLAY_FOOTER_SIZE = 8"
definition REPLAY_DEFAULT_CAPACITY :: u32 where "REPLAY_DEFAULT_CAPACITY = 64 * 1024 * 1024"

record ReplayEntry =
  re_lba :: u64
  re_offset :: u64
  re_size :: u32
  re_latency_us :: u32
  re_status :: u32
  re_timestamp_ms :: u32
  re_reserved :: u8

definition replay_entry_bytes :: "ReplayEntry \<Rightarrow> u8 list" where
  "replay_entry_bytes e =
     le_bytes 8 (re_lba e) @ le_bytes 8 (re_offset e) @ le_bytes 4 (re_size e) @ le_bytes 4 (re_latency_us e) @
     le_bytes 4 (re_status e) @ le_bytes 4 (re_timestamp_ms e) @ [re_reserved e]"

definition replay_entry_of :: "u8 list \<Rightarrow> ReplayEntry" where
  "replay_entry_of bs =
     \<lparr>re_lba = le_word 8 bs, re_offset = le_word 8 (drop 8 bs), re_size = le_word 4 (drop 16 bs),
      re_latency_us = le_word 4 (drop 20 bs), re_status = le_word 4 (drop 24 bs),
      re_timestamp_ms = le_word 4 (drop 28 bs), re_reserved = bs ! 32\<rparr>"

record ReplayFileHeader =
  rh_magic :: u32
  rh_version :: u16
  rh_entry_count :: u32
  rh_header_crc32c :: u32
  rh_reserved :: u16

definition replay_header_bytes :: "ReplayFileHeader \<Rightarrow> u8 list" where
  "replay_header_bytes h =
     le_bytes 4 (rh_magic h) @ le_bytes 2 (rh_version h) @ le_bytes 4 (rh_entry_count h) @
     le_bytes 4 (rh_header_crc32c h) @ le_bytes 2 (rh_reserved h)"

definition replay_header_of :: "u8 list \<Rightarrow> ReplayFileHeader" where
  "replay_header_of bs =
     \<lparr>rh_magic = le_word 4 bs, rh_version = le_word 2 (drop 4 bs), rh_entry_count = le_word 4 (drop 6 bs),
      rh_header_crc32c = le_word 4 (drop 10 bs), rh_reserved = le_word 2 (drop 14 bs)\<rparr>"

section \<open>The ring buffer\<close>

record ReplayRingBuffer =
  rb_buffer :: "u8 list option"
  rb_capacity :: u32
  rb_write_count :: u64
  rb_overwrite_count :: u64
  rb_head :: u32
  rb_active :: bool
  rb_record_start :: nat

definition ReplayRingBuffer_new :: "u32 \<Rightarrow> ReplayRingBuffer" where
  "ReplayRingBuffer_new capacity =
     \<lparr>rb_buffer = None, rb_capacity = capacity, rb_write_count = 0, rb_overwrite_count = 0, rb_head = 0,
      rb_active = False, rb_record_start = 0\<rparr>"

definition Ring_Initialize :: "bool \<Rightarrow> ReplayRingBuffer \<Rightarrow> bool \<times> ReplayRingBuffer" where
  "Ring_Initialize alloc rb =
     (if rb_buffer rb \<noteq> None then (True, rb)
      else if \<not> alloc then (False, rb)
      else (True, rb\<lparr>rb_buffer := Some (replicate (unat (rb_capacity rb)) 0)\<rparr>))"

definition Ring_Destroy :: "ReplayRingBuffer \<Rightarrow> ReplayRingBuffer" where
  "Ring_Destroy rb = rb\<lparr>rb_buffer := None, rb_active := False\<rparr>"

text \<open>The arguments of \<^verbatim>\<open>Write\<close>, with the time of the call.\<close>

record replay_io =
  io_now :: nat
  io_lba :: u64
  io_offset :: u64
  io_size :: u32
  io_latency_us :: u32
  io_status :: u32
  io_reserved :: u8

definition replay_entry :: "nat \<Rightarrow> replay_io \<Rightarrow> ReplayEntry" where
  "replay_entry record_start io =
     \<lparr>re_lba = io_lba io, re_offset = io_offset io, re_size = io_size io, re_latency_us = io_latency_us io,
      re_status = io_status io, re_timestamp_ms = of_nat ((io_now io - record_start) div 1000000), re_reserved = io_reserved io\<rparr>"

definition Ring_Write :: "ReplayRingBuffer \<Rightarrow> replay_io \<Rightarrow> ReplayRingBuffer res" where
  "Ring_Write rb io =
     (if \<not> rb_active rb then Inr rb
      else let entry = replay_entry (rb_record_start rb) io;
               write_pos = (if rb_capacity rb < rb_head rb + REPLAY_ENTRY_SIZE then 0 else rb_head rb) in
        (case rb_buffer rb of
           None \<Rightarrow> Inl NullDereference
         | Some buf \<Rightarrow> rbind (mem_write buf (unat write_pos) (replay_entry_bytes entry)) (\<lambda>buf'.
             if rb_capacity rb = 0 then Inl DivideByZero
             else let wc = rb_write_count rb + 1; max_entries = ucast (rb_capacity rb div REPLAY_ENTRY_SIZE);
                      rb1 = rb\<lparr>rb_buffer := Some buf', rb_head := (write_pos + REPLAY_ENTRY_SIZE) mod rb_capacity rb,
                               rb_write_count := wc\<rparr>
                  in Inr (if max_entries < wc then rb1\<lparr>rb_overwrite_count := wc - max_entries\<rparr> else rb1))))"

definition StartRecording :: "nat \<Rightarrow> ReplayRingBuffer \<Rightarrow> ReplayRingBuffer" where
  "StartRecording now rb = rb\<lparr>rb_record_start := now, rb_active := True\<rparr>"

definition StopRecording :: "ReplayRingBuffer \<Rightarrow> ReplayRingBuffer" where
  "StopRecording rb = rb\<lparr>rb_active := False\<rparr>"

definition read_slot :: "u8 list \<Rightarrow> u32 \<Rightarrow> u32 \<Rightarrow> nat \<Rightarrow> ReplayEntry res" where
  "read_slot buf capacity read_start i =
     rbind (mem_read buf (unat ((read_start + of_nat i * REPLAY_ENTRY_SIZE) mod capacity)) (unat REPLAY_ENTRY_SIZE))
       (\<lambda>bs. Inr (replay_entry_of bs))"

definition GetAllEntries :: "ReplayRingBuffer \<Rightarrow> ReplayEntry list res" where
  "GetAllEntries rb =
     (case rb_buffer rb of
        None \<Rightarrow> Inr []
      | Some buf \<Rightarrow>
          let max_entries = ucast (rb_capacity rb div REPLAY_ENTRY_SIZE) :: u64;
              count = ucast (min (rb_write_count rb) max_entries) :: u32;
              read_start = (if 0 < rb_overwrite_count rb then rb_head rb else 0)
          in res_fold (\<lambda>es i. rbind (read_slot buf (rb_capacity rb) read_start i) (\<lambda>e. Inr (es @ [e]))) [] [0..<unat count])"

section \<open>Flushing\<close>

definition replay_crc :: "u8 list \<Rightarrow> u32" where
  "replay_crc data = fst (replay_ComputeCrc32C crc_state_static data)"

text \<open>The header buffer of 16 bytes, filled by three \<^verbatim>\<open>memcpy\<close> calls.\<close>

definition replay_header_prefix :: "u32 \<Rightarrow> u8 list" where
  "replay_header_prefix entry_count =
     take 12 (replay_header_bytes \<lparr>rh_magic = REPLAY_MAGIC, rh_version = REPLAY_VERSION, rh_entry_count = entry_count,
                                   rh_header_crc32c = 0, rh_reserved = 0\<rparr>)"

definition replay_header_buf :: "u32 \<Rightarrow> u8 list res" where
  "replay_header_buf entry_count =
     rbind (mem_write (replicate REPLAY_HEADER_SIZE 0) 0 (replay_header_prefix entry_count)) (\<lambda>buf.
     rbind (mem_write buf 12 (le_bytes 4 (replay_crc (take 12 buf)))) (\<lambda>buf.
       mem_write buf 16 (le_bytes 2 (0 :: u16))))"

definition replay_file :: "u8 list \<Rightarrow> ReplayEntry list \<Rightarrow> u8 list" where
  "replay_file header_buf entries =
     (let body = header_buf @ concat (List.map replay_entry_bytes entries)
      in body @ le_bytes 4 (replay_crc body) @ le_bytes 4 REPLAY_FOOTER_MAGIC)"

text \<open>
  \<^verbatim>\<open>FlushToFile\<close>: the result, the ring and the content of the file. The directory is made by a command
  of the shell, whose result is ignored.
\<close>

definition FlushToFile :: "(string \<Rightarrow> bool) \<Rightarrow> string \<Rightarrow> ReplayRingBuffer \<Rightarrow> (bool \<times> ReplayRingBuffer \<times> u8 list option) res" where
  "FlushToFile opens path rb =
     (let rb1 = StopRecording rb in
      rbind (GetAllEntries rb1) (\<lambda>entries.
        if entries = [] then Inr (False, rb1, None)
        else rbind (replay_header_buf (of_nat (length entries))) (\<lambda>hb.
          let file_buf = replay_file hb entries in
          if \<not> opens path then Inr (False, rb1, None) else Inr (True, rb1, Some file_buf))))"


definition com1_line :: "nat \<Rightarrow> ReplayEntry \<Rightarrow> string" where
  "com1_line i e =
     take 255 (''['' @ to_string i @ ''] LBA='' @ to_string (unat (re_lba e)) @ '' S='' @ to_string (unat (re_status e)) @
       '' L='' @ to_string (unat (re_latency_us e)) @ ''us T='' @ to_string (unat (re_timestamp_ms e)) @ ''ms'' @ crlf)"

text \<open>The text written to the serial port; the size of the list fits 32 bits, as it comes from the ring.\<close>

definition FlushToCom1 :: "bool \<Rightarrow> ReplayRingBuffer \<Rightarrow> (bool \<times> ReplayRingBuffer \<times> string list) res" where
  "FlushToCom1 opens rb =
     (let rb1 = StopRecording rb in
      rbind (GetAllEntries rb1) (\<lambda>entries.
        if \<not> opens then Inr (False, rb1, [])
        else Inr (True, rb1,
          [''Replay: EMERGENCY '' @ [CHR 0xE2, CHR 0x80, CHR 0x94] @ '' '' @ to_string (length entries) @ '' entries'' @ crlf] @
          List.map (\<lambda>i. com1_line i (entries ! i)) [0..<min (length entries) 1000] @
          [''Replay: EMERGENCY dump complete'' @ crlf])))"

section \<open>The recorder\<close>

record BootReplayRecorder =
  rr_ring :: ReplayRingBuffer
  rr_flushed :: bool

definition BootReplayRecorder_new :: BootReplayRecorder where
  "BootReplayRecorder_new = \<lparr>rr_ring = ReplayRingBuffer_new REPLAY_DEFAULT_CAPACITY, rr_flushed = False\<rparr>"

definition Recorder_Start :: "bool \<Rightarrow> nat \<Rightarrow> BootReplayRecorder \<Rightarrow> bool \<times> BootReplayRecorder" where
  "Recorder_Start alloc now r =
     (case Ring_Initialize alloc (rr_ring r) of
        (False, rb) \<Rightarrow> (False, r\<lparr>rr_ring := rb\<rparr>)
      | (True, rb) \<Rightarrow> (True, r\<lparr>rr_ring := StartRecording now rb, rr_flushed := False\<rparr>))"

definition Recorder_Stop :: "BootReplayRecorder \<Rightarrow> BootReplayRecorder" where
  "Recorder_Stop r = r\<lparr>rr_ring := StopRecording (rr_ring r)\<rparr>"

definition RecordIo :: "BootReplayRecorder \<Rightarrow> replay_io \<Rightarrow> BootReplayRecorder res" where
  "RecordIo r io = rbind (Ring_Write (rr_ring r) io) (\<lambda>rb. Inr (r\<lparr>rr_ring := rb\<rparr>))"

definition FlushNormal :: "(string \<Rightarrow> bool) \<Rightarrow> string \<Rightarrow> BootReplayRecorder \<Rightarrow> (bool \<times> BootReplayRecorder \<times> u8 list option) res" where
  "FlushNormal opens path r =
     (if rr_flushed r then Inr (True, r, None)
      else rbind (FlushToFile opens path (rr_ring r)) (\<lambda>(ok, rb, file).
        Inr (ok, if ok then r\<lparr>rr_ring := rb, rr_flushed := True\<rparr> else r\<lparr>rr_ring := rb\<rparr>, file)))"

definition replay_path :: string where
  "replay_path = ''C:'' @ [CHR 0x5C] @ ''HyperDisk'' @ [CHR 0x5C] @ ''replay'' @ [CHR 0x5C] @ ''boot_replay.bin''"

definition Replay_FlushEmergency ::
  "(string \<Rightarrow> bool) \<Rightarrow> bool \<Rightarrow> BootReplayRecorder \<Rightarrow> (bool \<times> BootReplayRecorder \<times> u8 list option \<times> string list) res" where
  "Replay_FlushEmergency opens com1 r =
     (if rr_flushed r then Inr (True, r, None, [])
      else rbind (FlushToFile opens replay_path (rr_ring r)) (\<lambda>(ok, rb, file).
        if ok then Inr (True, r\<lparr>rr_ring := rb, rr_flushed := True\<rparr>, file, [])
        else rbind (FlushToCom1 com1 rb) (\<lambda>(ok', rb', out). Inr (ok', r\<lparr>rr_ring := rb'\<rparr>, None, out))))"

text \<open>The new name of a file that is too short to be complete, if it is renamed; \<open>suffix\<close> is the local time.\<close>

definition CheckAndRenameIncomplete :: "string \<Rightarrow> u8 list option \<Rightarrow> string \<Rightarrow> string option" where
  "CheckAndRenameIncomplete suffix file path =
     (case file of
        None \<Rightarrow> None
      | Some f \<Rightarrow>
          if length f < REPLAY_HEADER_SIZE + REPLAY_FOOTER_SIZE
          then Some (case rfind (CHR ''.'') path of
                 Some dot \<Rightarrow> take dot path @ ''_incomplete'' @ suffix @ drop dot path
               | None \<Rightarrow> path @ ''_incomplete'' @ suffix)
          else None)"

section \<open>The analyzer\<close>

text \<open>
  \<^verbatim>\<open>ReadEntries\<close>: the loop over the entries, which stops at the end of the file. The vector is resized
  to the count of the header first: \<^const>\<open>None\<close> is the exception of the allocation.
\<close>

fun read_entries_loop :: "nat \<Rightarrow> u8 list \<Rightarrow> ReplayEntry list" where
  "read_entries_loop 0 bs = []"
| "read_entries_loop (Suc n) bs =
     (if length bs < 33 then [] else replay_entry_of (take 33 bs) # read_entries_loop n (drop 33 bs))"

definition ReadEntries :: "(u32 \<Rightarrow> bool) \<Rightarrow> u8 list option \<Rightarrow> ReplayEntry list option" where
  "ReadEntries alloc file =
     (case file of
        None \<Rightarrow> Some []
      | Some f \<Rightarrow>
          if length f < REPLAY_HEADER_SIZE then Some []
          else let header = replay_header_of (take 16 f) in
            if rh_magic header \<noteq> REPLAY_MAGIC \<or> rh_version header \<noteq> REPLAY_VERSION then Some []
            else if \<not> alloc (rh_entry_count header) then None
            else Some (read_entries_loop (unat (rh_entry_count header)) (drop 16 f)))"

record ParseResult =
  pr_entry_count :: u32
  pr_overwrite_count :: u32
  pr_time_range_ms :: u64
  pr_lba_min :: u64
  pr_lba_max :: u64
  pr_success_count :: u32
  pr_timeout_count :: u32
  pr_error_count :: u32
  pr_retry_count :: u32

definition zero_parse :: ParseResult where
  "zero_parse = \<lparr>pr_entry_count = 0, pr_overwrite_count = 0, pr_time_range_ms = 0, pr_lba_min = 0, pr_lba_max = 0,
     pr_success_count = 0, pr_timeout_count = 0, pr_error_count = 0, pr_retry_count = 0\<rparr>"

definition parse_step :: "ParseResult \<times> u32 \<Rightarrow> ReplayEntry \<Rightarrow> ParseResult \<times> u32" where
  "parse_step acc e =
     (case acc of (r, max_ts) \<Rightarrow>
        let r1 = r\<lparr>pr_lba_min := min (pr_lba_min r) (re_lba e), pr_lba_max := max (pr_lba_max r) (re_lba e)\<rparr>;
            r2 = (if re_status e = 0 then r1\<lparr>pr_success_count := pr_success_count r1 + 1\<rparr>
                  else if re_status e = 1 then r1\<lparr>pr_timeout_count := pr_timeout_count r1 + 1\<rparr>
                  else if re_status e = 2 then r1\<lparr>pr_error_count := pr_error_count r1 + 1\<rparr>
                  else if re_status e = 3 then r1\<lparr>pr_retry_count := pr_retry_count r1 + 1\<rparr> else r1)
        in (r2, max max_ts (re_timestamp_ms e)))"

definition replay_Parse :: "ReplayEntry list \<Rightarrow> ParseResult" where
  "replay_Parse entries =
     (if entries = [] then zero_parse
      else case foldl parse_step (zero_parse\<lparr>pr_entry_count := of_nat (length entries), pr_lba_min := - 1\<rparr>, 0) entries of
        (r, max_ts) \<Rightarrow> r\<lparr>pr_time_range_ms := ucast max_ts\<rparr>)"

text \<open>
  The latencies are kept in microseconds; the code divides each by 1000.0, which keeps their order, and
  also prints their average.
\<close>

record PerfStage =
  ps_name :: string
  ps_p50 :: u32
  ps_p95 :: u32
  ps_p99 :: u32
  ps_count :: u32

definition stage_ranges :: "(string \<times> u32 \<times> u32) list" where
  "stage_ranges = [(''BootStart'', 0, 10000), (''DriverLoad'', 10000, 15000), (''DesktopInit'', 15000, 30000)]"

definition perf_stage :: "ReplayEntry list \<Rightarrow> string \<times> u32 \<times> u32 \<Rightarrow> PerfStage option res" where
  "perf_stage entries rng =
     (case rng of (name, start_ms, end_ms) \<Rightarrow>
        let lats = List.map re_latency_us (filter (\<lambda>e. start_ms \<le> re_timestamp_ms e \<and> re_timestamp_ms e < end_ms) entries);
            sorted_lats = sort lats; n = length lats in
        if lats = [] then Inr None
        else rbind (vec_at sorted_lats (n * 50 div 100)) (\<lambda>p50.
             rbind (vec_at sorted_lats (n * 95 div 100)) (\<lambda>p95.
             rbind (vec_at sorted_lats (n * 99 div 100)) (\<lambda>p99.
               Inr (Some \<lparr>ps_name = name, ps_p50 = p50, ps_p95 = p95, ps_p99 = p99, ps_count = of_nat n\<rparr>)))))"

definition AnalyzePerf :: "ReplayEntry list \<Rightarrow> PerfStage list res" where
  "AnalyzePerf entries =
     (if entries = [] then Inr []
      else res_fold (\<lambda>acc rng. rbind (perf_stage entries rng) (\<lambda>s.
             Inr (case s of None \<Rightarrow> acc | Some st \<Rightarrow> acc @ [st]))) [] stage_ranges)"

definition Analyzer_Replay :: "ReplayEntry list \<Rightarrow> bool" where
  "Analyzer_Replay entries = (entries \<noteq> [])"

section \<open>Training\<close>

text \<open>The frequencies in the order of first use; \<^verbatim>\<open>std::sort\<close> is a parameter, as it leaves the order of ties open.\<close>

fun bump :: "u64 \<Rightarrow> (u64 \<times> u32) list \<Rightarrow> (u64 \<times> u32) list" where
  "bump lba [] = [(lba, 1)]"
| "bump lba ((l, f) # fs) = (if l = lba then (l, f + 1) # fs else (l, f) # bump lba fs)"

definition train_freqs :: "ReplayEntry list \<Rightarrow> (u64 \<times> u32) list" where
  "train_freqs entries = foldl (\<lambda>fs e. bump (re_lba e) fs) [] entries"

definition train_phase :: "ReplayEntry list \<Rightarrow> u64 \<Rightarrow> string" where
  "train_phase entries lba =
     (case find (\<lambda>e. re_lba e = lba) entries of
        None \<Rightarrow> ''bootstart''
      | Some e \<Rightarrow> if 15000 < re_timestamp_ms e then ''desktop'' else if 10000 < re_timestamp_ms e then ''driverload'' else ''bootstart'')"

definition train_line :: "ReplayEntry list \<Rightarrow> nat \<Rightarrow> nat \<Rightarrow> u64 \<times> u32 \<Rightarrow> string" where
  "train_line entries top_k i f =
     to_string (unat (fst f)) @ '',4096,'' @ to_string (top_k - i) @ '','' @ train_phase entries (fst f) @ [CHR 0x0A]"

definition Train ::
  "(u32 \<Rightarrow> bool) \<Rightarrow> ((u64 \<times> u32) list \<Rightarrow> (u64 \<times> u32) list) \<Rightarrow> (string \<Rightarrow> u8 list option) \<Rightarrow> (string \<Rightarrow> bool)
   \<Rightarrow> string list \<Rightarrow> string \<Rightarrow> (bool \<times> string option) option" where
  "Train alloc std_sort files opens paths output_path =
     (case those (List.map (\<lambda>p. ReadEntries alloc (files p)) paths) of
        None \<Rightarrow> None
      | Some ess \<Rightarrow>
          let all_entries = concat ess in
          if all_entries = [] then Some (False, None)
          else let freqs = std_sort (train_freqs all_entries) in
            if \<not> opens output_path then Some (False, None)
            else let top_k = min (length freqs) 500 in
              Some (True, Some (''# HTKIS HyperDisk X Static Prefetch Hot Block List'' @ [CHR 0x0A] @
                ''# Format: lba,size,priority,phase'' @ [CHR 0x0A] @
                concat (List.map (\<lambda>i. train_line all_entries top_k i (freqs ! i)) [0..<top_k]))))"

section \<open>The command line\<close>

datatype replay_output =
    ReplayUsage
  | ParseOut ParseResult
  | PerfOut ParseResult "PerfStage list"
  | ReplayOut string u16
  | TrainOut bool string "string option"
  | ReplayMessage string

text \<open>The exit status and what is shown; \<^const>\<open>None\<close> is the end by an exception.\<close>

type_synonym replay_exit = "(int \<times> replay_output) option res"

definition cmd_parse :: "(u32 \<Rightarrow> bool) \<Rightarrow> u8 list option \<Rightarrow> replay_exit" where
  "cmd_parse alloc file = Inr (map_option (\<lambda>es. (0, ParseOut (replay_Parse es))) (ReadEntries alloc file))"

definition cmd_analyze :: "(u32 \<Rightarrow> bool) \<Rightarrow> u8 list option \<Rightarrow> string \<Rightarrow> replay_exit" where
  "cmd_analyze alloc file path =
     (case ReadEntries alloc file of
        None \<Rightarrow> Inr None
      | Some es \<Rightarrow>
          if pr_entry_count (replay_Parse es) = 0 then Inr (Some (1, ReplayMessage (''No entries found in '' @ path)))
          else rbind (AnalyzePerf es) (\<lambda>stages. Inr (Some (0, PerfOut (replay_Parse es) stages))))"

definition cmd_replay :: "(u32 \<Rightarrow> bool) \<Rightarrow> u8 list option \<Rightarrow> string \<Rightarrow> replay_exit" where
  "cmd_replay alloc file target =
     Inr (case (case rfind (CHR '':'') target of
                  None \<Rightarrow> Some (target, 9527)
                | Some colon \<Rightarrow> map_option (\<lambda>p. (take colon target, of_int p)) (stoi (drop (colon + 1) target))) of
        None \<Rightarrow> None
      | Some (server, port) \<Rightarrow>
          map_option (\<lambda>es. (if Analyzer_Replay es then 0 else 1, ReplayOut server port)) (ReadEntries alloc file))"

definition cmd_train ::
  "(u32 \<Rightarrow> bool) \<Rightarrow> ((u64 \<times> u32) list \<Rightarrow> (u64 \<times> u32) list) \<Rightarrow> (string \<Rightarrow> u8 list option) \<Rightarrow> (string \<Rightarrow> bool)
   \<Rightarrow> string list \<Rightarrow> string \<Rightarrow> replay_exit" where
  "cmd_train alloc std_sort files opens paths output_path =
     Inr (map_option (\<lambda>(ok, txt). (if ok then 0 else 1, TrainOut ok output_path txt))
       (Train alloc std_sort files opens paths output_path))"

definition last_option :: "string \<Rightarrow> string \<Rightarrow> string list \<Rightarrow> string" where
  "last_option pfx deflt args =
     foldl (\<lambda>acc a. if take (length pfx) a = pfx then drop (length pfx) a else acc) deflt args"

definition train_end :: "string list \<Rightarrow> nat" where
  "train_end argv =
     foldl (\<lambda>e i. if take 9 (argv ! i) = ''--output='' then i else e) (length argv) [2..<length argv]"

definition replay_analyzer_main ::
  "(u32 \<Rightarrow> bool) \<Rightarrow> ((u64 \<times> u32) list \<Rightarrow> (u64 \<times> u32) list) \<Rightarrow> (string \<Rightarrow> u8 list option) \<Rightarrow> (string \<Rightarrow> bool)
   \<Rightarrow> string list \<Rightarrow> replay_exit" where
  "replay_analyzer_main alloc std_sort files opens argv =
     (if length argv < 3 then Inr (Some (1, ReplayUsage))
      else if argv ! 1 = ''parse'' then cmd_parse alloc (files (argv ! 2))
      else if argv ! 1 = ''analyze'' then cmd_analyze alloc (files (argv ! 2)) (argv ! 2)
      else if argv ! 1 = ''replay''
      then cmd_replay alloc (files (argv ! 2)) (last_option ''--target='' ''10.10.200.10:9527'' (drop 3 argv))
      else if argv ! 1 = ''train''
      then (let output = last_option ''--output='' ''prefetch_list.txt'' (drop 2 argv); e = train_end argv in
            if e \<le> 2 then Inr (Some (1, ReplayMessage ''Error: No replay files specified for training''))
            else cmd_train alloc std_sort files opens (take (e - 2) (drop 2 argv)) output)
      else Inr (Some (1, ReplayMessage (''Unknown command: '' @ argv ! 1))))"

section \<open>Layout lemmas\<close>

lemma length_replay_entry_bytes [hd_len, simp]: "length (replay_entry_bytes e) = 33"
  by (simp add: replay_entry_bytes_def)

lemma replay_entry_of_bytes: "replay_entry_of (replay_entry_bytes e) = e"
  by (simp add: replay_entry_of_def replay_entry_bytes_def le_word_append le_word_le_bytes nth_append)

lemma length_replay_header_bytes [hd_len, simp]: "length (replay_header_bytes h) = 16"
  by (simp add: replay_header_bytes_def)

lemma unat_ENTRY_SIZE [simp]: "unat REPLAY_ENTRY_SIZE = 33"
  by (simp add: REPLAY_ENTRY_SIZE_def)

section \<open>The ring keeps the last entries\<close>

text \<open>Slot \<open>s\<close> of the buffer.\<close>

definition slot :: "u8 list \<Rightarrow> nat \<Rightarrow> u8 list" where
  "slot buf s = take 33 (drop (33 * s) buf)"

lemma slot_write:
  assumes "33 * s + 33 \<le> length buf" "length b = 33" "mem_write buf (33 * s) b = Inr buf'" "33 * j + 33 \<le> length buf"
  shows "slot buf' j = (if j = s then b else slot buf j)" "length buf' = length buf"
proof -
  have b: "buf' = take (33 * s) buf @ b @ drop (33 * s + 33) buf" using assms by (simp add: mem_write_def)
  show "length buf' = length buf" using assms unfolding b by simp
  consider "j = s" | "j < s" | "s < j" by linarith
  then show "slot buf' j = (if j = s then b else slot buf j)"
  proof cases
    case 1
    then show ?thesis using assms unfolding b slot_def by simp
  next
    case 2
    then have "33 * j + 33 \<le> 33 * s" by simp
    then have "slot buf' j = take 33 (drop (33 * j) (take (33 * s) buf))"
      using assms unfolding b slot_def by simp
    also have "\<dots> = slot buf j" unfolding slot_def drop_take take_take using \<open>33 * j + 33 \<le> 33 * s\<close> by simp
    finally show ?thesis using 2 by simp
  next
    case 3
    then have ge: "33 * s + 33 \<le> 33 * j" by simp
    then have "drop (33 * j) buf' = drop (33 * j - (33 * s + 33)) (drop (33 * s + 33) buf)"
      using assms unfolding b by simp
    also have "\<dots> = drop (33 * j) buf" using ge by simp
    finally show ?thesis using 3 by (simp add: slot_def)
  qed
qed

text \<open>
  The state after the writes \<open>es\<close>, for a buffer of \<open>cap\<close> bytes: \<open>cap div 33\<close> slots, the last entries in
  their slots, and the head behind the slot written last.
\<close>

definition ring_head :: "nat \<Rightarrow> nat \<Rightarrow> nat" where
  "ring_head cap n = (if n = 0 then 0 else 33 * ((n - 1) mod (cap div 33) + 1) mod cap)"

definition ring_holds :: "ReplayRingBuffer \<Rightarrow> nat \<Rightarrow> ReplayEntry list \<Rightarrow> bool" where
  "ring_holds rb t0 es \<longleftrightarrow>
     (let cap = unat (rb_capacity rb); k = cap div 33; n = length es in
      33 \<le> cap \<and> cap \<le> 2 ^ 31 \<and> rb_record_start rb = t0 \<and> n < 2 ^ 64 \<and>
      rb_write_count rb = of_nat n \<and> rb_overwrite_count rb = of_nat (n - k) \<and> unat (rb_head rb) = ring_head cap n \<and>
      (\<exists>buf. rb_buffer rb = Some buf \<and> length buf = cap \<and>
         (\<forall>i < n. n \<le> i + k \<longrightarrow> slot buf (i mod k) = replay_entry_bytes (es ! i))))"

lemma ring_head_less: "33 \<le> cap \<Longrightarrow> ring_head cap n < cap"
  by (simp add: ring_head_def)

lemma ring_slots: "33 \<le> cap \<Longrightarrow> 0 < cap div (33 :: nat)" "33 * (cap div 33) \<le> (cap :: nat)"
  by (simp_all add: div_greater_zero_iff)

text \<open>The position written next is the slot of the number of entries.\<close>

lemma ring_write_pos:
  assumes "33 \<le> cap"
  shows "(if cap < ring_head cap n + 33 then 0 else ring_head cap n) = 33 * (n mod (cap div 33))"
proof (cases "n = 0")
  case True
  then show ?thesis using assms by (simp add: ring_head_def)
next
  case False
  define k where "k = cap div 33"
  define j where "j = (n - 1) mod k + 1"
  have k: "0 < k" "33 * k \<le> cap" "cap < 33 * k + 33"
    using ring_slots(1) [OF assms] ring_slots(2) [of cap] dividend_less_div_times [of 33 cap] by (auto simp: k_def mult.commute)
  have j: "j \<le> k" using k(1) by (simp add: j_def Suc_le_eq)
  have h: "ring_head cap n = 33 * j mod cap" using False by (simp add: ring_head_def j_def k_def)
  have nm: "n mod k = (if j = k then 0 else j)"
    using False by (metis Suc_eq_plus1 Suc_pred' j_def mod_Suc neq0_conv)
  show ?thesis
  proof (cases "j = k")
    case True
    then show ?thesis using h nm k assms unfolding k_def [symmetric]
      by (cases "33 * k = cap") auto
  next
    case False
    then have "33 * j + 33 \<le> 33 * k" using j by simp
    then have "33 * j + 33 \<le> cap" using k(2) by simp
    then show ?thesis using h nm False unfolding k_def [symmetric] by simp
  qed
qed

lemma ring_head_step:
  assumes "33 \<le> cap"
  shows "(33 * (n mod (cap div 33)) + 33) mod cap = ring_head cap (Suc n)"
  by (simp add: ring_head_def add.commute)

lemma unat_u32_add: "unat a + b < 2 ^ 32 \<Longrightarrow> unat (a + of_nat b :: u32) = unat a + b"
  by (simp add: unat_word_ariths unat_of_nat)

lemma unat_max_entries: "unat (ucast (cap div REPLAY_ENTRY_SIZE) :: u64) = unat (cap :: u32) div 33"
  by (simp add: unat_div_distrib)

text \<open>Writing the next slot keeps the last entries in their slots.\<close>

lemma slots_step:
  assumes k: "0 < k" "33 * k \<le> length buf"
    and old: "\<forall>i < length es. length es \<le> i + k \<longrightarrow> slot buf (i mod k) = replay_entry_bytes (es ! i)"
    and w: "mem_write buf (33 * (length es mod k)) (replay_entry_bytes e) = Inr buf'"
  shows "\<forall>i < Suc (length es). Suc (length es) \<le> i + k \<longrightarrow> slot buf' (i mod k) = replay_entry_bytes ((es @ [e]) ! i)"
    "length buf' = length buf"
proof -
  have fit: "33 * (i mod k) + 33 \<le> length buf" for i using k mod_less_divisor [OF k(1), of i] by linarith
  note sl = slot_write [OF fit length_replay_entry_bytes w fit]
  show "length buf' = length buf" by (rule sl(2))
  show "\<forall>i < Suc (length es). Suc (length es) \<le> i + k \<longrightarrow> slot buf' (i mod k) = replay_entry_bytes ((es @ [e]) ! i)"
  proof (intro allI impI)
    fix i assume i: "i < Suc (length es)" "Suc (length es) \<le> i + k"
    show "slot buf' (i mod k) = replay_entry_bytes ((es @ [e]) ! i)"
    proof (cases "i = length es")
      case False
      then show ?thesis using sl(1) [of i] mod_differs [of i "length es" k] old i by (simp add: nth_append)
    qed (use sl(1) [of i] in simp)
  qed
qed

lemma Ring_Write_step:
  assumes h: "ring_holds rb t0 es" and act: "rb_active rb" and n: "length es + 1 < 2 ^ 64"
  shows "\<exists>rb'. Ring_Write rb io = Inr rb' \<and> ring_holds rb' t0 (es @ [replay_entry t0 io]) \<and> rb_active rb' \<and>
     rb_capacity rb' = rb_capacity rb"
proof -
  define cap where "cap = unat (rb_capacity rb)"
  define k where "k = cap div 33"
  define n where "n = length es"
  define e where "e = replay_entry t0 io"
  obtain buf where buf: "rb_buffer rb = Some buf" "length buf = cap"
      "\<forall>i < n. n \<le> i + k \<longrightarrow> slot buf (i mod k) = replay_entry_bytes (es ! i)"
    and c: "33 \<le> cap" "cap \<le> 2 ^ 31" and f: "rb_record_start rb = t0" "rb_write_count rb = of_nat n"
      "rb_overwrite_count rb = of_nat (n - k)" "unat (rb_head rb) = ring_head cap n"
    using h unfolding ring_holds_def Let_def cap_def [symmetric] k_def [symmetric] n_def [symmetric] by blast
  have k: "0 < k" "33 * k \<le> cap" using ring_slots(1) [OF c(1)] ring_slots(2) [of cap] by (auto simp: k_def)
  let ?s = "n mod k"
  have fit: "33 * ?s + 33 \<le> cap" using k mod_less_divisor [OF k(1), of n] by linarith
  have hd: "unat (rb_head rb + REPLAY_ENTRY_SIZE) = ring_head cap n + 33"
    using unat_u32_add [of "rb_head rb" 33] ring_head_less [OF c(1), of n] c(2) f(4) by (simp add: REPLAY_ENTRY_SIZE_def)
  define wp where "wp = (if rb_capacity rb < rb_head rb + REPLAY_ENTRY_SIZE then 0 else rb_head rb)"
  have wp: "unat wp = 33 * ?s"
    using ring_write_pos [OF c(1), of n] hd f(4) unfolding wp_def word_less_nat_alt cap_def [symmetric] k_def [symmetric] by auto
  obtain buf' where w: "mem_write buf (33 * ?s) (replay_entry_bytes e) = Inr buf'"
    using fit buf(2) by (simp add: mem_write_def)
  note sl = slots_step [OF k(1) k(2) [folded buf(2)] buf(3) [unfolded n_def] w [unfolded n_def]]
  have lt: "unat wp + 33 < 2 ^ 32" using wp fit c(2) by simp
  have hd': "unat ((wp + REPLAY_ENTRY_SIZE) mod rb_capacity rb) = ring_head cap (Suc n)"
    using unat_u32_add [OF lt] wp ring_head_step [OF c(1), of n] unfolding k_def
    by (simp add: unat_mod_distrib REPLAY_ENTRY_SIZE_def cap_def)
  define wc where "wc = rb_write_count rb + 1"
  define mx where "mx = (ucast (rb_capacity rb div REPLAY_ENTRY_SIZE) :: u64)"
  have wc1: "wc = of_nat (Suc n)" using f(2) by (simp add: wc_def)
  have wc: "wc = of_nat (Suc n)" "unat wc = Suc n"
    using assms(3) unat_of_nat_u64 [of "Suc n"] unfolding wc1 n_def by simp_all
  have mx: "unat mx = k" unfolding mx_def k_def cap_def by (rule unat_max_entries)
  have mx': "mx = of_nat k" unfolding mx [symmetric] by simp
  define rb1 where "rb1 = rb\<lparr>rb_buffer := Some buf', rb_head := (wp + REPLAY_ENTRY_SIZE) mod rb_capacity rb, rb_write_count := wc\<rparr>"
  define rb' where "rb' = (if mx < wc then rb1\<lparr>rb_overwrite_count := wc - mx\<rparr> else rb1)"
  have "Ring_Write rb io = Inr rb'"
    unfolding Ring_Write_def Let_def wp_def [symmetric] buf(1) f(1) e_def [symmetric] option.case wp w rbind_simps
      wc_def [symmetric] mx_def [symmetric] rb1_def [symmetric] rb'_def [symmetric]
    using act c(1) by (auto simp: cap_def)
  moreover have "rb_overwrite_count rb' = of_nat (Suc n - k)"
    using wc mx mx' f(3) by (auto simp: rb'_def rb1_def word_less_nat_alt of_nat_diff)
  ultimately show ?thesis
    using hd' c act assms(3) wc(1) f(1) sl buf(2)
    unfolding ring_holds_def Let_def e_def [symmetric]
    by (intro exI [of _ rb']) (auto simp: rb'_def rb1_def n_def [symmetric] cap_def [symmetric] k_def [symmetric])
qed

lemma Ring_Writes:
  assumes "ring_holds rb t0 es" "rb_active rb" "length es + length ios < 2 ^ 64"
  shows "\<exists>rb'. res_fold Ring_Write rb ios = Inr rb' \<and> ring_holds rb' t0 (es @ List.map (replay_entry t0) ios) \<and> rb_active rb' \<and>
     rb_capacity rb' = rb_capacity rb"
  using assms
proof (induction ios arbitrary: rb es)
  case (Cons io ios)
  obtain rb1 where r: "Ring_Write rb io = Inr rb1" "ring_holds rb1 t0 (es @ [replay_entry t0 io])" "rb_active rb1"
      "rb_capacity rb1 = rb_capacity rb"
    using Ring_Write_step [OF Cons.prems(1,2), of io] Cons.prems(3) by auto
  then show ?case using Cons.IH [OF r(2,3)] Cons.prems(3) by simp
qed simp

lemma ring_start_holds:
  assumes "33 \<le> unat cap" "unat cap \<le> 2 ^ 31" "Ring_Initialize True (ReplayRingBuffer_new cap) = (True, rb0)"
  shows "ring_holds (StartRecording t0 rb0) t0 []" "rb_active (StartRecording t0 rb0)" "rb_capacity (StartRecording t0 rb0) = cap"
  using assms by (auto simp: Ring_Initialize_def ReplayRingBuffer_new_def StartRecording_def ring_holds_def Let_def ring_head_def)

text \<open>Collecting results one by one: all succeed, or the first fault is the result.\<close>

lemma res_fold_collect:
  "(\<And>i. i \<in> set is \<Longrightarrow> f i = Inr (g i)) \<Longrightarrow>
   res_fold (\<lambda>es i. rbind (f i) (\<lambda>e. Inr (es @ [e]))) acc is = Inr (acc @ List.map g is)"
  by (induction "is" arbitrary: acc) simp_all

lemma res_fold_faults:
  assumes "i \<in> set is" "f i = Inl x" "\<And>j y. f j = Inl y \<Longrightarrow> y = x"
  shows "res_fold (\<lambda>es i. rbind (f i) (\<lambda>e. Inr (es @ [e]))) acc is = Inl x"
  using assms(1)
proof (induction "is" arbitrary: acc)
  case (Cons a as)
  show ?case
  proof (cases "f a")
    case (Inl y)
    then show ?thesis using assms(3) [OF Inl] by simp
  next
    case (Inr b)
    then show ?thesis using Cons assms(2) by auto
  qed
qed simp

lemma read_slot_fault: "read_slot buf cap st i = Inl y \<Longrightarrow> y = OutOfBounds"
  by (simp add: read_slot_def mem_read_def split: if_splits)

lemma read_slot_pos:
  assumes "unat cap \<le> 2 ^ 31" "unat st < unat cap" "33 * i < unat cap" "length buf = unat cap"
  shows "read_slot buf cap st i =
     (let p = (unat st + 33 * i) mod unat cap in
      if p + 33 \<le> unat cap then Inr (replay_entry_of (take 33 (drop p buf))) else Inl OutOfBounds)"
proof -
  have "unat (st + of_nat (33 * i)) = unat st + 33 * i" using assms by (intro unat_u32_add) simp
  then have "unat (st + of_nat i * REPLAY_ENTRY_SIZE) = unat st + 33 * i" by (simp add: REPLAY_ENTRY_SIZE_def mult.commute)
  then show ?thesis using assms(4) by (simp add: read_slot_def Let_def unat_mod_distrib mem_read_def)
qed

text \<open>The number of entries returned.\<close>

lemma ring_count:
  assumes "ring_holds rb t0 es"
  shows "unat (ucast (min (rb_write_count rb) (ucast (rb_capacity rb div REPLAY_ENTRY_SIZE))) :: u32) =
     min (length es) (unat (rb_capacity rb) div 33)"
proof -
  let ?k = "unat (rb_capacity rb) div 33"
  have wc: "unat (rb_write_count rb) = length es"
    using assms unat_of_nat_u64 [of "length es"] by (simp add: ring_holds_def Let_def)
  have m: "unat (min (rb_write_count rb) (ucast (rb_capacity rb div REPLAY_ENTRY_SIZE))) = min (length es) ?k"
    using wc unat_max_entries [of "rb_capacity rb"] by (simp add: min_def word_le_nat_alt)
  have "?k < 2 ^ 32" using unat_less_u32 [of "rb_capacity rb"] by (intro le_less_trans [OF div_le_dividend]) simp
  then have "min (length es) ?k < 2 ^ 32" by linarith
  then show ?thesis using m by (simp add: unsigned_ucast_eq take_bit_nat_eq_self)
qed

text \<open>The reading loop on a ring: where it starts, and what a position that is a slot returns.\<close>

definition read_all :: "u8 list \<Rightarrow> u32 \<Rightarrow> u32 \<Rightarrow> nat \<Rightarrow> ReplayEntry list res" where
  "read_all buf cap st n = res_fold (\<lambda>es i. rbind (read_slot buf cap st i) (\<lambda>e. Inr (es @ [e]))) [] [0..<n]"

lemma ring_reads:
  assumes h: "ring_holds rb t0 es"
  obtains buf st where
    "GetAllEntries rb = read_all buf (rb_capacity rb) st (min (length es) (unat (rb_capacity rb) div 33))"
    "length buf = unat (rb_capacity rb)"
    "unat st = (if unat (rb_capacity rb) div 33 < length es then ring_head (unat (rb_capacity rb)) (length es) else 0)"
    "\<And>i. i < length es \<Longrightarrow> length es \<le> i + unat (rb_capacity rb) div 33 \<Longrightarrow>
       slot buf (i mod (unat (rb_capacity rb) div 33)) = replay_entry_bytes (es ! i)"
proof -
  define cap where "cap = unat (rb_capacity rb)"
  define k where "k = cap div 33"
  define n where "n = length es"
  obtain buf where buf: "rb_buffer rb = Some buf" "length buf = cap"
      "\<forall>i < n. n \<le> i + k \<longrightarrow> slot buf (i mod k) = replay_entry_bytes (es ! i)"
    and f: "n < 2 ^ 64" "rb_overwrite_count rb = of_nat (n - k)" "unat (rb_head rb) = ring_head cap n"
    using h unfolding ring_holds_def Let_def cap_def [symmetric] k_def [symmetric] n_def [symmetric] by blast
  define st where "st = (if 0 < rb_overwrite_count rb then rb_head rb else 0)"
  have un: "unat (rb_overwrite_count rb) = n - k" using f(1,2) unat_of_nat_u64 [of "n - k"] by simp
  have ov: "0 < rb_overwrite_count rb \<longleftrightarrow> k < n" using un by (auto simp: word_gt_0 word_unat_eq_iff)
  have st: "unat st = (if k < n then ring_head cap n else 0)" using ov f(3) by (simp add: st_def)
  have G: "GetAllEntries rb = read_all buf (rb_capacity rb) st (min n k)"
    using buf(1) ring_count [OF h] by (simp add: GetAllEntries_def read_all_def Let_def st_def n_def k_def cap_def)
  show thesis
    using that [OF G [unfolded n_def k_def cap_def] buf(2) [unfolded cap_def] st [unfolded n_def k_def cap_def]] buf(3)
    unfolding n_def k_def cap_def by blast
qed

lemma read_slot_hit:
  assumes "unat cap \<le> 2 ^ 31" "unat st < unat cap" "i < k" "33 * k \<le> unat cap" "length buf = unat cap"
    and "(unat st + 33 * i) mod unat cap = 33 * s" "s < k" "slot buf s = replay_entry_bytes e"
  shows "read_slot buf cap st i = Inr e"
proof -
  have "33 * i < unat cap" "33 * s + 33 \<le> unat cap" using assms(3,4,7) by linarith+
  then show ?thesis using read_slot_pos [OF assms(1,2) _ assms(5), of i] assms(6,8) by (simp add: slot_def replay_entry_of_bytes)
qed

text \<open>Not yet full: all entries.\<close>

lemma GetAllEntries_few:
  assumes h: "ring_holds rb t0 es" and n: "length es \<le> unat (rb_capacity rb) div 33"
  shows "GetAllEntries rb = Inr es"
proof -
  define k where "k = unat (rb_capacity rb) div 33"
  have c: "33 \<le> unat (rb_capacity rb)" "unat (rb_capacity rb) \<le> 2 ^ 31" using h by (simp_all add: ring_holds_def Let_def)
  have k: "33 * k \<le> unat (rb_capacity rb)" by (simp add: k_def)
  obtain buf st where G: "GetAllEntries rb = read_all buf (rb_capacity rb) st (min (length es) k)"
    and b: "length buf = unat (rb_capacity rb)" and st: "unat st = (if k < length es then ring_head (unat (rb_capacity rb)) (length es) else 0)"
    and s: "\<And>i. i < length es \<Longrightarrow> length es \<le> i + k \<Longrightarrow> slot buf (i mod k) = replay_entry_bytes (es ! i)"
    using ring_reads [OF h] unfolding k_def by metis
  have st0: "unat st = 0" using st n by (simp add: k_def)
  have "read_slot buf (rb_capacity rb) st i = Inr (es ! i)" if "i < length es" for i
  proof -
    have i: "i < k" using that n by (simp add: k_def)
    then have "33 * i < unat (rb_capacity rb)" using k by linarith
    then show ?thesis using read_slot_hit [OF c(2) _ i k b, of st i "es ! i"] st0 c(1) i s [OF that] n by (simp add: k_def)
  qed
  then have "read_all buf (rb_capacity rb) st (length es) = Inr ([] @ List.map ((!) es) [0..<length es])"
    unfolding read_all_def by (intro res_fold_collect) simp
  then show ?thesis using G n by (simp add: map_nth k_def)
qed

text \<open>Overwritten, and the slots fill the buffer: the last entries.\<close>

lemma ring_head_exact: "0 < k \<Longrightarrow> 0 < n \<Longrightarrow> ring_head (33 * k) n = 33 * (n mod k)"
  unfolding ring_head_def by (cases n) (simp_all add: mod_Suc flip: mult_Suc_right)

lemma GetAllEntries_exact:
  assumes h: "ring_holds rb t0 es" and cap: "unat (rb_capacity rb) = 33 * k" and n: "k < length es"
  shows "GetAllEntries rb = Inr (drop (length es - k) es)"
proof -
  define N where "N = length es"
  have c: "33 \<le> unat (rb_capacity rb)" "unat (rb_capacity rb) \<le> 2 ^ 31" using h by (simp_all add: ring_holds_def Let_def)
  then have k: "0 < k" using cap by simp
  obtain buf st where G: "GetAllEntries rb = read_all buf (rb_capacity rb) st (min N k)"
    and b: "length buf = unat (rb_capacity rb)" and st: "unat st = (if k < N then ring_head (33 * k) N else 0)"
    and s: "\<And>i. i < N \<Longrightarrow> N \<le> i + k \<Longrightarrow> slot buf (i mod k) = replay_entry_bytes (es ! i)"
    using ring_reads [OF h] unfolding cap N_def by (metis nonzero_mult_div_cancel_left zero_neq_numeral)
  have st': "unat st = 33 * (N mod k)" using st n ring_head_exact [OF k, of N] unfolding N_def by (metis less_trans k)
  have "read_slot buf (rb_capacity rb) st i = Inr (es ! (N - k + i))" if "i < k" for i
  proof -
    have "N + i = N - k + i + k" using n by (simp add: N_def)
    then have "(N + i) mod k = (N - k + i) mod k" by (metis mod_add_self2)
    then have "(unat st + 33 * i) mod unat (rb_capacity rb) = 33 * ((N - k + i) mod k)"
      unfolding st' cap by (metis add_mult_distrib2 mod_add_left_eq mod_mult_mult1)
    then show ?thesis
      using read_slot_hit [OF c(2) _ that _ b, of st "(N - k + i) mod k"] s [of "N - k + i"] k n that st' cap
        mod_less_divisor [OF k, of N] by (simp add: N_def)
  qed
  then have "read_all buf (rb_capacity rb) st k = Inr ([] @ List.map (\<lambda>i. es ! (N - k + i)) [0..<k])"
    unfolding read_all_def by (intro res_fold_collect) simp
  moreover have "List.map (\<lambda>i. es ! (N - k + i)) [0..<k] = drop (N - k) es"
    using n by (intro nth_equalityI) (auto simp: N_def)
  ultimately show ?thesis using G n by (simp add: N_def)
qed

text \<open>Overwritten, and a rest remains after the last slot: the loop reads a slot that is not there.\<close>

lemma GetAllEntries_rest:
  assumes h: "ring_holds rb t0 es" and nd: "\<not> 33 dvd unat (rb_capacity rb)" and n: "unat (rb_capacity rb) div 33 < length es"
  shows "GetAllEntries rb = Inl OutOfBounds"
proof -
  define cap where "cap = unat (rb_capacity rb)"
  define k where "k = cap div 33"
  define N where "N = length es"
  define j where "j = (N - 1) mod k + 1"
  have c: "33 \<le> cap" "cap \<le> 2 ^ 31" using h by (simp_all add: ring_holds_def Let_def cap_def)
  have "33 * k \<noteq> cap" using nd by (metis cap_def dvd_triv_left)
  then have lt: "33 * k < cap" "cap < 33 * k + 33"
    using ring_slots(2) [of cap] dividend_less_div_times [of 33 cap] by (auto simp: k_def mult.commute)
  have j: "1 \<le> j" "j \<le> k" using ring_slots(1) [OF c(1)] by (simp_all add: j_def k_def Suc_le_eq)
  obtain buf st where G: "GetAllEntries rb = read_all buf (rb_capacity rb) st (min N k)"
    and b: "length buf = cap" and st: "unat st = (if k < N then ring_head cap N else 0)"
    using ring_reads [OF h] unfolding cap_def [symmetric] N_def [symmetric] k_def [symmetric] by metis
  have "33 * j < cap" using j lt by linarith
  then have st': "unat st = 33 * j"
    using st n unfolding cap_def [symmetric] k_def [symmetric] N_def [symmetric]
    by (simp add: ring_head_def j_def flip: k_def)
  have "unat st + 33 * (k - j) = 33 * k" using st' j by (simp flip: add_mult_distrib2)
  then have "read_slot buf (rb_capacity rb) st (k - j) = Inl OutOfBounds"
    using read_slot_pos [of "rb_capacity rb" st "k - j" buf] c(2) lt b st' j unfolding cap_def [symmetric] by (simp add: Let_def)
  then have "read_all buf (rb_capacity rb) st k = Inl OutOfBounds"
    unfolding read_all_def using j by (intro res_fold_faults [of "k - j"]) (auto dest: read_slot_fault)
  then show ?thesis using G n by (simp add: N_def k_def cap_def)
qed

section \<open>The recorder\<close>

definition ring_started :: "nat \<Rightarrow> u32 \<Rightarrow> ReplayRingBuffer" where
  "ring_started t0 capacity = StartRecording t0 (snd (Ring_Initialize True (ReplayRingBuffer_new capacity)))"

lemma ring_started_writes:
  assumes "33 \<le> unat cap" "unat cap \<le> 2 ^ 31" "length ios < 2 ^ 64"
  obtains rb where "res_fold Ring_Write (ring_started t0 cap) ios = Inr rb"
    "ring_holds rb t0 (List.map (replay_entry t0) ios)" "rb_active rb" "rb_capacity rb = cap"
proof -
  have i: "Ring_Initialize True (ReplayRingBuffer_new cap) = (True, snd (Ring_Initialize True (ReplayRingBuffer_new cap)))"
    by (simp add: Ring_Initialize_def ReplayRingBuffer_new_def)
  show thesis
    using that Ring_Writes [OF ring_start_holds(1,2) [OF assms(1,2) i, of t0], of ios] assms(3)
      ring_start_holds(3) [OF assms(1,2) i, of t0]
    unfolding ring_started_def by auto
qed

lemma ring_holds_stop: "ring_holds (StopRecording rb) t0 es = ring_holds rb t0 es"
  by (simp add: ring_holds_def StopRecording_def Let_def)

lemma replay_header_buf_faults: "replay_header_buf n = Inl OutOfBounds"
  by (simp add: replay_header_buf_def mem_write_def REPLAY_HEADER_SIZE_def replay_header_prefix_def)

lemma GetAllEntries_some:
  assumes "ring_holds rb t0 es" "es \<noteq> []"
  shows "GetAllEntries rb = Inl OutOfBounds \<or> (\<exists>es'. GetAllEntries rb = Inr es' \<and> es' \<noteq> [])"
proof -
  define k where "k = unat (rb_capacity rb) div 33"
  have c: "33 \<le> unat (rb_capacity rb)" using assms(1) by (simp add: ring_holds_def Let_def)
  then have k: "0 < k" using ring_slots(1) by (simp add: k_def)
  consider "length es \<le> k" | "k < length es" "unat (rb_capacity rb) = 33 * k" | "k < length es" "\<not> 33 dvd unat (rb_capacity rb)"
    by (metis dvd_mult_div_cancel k_def not_le)
  then show ?thesis
  proof cases
    case 1
    then show ?thesis using GetAllEntries_few [OF assms(1)] assms(2) by (simp add: k_def)
  next
    case 2
    then show ?thesis using GetAllEntries_exact [OF assms(1) 2(2,1)] k by simp
  next
    case 3
    then show ?thesis using GetAllEntries_rest [OF assms(1)] by (simp add: k_def)
  qed
qed

lemma FlushToFile_faults:
  assumes "ring_holds rb t0 es" "es \<noteq> []"
  shows "FlushToFile opens path rb = Inl OutOfBounds"
  using GetAllEntries_some [of "StopRecording rb" t0 es] assms
  by (auto simp: FlushToFile_def Let_def ring_holds_stop replay_header_buf_faults)

lemma RecordIo_fold:
  "res_fold RecordIo r ios = rbind (res_fold Ring_Write (rr_ring r) ios) (\<lambda>rb. Inr (r\<lparr>rr_ring := rb\<rparr>))"
proof (induction ios arbitrary: r)
  case (Cons io ios)
  then show ?case by (cases "Ring_Write (rr_ring r) io") (simp_all add: RecordIo_def)
qed simp

section \<open>Reading the file\<close>

lemma read_entries_loop_take:
  "length tail < 33 \<Longrightarrow> read_entries_loop (length es) (take m (concat (List.map replay_entry_bytes es) @ tail)) = take (m div 33) es"
proof (induction es arbitrary: m)
  case (Cons e es)
  show ?case
  proof (cases "m < 33")
    case True
    then show ?thesis by simp
  next
    case False
    then have m: "m = 33 + (m - 33)" "m div 33 = Suc ((m - 33) div 33)" by (simp_all add: le_div_geq)
    show ?thesis using Cons.IH [OF Cons.prems, of "m - 33"] Cons.prems False unfolding m(2)
      by (simp add: replay_entry_of_bytes)
  qed
qed simp

lemma replay_header_of_prefix:
  assumes "take 12 hb = replay_header_prefix n" "length hb = 16"
  shows "rh_magic (replay_header_of hb) = REPLAY_MAGIC" "rh_version (replay_header_of hb) = REPLAY_VERSION"
    "rh_entry_count (replay_header_of hb) = n"
proof -
  define rest where "rest = drop 12 hb"
  have "hb = replay_header_prefix n @ rest" using assms(1) by (metis append_take_drop_id rest_def)
  moreover have "replay_header_prefix n = le_bytes 4 REPLAY_MAGIC @ le_bytes 2 REPLAY_VERSION @ le_bytes 4 n @ take 2 (le_bytes 4 (0 :: u32))"
    by (simp add: replay_header_prefix_def replay_header_bytes_def)
  ultimately have hb: "hb = le_bytes 4 REPLAY_MAGIC @ le_bytes 2 REPLAY_VERSION @ le_bytes 4 n @ take 2 (le_bytes 4 (0 :: u32)) @ rest"
    by simp
  show "rh_magic (replay_header_of hb) = REPLAY_MAGIC" "rh_version (replay_header_of hb) = REPLAY_VERSION"
    "rh_entry_count (replay_header_of hb) = n"
    unfolding hb by (simp_all add: replay_header_of_def le_word_append le_word_le_bytes)
qed

section \<open>Training counts each block exactly\<close>

lemma map_of_bump: "map_of (bump l fs) = (map_of fs)(l \<mapsto> (case map_of fs l of None \<Rightarrow> 1 | Some f \<Rightarrow> f + 1))"
  by (induction l fs rule: bump.induct) (auto simp: fun_eq_iff)

lemma bump_keys: "fst ` set (bump l fs) = insert l (fst ` set fs)"
  by (induction l fs rule: bump.induct) auto

lemma bump_distinct: "distinct (List.map fst fs) \<Longrightarrow> distinct (List.map fst (bump l fs))"
  by (induction l fs rule: bump.induct) (auto simp: bump_keys)

lemma train_freqs_exact:
  "distinct (List.map fst (train_freqs es))"
  "map_of (train_freqs es) l =
     (if l \<in> re_lba ` set es then Some (of_nat (length (filter (\<lambda>e. re_lba e = l) es))) else None)"
proof -
  show "distinct (List.map fst (train_freqs es))"
    by (induction es rule: rev_induct) (simp_all add: train_freqs_def bump_distinct)
  show "map_of (train_freqs es) l =
     (if l \<in> re_lba ` set es then Some (of_nat (length (filter (\<lambda>e. re_lba e = l) es))) else None)"
  proof (induction es arbitrary: l rule: rev_induct)
    case (snoc e es)
    have "filter (\<lambda>x. re_lba x = re_lba e) es = []" if "re_lba e \<notin> re_lba ` set es"
      using that by (simp add: filter_empty_conv) (metis image_eqI)
    then show ?case using snoc by (auto simp: train_freqs_def map_of_bump)
  qed (simp add: train_freqs_def)
qed

section \<open>Properties\<close>

text \<open>
  C29. A started ring of at least one slot accepts every write, and reading it back gives all entries while
  they fit; after an overwrite it gives exactly the last entries, in order, when the slots fill the buffer,
  and otherwise reads beyond the end of the buffer.
\<close>

theorem replay_ring_exact:
  assumes "33 \<le> unat cap" "unat cap \<le> 2 ^ 31" "length ios < 2 ^ 64"
  shows "\<exists>rb. res_fold Ring_Write (StartRecording t0 (snd (Ring_Initialize True (ReplayRingBuffer_new cap)))) ios = Inr rb \<and>
     GetAllEntries rb =
       (let es = List.map (replay_entry t0) ios; k = unat cap div 33 in
        if length es \<le> k then Inr es
        else if 33 dvd unat cap then Inr (drop (length es - k) es) else Inl OutOfBounds)"
proof -
  obtain rb where r: "res_fold Ring_Write (ring_started t0 cap) ios = Inr rb"
    "ring_holds rb t0 (List.map (replay_entry t0) ios)" "rb_capacity rb = cap"
    using ring_started_writes [OF assms, of t0] by metis
  show ?thesis
    using r(1) GetAllEntries_few [OF r(2)] GetAllEntries_exact [OF r(2), of "unat cap div 33"] GetAllEntries_rest [OF r(2)] r(3)
    unfolding ring_started_def [symmetric] Let_def by (intro exI [of _ rb]) simp
qed

lemma replay_ring_exact_witness:
  "\<exists>rb. res_fold Ring_Write (StartRecording 0 (snd (Ring_Initialize True (ReplayRingBuffer_new 100))))
      (replicate 4 \<lparr>io_now = 5, io_lba = 7, io_offset = 0, io_size = 512, io_latency_us = 9, io_status = 0, io_reserved = 0\<rparr>) = Inr rb \<and>
     GetAllEntries rb = Inl OutOfBounds"
  using replay_ring_exact [of 100
      "replicate 4 \<lparr>io_now = 5, io_lba = 7, io_offset = 0, io_size = 512, io_latency_us = 9, io_status = 0, io_reserved = 0\<rparr>" 0]
  by simp

text \<open>
  After the recorder has started and recorded at least one operation, no flush returns: the third copy into
  the header buffer writes two bytes behind its 16 bytes, in the normal and in the emergency flush.
\<close>

theorem replay_flush_faults:
  assumes "ios \<noteq> []" "length ios < 2 ^ 64"
  shows "\<exists>r. res_fold RecordIo (snd (Recorder_Start True t0 BootReplayRecorder_new)) ios = Inr r \<and>
     FlushNormal opens path r = Inl OutOfBounds \<and> Replay_FlushEmergency opens com1 r = Inl OutOfBounds"
proof -
  have c: "33 \<le> unat REPLAY_DEFAULT_CAPACITY" "unat REPLAY_DEFAULT_CAPACITY \<le> 2 ^ 31" by (simp_all add: REPLAY_DEFAULT_CAPACITY_def)
  obtain rb where rb: "res_fold Ring_Write (ring_started t0 REPLAY_DEFAULT_CAPACITY) ios = Inr rb"
    "ring_holds rb t0 (List.map (replay_entry t0) ios)"
    using ring_started_writes [OF c assms(2), of t0] by metis
  have "snd (Recorder_Start True t0 BootReplayRecorder_new) = \<lparr>rr_ring = ring_started t0 REPLAY_DEFAULT_CAPACITY, rr_flushed = False\<rparr>"
    by (simp add: Recorder_Start_def BootReplayRecorder_new_def ring_started_def Ring_Initialize_def ReplayRingBuffer_new_def)
  then show ?thesis
    using rb FlushToFile_faults [OF rb(2)] assms(1) by (simp add: RecordIo_fold FlushNormal_def Replay_FlushEmergency_def)
qed

lemma replay_flush_faults_witness:
  "\<exists>r. res_fold RecordIo (snd (Recorder_Start True 0 BootReplayRecorder_new))
      [\<lparr>io_now = 5, io_lba = 7, io_offset = 0, io_size = 512, io_latency_us = 9, io_status = 0, io_reserved = 0\<rparr>] = Inr r \<and>
     FlushNormal (\<lambda>_. True) replay_path r = Inl OutOfBounds \<and> Replay_FlushEmergency (\<lambda>_. True) True r = Inl OutOfBounds"
  by (rule replay_flush_faults) simp_all



end
