(* ===== verification/HD_BootCom1.thy ===== *)
theory HD_BootCom1
  imports HD_CString
begin

text \<open>
  The types of the boot agent, \<^verbatim>\<open>client/boot_agent/boot_agent.h\<close>, and its logger on the first serial port,
  \<^verbatim>\<open>com1_logger.cpp\<close>. Whether the port opens is a parameter; a message is the text that the format of the
  call gives.
\<close>

section \<open>Phases and configuration\<close>

datatype BootPhase =
    PXE_START | IPXE_START | BOOTAGENT_START | DHCP_DISCOVER | GRPC_REGISTER | CHUNKSTREAM_DL
  | INTEGRITY_CHECK | WINPE_START | BOOTDIAG_RUN

datatype BootFailCode =
    FAIL_NONE | PXE_TIMEOUT | TFTP_FAIL | DHCP_FAIL | GRPC_FAIL | IMGSRV_FAIL | CRC_FAIL | SIGNATURE_FAIL | BOOTMETA_FAIL

record BootConfig =
  cf_server_address :: string
  cf_server_port :: u16
  cf_image_id :: u64
  cf_boot_script_url :: string
  cf_image_name :: string
  cf_primary_server :: string
  cf_primary_port :: u16
  cf_secondary_server :: string
  cf_secondary_port :: u16
  cf_meta_server_address :: string
  cf_meta_server_port :: u16
  cf_terminal_id :: string
  cf_local_meta_path :: string
  cf_blackbox_path :: string
  cf_dhcp_timeout_ms :: int
  cf_grpc_timeout_ms :: int
  cf_dl_timeout_ms :: int
  cf_max_retries :: int
  cf_boot_id :: string
  cf_machine_id :: string
  cf_mac_address :: string

text \<open>The default member initialisers.\<close>

definition BootConfig_new :: BootConfig where
  "BootConfig_new =
     \<lparr>cf_server_address = [], cf_server_port = 8080, cf_image_id = 0, cf_boot_script_url = [], cf_image_name = [],
      cf_primary_server = [], cf_primary_port = 9527, cf_secondary_server = [], cf_secondary_port = 9527,
      cf_meta_server_address = [], cf_meta_server_port = 50051, cf_terminal_id = [],
      cf_local_meta_path = ''C:'' @ [CHR 0x5C] @ ''HyperDisk'' @ [CHR 0x5C] @ ''boot.meta'',
      cf_blackbox_path = ''C:'' @ [CHR 0x5C] @ ''HyperDisk'' @ [CHR 0x5C] @ ''blackbox'' @ [CHR 0x5C] @ ''boot.bin'',
      cf_dhcp_timeout_ms = 5000, cf_grpc_timeout_ms = 3000, cf_dl_timeout_ms = 10000, cf_max_retries = 3,
      cf_boot_id = [], cf_machine_id = [], cf_mac_address = []\<rparr>"

section \<open>The logger\<close>

fun PhaseTag :: "BootPhase \<Rightarrow> string" where
  "PhaseTag PXE_START = ''PXE_START''"
| "PhaseTag IPXE_START = ''IPXE_START''"
| "PhaseTag BOOTAGENT_START = ''BOOTAGENT_START''"
| "PhaseTag DHCP_DISCOVER = ''DHCP_DISCOVER''"
| "PhaseTag GRPC_REGISTER = ''GRPC_REGISTER''"
| "PhaseTag CHUNKSTREAM_DL = ''CHUNKSTREAM_DL''"
| "PhaseTag INTEGRITY_CHECK = ''INTEGRITY_CHECK''"
| "PhaseTag WINPE_START = ''WINPE_START''"
| "PhaseTag BOOTDIAG_RUN = ''BOOTDIAG_RUN''"

fun FailTag :: "BootFailCode \<Rightarrow> string" where
  "FailTag FAIL_NONE = ''NONE''"
| "FailTag PXE_TIMEOUT = ''PXE_TIMEOUT''"
| "FailTag TFTP_FAIL = ''TFTP_FAIL''"
| "FailTag DHCP_FAIL = ''DHCP_FAIL''"
| "FailTag GRPC_FAIL = ''METACENTER_FAIL''"
| "FailTag IMGSRV_FAIL = ''IMGSRV_FAIL''"
| "FailTag CRC_FAIL = ''BOOTMETA_CRC_FAIL''"
| "FailTag SIGNATURE_FAIL = ''WINLOAD_SIG_FAIL''"
| "FailTag BOOTMETA_FAIL = ''BOOTMETA_FAIL''"

text \<open>The handle is valid or not; \<open>lg_out\<close> is what \<^verbatim>\<open>WriteFile\<close> was called with.\<close>

record Com1Logger =
  lg_valid :: bool
  lg_initialized :: bool
  lg_out :: "string list"

definition Com1Logger_new :: Com1Logger where
  "Com1Logger_new = \<lparr>lg_valid = True, lg_initialized = False, lg_out = []\<rparr>"

definition Com1_Initialize :: "bool \<Rightarrow> Com1Logger \<Rightarrow> Com1Logger" where
  "Com1_Initialize opens lg = (if lg_initialized lg then lg else lg\<lparr>lg_valid := opens, lg_initialized := True\<rparr>)"

definition Com1_WriteRaw :: "bool \<Rightarrow> string \<Rightarrow> Com1Logger \<Rightarrow> Com1Logger" where
  "Com1_WriteRaw opens str lg =
     (let lg1 = Com1_Initialize opens lg in if lg_valid lg1 then lg1\<lparr>lg_out := lg_out lg1 @ [str]\<rparr> else lg1)"

text \<open>
  The buffer of 512 characters after both calls of \<^verbatim>\<open>snprintf\<close>, then the line end, each character written
  in bounds or not at all.
\<close>

definition com1_buf :: "string \<Rightarrow> string \<Rightarrow> string res" where
  "com1_buf tag msg =
     (let n = length (''[HDx:'' @ tag @ ''] '') in
      if 512 < n then Inl OutOfBounds
      else let t = take 511 (''[HDx:'' @ tag @ ''] '' @ msg); buf = t @ replicate (512 - length t) (CHR 0x00);
               len = length t in
        if len < 510 then mem_write buf len [CHR 0x0D, CHR 0x0A, CHR 0x00] else Inr buf)"

definition Com1_Write :: "bool \<Rightarrow> BootPhase \<Rightarrow> string \<Rightarrow> Com1Logger \<Rightarrow> Com1Logger res" where
  "Com1_Write opens phase msg lg =
     rbind (com1_buf (PhaseTag phase) msg) (\<lambda>buf. Inr (Com1_WriteRaw opens (c_string buf) lg))"

definition Com1_WriteFail :: "bool \<Rightarrow> BootFailCode \<Rightarrow> string \<Rightarrow> Com1Logger \<Rightarrow> Com1Logger res" where
  "Com1_WriteFail opens code msg lg =
     rbind (com1_buf (FailTag code) msg) (\<lambda>buf. Inr (Com1_WriteRaw opens (c_string buf) lg))"

section \<open>The logger never leaves its buffer\<close>

text \<open>The line that is written: at most 511 characters, with the line end when it fits.\<close>

definition com1_line_of :: "string \<Rightarrow> string \<Rightarrow> string" where
  "com1_line_of tag msg =
     (let t = take 511 (''[HDx:'' @ tag @ ''] '' @ msg) in if length t < 510 then t @ [CHR 0x0D, CHR 0x0A] else t)"

lemma c_string_prefix: "CHR 0x00 \<notin> set s \<Longrightarrow> c_string (s @ CHR 0x00 # r) = s"
  by (induction s) (auto simp: c_string_def)

lemma c_string_zeros: "CHR 0x00 \<notin> set s \<Longrightarrow> 0 < n \<Longrightarrow> c_string (s @ replicate n (CHR 0x00)) = s"
  by (cases n) (simp_all add: c_string_prefix)

lemma com1_buf_line:
  assumes "length tag \<le> 500" "CHR 0x00 \<notin> set tag" "CHR 0x00 \<notin> set msg"
  shows "\<exists>buf. com1_buf tag msg = Inr buf \<and> length buf = 512 \<and> c_string buf = com1_line_of tag msg"
proof -
  define s where "s = ''[HDx:'' @ tag @ ''] '' @ msg"
  define t where "t = take 511 s"
  have z: "CHR 0x00 \<notin> set t" using assms(2,3) by (auto simp: t_def s_def dest!: in_set_takeD)
  have l: "length t \<le> 511" by (simp add: t_def)
  have n: "\<not> 512 < length (''[HDx:'' @ tag @ ''] '')" using assms(1) by simp
  show ?thesis
  proof (cases "length t < 510")
    case True
    then have "mem_write (t @ replicate (512 - length t) (CHR 0x00)) (length t) [CHR 0x0D, CHR 0x0A, CHR 0x00] =
        Inr ((t @ [CHR 0x0D, CHR 0x0A]) @ CHR 0x00 # replicate (509 - length t) (CHR 0x00))"
      by (simp add: mem_write_def drop_replicate)
    then show ?thesis
      using True n z c_string_prefix [of "t @ [CHR 0x0D, CHR 0x0A]"] unfolding com1_buf_def com1_line_of_def s_def [symmetric] t_def [symmetric] Let_def
      by simp
  next
    case False
    then show ?thesis
      using n z l c_string_zeros [of t "512 - length t"]
      unfolding com1_buf_def com1_line_of_def s_def [symmetric] t_def [symmetric] Let_def by simp
  qed
qed

lemma length_tags: "length (PhaseTag p) \<le> 500" "length (FailTag c) \<le> 500"
  by (cases p, simp_all) (cases c, simp_all)

lemma tags_no_zero: "CHR 0x00 \<notin> set (PhaseTag p)" "CHR 0x00 \<notin> set (FailTag c)"
  by (cases p, simp_all) (cases c, simp_all)

text \<open>Every call returns, whatever the message.\<close>

lemma com1_buf_total: "length tag \<le> 500 \<Longrightarrow> \<exists>buf. com1_buf tag msg = Inr buf"
  by (auto simp: com1_buf_def Let_def mem_write_def)

definition com1_str :: "string \<Rightarrow> string \<Rightarrow> string" where
  "com1_str tag msg = (case com1_buf tag msg of Inl _ \<Rightarrow> [] | Inr buf \<Rightarrow> c_string buf)"

lemma Com1_Write_eq [simp]:
  "Com1_Write opens phase msg lg = Inr (Com1_WriteRaw opens (com1_str (PhaseTag phase) msg) lg)"
  using com1_buf_total [OF length_tags(1), of phase msg] by (auto simp: Com1_Write_def com1_str_def)

lemma Com1_WriteFail_eq [simp]:
  "Com1_WriteFail opens code msg lg = Inr (Com1_WriteRaw opens (com1_str (FailTag code) msg) lg)"
  using com1_buf_total [OF length_tags(2), of code msg] by (auto simp: Com1_WriteFail_def com1_str_def)

lemma com1_str_line:
  "CHR 0x00 \<notin> set msg \<Longrightarrow> com1_str (PhaseTag p) msg = com1_line_of (PhaseTag p) msg"
  "CHR 0x00 \<notin> set msg \<Longrightarrow> com1_str (FailTag c) msg = com1_line_of (FailTag c) msg"
  using com1_buf_line [OF length_tags(1) tags_no_zero(1), of msg p] com1_buf_line [OF length_tags(2) tags_no_zero(2), of msg c]
  by (auto simp: com1_str_def)

end
