(* ===== verification/HD_Dhcp.thy ===== *)
theory HD_Dhcp
  imports HD_BootCom1
begin

text \<open>
  The DHCP client of the boot agent, \<^verbatim>\<open>client/boot_agent/dhcp_client.cpp\<close>: the DISCOVER datagram, the parser
  of the options and the handling of the first answer. The adapters, the random number, the socket calls
  and \<^verbatim>\<open>inet_ntop\<close> are parameters.
\<close>

section \<open>The packet\<close>

record DhcpPacket =
  dp_op :: u8
  dp_htype :: u8
  dp_hlen :: u8
  dp_hops :: u8
  dp_xid :: u32
  dp_secs :: u16
  dp_flags :: u16
  dp_ciaddr :: u32
  dp_yiaddr :: u32
  dp_siaddr :: u32
  dp_giaddr :: u32
  dp_chaddr :: "u8 list"
  dp_sname :: "u8 list"
  dp_file :: "u8 list"
  dp_magic :: "u8 list"

definition sizeof_DhcpPacket :: nat where "sizeof_DhcpPacket = 240"

definition dhcp_packet_bytes :: "DhcpPacket \<Rightarrow> u8 list" where
  "dhcp_packet_bytes p =
     [dp_op p, dp_htype p, dp_hlen p, dp_hops p] @ le_bytes 4 (dp_xid p) @ le_bytes 2 (dp_secs p) @ le_bytes 2 (dp_flags p) @
     le_bytes 4 (dp_ciaddr p) @ le_bytes 4 (dp_yiaddr p) @ le_bytes 4 (dp_siaddr p) @ le_bytes 4 (dp_giaddr p) @
     dp_chaddr p @ dp_sname p @ dp_file p @ dp_magic p"

definition DHCPDISCOVER :: u8 where "DHCPDISCOVER = 1"
definition DHCPOFFER :: u8 where "DHCPOFFER = 2"
definition DHCP_MAGIC :: u32 where "DHCP_MAGIC = 0x63825363"

text \<open>The first adapter of type Ethernet (6) whose address has six bytes.\<close>

record adapter_info =
  ai_type :: u32
  ai_address :: "u8 list"

definition MIB_IF_TYPE_ETHERNET :: u32 where "MIB_IF_TYPE_ETHERNET = 6"

definition dhcp_GetMacAddress :: "adapter_info list option \<Rightarrow> u8 list option" where
  "dhcp_GetMacAddress adapters =
     (case adapters of
        None \<Rightarrow> None
      | Some as \<Rightarrow> map_option ai_address (find (\<lambda>a. ai_type a = MIB_IF_TYPE_ETHERNET \<and> length (ai_address a) = 6) as))"

definition discover_packet :: "u32 \<Rightarrow> u8 list \<Rightarrow> DhcpPacket" where
  "discover_packet xid mac =
     \<lparr>dp_op = DHCPDISCOVER, dp_htype = 1, dp_hlen = 6, dp_hops = 0, dp_xid = xid, dp_secs = 0, dp_flags = 0x0080,
      dp_ciaddr = 0, dp_yiaddr = 0, dp_siaddr = 0, dp_giaddr = 0, dp_chaddr = mac @ replicate 10 0,
      dp_sname = replicate 64 0, dp_file = replicate 128 0,
      dp_magic = [ucast (drop_bit 24 DHCP_MAGIC AND 0xFF), ucast (drop_bit 16 DHCP_MAGIC AND 0xFF),
                  ucast (drop_bit 8 DHCP_MAGIC AND 0xFF), ucast (DHCP_MAGIC AND 0xFF)]\<rparr>"

definition discover_options :: "u8 list" where
  "discover_options =
     [53, 1, DHCPDISCOVER] @ [12, 8] @ bytes_of_string (take 8 ''HYPERDISK'') @ [55, 4, 1, 3, 6, 60] @ [255]"

text \<open>The datagram: the packet and the options in a buffer with 256 bytes for the options.\<close>

definition discover_datagram :: "u32 \<Rightarrow> u8 list \<Rightarrow> u8 list res" where
  "discover_datagram xid mac =
     rbind (mem_write (replicate (sizeof_DhcpPacket + 256) 0) 0 (dhcp_packet_bytes (discover_packet xid mac))) (\<lambda>buf.
     rbind (mem_write buf sizeof_DhcpPacket discover_options) (\<lambda>buf.
       mem_read buf 0 (sizeof_DhcpPacket + length discover_options)))"

section \<open>Options\<close>

record DhcpOption =
  do_code :: u8
  do_length :: u8
  do_data :: "u8 list"

function ParseOptions_loop :: "u8 list \<Rightarrow> nat \<Rightarrow> nat \<Rightarrow> DhcpOption list \<Rightarrow> DhcpOption list res" where
  "ParseOptions_loop data len offset options =
     (if offset + 2 \<le> len then
        rbind (vec_at data offset) (\<lambda>code.
          if code = 0xFF then Inr options
          else if code = 0 then ParseOptions_loop data len (offset + 1) options
          else rbind (vec_at data (offset + 1)) (\<lambda>l.
            if len < offset + 2 + unat l then Inr options
            else rbind (mem_read data (offset + 2) (unat l)) (\<lambda>d.
              ParseOptions_loop data len (offset + 2 + unat l) (options @ [\<lparr>do_code = code, do_length = l, do_data = d\<rparr>]))))
      else Inr options)"
  by pat_completeness auto
termination
  by (relation "measure (\<lambda>(data, len, offset, options). len - offset)") auto

declare ParseOptions_loop.simps [simp del]

definition ParseOptions :: "u8 list \<Rightarrow> nat \<Rightarrow> DhcpOption list res" where
  "ParseOptions data len = ParseOptions_loop data len 0 []"

section \<open>Discover\<close>

text \<open>
  What the calls answer. \<open>de_recv\<close> is the datagram that arrives, empty when none arrives in time; one that
  does not fit the buffer of 1500 bytes is an error of \<^verbatim>\<open>recvfrom\<close>.
\<close>

record dhcp_env =
  de_startup :: bool
  de_socket :: bool
  de_bind :: bool
  de_sendto :: bool
  de_recv :: "u8 list"
  de_last_error :: int
  de_random :: u32
  de_adapters :: "adapter_info list option"
  de_ntop :: "u8 list \<Rightarrow> string"

definition apply_option ::
  "(u8 list \<Rightarrow> string) \<Rightarrow> bool \<Rightarrow> BootConfig \<times> Com1Logger \<Rightarrow> DhcpOption \<Rightarrow> (BootConfig \<times> Com1Logger) res" where
  "apply_option ntop com1 st opt =
     (case st of (cfg, lg) \<Rightarrow>
        if do_code opt = 54 then
          if 4 \<le> do_length opt then
            rbind (mem_read (do_data opt) 0 4) (\<lambda>siaddr.
              let ip = ntop siaddr;
                  cfg1 = cfg\<lparr>cf_server_address := ip\<rparr>;
                  cfg2 = (if cf_primary_server cfg1 = [] then cfg1\<lparr>cf_primary_server := ip\<rparr> else cfg1)
              in rbind (Com1_Write com1 DHCP_DISCOVER (''Server: '' @ ip) lg) (\<lambda>lg1. Inr (cfg2, lg1)))
          else Inr (cfg, lg)
        else if do_code opt = 67 then
          let bootfile = string_of_bytes (do_data opt)
          in rbind (Com1_Write com1 DHCP_DISCOVER (''Boot file: '' @ c_string bootfile) lg) (\<lambda>lg1.
               Inr (cfg\<lparr>cf_boot_script_url := bootfile\<rparr>, lg1))
        else if do_code opt = 1 then
          if 4 \<le> do_length opt then
            rbind (mem_read (do_data opt) 0 4) (\<lambda>a.
              rbind (Com1_Write com1 DHCP_DISCOVER (''Netmask: '' @ ntop a) lg) (\<lambda>lg1. Inr (cfg, lg1)))
          else Inr (cfg, lg)
        else if do_code opt = 3 then
          if 4 \<le> do_length opt then
            rbind (mem_read (do_data opt) 0 4) (\<lambda>a.
              rbind (Com1_Write com1 DHCP_DISCOVER (''Gateway: '' @ ntop a) lg) (\<lambda>lg1. Inr (cfg, lg1)))
          else Inr (cfg, lg)
        else Inr (cfg, lg))"

text \<open>The handling of the answer of \<open>n\<close> bytes in the receive buffer.\<close>

definition dhcp_answer :: "dhcp_env \<Rightarrow> bool \<Rightarrow> u8 list \<Rightarrow> nat \<Rightarrow> BootConfig \<Rightarrow> Com1Logger \<Rightarrow> (bool \<times> BootConfig \<times> Com1Logger) res" where
  "dhcp_answer env com1 recv_buf n cfg lg =
     rbind (vec_at recv_buf 0) (\<lambda>op.
       if op \<noteq> DHCPOFFER then
         rbind (Com1_WriteFail com1 DHCP_FAIL (''Not a DHCPOFFER: op='' @ to_string (unat op)) lg) (\<lambda>lg. Inr (False, cfg, lg))
       else
         rbind (ParseOptions (drop sizeof_DhcpPacket recv_buf) (n - sizeof_DhcpPacket)) (\<lambda>options.
         rbind (res_fold (apply_option (de_ntop env) com1) (cfg, lg) options) (\<lambda>(cfg, lg).
         rbind (mem_read recv_buf 16 4) (\<lambda>yiaddr.
         rbind (Com1_Write com1 DHCP_DISCOVER (''Offered IP: '' @ de_ntop env yiaddr) lg) (\<lambda>lg.
           if cf_server_address cfg \<noteq> []
           then rbind (Com1_Write com1 DHCP_DISCOVER (''OK - server='' @ c_string (cf_server_address cfg)) lg) (\<lambda>lg. Inr (True, cfg, lg))
           else rbind (Com1_WriteFail com1 DHCP_FAIL ''No server address in DHCPOFFER'' lg) (\<lambda>lg. Inr (False, cfg, lg)))))))"

text \<open>The result, the configuration, the log and the datagram sent.\<close>

definition Discover ::
  "dhcp_env \<Rightarrow> bool \<Rightarrow> BootConfig \<Rightarrow> Com1Logger \<Rightarrow> (bool \<times> BootConfig \<times> Com1Logger \<times> u8 list option) res" where
  "Discover env com1 cfg lg =
     (let fails = (\<lambda>msg lg sent. rbind (Com1_WriteFail com1 DHCP_FAIL msg lg) (\<lambda>lg. Inr (False, cfg, lg, sent))) in
      if \<not> de_startup env then fails (''WSAStartup failed: '' @ fmt_d (de_last_error env)) lg None
      else if \<not> de_socket env then fails ''socket() failed'' lg None
      else if \<not> de_bind env then fails (''bind() failed: '' @ fmt_d (de_last_error env)) lg None
      else let mac = (case dhcp_GetMacAddress (de_adapters env) of Some m \<Rightarrow> m | None \<Rightarrow> replicate 6 0) in
        rbind (discover_datagram (de_random env) mac) (\<lambda>sent.
        rbind (Com1_Write com1 DHCP_DISCOVER (''Sending DHCP DISCOVER (xid=0x'' @ fmt_0X 8 (unat (de_random env)) @ '')'') lg) (\<lambda>lg.
          if \<not> de_sendto env then fails (''sendto() failed: '' @ fmt_d (de_last_error env)) lg None
          else let n = length (de_recv env) in
            if n = 0 \<or> 1500 < n
            then fails (''No DHCP response (timeout '' @ fmt_d (cf_dhcp_timeout_ms cfg) @ ''ms)'') lg (Some sent)
            else if n < sizeof_DhcpPacket then fails (''Response too short: '' @ to_string n) lg (Some sent)
            else rbind (dhcp_answer env com1 (de_recv env @ replicate (1500 - n) 0) n cfg lg) (\<lambda>(ok, cfg, lg). Inr (ok, cfg, lg, Some sent)))))"

section \<open>A reference decoder of the options\<close>

text \<open>Recursion on the bytes: an option at a time, padding skipped, until the end mark or an option that is cut.\<close>

function opts_of :: "u8 list \<Rightarrow> DhcpOption list" where
  "opts_of [] = []"
| "opts_of [c] = []"
| "opts_of (c # l # rest) =
     (if c = 0xFF then [] else if c = 0 then opts_of (l # rest)
      else if length rest < unat l then []
      else \<lparr>do_code = c, do_length = l, do_data = take (unat l) rest\<rparr> # opts_of (drop (unat l) rest))"
  by pat_completeness auto
termination
  by (relation "measure length") auto

lemma take_drop_Cons: "i < m \<Longrightarrow> m \<le> length xs \<Longrightarrow> take (m - i) (drop i xs) = xs ! i # take (m - Suc i) (drop (Suc i) xs)"
  by (metis Cons_nth_drop_Suc Suc_diff_Suc order_less_le_trans take_Suc_Cons)

lemma ParseOptions_loop_eq:
  assumes "len \<le> length data" "offset \<le> len"
  shows "ParseOptions_loop data len offset options = Inr (options @ opts_of (take (len - offset) (drop offset data)))"
  using assms
proof (induction data len offset options rule: ParseOptions_loop.induct)
  case (1 data len offset options)
  show ?case
  proof (cases "offset + 2 \<le> len")
    case False
    then have "opts_of (take (len - offset) (drop offset data)) = []"
      using "1.prems" by (cases "take (len - offset) (drop offset data)" rule: opts_of.cases)
        (auto dest: arg_cong [where f = length])
    then show ?thesis using False by (subst ParseOptions_loop.simps) simp
  next
    case True
    define c where "c = data ! offset"
    define l where "l = data ! (offset + 1)"
    define rest where "rest = take (len - (offset + 2)) (drop (offset + 2) data)"
    have bs1: "take (len - (offset + 1)) (drop (offset + 1) data) = l # rest"
      using True "1.prems" by (simp add: l_def rest_def take_drop_Cons)
    have bs: "take (len - offset) (drop offset data) = c # l # rest"
      using True "1.prems" bs1 by (simp add: c_def take_drop_Cons [of offset])
    have lr: "length rest = len - (offset + 2)" using "1.prems" by (simp add: rest_def)
    have step: "ParseOptions_loop data len offset options =
       (if c = 0xFF then Inr options else if c = 0 then ParseOptions_loop data len (offset + 1) options
        else if len < offset + 2 + unat l then Inr options
        else ParseOptions_loop data len (offset + 2 + unat l)
          (options @ [\<lparr>do_code = c, do_length = l, do_data = take (unat l) (drop (offset + 2) data)\<rparr>]))"
      using True "1.prems" by (subst ParseOptions_loop.simps) (simp add: c_def l_def)
    have IH1: "ParseOptions_loop data len (offset + 1) options = Inr (options @ opts_of (l # rest))" if "c \<noteq> 0xFF" "c = 0"
      using 1(1) [OF True that] "1.prems" True bs1 by simp
    have IH2: "ParseOptions_loop data len (offset + 2 + unat l) (options @ [\<lparr>do_code = c, do_length = l, do_data = d\<rparr>]) =
       Inr (options @ \<lparr>do_code = c, do_length = l, do_data = d\<rparr> # opts_of (drop (unat l) rest))"
      if "c \<noteq> 0xFF" "c \<noteq> 0" "\<not> len < offset + 2 + unat l" for d
      using 1(2) [OF True that] "1.prems" that(3) by (simp add: rest_def drop_take add.commute)
    have d: "take (unat l) rest = take (unat l) (drop (offset + 2) data)" if "\<not> len < offset + 2 + unat l"
      using that by (simp add: rest_def min_def)
    show ?thesis unfolding step bs using True IH1 IH2 d lr by auto
  qed
qed

lemma ParseOptions_eq: "len \<le> length data \<Longrightarrow> ParseOptions data len = Inr (opts_of (take len data))"
  by (simp add: ParseOptions_def ParseOptions_loop_eq)

lemma opts_of_wf: "opt \<in> set (opts_of bs) \<Longrightarrow> length (do_data opt) = unat (do_length opt) \<and> do_code opt \<notin> {0, 0xFF}"
  by (induction bs rule: opts_of.induct) (auto split: if_splits)

section \<open>Encoding of options\<close>

definition opt_ok :: "DhcpOption \<Rightarrow> bool" where
  "opt_ok opt \<longleftrightarrow> do_code opt \<notin> {0, 0xFF} \<and> unat (do_length opt) = length (do_data opt)"

definition opt_bytes :: "DhcpOption \<Rightarrow> u8 list" where
  "opt_bytes opt = do_code opt # do_length opt # do_data opt"

lemma opts_of_zero: "opts_of (0 # bs) = opts_of bs"
  by (cases bs) simp_all

lemma opts_of_pads: "opts_of (replicate p 0 @ bs) = opts_of bs"
  by (induction p) (simp_all add: opts_of_zero)

lemma opts_of_opt: "opt_ok opt \<Longrightarrow> opts_of (opt_bytes opt @ bs) = opt # opts_of bs"
  by (cases opt) (auto simp: opt_ok_def opt_bytes_def)

lemma opts_of_encoded:
  assumes "\<forall>(p, opt) \<in> set pos. opt_ok opt" "opts_of tail = []"
  shows "opts_of (concat (List.map (\<lambda>(p, opt). replicate p 0 @ opt_bytes opt) pos) @ tail) = List.map snd pos"
  using assms by (induction pos) (auto simp: opts_of_pads opts_of_opt)

section \<open>The datagram and the configuration\<close>

lemma length_discover_packet: "length mac = 6 \<Longrightarrow> length (dhcp_packet_bytes (discover_packet xid mac)) = 240"
  by (simp add: dhcp_packet_bytes_def discover_packet_def)

lemma length_discover_options: "length discover_options = 20"
  by (simp add: discover_options_def bytes_of_string_def)

lemma discover_datagram_eq:
  assumes "length mac = 6"
  shows "discover_datagram xid mac = Inr (dhcp_packet_bytes (discover_packet xid mac) @ discover_options)"
  using length_discover_packet [OF assms, of xid]
  by (simp add: discover_datagram_def sizeof_DhcpPacket_def length_discover_options drop_replicate)

lemma GetMac_length: "dhcp_GetMacAddress as = Some m \<Longrightarrow> length m = 6"
  by (auto simp: dhcp_GetMacAddress_def find_Some_iff split: option.splits)

text \<open>The effect of an option on the configuration.\<close>

definition opt_cfg :: "(u8 list \<Rightarrow> string) \<Rightarrow> BootConfig \<Rightarrow> DhcpOption \<Rightarrow> BootConfig" where
  "opt_cfg ntop cfg opt =
     (if do_code opt = 54 then
        if 4 \<le> do_length opt then
          let ip = ntop (take 4 (do_data opt)); cfg1 = cfg\<lparr>cf_server_address := ip\<rparr>
          in if cf_primary_server cfg = [] then cfg1\<lparr>cf_primary_server := ip\<rparr> else cfg1
        else cfg
      else if do_code opt = 67 then cfg\<lparr>cf_boot_script_url := string_of_bytes (do_data opt)\<rparr> else cfg)"

lemma four_le_u8: "4 \<le> (l :: u8) \<longleftrightarrow> 4 \<le> unat l"
  by (simp add: word_le_nat_alt)

lemma apply_option_eq:
  assumes "length (do_data opt) = unat (do_length opt)"
  shows "\<exists>lg'. apply_option ntop com1 (cfg, lg) opt = Inr (opt_cfg ntop cfg opt, lg')"
  using assms by (auto simp: apply_option_def opt_cfg_def Let_def four_le_u8)

lemma apply_options:
  assumes "\<forall>opt \<in> set opts. length (do_data opt) = unat (do_length opt)"
  shows "\<exists>lg'. res_fold (apply_option ntop com1) (cfg, lg) opts = Inr (foldl (opt_cfg ntop) cfg opts, lg')"
  using assms
proof (induction opts arbitrary: cfg lg)
  case (Cons opt opts)
  obtain lg1 where "apply_option ntop com1 (cfg, lg) opt = Inr (opt_cfg ntop cfg opt, lg1)"
    using apply_option_eq [of opt ntop com1 cfg lg] Cons.prems by auto
  then show ?case using Cons.IH [of "opt_cfg ntop cfg opt" lg1] Cons.prems by auto
qed simp

text \<open>The options of a datagram that name a server.\<close>

definition server_opts :: "u8 list \<Rightarrow> DhcpOption list" where
  "server_opts bs = filter (\<lambda>opt. do_code opt = 54 \<and> 4 \<le> do_length opt) (opts_of bs)"

lemma opt_cfg_server:
  "cf_server_address (foldl (opt_cfg ntop) cfg opts) =
     (let os = filter (\<lambda>opt. do_code opt = 54 \<and> 4 \<le> do_length opt) opts in
      if os = [] then cf_server_address cfg else ntop (take 4 (do_data (last os))))"
proof (induction opts rule: rev_induct)
  case (snoc opt opts)
  have "cf_server_address (opt_cfg ntop c opt) =
      (if do_code opt = 54 \<and> 4 \<le> do_length opt then ntop (take 4 (do_data opt)) else cf_server_address c)" for c
    by (simp add: opt_cfg_def Let_def)
  then show ?case using snoc by (auto simp: Let_def)
qed simp

lemma opt_cfg_frame:
  "(foldl (opt_cfg ntop) cfg opts)\<lparr>cf_server_address := a, cf_primary_server := p, cf_boot_script_url := u\<rparr> =
   cfg\<lparr>cf_server_address := a, cf_primary_server := p, cf_boot_script_url := u\<rparr>"
proof (induction opts arbitrary: cfg)
  case (Cons opt opts)
  have "(opt_cfg ntop cfg opt)\<lparr>cf_server_address := a, cf_primary_server := p, cf_boot_script_url := u\<rparr> =
      cfg\<lparr>cf_server_address := a, cf_primary_server := p, cf_boot_script_url := u\<rparr>"
    by (cases cfg) (simp add: opt_cfg_def Let_def)
  then show ?case using Cons.IH [of "opt_cfg ntop cfg opt"] by simp
qed simp

lemma dhcp_answer_eq:
  fixes env cfg
  assumes "240 \<le> length r" "length r \<le> 1500"
  defines "cfg' \<equiv> foldl (opt_cfg (de_ntop env)) cfg (opts_of (drop 240 r))"
  shows "\<exists>lg'. dhcp_answer env com1 (r @ replicate (1500 - length r) 0) (length r) cfg lg =
     Inr (if r ! 0 = 2 then (cf_server_address cfg' \<noteq> [], cfg', lg') else (False, cfg, lg'))"
proof -
  let ?buf = "r @ replicate (1500 - length r) 0"
  have p: "ParseOptions (drop 240 ?buf) (length r - 240) = Inr (opts_of (drop 240 r))"
    using assms(1) by (subst ParseOptions_eq) simp_all
  obtain lg1 where f: "res_fold (apply_option (de_ntop env) com1) (cfg, lg) (opts_of (drop 240 r)) = Inr (cfg', lg1)"
    using apply_options [of "opts_of (drop 240 r)" "de_ntop env" com1 cfg lg] opts_of_wf unfolding cfg'_def by blast
  have v: "vec_at ?buf 0 = Inr (r ! 0)" "mem_read ?buf 16 4 = Inr (take 4 (drop 16 ?buf))"
    using assms(1,2) by (auto simp: vec_at_def nth_append)
  show ?thesis
    unfolding dhcp_answer_def sizeof_DhcpPacket_def v p f rbind_simps prod.case DHCPOFFER_def by auto
qed

lemma discover_sends: "\<exists>sent. discover_datagram x (case dhcp_GetMacAddress as of Some m \<Rightarrow> m | None \<Rightarrow> replicate 6 0) = Inr sent"
  using discover_datagram_eq [of "case dhcp_GetMacAddress as of Some m \<Rightarrow> m | None \<Rightarrow> replicate 6 0" x] GetMac_length
  by (simp split: option.split)

lemma Discover_early:
  assumes "\<not> (de_startup env \<and> de_socket env \<and> de_bind env \<and> de_sendto env \<and> 240 \<le> length (de_recv env) \<and> length (de_recv env) \<le> 1500)"
  shows "\<exists>lg' sent. Discover env com1 cfg lg = Inr (False, cfg, lg', sent)"
  using assms discover_sends [of "de_random env" "de_adapters env"]
  by (auto simp: Discover_def Let_def sizeof_DhcpPacket_def)

lemma Discover_answer:
  fixes env cfg
  assumes "de_startup env" "de_socket env" "de_bind env" "de_sendto env" "240 \<le> length (de_recv env)" "length (de_recv env) \<le> 1500"
  defines "cfg' \<equiv> foldl (opt_cfg (de_ntop env)) cfg (opts_of (drop 240 (de_recv env)))"
  shows "\<exists>lg' sent. Discover env com1 cfg lg =
     Inr (if de_recv env ! 0 = 2 then (cf_server_address cfg' \<noteq> [], cfg', lg', Some sent) else (False, cfg, lg', Some sent))"
proof -
  obtain sent where s: "discover_datagram (de_random env)
      (case dhcp_GetMacAddress (de_adapters env) of Some m \<Rightarrow> m | None \<Rightarrow> replicate 6 0) = Inr sent"
    using discover_sends by blast
  define lg1 where "lg1 = Com1_WriteRaw com1 (com1_str (PhaseTag DHCP_DISCOVER)
      (''Sending DHCP DISCOVER (xid=0x'' @ fmt_0X 8 (unat (de_random env)) @ '')'')) lg"
  obtain lg' where "dhcp_answer env com1 (de_recv env @ replicate (1500 - length (de_recv env)) 0) (length (de_recv env)) cfg lg1 =
     Inr (if de_recv env ! 0 = 2 then (cf_server_address cfg' \<noteq> [], cfg', lg') else (False, cfg, lg'))"
    using dhcp_answer_eq [OF assms(5,6), of env com1 cfg lg1] unfolding cfg'_def by blast
  then show ?thesis
    using assms(1-6) s unfolding Discover_def Let_def Com1_Write_eq rbind_simps lg1_def [symmetric]
    by (auto simp: sizeof_DhcpPacket_def lg1_def)
qed

text \<open>Which answers are accepted, and the configuration after them.\<close>

definition dhcp_accepts :: "dhcp_env \<Rightarrow> bool" where
  "dhcp_accepts env \<longleftrightarrow> de_startup env \<and> de_socket env \<and> de_bind env \<and> de_sendto env \<and>
     240 \<le> length (de_recv env) \<and> length (de_recv env) \<le> 1500 \<and> de_recv env ! 0 = 2"

definition dhcp_config :: "dhcp_env \<Rightarrow> BootConfig \<Rightarrow> BootConfig" where
  "dhcp_config env cfg = (if dhcp_accepts env then foldl (opt_cfg (de_ntop env)) cfg (opts_of (drop 240 (de_recv env))) else cfg)"

lemma Discover_eq:
  "\<exists>lg' sent. Discover env com1 cfg lg =
     Inr (dhcp_accepts env \<and> cf_server_address (dhcp_config env cfg) \<noteq> [], dhcp_config env cfg, lg', sent)"
proof (cases "de_startup env \<and> de_socket env \<and> de_bind env \<and> de_sendto env \<and> 240 \<le> length (de_recv env) \<and> length (de_recv env) \<le> 1500")
  case True
  then obtain lg' sent where "Discover env com1 cfg lg =
      Inr (if de_recv env ! 0 = 2
           then (cf_server_address (foldl (opt_cfg (de_ntop env)) cfg (opts_of (drop 240 (de_recv env)))) \<noteq> [],
                 foldl (opt_cfg (de_ntop env)) cfg (opts_of (drop 240 (de_recv env))), lg', Some sent)
           else (False, cfg, lg', Some sent))"
    using Discover_answer [of env com1 cfg lg] by blast
  then show ?thesis using True by (cases "de_recv env ! 0 = 2") (simp_all add: dhcp_accepts_def dhcp_config_def)
next
  case False
  then have "\<not> dhcp_accepts env" by (auto simp: dhcp_accepts_def)
  then show ?thesis using Discover_early [OF False, of com1 cfg lg] by (auto simp: dhcp_config_def)
qed

lemma dhcp_config_server:
  "dhcp_accepts env \<Longrightarrow> cf_server_address (dhcp_config env cfg) =
     (if server_opts (drop 240 (de_recv env)) = [] then cf_server_address cfg
      else de_ntop env (take 4 (do_data (last (server_opts (drop 240 (de_recv env)))))))"
  by (simp add: dhcp_config_def opt_cfg_server server_opts_def Let_def)

lemma dhcp_config_frame:
  "(dhcp_config env cfg)\<lparr>cf_server_address := a, cf_primary_server := p, cf_boot_script_url := u\<rparr> =
   cfg\<lparr>cf_server_address := a, cf_primary_server := p, cf_boot_script_url := u\<rparr>"
  by (simp add: dhcp_config_def opt_cfg_frame)

section \<open>Properties\<close>

text \<open>
  C36. The parser of the options is the inverse of their encoding: options with any padding between them, up to
  the end mark or the end of the datagram, come back exactly, whatever follows the end mark.
\<close>

theorem dhcp_options_roundtrip:
  assumes "\<forall>(p, opt) \<in> set pos. opt_ok opt" "tail = [] \<or> hd tail = 0xFF"
    and "bs = concat (List.map (\<lambda>(p, opt). replicate p 0 @ opt_bytes opt) pos) @ tail"
  shows "ParseOptions (bs @ rest) (length bs) = Inr (List.map snd pos)"
proof -
  have "opts_of tail = []" using assms(2) by (cases tail rule: opts_of.cases) auto
  then show ?thesis using opts_of_encoded [OF assms(1)] assms(3) by (simp add: ParseOptions_eq)
qed

lemma dhcp_options_roundtrip_witness:
  "ParseOptions ([0, 54, 4, 10, 0, 0, 1, 0, 67, 1, 65, 255, 9] @ [7, 7]) (length [0, 54, 4, 10, 0, 0, 1, 0, 67, 1, 65, 255, 9 :: u8]) =
   Inr [\<lparr>do_code = 54, do_length = 4, do_data = [10, 0, 0, 1]\<rparr>, \<lparr>do_code = 67, do_length = 1, do_data = [65]\<rparr>]"
  using dhcp_options_roundtrip [of "[(1, \<lparr>do_code = 54, do_length = 4, do_data = [10, 0, 0, 1]\<rparr>),
      (1, \<lparr>do_code = 67, do_length = 1, do_data = [65]\<rparr>)]" "[255, 9]" "[0, 54, 4, 10, 0, 0, 1, 0, 67, 1, 65, 255, 9]" "[7, 7]"]
  by (simp add: opt_ok_def opt_bytes_def)

text \<open>
  Discovery returns for every answer, and reads and writes within its buffers. It succeeds exactly when the
  socket calls do, one datagram of 240 to 1500 bytes arrives whose first byte is 2, and a server address is
  known before or comes with an option; the last such option counts. Transaction number, magic number and
  message type of the answer play no part. Only the server, the primary server and the boot file change.
\<close>

theorem dhcp_discover_outcome:
  assumes "\<And>bs. de_ntop env bs \<noteq> []"
  shows "\<exists>ok cfg' lg' sent. Discover env com1 cfg lg = Inr (ok, cfg', lg', sent) \<and>
     (ok \<longleftrightarrow> de_startup env \<and> de_socket env \<and> de_bind env \<and> de_sendto env \<and>
        240 \<le> length (de_recv env) \<and> length (de_recv env) \<le> 1500 \<and> de_recv env ! 0 = 2 \<and>
        (cf_server_address cfg \<noteq> [] \<or> server_opts (drop 240 (de_recv env)) \<noteq> [])) \<and>
     (ok \<longrightarrow> cf_server_address cfg' =
        (if server_opts (drop 240 (de_recv env)) = [] then cf_server_address cfg
         else de_ntop env (take 4 (do_data (last (server_opts (drop 240 (de_recv env)))))))) \<and>
     cfg'\<lparr>cf_server_address := [], cf_primary_server := [], cf_boot_script_url := []\<rparr> =
     cfg\<lparr>cf_server_address := [], cf_primary_server := [], cf_boot_script_url := []\<rparr>"
proof -
  obtain lg' sent where d: "Discover env com1 cfg lg =
      Inr (dhcp_accepts env \<and> cf_server_address (dhcp_config env cfg) \<noteq> [], dhcp_config env cfg, lg', sent)"
    using Discover_eq by blast
  define os where "os = server_opts (drop 240 (de_recv env))"
  have "dhcp_accepts env \<and> cf_server_address (dhcp_config env cfg) \<noteq> [] \<longleftrightarrow> dhcp_accepts env \<and> (cf_server_address cfg \<noteq> [] \<or> os \<noteq> [])"
    using dhcp_config_server [of env cfg, folded os_def] assms [of "take 4 (do_data (last os))"] by (cases "os = []") auto
  then have "(dhcp_accepts env \<and> cf_server_address (dhcp_config env cfg) \<noteq> []) = (de_startup env \<and> de_socket env \<and> de_bind env \<and> de_sendto env \<and>
      240 \<le> length (de_recv env) \<and> length (de_recv env) \<le> 1500 \<and> de_recv env ! 0 = 2 \<and> (cf_server_address cfg \<noteq> [] \<or> os \<noteq> []))"
    by (simp only: dhcp_accepts_def conj_assoc)
  moreover have "dhcp_accepts env \<and> cf_server_address (dhcp_config env cfg) \<noteq> [] \<longrightarrow> cf_server_address (dhcp_config env cfg) =
      (if os = [] then cf_server_address cfg else de_ntop env (take 4 (do_data (last os))))"
    using dhcp_config_server [of env cfg, folded os_def] by blast
  ultimately show ?thesis unfolding os_def using d dhcp_config_frame by blast
qed

lemma dhcp_discover_outcome_witness:
  "\<exists>cfg' lg' sent. Discover
      \<lparr>de_startup = True, de_socket = True, de_bind = True, de_sendto = True, de_recv = 2 # replicate 239 0 @ [54, 4, 10, 0, 0, 1, 255],
       de_last_error = 0, de_random = 77, de_adapters = None, de_ntop = \<lambda>_. ''10.0.0.1''\<rparr> True BootConfig_new Com1Logger_new =
     Inr (True, cfg', lg', sent) \<and> cf_server_address cfg' = ''10.0.0.1''"
  using dhcp_discover_outcome [of "\<lparr>de_startup = True, de_socket = True, de_bind = True, de_sendto = True,
       de_recv = 2 # replicate 239 0 @ [54, 4, 10, 0, 0, 1, 255], de_last_error = 0, de_random = 77, de_adapters = None,
       de_ntop = \<lambda>_. ''10.0.0.1''\<rparr>" True BootConfig_new Com1Logger_new]
  by (auto simp: server_opts_def)

end
