(* ===== verification/HD_HttpBoot.thy ===== *)
theory HD_HttpBoot
  imports HD_CString
begin

text \<open>
  The HTTP client of the boot agent, \<^verbatim>\<open>client/boot_agent/http_boot.cpp\<close>: splitting of an address, the request
  and the search for the body of the answer. The socket calls are parameters.
\<close>

section \<open>Addresses\<close>

text \<open>Host, port and path; \<^const>\<open>None\<close> is the exception of \<^verbatim>\<open>std::stoi\<close>, the inner one the result false.\<close>

definition ParseUrl :: "string \<Rightarrow> (string \<times> int \<times> string) option option" where
  "ParseUrl url =
     (case find_sub ''://'' url of
        None \<Rightarrow> Some None
      | Some p \<Rightarrow>
          let pos = p + 3; rest = drop pos url;
              authority = (case find_char (CHR ''/'') rest of Some s \<Rightarrow> take s rest | None \<Rightarrow> rest);
              path = (case find_char (CHR ''/'') rest of Some s \<Rightarrow> drop s rest | None \<Rightarrow> ''/'')
          in (case find_char (CHR '':'') authority of
                Some colon_pos \<Rightarrow> map_option (\<lambda>port. Some (take colon_pos authority, port, path)) (stoi (drop (colon_pos + 1) authority))
              | None \<Rightarrow> Some (Some (authority, 80, path))))"

section \<open>DownloadScript\<close>

text \<open>
  \<^verbatim>\<open>strstr\<close> on a vector that is not terminated by a zero: the search ends at the pattern, at a zero byte, or
  by reading behind the last element.
\<close>

fun strstr_vec :: "u8 list \<Rightarrow> u8 list \<Rightarrow> nat option res" where
  "strstr_vec pat [] = Inl OutOfBounds"
| "strstr_vec pat (c # cs) =
     (if take (length pat) (c # cs) = pat then Inr (Some 0)
      else if c = 0 then Inr None
      else rbind (strstr_vec pat cs) (\<lambda>r. Inr (map_option Suc r)))"

definition http_sep :: "u8 list" where
  "http_sep = [0x0D, 0x0A, 0x0D, 0x0A]"

record http_env =
  he_startup :: bool
  he_socket :: bool
  he_getaddrinfo :: "string \<Rightarrow> int \<Rightarrow> bool"
  he_connect :: bool
  he_recv :: "u8 list list"

definition http_request :: "string \<Rightarrow> string \<Rightarrow> string" where
  "http_request path host =
     ''GET '' @ c_string path @ '' HTTP/1.1'' @ [CHR 0x0D, CHR 0x0A] @ ''Host: '' @ c_string host @ [CHR 0x0D, CHR 0x0A] @
     ''Connection: close'' @ [CHR 0x0D, CHR 0x0A, CHR 0x0D, CHR 0x0A]"

text \<open>
  What \<^verbatim>\<open>snprintf\<close> into a buffer of \<open>n\<close> characters and \<^verbatim>\<open>send\<close> with the length it returned transmit: that
  length is the one of the whole text, also when the buffer holds only a part of it.
\<close>

definition snprintf_send :: "nat \<Rightarrow> string \<Rightarrow> string res" where
  "snprintf_send n s = mem_read (take (n - 1) s @ replicate (n - min (n - 1) (length s)) (CHR 0x00)) 0 (length s)"

definition http_body :: "u8 list \<Rightarrow> u8 list res" where
  "http_body response =
     (if response = [] then Inr []
      else rbind (strstr_vec http_sep response) (\<lambda>r.
        Inr (case r of None \<Rightarrow> [] | Some i \<Rightarrow> drop (i + 4) response)))"

text \<open>The result and the request sent; \<^const>\<open>None\<close> is the end by an exception.\<close>

definition DownloadScript :: "http_env \<Rightarrow> string \<Rightarrow> (u8 list \<times> string option) option res" where
  "DownloadScript env url =
     (if \<not> he_startup env then Inr (Some ([], None))
      else case ParseUrl url of
        None \<Rightarrow> Inr None
      | Some None \<Rightarrow> Inr (Some ([], None))
      | Some (Some (host, port, path)) \<Rightarrow>
          if \<not> he_socket env \<or> \<not> he_getaddrinfo env (c_string host) port \<or> \<not> he_connect env then Inr (Some ([], None))
          else rbind (snprintf_send 2048 (http_request path host)) (\<lambda>req.
               rbind (http_body (concat (takeWhile (\<lambda>c. c \<noteq> []) (he_recv env)))) (\<lambda>body.
                 Inr (Some (body, Some req)))))"

definition DownloadFile :: "http_env \<Rightarrow> string \<Rightarrow> (u8 list \<times> string option) option res" where
  "DownloadFile env url = DownloadScript env url"

section \<open>Properties\<close>

lemma snprintf_send_eq:
  "0 < n \<Longrightarrow> snprintf_send n s =
     (if length s < n then Inr s else if length s = n then Inr (take (n - 1) s @ [CHR 0x00]) else Inl OutOfBounds)"
  by (auto simp: snprintf_send_def mem_read_def min_def)

lemma strstr_vec_found:
  assumes "\<forall>b \<in> set hdr. b \<noteq> 0" "\<forall>i < length hdr. take (length pat) (drop i (hdr @ pat)) \<noteq> pat" "pat \<noteq> []"
  shows "strstr_vec pat (hdr @ pat @ body) = Inr (Some (length hdr))"
  using assms
proof (induction hdr)
  case Nil
  then show ?case by (cases pat) simp_all
next
  case (Cons c cs)
  have "take (length pat) ((c # cs) @ pat) \<noteq> pat" using Cons.prems(2) by auto
  moreover have "take (length pat) (((c # cs) @ pat) @ body) = take (length pat) ((c # cs) @ pat)"
    by (subst take_append) simp
  moreover have "\<forall>i < length cs. take (length pat) (drop i (cs @ pat)) \<noteq> pat"
    using Cons.prems(2) by (metis Suc_less_eq append_Cons drop_Suc_Cons length_Cons)
  ultimately show ?case using Cons by (simp only: append_assoc) simp
qed

lemma strstr_vec_missing:
  "\<forall>b \<in> set bs. b \<noteq> 0 \<Longrightarrow> \<forall>i < length bs. take (length pat) (drop i bs) \<noteq> pat \<Longrightarrow> strstr_vec pat bs = Inl OutOfBounds"
proof (induction bs)
  case (Cons c cs)
  have "\<forall>i < length cs. take (length pat) (drop i cs) \<noteq> pat"
    using Cons.prems(2) by (metis Suc_less_eq drop_Suc_Cons length_Cons)
  moreover have "take (length pat) (c # cs) \<noteq> pat" using Cons.prems(2) by auto
  ultimately show ?case using Cons by simp
qed simp

text \<open>
  An address made of a scheme, a host, a port and a path is split into exactly these parts.
\<close>

theorem url_roundtrip:
  assumes "CHR '':'' \<notin> set scheme" "CHR '':'' \<notin> set host" "CHR ''/'' \<notin> set host" "port < 2 ^ 31"
  shows "ParseUrl (scheme @ ''://'' @ host @ '':'' @ to_string port @ ''/'' @ path) = Some (Some (host, int port, ''/'' @ path))"
proof -
  have f: "find_sub ''://'' (scheme @ ''://'' @ host @ '':'' @ to_string port @ ''/'' @ path) = Some (length scheme)"
    using find_sub_first [OF assms(1), of "''//''"] by simp
  have d: "CHR ''/'' \<notin> set (to_string port)" using to_string_digits [of port] by (auto simp: isdigit_def)
  have s: "find_char (CHR ''/'') (host @ '':'' @ to_string port @ ''/'' @ path) = Some (length (host @ '':'' @ to_string port))"
    using find_char_append [of "CHR ''/''" "host @ '':'' @ to_string port" path] assms(3) d by simp
  have c: "find_char (CHR '':'') (host @ '':'' @ to_string port) = Some (length host)"
    using find_char_append [OF assms(2), of "to_string port"] by simp
  have drop: "drop (length scheme + 3) (scheme @ ''://'' @ host @ '':'' @ to_string port @ ''/'' @ path) = host @ '':'' @ to_string port @ ''/'' @ path"
    by simp
  show ?thesis
    unfolding ParseUrl_def f option.case Let_def drop s using c stoi_to_string [OF assms(4)] by simp
qed

lemma url_roundtrip_witness:
  "ParseUrl (''http://pxe.local:'' @ to_string 8080 @ ''/boot.ipxe'') = Some (Some (''pxe.local'', 8080, ''/boot.ipxe''))"
  using url_roundtrip [of "''http''" "''pxe.local''" 8080 "''boot.ipxe''"] by simp

text \<open>
  C37. When the server answers with a header that has no zero byte and contains no empty line before its end, the
  result of the download is exactly the body, whatever bytes it has. Without an empty line and without
  a zero byte the search leaves the buffer; and so does sending a request longer than 2048 bytes.
\<close>

theorem http_download_outcome:
  assumes "he_startup env" "he_socket env" "he_connect env" "ParseUrl url = Some (Some (host, port, path))"
    "he_getaddrinfo env (c_string host) port" "response = concat (takeWhile (\<lambda>c. c \<noteq> []) (he_recv env))"
    and "\<forall>b \<in> set hdr. b \<noteq> 0" "\<forall>i < length hdr. take 4 (drop i (hdr @ sep)) \<noteq> http_sep"
    and "response = hdr @ sep @ body" "sep = http_sep \<or> sep = [] \<and> body = [] \<and> hdr \<noteq> []"
    and "req = http_request path host"
  shows "DownloadScript env url =
     (if 2048 < length req then Inl OutOfBounds
      else if sep = [] then Inl OutOfBounds
      else Inr (Some (body, Some (if length req = 2048 then take 2047 req @ [CHR 0x00] else req))))"
proof -
  have l: "length http_sep = 4" by (simp add: http_sep_def)
  have b: "http_body response = (if sep = [] then Inl OutOfBounds else Inr body)"
  proof (cases "sep = []")
    case True
    then have "strstr_vec http_sep hdr = Inl OutOfBounds" using assms(7,8) strstr_vec_missing [of hdr http_sep] l by simp
    then show ?thesis using True assms(9,10) by (simp add: http_body_def http_sep_def)
  next
    case False
    then have s: "sep = http_sep" using assms(10) by simp
    then have "strstr_vec http_sep (hdr @ http_sep @ body) = Inr (Some (length hdr))"
      using assms(7,8) l strstr_vec_found [of hdr http_sep body] by fastforce
    then show ?thesis using assms(9) s l False by (auto simp: http_body_def)
  qed
  show ?thesis
    unfolding DownloadScript_def assms(4) option.case prod.case assms(6) [symmetric] b assms(11)
    using assms(1-3,5) by (simp add: snprintf_send_eq)
qed

lemma http_download_outcome_witness:
  "DownloadScript \<lparr>he_startup = True, he_socket = True, he_getaddrinfo = \<lambda>_ _. True, he_connect = True, he_recv = [[72, 13, 10, 13], [10, 0, 7]]\<rparr>
      ''http://a/b'' = Inr (Some ([0, 7], Some (http_request ''/b'' ''a'')))"
proof -
  have u: "ParseUrl ''http://a/b'' = Some (Some (''a'', 80, ''/b''))" by (simp add: ParseUrl_def)
  have "length (http_request ''/b'' ''a'') < 2048" by (simp add: http_request_def c_string_def)
  moreover have "\<forall>i < length [72 :: u8]. take 4 (drop i ([72] @ http_sep)) \<noteq> http_sep" by (simp add: http_sep_def)
  ultimately show ?thesis
    using http_download_outcome [of "\<lparr>he_startup = True, he_socket = True, he_getaddrinfo = \<lambda>_ _. True, he_connect = True, he_recv = [[72, 13, 10, 13], [10, 0, 7]]\<rparr>"
      "''http://a/b''" "''a''" 80 "''/b''" "[72, 13, 10, 13, 10, 0, 7]" "[72]" http_sep "[0, 7]" "http_request ''/b'' ''a''"] u
    by (simp add: http_sep_def [symmetric]) (simp add: http_sep_def)
qed

end
