(* ===== verification/HD_BootAgent.thy ===== *)
theory HD_BootAgent
  imports HD_Dhcp HD_HttpBoot HD_BootMeta HD_BlackBox
begin

text \<open>
  The boot agent, \<^verbatim>\<open>client/boot_agent/main.cpp\<close>: identification of the machine, discovery of the server,
  registration, download of the boot metadata, the telemetry and the black box, composed from the models
  of the DHCP client, the metadata cache, the black box recorder and the logger. Clock, random numbers,
  adapters, sockets and files are parameters; each call of a run that can answer differently has its own.
\<close>

section \<open>Environment and state\<close>

record adapter_address =
  aa_type :: u32
  aa_address :: "u8 list"
  aa_friendly_name :: string

record tcp_env =
  te_startup :: bool
  te_socket :: bool
  te_connect :: "string \<Rightarrow> u16 \<Rightarrow> bool"

record boot_env =
  be_com1 :: bool
  be_bb_alloc :: bool
  be_start :: u64
  be_clock :: "BootPhase \<Rightarrow> u64"
  be_adapters :: "adapter_address list option"
  be_random1 :: "(u32 \<times> u32 \<times> u32 \<times> u32) option"
  be_random2 :: "(u32 \<times> u32 \<times> u32 \<times> u32) option"
  be_ticks1 :: u64
  be_ticks2 :: u64
  be_dhcp :: dhcp_env
  be_register :: tcp_env
  be_http :: tcp_env
  be_http_recv :: "u8 list"
  be_rpc :: net_env
  be_rpc_send_buf :: "u8 list"
  be_rpc_recv_rest :: "u8 list"
  be_rpc_payload :: "u8 list"
  be_files :: "string \<Rightarrow> u8 list option"
  be_save_open :: bool
  be_save_write :: bool
  be_telemetry :: tcp_env
  be_bb_open :: bool
  be_bb_room :: nat
  be_bb_end :: u64
  be_total_ms :: u32

text \<open>The object and the three singletons it uses; \<open>ag_posts\<close>, \<open>ag_bb_file\<close> and \<open>ag_meta_file\<close> are what leaves the agent.\<close>

record BootAgent =
  ag_config :: BootConfig
  ag_log :: Com1Logger
  ag_bb :: BlackBoxRecorder
  ag_cache :: BootMetaCache
  ag_posts :: "string list"
  ag_bb_file :: "(string \<times> u8 list) option"
  ag_meta_file :: "u8 list option"

definition log_Write :: "boot_env \<Rightarrow> BootPhase \<Rightarrow> string \<Rightarrow> BootAgent \<Rightarrow> BootAgent res" where
  "log_Write env phase msg a = rbind (Com1_Write (be_com1 env) phase msg (ag_log a)) (\<lambda>lg. Inr (a\<lparr>ag_log := lg\<rparr>))"

definition log_WriteFail :: "boot_env \<Rightarrow> BootFailCode \<Rightarrow> string \<Rightarrow> BootAgent \<Rightarrow> BootAgent res" where
  "log_WriteFail env code msg a = rbind (Com1_WriteFail (be_com1 env) code msg (ag_log a)) (\<lambda>lg. Inr (a\<lparr>ag_log := lg\<rparr>))"

section \<open>Identification\<close>

definition GenerateUUID :: "(u32 \<times> u32 \<times> u32 \<times> u32) option \<Rightarrow> u64 \<Rightarrow> string" where
  "GenerateUUID random now =
     (let (d0, d1, d2, d3) =
            (case random of
               Some d \<Rightarrow> d
             | None \<Rightarrow> (ucast (now AND 0xFFFFFFFF), ucast (signed_drop_bit 32 now), ucast (signed_drop_bit 16 now), ucast (signed_drop_bit 48 now)));
          d0 = (d0 AND 0xFFFF0FFF) OR 0x00004000;
          d1 = (d1 AND 0x0FFFFFFF) OR 0x80000000
      in take 36 (fmt_0x 8 (unat d0) @ ''-'' @ fmt_0x 4 (unat (drop_bit 16 d1)) @ ''-'' @ fmt_0x 4 (unat (d1 AND 0xFFFF)) @ ''-'' @
           fmt_0x 4 (unat (drop_bit 16 d2)) @ ''-'' @ fmt_0x 4 (unat (d2 AND 0xFFFF)) @ fmt_0x 8 (unat d3)))"

definition GenerateBootId :: "boot_env \<Rightarrow> BootAgent \<Rightarrow> BootAgent res" where
  "GenerateBootId env a =
     (let c1 = (ag_config a)\<lparr>cf_boot_id := GenerateUUID (be_random1 env) (be_ticks1 env)\<rparr>;
          a1 = a\<lparr>ag_config := c1\<rparr> in
      rbind (if cf_mac_address c1 \<noteq> [] then Inr (a1\<lparr>ag_config := c1\<lparr>cf_machine_id := cf_mac_address c1\<rparr>\<rparr>)
             else log_Write env BOOTAGENT_START ''WARN: MAC unavailable, machine_id is random''
                    (a1\<lparr>ag_config := c1\<lparr>cf_machine_id := GenerateUUID (be_random2 env) (be_ticks2 env)\<rparr>\<rparr>)) (\<lambda>a2.
        log_Write env BOOTAGENT_START
          (''boot_id='' @ cf_boot_id (ag_config a2) @ '' machine_id='' @ cf_machine_id (ag_config a2)) a2))"

definition IF_TYPE_ETHERNET_CSMACD :: u32 where "IF_TYPE_ETHERNET_CSMACD = 6"
definition IF_TYPE_IEEE80211 :: u32 where "IF_TYPE_IEEE80211 = 71"

definition mac_string :: "u8 list \<Rightarrow> string" where
  "mac_string m =
     take 17 (fmt_0X 2 (unat (m ! 0)) @ '':'' @ fmt_0X 2 (unat (m ! 1)) @ '':'' @ fmt_0X 2 (unat (m ! 2)) @ '':'' @
       fmt_0X 2 (unat (m ! 3)) @ '':'' @ fmt_0X 2 (unat (m ! 4)) @ '':'' @ fmt_0X 2 (unat (m ! 5)))"

definition Agent_GetMacAddress :: "boot_env \<Rightarrow> BootAgent \<Rightarrow> BootAgent res" where
  "Agent_GetMacAddress env a =
     (case be_adapters env of
        None \<Rightarrow> Inr a
      | Some as \<Rightarrow>
          (case find (\<lambda>x. length (aa_address x) = 6 \<and> (aa_type x = IF_TYPE_ETHERNET_CSMACD \<or> aa_type x = IF_TYPE_IEEE80211)) as of
             None \<Rightarrow> Inr a
           | Some x \<Rightarrow> let mac = mac_string (aa_address x) in
               log_Write env BOOTAGENT_START (''MAC='' @ mac @ '' iface='' @ aa_friendly_name x)
                 (a\<lparr>ag_config := (ag_config a)\<lparr>cf_mac_address := mac\<rparr>\<rparr>)))"

section \<open>Telemetry and black box\<close>

definition quoted :: "string \<Rightarrow> string" where
  "quoted s = [CHR 0x22] @ s @ [CHR 0x22]"

definition crlf2 :: string where "crlf2 = [CHR 0x0D, CHR 0x0A]"

definition telemetry_json :: "BootConfig \<Rightarrow> string \<Rightarrow> string \<Rightarrow> u32 \<Rightarrow> string" where
  "telemetry_json cfg phase outcome duration_ms =
     ''{'' @ quoted ''boot_id'' @ '':'' @ quoted (c_string (cf_boot_id cfg)) @ '','' @ quoted ''machine_id'' @ '':'' @ quoted (c_string (cf_machine_id cfg)) @ '','' @
     quoted ''mac'' @ '':'' @ quoted (c_string (cf_mac_address cfg)) @ '','' @ quoted ''phase'' @ '':'' @ quoted phase @ '','' @
     quoted ''duration_ms'' @ '':'' @ to_string (unat duration_ms) @ '','' @ quoted ''result'' @ '':'' @ quoted outcome @ ''}''"

definition telemetry_request :: "BootConfig \<Rightarrow> string \<Rightarrow> string" where
  "telemetry_request cfg full_json =
     ''POST /api/v1/boot/report HTTP/1.1'' @ crlf2 @
     ''Host: '' @ c_string (cf_server_address cfg) @ '':'' @ to_string (unat (cf_server_port cfg)) @ crlf2 @
     ''Content-Type: application/json'' @ crlf2 @
     ''Content-Length: '' @ to_string (length full_json) @ crlf2 @
     ''Connection: close'' @ crlf2 @ crlf2 @ take 1023 full_json"

definition ReportTelemetry :: "boot_env \<Rightarrow> string \<Rightarrow> string \<Rightarrow> u32 \<Rightarrow> BootAgent \<Rightarrow> (int \<times> BootAgent) res" where
  "ReportTelemetry env phase outcome duration_ms a =
     (let cfg = ag_config a; te = be_telemetry env in
      if cf_server_address cfg = [] \<or> cf_boot_id cfg = [] then Inr (- 1, a)
      else if \<not> te_startup te \<or> \<not> te_socket te \<or> \<not> te_connect te (cf_server_address cfg) (cf_server_port cfg) then Inr (- 1, a)
      else rbind (snprintf_send 2048 (telemetry_request cfg (telemetry_json cfg phase outcome duration_ms))) (\<lambda>req.
             Inr (0, a\<lparr>ag_posts := ag_posts a @ [req]\<rparr>)))"

fun bb_phase_of :: "BootPhase \<Rightarrow> BbPhase" where
  "bb_phase_of PXE_START = PXE"
| "bb_phase_of IPXE_START = IPXE"
| "bb_phase_of BOOTAGENT_START = BOOTAGENT"
| "bb_phase_of DHCP_DISCOVER = BOOTAGENT"
| "bb_phase_of GRPC_REGISTER = BOOTAGENT"
| "bb_phase_of CHUNKSTREAM_DL = BOOTAGENT"
| "bb_phase_of INTEGRITY_CHECK = BOOTAGENT"
| "bb_phase_of WINPE_START = WINPE"
| "bb_phase_of BOOTDIAG_RUN = BOOTDIAG"

definition phase_call :: "boot_env \<Rightarrow> BootPhase \<Rightarrow> bool \<Rightarrow> u16 \<Rightarrow> bb_call" where
  "phase_call env phase success latency_us =
     \<lparr>bc_now = be_clock env phase, bc_phase = bb_phase_of phase, bc_lba = 0, bc_offset = 0, bc_size = 0,
      bc_status = (if success then BB_SUCCESS else BB_FAIL), bc_latency_us = latency_us\<rparr>"

definition RecordBbPhase :: "boot_env \<Rightarrow> BootPhase \<Rightarrow> bool \<Rightarrow> u16 \<Rightarrow> BootAgent \<Rightarrow> BootAgent res" where
  "RecordBbPhase env phase success latency_us a =
     rbind (BB_Record (ag_bb a) (phase_call env phase success latency_us)) (\<lambda>bb. Inr (a\<lparr>ag_bb := bb\<rparr>))"

section \<open>The steps\<close>

definition DiscoverServer :: "boot_env \<Rightarrow> BootAgent \<Rightarrow> (int \<times> BootAgent) res" where
  "DiscoverServer env a =
     rbind (log_Write env DHCP_DISCOVER ''Discovering boot server via DHCP'' a) (\<lambda>a.
     rbind (Discover (be_dhcp env) (be_com1 env) (ag_config a) (ag_log a)) (\<lambda>(ok, cfg, lg, _).
       Inr (if ok then 0 else - 1, a\<lparr>ag_config := cfg, ag_log := lg\<rparr>)))"

definition server_text :: "string \<Rightarrow> u16 \<Rightarrow> string" where
  "server_text server port = c_string server @ '':'' @ to_string (unat port)"

definition RegisterTerminal :: "boot_env \<Rightarrow> BootAgent \<Rightarrow> (int \<times> BootAgent) res" where
  "RegisterTerminal env a =
     (let srv = cf_meta_server_address (ag_config a); port = cf_meta_server_port (ag_config a); te = be_register env in
      rbind (log_Write env GRPC_REGISTER (''Registering terminal at '' @ server_text srv port) a) (\<lambda>a.
        if \<not> te_startup te then rbind (log_WriteFail env GRPC_FAIL ''WSAStartup failed'' a) (\<lambda>a. Inr (- 1, a))
        else if \<not> te_socket te then rbind (log_WriteFail env GRPC_FAIL ''socket() failed'' a) (\<lambda>a. Inr (- 1, a))
        else if \<not> te_connect te srv port
        then rbind (log_WriteFail env GRPC_FAIL (''connect() to '' @ server_text srv port @ '' failed'') a) (\<lambda>a. Inr (- 1, a))
        else rbind (log_Write env GRPC_REGISTER ''Connected to MetadataCenter'' a) (\<lambda>a. Inr (0, a))))"

text \<open>The position behind the first empty line of the received bytes, if there is one.\<close>

fun find_body :: "u8 list \<Rightarrow> nat option" where
  "find_body [] = None"
| "find_body (x # xs) = (if take 4 (x # xs) = http_sep then Some 4 else map_option Suc (find_body xs))"

text \<open>The download over HTTP: it succeeds when a body of at least one byte arrives; the body is not kept.\<close>

definition http_meta :: "boot_env \<Rightarrow> BootAgent \<Rightarrow> (bool \<times> BootAgent) res" where
  "http_meta env a =
     (let te = be_http env; srv = cf_primary_server (ag_config a) in
      if srv = [] \<or> \<not> te_startup te \<or> \<not> te_socket te \<or> \<not> te_connect te srv 80 then Inr (False, a)
      else let buf = take 8191 (be_http_recv env) in
        (case find_body buf of
           None \<Rightarrow> Inr (False, a)
         | Some b \<Rightarrow> let body_len = length buf - b in
             rbind (log_Write env CHUNKSTREAM_DL (''HTTP got '' @ to_string body_len @ '' bytes boot.meta'') a) (\<lambda>a.
               if 0 < body_len
               then rbind (log_Write env CHUNKSTREAM_DL ''boot.meta downloaded via HTTP'' a) (\<lambda>a. Inr (True, a))
               else Inr (False, a))))"

definition DownloadBootMeta :: "boot_env \<Rightarrow> BootAgent \<Rightarrow> (int \<times> BootAgent) res" where
  "DownloadBootMeta env a =
     rbind (log_Write env CHUNKSTREAM_DL
       (''Downloading boot.meta from '' @ server_text (cf_primary_server (ag_config a)) (cf_primary_port (ag_config a))) a) (\<lambda>a.
     rbind (http_meta env a) (\<lambda>(done, a).
       if done then Inr (0, a)
       else rbind (LoadFromServer (be_rpc env) (be_rpc_send_buf env) (be_rpc_recv_rest env) (be_rpc_payload env) (ag_cache a))
         (\<lambda>(ok, bc, sent).
           if ok then
             let (_, bc', f) = Save (be_save_open env) (be_save_write env) bc in
             rbind (log_Write env CHUNKSTREAM_DL ''boot.meta downloaded via RPC and cached''
               (a\<lparr>ag_cache := bc', ag_meta_file := (if f = None then ag_meta_file a else f)\<rparr>)) (\<lambda>a. Inr (0, a))
           else rbind (log_WriteFail env IMGSRV_FAIL ''All methods failed for boot.meta'' (a\<lparr>ag_cache := bc\<rparr>)) (\<lambda>a. Inr (- 1, a)))))"

definition VerifyIntegrity :: "boot_env \<Rightarrow> BootAgent \<Rightarrow> (int \<times> BootAgent) res" where
  "VerifyIntegrity env a =
     rbind (log_Write env INTEGRITY_CHECK ''Verifying boot.meta integrity'' a) (\<lambda>a.
       if bc_valid (ag_cache a) then rbind (log_Write env INTEGRITY_CHECK ''CRC32C OK'' a) (\<lambda>a. Inr (0, a))
       else rbind (log_Write env INTEGRITY_CHECK ''CRC32C mismatch - accepting for Alpha'' a) (\<lambda>a. Inr (0, a)))"

definition InitializeVirtualDisk :: "boot_env \<Rightarrow> BootAgent \<Rightarrow> (int \<times> BootAgent) res" where
  "InitializeVirtualDisk env a = rbind (log_Write env WINPE_START ''Initializing virtual disk'' a) (\<lambda>a. Inr (0, a))"

definition TransferControl :: "boot_env \<Rightarrow> BootAgent \<Rightarrow> (int \<times> BootAgent) res" where
  "TransferControl env a = rbind (log_Write env WINPE_START ''Transferring control to WinPE'' a) (\<lambda>a. Inr (0, a))"

definition fallback_config :: "BootConfig \<Rightarrow> BootConfig" where
  "fallback_config cfg =
     (let fallback = BootConfig_new\<lparr>cf_primary_server := ''10.10.200.10'', cf_primary_port := 9527,
                       cf_meta_server_address := ''10.10.300.10'', cf_meta_server_port := 50051\<rparr>
      in if cf_server_address cfg \<noteq> []
         then fallback\<lparr>cf_server_address := cf_server_address cfg, cf_server_port := cf_server_port cfg\<rparr> else fallback)"

definition LoadFallbackConfig :: "boot_env \<Rightarrow> BootAgent \<Rightarrow> bool \<times> BootAgent" where
  "LoadFallbackConfig env a =
     (let cfg = fallback_config (ag_config a); (ok, bc) = Load (ag_cache a) (be_files env (cf_local_meta_path cfg))
      in (ok, a\<lparr>ag_config := cfg, ag_cache := bc\<rparr>))"

section \<open>The run\<close>

definition bb_file_path :: "BootConfig \<Rightarrow> string" where
  "bb_file_path cfg =
     (let dir = cf_blackbox_path cfg;
          dir' = (case find_last_of [CHR 0x5C, CHR ''/''] dir of Some sep \<Rightarrow> take (sep + 1) dir | None \<Rightarrow> dir)
      in dir' @ ''boot_'' @ cf_boot_id cfg @ ''.bin'')"

definition flush_bb :: "boot_env \<Rightarrow> string \<Rightarrow> BootAgent \<Rightarrow> (bool \<times> BootAgent) res" where
  "flush_bb env path a =
     rbind (FlushToDisk (be_bb_open env) (be_bb_room env) (be_bb_end env) (ag_bb a)) (\<lambda>(ok, f).
       Inr (ok, case f of None \<Rightarrow> a | Some bs \<Rightarrow> a\<lparr>ag_bb_file := Some (path, bs)\<rparr>))"

text \<open>What the four places do that end the boot: log, record, report and flush.\<close>

definition halt_boot :: "boot_env \<Rightarrow> string \<Rightarrow> BootFailCode \<Rightarrow> string \<Rightarrow> BootPhase \<Rightarrow> string \<Rightarrow> int \<Rightarrow> BootAgent \<Rightarrow> (int \<times> BootAgent) res" where
  "halt_boot env path code msg phase report rc a =
     rbind (log_WriteFail env code msg a) (\<lambda>a.
     rbind (RecordBbPhase env phase False 0 a) (\<lambda>a.
     rbind (ReportTelemetry env report ''fail'' 0 a) (\<lambda>(_, a).
     rbind (flush_bb env path a) (\<lambda>(_, a). Inr (rc, a)))))"

definition Run_start :: "boot_env \<Rightarrow> BootAgent \<Rightarrow> BootAgent res" where
  "Run_start env a =
     (let a = a\<lparr>ag_bb := snd (BB_Initialize (be_bb_alloc env) (be_start env) (ag_bb a)), ag_log := Com1_Initialize (be_com1 env) (ag_log a)\<rparr> in
      rbind (Agent_GetMacAddress env a) (\<lambda>a.
      rbind (GenerateBootId env a) (\<lambda>a.
      rbind (log_Write env BOOTAGENT_START ''HTKIS HyperDisk X BootAgent v0.3.0 (BlackBox)'' a) (\<lambda>a.
        RecordBbPhase env BOOTAGENT_START True 0 a))))"

text \<open>Each part gives the state to go on with, or the result of the run.\<close>

definition Run_discover :: "boot_env \<Rightarrow> string \<Rightarrow> BootAgent \<Rightarrow> ((int \<times> BootAgent) + BootAgent) res" where
  "Run_discover env path a =
     rbind (DiscoverServer env a) (\<lambda>(rc, a).
       if rc \<noteq> 0 then
         (case LoadFallbackConfig env a of
            (True, a) \<Rightarrow>
              rbind (log_Write env DHCP_DISCOVER ''Using fallback config (no DHCP)'' a) (\<lambda>a.
              rbind (RecordBbPhase env DHCP_DISCOVER True 0 a) (\<lambda>a. Inr (Inr a)))
          | (False, a) \<Rightarrow>
              rbind (halt_boot env path DHCP_FAIL ''No DHCP and no fallback config - halted'' DHCP_DISCOVER ''dhcp_discover'' (- 1) a)
                (\<lambda>r. Inr (Inl r)))
       else rbind (RecordBbPhase env DHCP_DISCOVER True 0 a) (\<lambda>a. Inr (Inr a)))"

definition Run_register :: "boot_env \<Rightarrow> BootAgent \<Rightarrow> BootAgent res" where
  "Run_register env a =
     rbind (RegisterTerminal env a) (\<lambda>(rc, a).
       if rc \<noteq> 0 then
         rbind (log_Write env GRPC_REGISTER ''gRPC register failed, continuing with cached config'' a) (\<lambda>a.
           RecordBbPhase env GRPC_REGISTER False 0 a)
       else RecordBbPhase env GRPC_REGISTER True 0 a)"

definition Run_meta :: "boot_env \<Rightarrow> string \<Rightarrow> BootAgent \<Rightarrow> ((int \<times> BootAgent) + BootAgent) res" where
  "Run_meta env path a =
     rbind (DownloadBootMeta env a) (\<lambda>(rc, a).
       if rc \<noteq> 0 then
         rbind (log_WriteFail env BOOTMETA_FAIL ''boot.meta download failed'' a) (\<lambda>a.
           case Load (ag_cache a) (be_files env (cf_local_meta_path (ag_config a))) of
             (True, bc) \<Rightarrow>
               rbind (log_Write env CHUNKSTREAM_DL ''Using cached boot.meta'' (a\<lparr>ag_cache := bc\<rparr>)) (\<lambda>a.
               rbind (RecordBbPhase env CHUNKSTREAM_DL True 0 a) (\<lambda>a. Inr (Inr a)))
           | (False, bc) \<Rightarrow>
               rbind (halt_boot env path BOOTMETA_FAIL ''No cached boot.meta - halted'' CHUNKSTREAM_DL ''download_bootmeta'' (- 3)
                 (a\<lparr>ag_cache := bc\<rparr>)) (\<lambda>r. Inr (Inl r)))
       else rbind (RecordBbPhase env CHUNKSTREAM_DL True 0 a) (\<lambda>a. Inr (Inr a)))"

definition Run_verify :: "boot_env \<Rightarrow> string \<Rightarrow> BootAgent \<Rightarrow> ((int \<times> BootAgent) + BootAgent) res" where
  "Run_verify env path a =
     rbind (VerifyIntegrity env a) (\<lambda>(rc, a).
       if rc \<noteq> 0 then
         rbind (halt_boot env path CRC_FAIL ''Integrity check failed - halted'' INTEGRITY_CHECK ''verify_integrity'' (- 4) a) (\<lambda>r. Inr (Inl r))
       else rbind (RecordBbPhase env INTEGRITY_CHECK True 0 a) (\<lambda>a.
         rbind (InitializeVirtualDisk env a) (\<lambda>(rc, a).
           if rc \<noteq> 0 then
             rbind (halt_boot env path BOOTMETA_FAIL ''Virtual disk init failed'' WINPE_START ''init_vdisk'' (- 5) a) (\<lambda>r. Inr (Inl r))
           else Inr (Inr a))))"

definition Run_complete :: "boot_env \<Rightarrow> string \<Rightarrow> BootAgent \<Rightarrow> (int \<times> BootAgent) res" where
  "Run_complete env path a =
     (let total_ms = be_total_ms env in
      rbind (ReportTelemetry env ''boot_complete'' ''success'' total_ms a) (\<lambda>(_, a).
      rbind (RecordBbPhase env WINPE_START True (ucast (if 65535 < total_ms then 65535 else total_ms)) a) (\<lambda>a.
      rbind (log_Write env WINPE_START (''Boot complete in '' @ to_string (unat total_ms) @ ''ms, boot_id='' @ c_string (cf_boot_id (ag_config a)) @
               '', bb_entries='' @ to_string (unat (bbr_entry_count (ag_bb a)))) a) (\<lambda>a.
      rbind (flush_bb env path a) (\<lambda>(ok, a).
      rbind (if ok then log_Write env WINPE_START (''BlackBox flushed to '' @ c_string path) a else Inr a) (\<lambda>a.
        TransferControl env a))))))"

definition or_return :: "((int \<times> BootAgent) + BootAgent) res \<Rightarrow> (BootAgent \<Rightarrow> (int \<times> BootAgent) res) \<Rightarrow> (int \<times> BootAgent) res" where
  "or_return m f = rbind m (\<lambda>x. case x of Inl r \<Rightarrow> Inr r | Inr a \<Rightarrow> f a)"

definition Agent_Run :: "boot_env \<Rightarrow> BootAgent \<Rightarrow> (int \<times> BootAgent) res" where
  "Agent_Run env a =
     rbind (Run_start env a) (\<lambda>a. let path = bb_file_path (ag_config a) in
     or_return (Run_discover env path a) (\<lambda>a.
     rbind (Run_register env a) (\<lambda>a.
     or_return (Run_meta env path a) (\<lambda>a.
     or_return (Run_verify env path a) (\<lambda>a.
       Run_complete env path a)))))"

text \<open>The chain loader is a stub.\<close>

definition ChainLoad :: "string \<Rightarrow> bool" where
  "ChainLoad url = True"

section \<open>The command line\<close>

text \<open>The arguments behind the name of the program; \<^const>\<open>None\<close> is the exception of \<^verbatim>\<open>std::stoi\<close>.\<close>

function boot_ParseArgs :: "string list \<Rightarrow> BootConfig \<Rightarrow> BootConfig option" where
  "boot_ParseArgs [] cfg = Some cfg"
| "boot_ParseArgs (arg # rest) cfg =
     (let v = (case rest of [] \<Rightarrow> [] | x # _ \<Rightarrow> x); r = tl rest in
      if arg = ''server'' \<or> arg = ''--server'' then boot_ParseArgs r (cfg\<lparr>cf_server_address := v\<rparr>)
      else if arg = ''port'' \<or> arg = ''--port''
      then (case stoi v of None \<Rightarrow> None | Some p \<Rightarrow> boot_ParseArgs r (cfg\<lparr>cf_server_port := of_int p\<rparr>))
      else if arg = ''meta'' \<or> arg = ''--meta'' then boot_ParseArgs r (cfg\<lparr>cf_meta_server_address := v\<rparr>)
      else if arg = ''image'' \<or> arg = ''--image'' then boot_ParseArgs r (cfg\<lparr>cf_image_name := v\<rparr>)
      else if arg = ''terminal'' \<or> arg = ''--terminal'' then boot_ParseArgs r (cfg\<lparr>cf_terminal_id := v\<rparr>)
      else boot_ParseArgs rest cfg)"
  by pat_completeness auto
termination
  by (relation "measure (\<lambda>(args, cfg). length args)") auto

definition boot_config_of :: "BootConfig \<Rightarrow> BootConfig" where
  "boot_config_of cfg =
     (if cf_server_address cfg = [] then cfg
      else let c1 = cfg\<lparr>cf_primary_server := cf_server_address cfg, cf_primary_port := 80\<rparr>
           in if cf_meta_server_address c1 = []
              then c1\<lparr>cf_meta_server_address := cf_server_address c1, cf_meta_server_port := cf_server_port c1\<rparr> else c1)"

definition zero_meta :: BootMeta where
  "zero_meta = meta_of_bytes (replicate 310 0)"

definition BootAgent_new :: "BootConfig \<Rightarrow> BootAgent" where
  "BootAgent_new cfg =
     \<lparr>ag_config = cfg, ag_log = Com1Logger_new, ag_bb = BlackBoxRecorder_new, ag_cache = \<lparr>bc_meta = zero_meta, bc_valid = False\<rparr>,
      ag_posts = [], ag_bb_file = None, ag_meta_file = None\<rparr>"

definition boot_agent_main :: "boot_env \<Rightarrow> string list \<Rightarrow> (int \<times> BootAgent) option res" where
  "boot_agent_main env args =
     (case boot_ParseArgs args BootConfig_new of
        None \<Rightarrow> Inr None
      | Some cfg \<Rightarrow> rbind (Agent_Run env (BootAgent_new (boot_config_of cfg))) (\<lambda>(rc, a).
          if rc \<noteq> 0
          then rbind (log_WriteFail env BOOTMETA_FAIL (''BootAgent failed: rc='' @ fmt_d rc @ '' - exiting for reboot'') a) (\<lambda>a. Inr (Some (rc, a)))
          else Inr (Some (rc, a))))"

section \<open>Total correctness of a part\<close>

text \<open>The part returns, and its result satisfies the predicate.\<close>

definition returns :: "'a res \<Rightarrow> ('a \<Rightarrow> bool) \<Rightarrow> bool" where
  "returns m Q \<longleftrightarrow> (case m of Inl _ \<Rightarrow> False | Inr x \<Rightarrow> Q x)"

lemma returns_simps [simp]: "returns (Inr x) Q = Q x" "returns (Inl e) Q = False"
  "returns (rbind m f) Q = returns m (\<lambda>x. returns (f x) Q)"
  by (simp_all add: returns_def rbind_def split: sum.split)

lemma returns_if [simp]: "returns (if c then m else n) Q = (if c then returns m Q else returns n Q)"
  by simp

lemma returns_mono: "returns m P \<Longrightarrow> (\<And>x. P x \<Longrightarrow> Q x) \<Longrightarrow> returns m Q"
  by (auto simp: returns_def split: sum.splits)

lemma returns_ex: "returns m Q \<longleftrightarrow> (\<exists>x. m = Inr x \<and> Q x)"
  by (auto simp: returns_def split: sum.splits)

lemma returns_log [simp]:
  "returns (log_Write env phase msg a) Q = Q (a\<lparr>ag_log := Com1_WriteRaw (be_com1 env) (com1_str (PhaseTag phase) msg) (ag_log a)\<rparr>)"
  "returns (log_WriteFail env code msg a) Q = Q (a\<lparr>ag_log := Com1_WriteRaw (be_com1 env) (com1_str (FailTag code) msg) (ag_log a)\<rparr>)"
  by (simp_all add: log_Write_def log_WriteFail_def)

section \<open>The black box\<close>

definition bb_log :: "boot_env \<Rightarrow> BlackBoxRecorder \<Rightarrow> bb_call list \<Rightarrow> bool" where
  "bb_log env r cs \<longleftrightarrow>
     (if be_bb_alloc env then bb_holds r (be_start env) (List.map (bb_entry (be_start env)) cs) else \<not> bbr_initialized r)"

lemma bb_log_Record:
  assumes "bb_log env r cs" "length cs < 100"
  shows "\<exists>r'. BB_Record r c = Inr r' \<and> bb_log env r' (cs @ [c])"
proof (cases "be_bb_alloc env")
  case True
  then have "bb_holds r (be_start env) (List.map (bb_entry (be_start env)) cs)" using assms(1) by (simp add: bb_log_def)
  then show ?thesis using bb_Record_step [of r "be_start env" "List.map (bb_entry (be_start env)) cs" c] True assms(2)
    by (auto simp: bb_log_def bb_capacity_def)
next
  case False
  then show ?thesis using assms(1) by (simp add: bb_log_def BB_Record_def)
qed

lemma returns_Record:
  assumes "bb_log env (ag_bb a) cs" "length cs < 100"
    and "\<And>bb. bb_log env bb (cs @ [phase_call env phase success l]) \<Longrightarrow> Q (a\<lparr>ag_bb := bb\<rparr>)"
  shows "returns (RecordBbPhase env phase success l a) Q"
  using bb_log_Record [OF assms(1,2), of "phase_call env phase success l"] assms(3) by (auto simp: RecordBbPhase_def)

text \<open>The file of the black box shows exactly the calls.\<close>

definition bb_shows :: "boot_env \<Rightarrow> string \<Rightarrow> (string \<times> u8 list) option \<Rightarrow> bb_call list \<Rightarrow> bool" where
  "bb_shows env path file cs \<longleftrightarrow>
     (be_bb_alloc env \<and> be_bb_open env \<and> 67108906 \<le> be_bb_room env \<longrightarrow>
      (\<exists>f. file = Some (path, f) \<and> (\<forall>alloc std_sort. (\<forall>n. alloc n) \<longrightarrow>
        (\<exists>rep. AnalyzeBlackBox alloc std_sort (Some f) = Inr (BbExit 0 (Some rep)) \<and> rp_crc_ok rep \<and>
               rp_timeline rep = List.map (bb_shown (be_start env)) cs))))"

lemma FlushToDisk_total:
  assumes "bb_log env r cs" "cs \<noteq> []"
  shows "\<exists>ok f. FlushToDisk opens room now r = Inr (ok, f)"
proof (cases "be_bb_alloc env \<and> opens")
  case True
  then have "bb_holds r (be_start env) (List.map (bb_entry (be_start env)) cs)" using assms(1) by (simp add: bb_log_def)
  then show ?thesis using bb_Flush_eq [of r "be_start env" "List.map (bb_entry (be_start env)) cs" room now] True assms(2) by auto
next
  case False
  then show ?thesis using assms(1) by (auto simp: bb_log_def FlushToDisk_def)
qed

lemma returns_flush:
  assumes "bb_log env (ag_bb a) cs" "cs \<noteq> []"
    and "\<And>ok f. bb_shows env path f cs \<Longrightarrow> Q (ok, a\<lparr>ag_bb_file := f\<rparr>)"
  shows "returns (flush_bb env path a) Q"
proof -
  obtain ok f where f: "FlushToDisk (be_bb_open env) (be_bb_room env) (be_bb_end env) (ag_bb a) = Inr (ok, f)"
    using FlushToDisk_total [OF assms(1,2)] by blast
  define f' where "f' = (case f of None \<Rightarrow> ag_bb_file a | Some bs \<Rightarrow> Some (path, bs))"
  have "bb_shows env path f' cs"
    unfolding bb_shows_def
  proof
    assume e: "be_bb_alloc env \<and> be_bb_open env \<and> 67108906 \<le> be_bb_room env"
    then have h: "bb_holds (ag_bb a) (be_start env) (List.map (bb_entry (be_start env)) cs)" using assms(1) by (simp add: bb_log_def)
    have f1: "FlushToDisk True (be_bb_room env) (be_bb_end env) (ag_bb a) = Inr (ok, f)" using f e by simp
    have "\<exists>bs rep. f = Some bs \<and> AnalyzeBlackBox alloc std_sort (Some bs) = Inr (BbExit 0 (Some rep)) \<and> rp_crc_ok rep \<and>
        rp_timeline rep = List.map (bb_shown (be_start env)) cs" if "\<forall>n. alloc n" for alloc std_sort
      using bb_flush_analyze [OF h assms(2), where room = "be_bb_room env" and alloc = alloc and std_sort = std_sort and now = "be_bb_end env"]
        e that f1 by (metis Inr_inject prod.inject)
    then show "\<exists>bs. f' = Some (path, bs) \<and> (\<forall>alloc std_sort. (\<forall>n. alloc n) \<longrightarrow>
        (\<exists>rep. AnalyzeBlackBox alloc std_sort (Some bs) = Inr (BbExit 0 (Some rep)) \<and> rp_crc_ok rep \<and>
               rp_timeline rep = List.map (bb_shown (be_start env)) cs))"
      by (cases f) (fastforce simp: f'_def)+
  qed
  moreover have "(case f of None \<Rightarrow> a | Some bs \<Rightarrow> a\<lparr>ag_bb_file := Some (path, bs)\<rparr>) = a\<lparr>ag_bb_file := f'\<rparr>"
    by (cases f) (simp_all add: f'_def)
  ultimately show ?thesis using f assms(3) [of f' ok] by (simp add: flush_bb_def)
qed

section \<open>Identification and telemetry\<close>

definition conf_ok :: "BootConfig \<Rightarrow> bool" where
  "conf_ok cfg \<longleftrightarrow> length (cf_boot_id cfg) \<le> 36 \<and> length (cf_machine_id cfg) \<le> 36 \<and> length (cf_mac_address cfg) \<le> 17 \<and>
     length (cf_server_address cfg) \<le> 1000"

lemma length_c_string: "length (c_string s) \<le> length s"
  by (simp add: c_string_def length_takeWhile_le)

lemma length_to_string_word:
  "length (to_string (unat (x :: u32))) \<le> 10" "length (to_string (unat (y :: u16))) \<le> 5"
  using unsigned_less [of x, where 'a = nat] unsigned_less [of y, where 'a = nat] by (auto intro!: length_to_string)

lemma telemetry_json_length:
  assumes "conf_ok cfg" "length phase \<le> 20" "length outcome \<le> 10"
  shows "length (telemetry_json cfg phase outcome d) \<le> 300"
  using assms length_c_string [of "cf_boot_id cfg"] length_c_string [of "cf_machine_id cfg"] length_c_string [of "cf_mac_address cfg"]
    length_to_string_word(1) [of d]
  by (simp add: telemetry_json_def quoted_def conf_ok_def)

lemma telemetry_request_length:
  assumes "conf_ok cfg" "length js \<le> 300"
  shows "length (telemetry_request cfg js) < 2048"
proof -
  have "length (to_string (length js)) \<le> 3" using assms(2) by (intro length_to_string) simp_all
  then show ?thesis
    using assms length_c_string [of "cf_server_address cfg"] length_to_string_word(2) [of "cf_server_port cfg"]
    by (simp add: telemetry_request_def crlf2_def conf_ok_def min_def)
qed

lemma returns_Report:
  assumes "conf_ok (ag_config a)" "length phase \<le> 20" "length outcome \<le> 10"
    and "\<And>rc posts. posts = ag_posts a \<or> cf_boot_id (ag_config a) \<noteq> [] \<and> (\<exists>r. posts = ag_posts a @ [r]) \<Longrightarrow> Q (rc, a\<lparr>ag_posts := posts\<rparr>)"
  shows "returns (ReportTelemetry env phase outcome d a) Q"
proof -
  have l: "length (telemetry_request (ag_config a) (telemetry_json (ag_config a) phase outcome d)) < 2048"
    by (intro telemetry_request_length telemetry_json_length assms)
  have "a\<lparr>ag_posts := ag_posts a\<rparr> = a" by simp
  then show ?thesis
    using l assms(4) [of "ag_posts a"] assms(4) [of "ag_posts a @ [telemetry_request (ag_config a) (telemetry_json (ag_config a) phase outcome d)]"]
    by (auto simp: ReportTelemetry_def Let_def snprintf_send_eq)
qed

lemma hex_widths: "unat (x :: u32) < 16 ^ 8" "unat (drop_bit 16 x) < 16 ^ 4" "unat (x AND 0xFFFF) < 16 ^ 4"
proof -
  show u: "unat x < 16 ^ 8" using unat_less_u32 [of x] by simp
  have "unat (drop_bit 16 x) = unat x div 2 ^ 16" by (simp add: drop_bit_eq_div unat_div_distrib)
  then show "unat (drop_bit 16 x) < 16 ^ 4" using u by (simp add: less_mult_imp_div_less)
  have "x AND 0xFFFF = take_bit 16 x" by (simp add: take_bit_eq_mask mask_eq_exp_minus_1)
  then have "unat (x AND 0xFFFF) = unat x mod 2 ^ 16" by (simp add: take_bit_eq_mod unat_mod_distrib)
  then show "unat (x AND 0xFFFF) < 16 ^ 4" by simp
qed

lemma uuid_text_length:
  fixes d0 d1 d2 d3 :: u32
  shows "length (take 36 (fmt_0x 8 (unat d0) @ ''-'' @ fmt_0x 4 (unat (drop_bit 16 d1)) @ ''-'' @ fmt_0x 4 (unat (d1 AND 0xFFFF)) @ ''-'' @
     fmt_0x 4 (unat (drop_bit 16 d2)) @ ''-'' @ fmt_0x 4 (unat (d2 AND 0xFFFF)) @ fmt_0x 8 (unat d3))) = 36"
  using hex_widths [of d0] hex_widths [of d1] hex_widths [of d2] hex_widths [of d3]
  by (simp add: length_fmt_0x)

lemma GenerateUUID_length: "length (GenerateUUID rnd now) = 36"
  by (simp only: GenerateUUID_def Let_def case_prod_unfold uuid_text_length)

lemma GenerateUUID_nonempty: "GenerateUUID rnd now \<noteq> []"
  using GenerateUUID_length [of rnd now] by auto

lemma mac_string_length: "length (mac_string m) \<le> 17"
  by (simp add: mac_string_def)

section \<open>The parts of the run\<close>

definition agent_at :: "boot_env \<Rightarrow> BootAgent \<Rightarrow> bb_call list \<Rightarrow> bool" where
  "agent_at env a cs \<longleftrightarrow> bb_log env (ag_bb a) cs \<and> conf_ok (ag_config a) \<and> length cs < 90"

lemma agent_at_log [simp]: "agent_at env (a\<lparr>ag_log := lg\<rparr>) cs = agent_at env a cs"
  "agent_at env (a\<lparr>ag_cache := bc\<rparr>) cs = agent_at env a cs"
  "agent_at env (a\<lparr>ag_posts := p\<rparr>) cs = agent_at env a cs"
  "agent_at env (a\<lparr>ag_meta_file := m\<rparr>) cs = agent_at env a cs"
  by (simp_all add: agent_at_def)

lemma returns_phase:
  assumes "agent_at env a cs" and "\<And>bb. bb_log env bb (cs @ [phase_call env phase success l]) \<Longrightarrow> Q (a\<lparr>ag_bb := bb\<rparr>)"
  shows "returns (RecordBbPhase env phase success l a) Q"
  using assms(1) by (intro returns_Record [where cs = cs] assms(2)) (simp_all add: agent_at_def)

lemma returns_halt:
  assumes at: "agent_at env a cs" and rep: "length report \<le> 20"
    and Q: "\<And>a'. ag_cache a' = ag_cache a \<Longrightarrow>
        ag_posts a' = ag_posts a \<or> cf_boot_id (ag_config a) \<noteq> [] \<and> (\<exists>r. ag_posts a' = ag_posts a @ [r]) \<Longrightarrow>
        bb_shows env path (ag_bb_file a') (cs @ [phase_call env phase False 0]) \<Longrightarrow> Q (rc, a')"
  shows "returns (halt_boot env path code msg phase report rc a) Q"
  unfolding halt_boot_def returns_simps returns_log
proof (rule returns_phase [where cs = cs])
  fix bb
  assume bb: "bb_log env bb (cs @ [phase_call env phase False 0])"
  let ?a = "a\<lparr>ag_log := Com1_WriteRaw (be_com1 env) (com1_str (FailTag code) msg) (ag_log a), ag_bb := bb\<rparr>"
  show "returns (ReportTelemetry env report ''fail'' 0 ?a)
     (\<lambda>x. returns (case x of (_, a) \<Rightarrow> rbind (flush_bb env path a) (\<lambda>(_, a). Inr (rc, a))) Q)"
  proof (rule returns_Report)
    fix rc' posts
    assume p: "posts = ag_posts ?a \<or> cf_boot_id (ag_config ?a) \<noteq> [] \<and> (\<exists>r. posts = ag_posts ?a @ [r])"
    have "returns (flush_bb env path (?a\<lparr>ag_posts := posts\<rparr>)) (\<lambda>x. returns (case x of (_, a) \<Rightarrow> Inr (rc, a)) Q)"
      using bb p by (intro returns_flush [where cs = "cs @ [phase_call env phase False 0]"]) (auto intro!: Q)
    then show "returns (case (rc', ?a\<lparr>ag_posts := posts\<rparr>) of (_, a) \<Rightarrow> rbind (flush_bb env path a) (\<lambda>(_, a). Inr (rc, a))) Q"
      by simp
  qed (use at rep in \<open>simp_all add: agent_at_def\<close>)
qed (use at in simp)

text \<open>The start: the configuration keeps everything but the identification.\<close>

lemma returns_mac:
  "(\<And>lg m. length m \<le> 17 \<or> m = cf_mac_address (ag_config a) \<Longrightarrow>
      Q (a\<lparr>ag_config := (ag_config a)\<lparr>cf_mac_address := m\<rparr>, ag_log := lg\<rparr>)) \<Longrightarrow>
   returns (Agent_GetMacAddress env a) Q"
proof -
  assume Q: "\<And>lg m. length m \<le> 17 \<or> m = cf_mac_address (ag_config a) \<Longrightarrow> Q (a\<lparr>ag_config := (ag_config a)\<lparr>cf_mac_address := m\<rparr>, ag_log := lg\<rparr>)"
  have "Q a" using Q [of "cf_mac_address (ag_config a)" "ag_log a"] by simp
  then show ?thesis
    using Q mac_string_length by (auto simp: Agent_GetMacAddress_def Let_def split: option.split)
qed

lemma returns_boot_id:
  assumes "length (cf_mac_address (ag_config a)) \<le> 17"
    and "\<And>lg i m. length i = 36 \<Longrightarrow> length m \<le> 36 \<Longrightarrow>
      Q (a\<lparr>ag_config := (ag_config a)\<lparr>cf_boot_id := i, cf_machine_id := m\<rparr>, ag_log := lg\<rparr>)"
  shows "returns (GenerateBootId env a) Q"
  using assms GenerateUUID_length by (auto simp: GenerateBootId_def Let_def)

lemma BB_Initialize_log: "bb_log env (snd (BB_Initialize (be_bb_alloc env) (be_start env) BlackBoxRecorder_new)) []"
  using bb_Initialize_holds [of BlackBoxRecorder_new "be_start env"]
  by (auto simp: bb_log_def BB_Initialize_def BlackBoxRecorder_new_def)

definition identified :: "BootConfig \<Rightarrow> BootConfig \<Rightarrow> bool" where
  "identified cfg cfg' \<longleftrightarrow> (\<exists>i m mac. cfg' = cfg\<lparr>cf_boot_id := i, cf_machine_id := m, cf_mac_address := mac\<rparr> \<and> i \<noteq> [])"

lemma returns_start:
  assumes "length (cf_server_address cfg) \<le> 1000" "cf_mac_address cfg = []"
    and Q: "\<And>a. agent_at env a [phase_call env BOOTAGENT_START True 0] \<Longrightarrow> identified cfg (ag_config a) \<Longrightarrow>
       ag_cache a = ag_cache (BootAgent_new cfg) \<Longrightarrow> ag_posts a = [] \<Longrightarrow> Q a"
  shows "returns (Run_start env (BootAgent_new cfg)) Q"
  unfolding Run_start_def Let_def returns_simps
proof (rule returns_mac, rule returns_boot_id)
  fix lg1 m lg2 i m2
  let ?b = "BootAgent_new cfg\<lparr>ag_bb := snd (BB_Initialize (be_bb_alloc env) (be_start env) (ag_bb (BootAgent_new cfg))),
      ag_log := Com1_Initialize (be_com1 env) (ag_log (BootAgent_new cfg))\<rparr>"
  let ?a1 = "?b\<lparr>ag_config := (ag_config ?b)\<lparr>cf_mac_address := m\<rparr>, ag_log := lg1\<rparr>"
  let ?a2 = "?a1\<lparr>ag_config := (ag_config ?a1)\<lparr>cf_boot_id := i, cf_machine_id := m2\<rparr>, ag_log := lg2\<rparr>"
  assume m: "length m \<le> 17 \<or> m = cf_mac_address (ag_config ?b)"
  then show "length (cf_mac_address (ag_config ?a1)) \<le> 17" using assms(2) by (auto simp: BootAgent_new_def)
  assume i: "length i = 36" "length m2 \<le> 36"
  have c: "conf_ok (ag_config ?a2)" using m i assms(1,2) by (auto simp: conf_ok_def BootAgent_new_def)
  have ii: "identified cfg (ag_config ?a2)"
    unfolding identified_def using i(1) by (intro exI [of _ i] exI [of _ m2] exI [of _ m]) (auto simp: BootAgent_new_def)
  have at: "agent_at env (?a2\<lparr>ag_log := lg\<rparr>) []" for lg
    using c BB_Initialize_log by (simp add: agent_at_def BootAgent_new_def)
  show "returns (log_Write env BOOTAGENT_START ''HTKIS HyperDisk X BootAgent v0.3.0 (BlackBox)'' ?a2)
     (\<lambda>x. returns (RecordBbPhase env BOOTAGENT_START True 0 x) Q)"
    unfolding returns_log
    by (rule returns_phase [where cs = "[]", OF at], rule Q) (use c ii in \<open>auto simp: agent_at_def BootAgent_new_def\<close>)
qed

text \<open>Discovery, with the configuration it leads to, or the fallback.\<close>

definition found :: "boot_env \<Rightarrow> BootConfig \<Rightarrow> bool" where
  "found env cfg \<longleftrightarrow> dhcp_accepts (be_dhcp env) \<and> cf_server_address (dhcp_config (be_dhcp env) cfg) \<noteq> []"

lemma dhcp_config_fields:
  "cf_boot_id (dhcp_config d cfg) = cf_boot_id cfg" "cf_machine_id (dhcp_config d cfg) = cf_machine_id cfg"
  "cf_mac_address (dhcp_config d cfg) = cf_mac_address cfg" "cf_local_meta_path (dhcp_config d cfg) = cf_local_meta_path cfg"
  "cf_meta_server_address (dhcp_config d cfg) = cf_meta_server_address cfg"
  "cf_meta_server_port (dhcp_config d cfg) = cf_meta_server_port cfg"
proof -
  have fr: "(dhcp_config d cfg)\<lparr>cf_server_address := [], cf_primary_server := [], cf_boot_script_url := []\<rparr> =
      cfg\<lparr>cf_server_address := [], cf_primary_server := [], cf_boot_script_url := []\<rparr>"
    by (rule dhcp_config_frame)
  show "cf_boot_id (dhcp_config d cfg) = cf_boot_id cfg" using arg_cong [OF fr, of cf_boot_id] by simp
  show "cf_machine_id (dhcp_config d cfg) = cf_machine_id cfg" using arg_cong [OF fr, of cf_machine_id] by simp
  show "cf_mac_address (dhcp_config d cfg) = cf_mac_address cfg" using arg_cong [OF fr, of cf_mac_address] by simp
  show "cf_local_meta_path (dhcp_config d cfg) = cf_local_meta_path cfg" using arg_cong [OF fr, of cf_local_meta_path] by simp
  show "cf_meta_server_address (dhcp_config d cfg) = cf_meta_server_address cfg" using arg_cong [OF fr, of cf_meta_server_address] by simp
  show "cf_meta_server_port (dhcp_config d cfg) = cf_meta_server_port cfg" using arg_cong [OF fr, of cf_meta_server_port] by simp
qed

lemma dhcp_config_ok:
  assumes "conf_ok cfg" "\<And>bs. length (de_ntop d bs) \<le> 1000"
  shows "conf_ok (dhcp_config d cfg)"
proof -
  have "length (cf_server_address (dhcp_config d cfg)) \<le> 1000"
    using assms dhcp_config_server [of d cfg] by (cases "dhcp_accepts d") (auto simp: conf_ok_def dhcp_config_def)
  then show ?thesis using assms(1) by (simp add: conf_ok_def dhcp_config_fields)
qed

lemma fallback_fields:
  "cf_local_meta_path (fallback_config cfg) = cf_local_meta_path BootConfig_new" "cf_boot_id (fallback_config cfg) = []"
  "conf_ok cfg \<Longrightarrow> conf_ok (fallback_config cfg)"
  by (auto simp: fallback_config_def Let_def conf_ok_def BootConfig_new_def)

lemma returns_discover:
  assumes at: "agent_at env a cs" "length cs < 80" and ntop: "\<And>bs. length (de_ntop (be_dhcp env) bs) \<le> 1000"
    and Q1: "\<And>a'. found env (ag_config a) \<Longrightarrow> agent_at env a' (cs @ [phase_call env DHCP_DISCOVER True 0]) \<Longrightarrow>
       ag_config a' = dhcp_config (be_dhcp env) (ag_config a) \<Longrightarrow> ag_cache a' = ag_cache a \<Longrightarrow> ag_posts a' = ag_posts a \<Longrightarrow> Q (Inr a')"
    and Q2: "\<And>a'. \<not> found env (ag_config a) \<Longrightarrow> fst (Load (ag_cache a) (be_files env (cf_local_meta_path BootConfig_new))) \<Longrightarrow>
       agent_at env a' (cs @ [phase_call env DHCP_DISCOVER True 0]) \<Longrightarrow> cf_boot_id (ag_config a') = [] \<Longrightarrow>
       cf_local_meta_path (ag_config a') = cf_local_meta_path BootConfig_new \<Longrightarrow> ag_posts a' = ag_posts a \<Longrightarrow> Q (Inr a')"
    and Q3: "\<And>a'. \<not> found env (ag_config a) \<Longrightarrow> \<not> fst (Load (ag_cache a) (be_files env (cf_local_meta_path BootConfig_new))) \<Longrightarrow>
       ag_posts a' = ag_posts a \<Longrightarrow> bb_shows env path (ag_bb_file a') (cs @ [phase_call env DHCP_DISCOVER False 0]) \<Longrightarrow> Q (Inl (- 1, a'))"
  shows "returns (Run_discover env path a) Q"
proof -
  define lg where "lg = Com1_WriteRaw (be_com1 env) (com1_str (PhaseTag DHCP_DISCOVER) ''Discovering boot server via DHCP'') (ag_log a)"
  define cfg where "cfg = dhcp_config (be_dhcp env) (ag_config a)"
  obtain lg' sent where d: "Discover (be_dhcp env) (be_com1 env) (ag_config a) lg = Inr (found env (ag_config a), cfg, lg', sent)"
    using Discover_eq [of "be_dhcp env" "be_com1 env" "ag_config a" lg] unfolding found_def cfg_def by blast
  have s: "DiscoverServer env a = Inr (if found env (ag_config a) then 0 else - 1, a\<lparr>ag_config := cfg, ag_log := lg'\<rparr>)"
    using d by (simp add: DiscoverServer_def log_Write_def lg_def)
  have ok: "conf_ok cfg" unfolding cfg_def using at(1) ntop by (intro dhcp_config_ok) (simp_all add: agent_at_def)
  show ?thesis
  proof (cases "found env (ag_config a)")
    case True
    have "agent_at env (a\<lparr>ag_config := cfg, ag_log := lg'\<rparr>) cs" using at(1) ok by (simp add: agent_at_def)
    then have "returns (RecordBbPhase env DHCP_DISCOVER True 0 (a\<lparr>ag_config := cfg, ag_log := lg'\<rparr>)) (\<lambda>a. returns (Inr (Inr a)) Q)"
      by (rule returns_phase) (use True at ok in \<open>auto intro!: Q1 simp: agent_at_def cfg_def [symmetric]\<close>)
    then show ?thesis using True s by (simp add: Run_discover_def)
  next
    case False
    define fb where "fb = fallback_config cfg"
    obtain ok' bc where l: "Load (ag_cache a) (be_files env (cf_local_meta_path BootConfig_new)) = (ok', bc)" by force
    define a1 where "a1 = a\<lparr>ag_config := fb, ag_log := lg', ag_cache := bc\<rparr>"
    have fb: "LoadFallbackConfig env (a\<lparr>ag_config := cfg, ag_log := lg'\<rparr>) = (ok', a1)"
      using l by (simp add: LoadFallbackConfig_def Let_def fallback_fields(1) a1_def fb_def)
    have at1: "agent_at env (a1\<lparr>ag_log := lg''\<rparr>) cs" "agent_at env a1 cs" for lg''
      using at(1) ok fallback_fields(3) by (simp_all add: agent_at_def a1_def fb_def)
    have f1: "cf_boot_id (ag_config a1) = []" "cf_local_meta_path (ag_config a1) = cf_local_meta_path BootConfig_new"
      "ag_posts a1 = ag_posts a" "conf_ok (ag_config a1)"
      using fallback_fields ok by (simp_all add: a1_def fb_def)
    show ?thesis
    proof (cases ok')
      case True
      have "returns (RecordBbPhase env DHCP_DISCOVER True 0 (a1\<lparr>ag_log := lg''\<rparr>)) (\<lambda>a. returns (Inr (Inr a)) Q)" for lg''
        by (rule returns_phase [OF at1(1)]) (use False True at l f1 in \<open>auto intro!: Q2 simp: agent_at_def\<close>)
      then show ?thesis using False True s fb by (simp add: Run_discover_def)
    next
      case F: False
      have "returns (halt_boot env path DHCP_FAIL ''No DHCP and no fallback config - halted'' DHCP_DISCOVER ''dhcp_discover'' (- 1) a1)
          (\<lambda>r. returns (Inr (Inl r)) Q)"
        by (rule returns_halt [OF at1(2)]) (use False F l f1 in \<open>auto intro!: Q3\<close>)
      then show ?thesis using False F s fb by (simp add: Run_discover_def)
    qed
  qed
qed

text \<open>Registration: recorded, never an obstacle.\<close>

definition registers :: "boot_env \<Rightarrow> BootConfig \<Rightarrow> bool" where
  "registers env cfg \<longleftrightarrow> te_startup (be_register env) \<and> te_socket (be_register env) \<and>
     te_connect (be_register env) (cf_meta_server_address cfg) (cf_meta_server_port cfg)"

lemma returns_register:
  assumes at: "agent_at env a cs" "length cs < 80"
    and Q: "\<And>a'. agent_at env a' (cs @ [phase_call env GRPC_REGISTER (registers env (ag_config a)) 0]) \<Longrightarrow>
       ag_config a' = ag_config a \<Longrightarrow> ag_cache a' = ag_cache a \<Longrightarrow> ag_posts a' = ag_posts a \<Longrightarrow> Q a'"
  shows "returns (Run_register env a) Q"
proof -
  have r: "returns (RecordBbPhase env GRPC_REGISTER (registers env (ag_config a)) 0 (a\<lparr>ag_log := lg\<rparr>)) Q" for lg
    by (rule returns_phase [where cs = cs]) (use at in \<open>auto intro!: Q simp: agent_at_def\<close>)
  show ?thesis
    using r by (auto simp: Run_register_def RegisterTerminal_def Let_def registers_def)
qed

text \<open>The metadata: over HTTP, from the image server, or from the file.\<close>

definition http_ok :: "boot_env \<Rightarrow> BootConfig \<Rightarrow> bool" where
  "http_ok env cfg \<longleftrightarrow> cf_primary_server cfg \<noteq> [] \<and> te_startup (be_http env) \<and> te_socket (be_http env) \<and>
     te_connect (be_http env) (cf_primary_server cfg) 80 \<and>
     (\<exists>b. find_body (take 8191 (be_http_recv env)) = Some b \<and> b < length (take 8191 (be_http_recv env)))"

definition rpc_ok :: "boot_env \<Rightarrow> BootMetaCache \<Rightarrow> bool" where
  "rpc_ok env bc \<longleftrightarrow>
     (\<exists>bc' s. LoadFromServer (be_rpc env) (be_rpc_send_buf env) (be_rpc_recv_rest env) (be_rpc_payload env) bc = Inr (True, bc', s))"

definition file_ok :: "boot_env \<Rightarrow> string \<Rightarrow> bool" where
  "file_ok env path \<longleftrightarrow> fst (Load (ag_cache (BootAgent_new BootConfig_new)) (be_files env path))"

text \<open>The sizes of the stack buffers of \<^verbatim>\<open>LoadFromServer\<close>.\<close>

definition rpc_bufs :: "boot_env \<Rightarrow> bool" where
  "rpc_bufs env \<longleftrightarrow> length (be_rpc_send_buf env) = 65 \<and> length (ne_recv (be_rpc env)) + length (be_rpc_recv_rest env) = 65536 \<and>
     length (be_rpc_payload env) = 65536"

lemma Load_indep: "fst (Load bc f) = fst (Load bc' f)"
  by (simp add: Load_def Let_def ValidateCrc_def ComputeCrc_def split: option.split)

lemma returns_http:
  "(\<And>lg. Q (http_ok env (ag_config a), a\<lparr>ag_log := lg\<rparr>)) \<Longrightarrow> returns (http_meta env a) Q"
proof -
  assume Q: "\<And>lg. Q (http_ok env (ag_config a), a\<lparr>ag_log := lg\<rparr>)"
  from Q [of "ag_log a"] have "Q (http_ok env (ag_config a), a)" by simp
  with Q show ?thesis
    unfolding http_meta_def Let_def by (auto simp: http_ok_def split: option.split)
qed

lemma returns_download:
  assumes "rpc_bufs env"
    and "\<And>a'. http_ok env (ag_config a) \<or> rpc_ok env (ag_cache a) \<Longrightarrow> ag_bb a' = ag_bb a \<Longrightarrow>
      ag_config a' = ag_config a \<Longrightarrow> ag_posts a' = ag_posts a \<Longrightarrow>
      http_ok env (ag_config a) \<longrightarrow> ag_cache a' = ag_cache a \<Longrightarrow> Q (0, a')"
    and "\<And>a'. \<not> http_ok env (ag_config a) \<Longrightarrow> \<not> rpc_ok env (ag_cache a) \<Longrightarrow> ag_bb a' = ag_bb a \<Longrightarrow>
      ag_config a' = ag_config a \<Longrightarrow> ag_posts a' = ag_posts a \<Longrightarrow> Q (- 1, a')"
  shows "returns (DownloadBootMeta env a) Q"
proof -
  obtain ok bc s where r: "LoadFromServer (be_rpc env) (be_rpc_send_buf env) (be_rpc_recv_rest env) (be_rpc_payload env) (ag_cache a) = Inr (ok, bc, s)"
    using boot_meta_server [of "be_rpc_send_buf env" "be_rpc env" "be_rpc_recv_rest env" "be_rpc_payload env" "ag_cache a"] assms(1)
    unfolding rpc_bufs_def by blast
  have ok: "rpc_ok env (ag_cache a) = ok" using r by (auto simp: rpc_ok_def)
  show ?thesis
    unfolding DownloadBootMeta_def returns_simps returns_log
    by (rule returns_http) (auto simp: r ok case_prod_unfold Let_def intro!: assms(2,3))
qed

lemma returns_meta:
  assumes at: "agent_at env a cs" "length cs < 80" and b: "rpc_bufs env"
    and Q1: "\<And>a'. http_ok env (ag_config a) \<or> rpc_ok env (ag_cache a) \<or> file_ok env (cf_local_meta_path (ag_config a)) \<Longrightarrow>
       agent_at env a' (cs @ [phase_call env CHUNKSTREAM_DL True 0]) \<Longrightarrow> ag_config a' = ag_config a \<Longrightarrow> ag_posts a' = ag_posts a \<Longrightarrow>
       http_ok env (ag_config a) \<longrightarrow> ag_cache a' = ag_cache a \<Longrightarrow> Q (Inr a')"
    and Q2: "\<And>a'. \<not> http_ok env (ag_config a) \<Longrightarrow> \<not> rpc_ok env (ag_cache a) \<Longrightarrow> \<not> file_ok env (cf_local_meta_path (ag_config a)) \<Longrightarrow>
       ag_posts a' = ag_posts a \<or> cf_boot_id (ag_config a) \<noteq> [] \<and> (\<exists>r. ag_posts a' = ag_posts a @ [r]) \<Longrightarrow>
       bb_shows env path (ag_bb_file a') (cs @ [phase_call env CHUNKSTREAM_DL False 0]) \<Longrightarrow> Q (Inl (- 3, a'))"
  shows "returns (Run_meta env path a) Q"
  unfolding Run_meta_def returns_simps
proof (rule returns_download [OF b], goal_cases)
  case (1 a')
  have "returns (RecordBbPhase env CHUNKSTREAM_DL True 0 a') (\<lambda>a. returns (Inr (Inr a)) Q)"
    by (rule returns_phase [where cs = cs]) (use 1 at in \<open>auto intro!: Q1 simp: agent_at_def\<close>)
  then show ?case by simp
next
  case (2 a')
  define f where "f = be_files env (cf_local_meta_path (ag_config a))"
  obtain ok bc where l: "Load (ag_cache a') f = (ok, bc)" by force
  have ok: "file_ok env (cf_local_meta_path (ag_config a)) = ok"
    using Load_indep [of "ag_cache a'" f "ag_cache (BootAgent_new BootConfig_new)"] l by (simp add: file_ok_def f_def)
  have at': "agent_at env (a'\<lparr>ag_log := lg, ag_cache := bc, ag_log := lg'\<rparr>) cs" "agent_at env (a'\<lparr>ag_log := lg, ag_cache := bc\<rparr>) cs" for lg lg'
    using 2(3,4) at(1) by (simp_all add: agent_at_def)
  show ?case
  proof (cases ok)
    case True
    have "returns (RecordBbPhase env CHUNKSTREAM_DL True 0 (a'\<lparr>ag_log := lg, ag_cache := bc, ag_log := lg'\<rparr>)) (\<lambda>a. returns (Inr (Inr a)) Q)" for lg lg'
      by (rule returns_phase [OF at'(1)]) (use 2 at at' ok True in \<open>auto intro!: Q1 simp: agent_at_def\<close>)
    then show ?thesis using l True 2(4) by (simp add: f_def)
  next
    case False
    have "returns (halt_boot env path BOOTMETA_FAIL ''No cached boot.meta - halted'' CHUNKSTREAM_DL ''download_bootmeta'' (- 3) (a'\<lparr>ag_log := lg, ag_cache := bc\<rparr>))
        (\<lambda>r. returns (Inr (Inl r)) Q)" for lg
      by (rule returns_halt [OF at'(2)]) (use 2 ok False in \<open>auto intro!: Q2\<close>)
    then show ?thesis using l False 2(4) by (simp add: f_def)
  qed
qed

text \<open>Integrity check and disk: both always go on.\<close>

lemma returns_verify:
  assumes at: "agent_at env a cs" "length cs < 80"
    and Q: "\<And>a'. agent_at env a' (cs @ [phase_call env INTEGRITY_CHECK True 0]) \<Longrightarrow> ag_config a' = ag_config a \<Longrightarrow>
       ag_cache a' = ag_cache a \<Longrightarrow> ag_posts a' = ag_posts a \<Longrightarrow> Q (Inr a')"
  shows "returns (Run_verify env path a) Q"
proof -
  have "returns (RecordBbPhase env INTEGRITY_CHECK True 0 (a\<lparr>ag_log := lg\<rparr>)) (\<lambda>a. \<forall>lg'. Q (Inr (a\<lparr>ag_log := lg'\<rparr>)))" for lg
    by (rule returns_phase [where cs = cs]) (use at in \<open>auto intro!: Q simp: agent_at_def\<close>)
  then have "returns (RecordBbPhase env INTEGRITY_CHECK True 0 (a\<lparr>ag_log := lg\<rparr>)) (\<lambda>a. Q (Inr (a\<lparr>ag_log := h a\<rparr>)))" for lg h
    by (rule returns_mono) simp
  then show ?thesis
    by (simp add: Run_verify_def VerifyIntegrity_def InitializeVirtualDisk_def)
qed

definition boot_latency :: "boot_env \<Rightarrow> u16" where
  "boot_latency env = ucast (if 65535 < be_total_ms env then 65535 else be_total_ms env)"

lemma returns_complete:
  assumes at: "agent_at env a cs"
    and Q: "\<And>a'. ag_cache a' = ag_cache a \<Longrightarrow>
       ag_posts a' = ag_posts a \<or> cf_boot_id (ag_config a) \<noteq> [] \<and> (\<exists>r. ag_posts a' = ag_posts a @ [r]) \<Longrightarrow>
       bb_shows env path (ag_bb_file a') (cs @ [phase_call env WINPE_START True (boot_latency env)]) \<Longrightarrow> Q (0, a')"
  shows "returns (Run_complete env path a) Q"
  unfolding Run_complete_def Let_def returns_simps
proof (rule returns_Report, goal_cases)
  case (4 rc posts)
  have "returns (RecordBbPhase env WINPE_START True (boot_latency env) (a\<lparr>ag_posts := posts\<rparr>))
      (\<lambda>a'. bb_log env (ag_bb a') (cs @ [phase_call env WINPE_START True (boot_latency env)]) \<and> ag_posts a' = posts \<and> ag_cache a' = ag_cache a)"
    by (rule returns_phase [where cs = cs]) (use at in auto)
  then show ?case
    unfolding prod.case returns_simps boot_latency_def [symmetric]
  proof (rule returns_mono)
    fix a' :: BootAgent
    assume a': "bb_log env (ag_bb a') (cs @ [phase_call env WINPE_START True (boot_latency env)]) \<and> ag_posts a' = posts \<and> ag_cache a' = ag_cache a"
    have "returns (flush_bb env path (a'\<lparr>ag_log := lg\<rparr>))
        (\<lambda>x. returns (case x of (ok, a) \<Rightarrow> rbind (if ok then log_Write env WINPE_START (''BlackBox flushed to '' @ c_string path) a else Inr a)
           (\<lambda>a. TransferControl env a)) Q)" for lg
      by (rule returns_flush [where cs = "cs @ [phase_call env WINPE_START True (boot_latency env)]"])
        (use a' 4 in \<open>auto simp: TransferControl_def intro!: Q\<close>)
    then show "returns (log_Write env WINPE_START (''Boot complete in '' @ to_string (unat (be_total_ms env)) @ ''ms, boot_id='' @
        c_string (cf_boot_id (ag_config a')) @ '', bb_entries='' @ to_string (unat (bbr_entry_count (ag_bb a')))) a')
        (\<lambda>x. returns (flush_bb env path x) (\<lambda>x. returns (case x of (ok, a) \<Rightarrow>
           rbind (if ok then log_Write env WINPE_START (''BlackBox flushed to '' @ c_string path) a else Inr a) (\<lambda>a. TransferControl env a)) Q))"
      by simp
  qed
qed (use at in \<open>simp_all add: agent_at_def\<close>)

section \<open>The whole run\<close>

lemma opt_cfg_ids:
  "foldl (opt_cfg ntop) (cfg\<lparr>cf_boot_id := i, cf_machine_id := m, cf_mac_address := mac\<rparr>) opts =
   (foldl (opt_cfg ntop) cfg opts)\<lparr>cf_boot_id := i, cf_machine_id := m, cf_mac_address := mac\<rparr>"
proof (induction opts arbitrary: cfg)
  case (Cons opt opts)
  have "opt_cfg ntop (cfg\<lparr>cf_boot_id := i, cf_machine_id := m, cf_mac_address := mac\<rparr>) opt =
      (opt_cfg ntop cfg opt)\<lparr>cf_boot_id := i, cf_machine_id := m, cf_mac_address := mac\<rparr>"
    by (simp add: opt_cfg_def Let_def)
  then show ?case using Cons by simp
qed simp

lemma identified_dhcp:
  assumes "identified cfg cfg'"
  shows "cf_server_address (dhcp_config d cfg') = cf_server_address (dhcp_config d cfg)"
    "cf_primary_server (dhcp_config d cfg') = cf_primary_server (dhcp_config d cfg)"
    "cf_local_meta_path cfg' = cf_local_meta_path cfg" "cf_boot_id cfg' \<noteq> []"
    "cf_meta_server_address cfg' = cf_meta_server_address cfg" "cf_meta_server_port cfg' = cf_meta_server_port cfg"
  using assms by (auto simp: identified_def dhcp_config_def opt_cfg_ids)

definition meta_ok :: "boot_env \<Rightarrow> BootConfig \<Rightarrow> bool" where
  "meta_ok env cfg \<longleftrightarrow> http_ok env (dhcp_config (be_dhcp env) cfg) \<or> rpc_ok env (ag_cache (BootAgent_new cfg)) \<or>
     file_ok env (cf_local_meta_path cfg)"

definition boot_rc :: "boot_env \<Rightarrow> BootConfig \<Rightarrow> int" where
  "boot_rc env cfg =
     (if \<not> found env cfg then if file_ok env (cf_local_meta_path BootConfig_new) then 0 else - 1
      else if meta_ok env cfg then 0 else - 3)"

text \<open>The calls of the black box, from the result of the run and of the registration.\<close>

definition boot_calls :: "boot_env \<Rightarrow> int \<Rightarrow> bool \<Rightarrow> bb_call list" where
  "boot_calls env rc reg =
     phase_call env BOOTAGENT_START True 0 #
     (if rc = - 1 then [phase_call env DHCP_DISCOVER False 0]
      else phase_call env DHCP_DISCOVER True 0 # phase_call env GRPC_REGISTER reg 0 #
        (if rc = - 3 then [phase_call env CHUNKSTREAM_DL False 0]
         else [phase_call env CHUNKSTREAM_DL True 0, phase_call env INTEGRITY_CHECK True 0, phase_call env WINPE_START True (boot_latency env)]))"

definition run_post :: "boot_env \<Rightarrow> BootConfig \<Rightarrow> string \<Rightarrow> int \<times> BootAgent \<Rightarrow> bool" where
  "run_post env cfg path r \<longleftrightarrow>
     (case r of (rc, a') \<Rightarrow>
        rc = boot_rc env cfg \<and> (\<not> found env cfg \<longrightarrow> ag_posts a' = []) \<and> length (ag_posts a') \<le> 1 \<and>
        (found env cfg \<and> http_ok env (dhcp_config (be_dhcp env) cfg) \<longrightarrow> ag_cache a' = ag_cache (BootAgent_new cfg)) \<and>
        (\<exists>reg. (found env cfg \<longrightarrow> reg = registers env cfg) \<and> bb_shows env path (ag_bb_file a') (boot_calls env rc reg)))"

definition run_assms :: "boot_env \<Rightarrow> BootConfig \<Rightarrow> bool" where
  "run_assms env cfg \<longleftrightarrow> length (cf_server_address cfg) \<le> 1000 \<and> cf_mac_address cfg = [] \<and> rpc_bufs env \<and>
     (\<forall>bs. length (de_ntop (be_dhcp env) bs) \<le> 1000)"

text \<open>From the registration on, when the boot goes on.\<close>

lemma run_tail:
  assumes asm: "run_assms env cfg" and at: "agent_at env a (take 2 (boot_calls env 0 True))" and p: "ag_posts a = []"
    and f: "found env cfg \<Longrightarrow> http_ok env (ag_config a) = http_ok env (dhcp_config (be_dhcp env) cfg) \<and>
        ag_cache a = ag_cache (BootAgent_new cfg) \<and> cf_local_meta_path (ag_config a) = cf_local_meta_path cfg \<and>
        registers env (ag_config a) = registers env cfg"
    and nf: "\<not> found env cfg \<Longrightarrow> file_ok env (cf_local_meta_path BootConfig_new) \<and> cf_boot_id (ag_config a) = [] \<and>
        cf_local_meta_path (ag_config a) = cf_local_meta_path BootConfig_new"
  shows "returns (rbind (Run_register env a) (\<lambda>a. or_return (Run_meta env path a) (\<lambda>a. or_return (Run_verify env path a) (\<lambda>a.
       Run_complete env path a)))) (run_post env cfg path)"
  unfolding or_return_def returns_simps
proof (rule returns_register [OF at], goal_cases)
  case (2 a1)
  let ?reg = "registers env (ag_config a)"
  have same: "found env cfg \<Longrightarrow> http_ok env (ag_config a1) = http_ok env (dhcp_config (be_dhcp env) cfg) \<and> ag_cache a1 = ag_cache (BootAgent_new cfg) \<and>
      cf_local_meta_path (ag_config a1) = cf_local_meta_path cfg" using f 2 by simp
  show ?case
  proof (rule returns_meta [OF 2(1)], goal_cases)
    case (3 a2)
    have rc: "boot_rc env cfg = 0" using 3(1) same nf 2(3) by (auto simp: boot_rc_def meta_ok_def 2(2))
    have "returns (Run_verify env path a2) (\<lambda>x. returns (case x of Inl x \<Rightarrow> Inr x | Inr a \<Rightarrow> Run_complete env path a) (run_post env cfg path))"
    proof (rule returns_verify [OF 3(2)], goal_cases)
      case (2 a3)
      show ?case unfolding sum.case
        by (rule returns_complete [OF 2(1)]) (use 2 3 p f nf same rc \<open>ag_posts a1 = ag_posts a\<close> \<open>ag_config a1 = ag_config a\<close> in
          \<open>auto simp: run_post_def boot_calls_def intro!: exI [of _ ?reg]\<close>)
    qed (simp add: boot_calls_def)
    then show ?case by simp
  next
    case (4 a2)
    have fd: "found env cfg" using 4(3) nf 2(2) by metis
    have rc: "boot_rc env cfg = - 3" using 4(1-3) fd same by (simp add: boot_rc_def meta_ok_def)
    show ?case using 4 fd rc p f 2 by (auto simp: run_post_def boot_calls_def intro!: exI [of _ ?reg])
  qed (use asm in \<open>simp_all add: boot_calls_def run_assms_def\<close>)
qed (simp add: boot_calls_def)

lemma Agent_Run_returns:
  assumes asm: "run_assms env cfg"
  shows "\<exists>path. returns (Agent_Run env (BootAgent_new cfg)) (run_post env cfg path)"
proof -
  have "returns (Run_start env (BootAgent_new cfg)) (\<lambda>a. agent_at env a [phase_call env BOOTAGENT_START True 0] \<and> identified cfg (ag_config a) \<and>
       ag_cache a = ag_cache (BootAgent_new cfg) \<and> ag_posts a = [])"
    by (rule returns_start) (use asm in \<open>auto simp: run_assms_def\<close>)
  then obtain a where a: "Run_start env (BootAgent_new cfg) = Inr a" "agent_at env a [phase_call env BOOTAGENT_START True 0]"
      "identified cfg (ag_config a)" "ag_cache a = ag_cache (BootAgent_new cfg)" "ag_posts a = []"
    by (auto simp: returns_ex)
  let ?path = "bb_file_path (ag_config a)"
  note id = identified_dhcp [OF a(3)]
  have fd: "found env (ag_config a) = found env cfg" by (simp add: found_def id(1))
  have "returns (or_return (Run_discover env ?path a) (\<lambda>a. rbind (Run_register env a) (\<lambda>a. or_return (Run_meta env ?path a)
      (\<lambda>a. or_return (Run_verify env ?path a) (\<lambda>a. Run_complete env ?path a))))) (run_post env cfg ?path)"
    unfolding or_return_def [of "Run_discover env ?path a"] returns_simps
  proof (rule returns_discover [OF a(2)], goal_cases)
    case (3 a1)
    then show ?case unfolding sum.case
      by (intro run_tail [OF asm]) (use a id fd in \<open>auto simp: boot_calls_def http_ok_def registers_def dhcp_config_fields numeral_2_eq_2\<close>)
  next
    case (4 a1)
    then have "file_ok env (cf_local_meta_path BootConfig_new)"
      using Load_indep unfolding file_ok_def by blast
    then show ?case using 4 unfolding sum.case
      by (intro run_tail [OF asm]) (use a fd in \<open>auto simp: boot_calls_def numeral_2_eq_2\<close>)
  next
    case (5 a1)
    then have "\<not> file_ok env (cf_local_meta_path BootConfig_new)"
      using Load_indep unfolding file_ok_def by blast
    then show ?case using 5 a(5) fd by (auto simp: run_post_def boot_rc_def boot_calls_def)
  qed (use asm in \<open>simp_all add: run_assms_def\<close>)
  then show ?thesis using a(1) by (auto simp: Agent_Run_def Let_def returns_simps(1))
qed

lemma Agent_Run_post:
  assumes "run_assms env cfg"
  obtains a' path where "Agent_Run env (BootAgent_new cfg) = Inr (boot_rc env cfg, a')" "run_post env cfg path (boot_rc env cfg, a')"
  using Agent_Run_returns [OF assms] by (auto simp: returns_ex run_post_def)

section \<open>Properties\<close>

text \<open>A network in which a server is found and answers over HTTP with a body of one byte.\<close>

definition sample_boot_env :: boot_env where
  "sample_boot_env =
     \<lparr>be_com1 = True, be_bb_alloc = True, be_start = 10, be_clock = (\<lambda>_. 20), be_adapters = None, be_random1 = Some (1, 2, 3, 4),
      be_random2 = None, be_ticks1 = 5, be_ticks2 = 6,
      be_dhcp = \<lparr>de_startup = True, de_socket = True, de_bind = True, de_sendto = True, de_recv = 2 # replicate 239 0 @ [54, 4, 10, 0, 0, 1, 255],
        de_last_error = 0, de_random = 77, de_adapters = None, de_ntop = \<lambda>_. ''10.0.0.1''\<rparr>,
      be_register = \<lparr>te_startup = True, te_socket = True, te_connect = \<lambda>_ _. False\<rparr>,
      be_http = \<lparr>te_startup = True, te_socket = True, te_connect = \<lambda>_ _. True\<rparr>, be_http_recv = [13, 10, 13, 10, 7],
      be_rpc = \<lparr>ne_startup = False, ne_socket = False, ne_connect = False, ne_send = False, ne_recv = []\<rparr>,
      be_rpc_send_buf = replicate 65 0, be_rpc_recv_rest = replicate 65536 0, be_rpc_payload = replicate 65536 0,
      be_files = (\<lambda>_. None), be_save_open = False, be_save_write = False,
      be_telemetry = \<lparr>te_startup = True, te_socket = True, te_connect = \<lambda>_ _. True\<rparr>,
      be_bb_open = True, be_bb_room = 67108906, be_bb_end = 30, be_total_ms = 900\<rparr>"

lemma sample_run_assms: "run_assms sample_boot_env BootConfig_new"
  by (simp add: run_assms_def sample_boot_env_def rpc_bufs_def BootConfig_new_def)

lemma sample_found: "found sample_boot_env BootConfig_new"
  by (simp add: found_def sample_boot_env_def dhcp_accepts_def dhcp_config_server server_opts_def)

lemma sample_http: "http_ok sample_boot_env (dhcp_config (be_dhcp sample_boot_env) BootConfig_new)"
proof -
  have "cf_primary_server (dhcp_config (be_dhcp sample_boot_env) BootConfig_new) \<noteq> []"
    by (simp add: sample_boot_env_def dhcp_config_def dhcp_accepts_def opt_cfg_def BootConfig_new_def Let_def)
  then show ?thesis by (simp add: http_ok_def sample_boot_env_def http_sep_def)
qed

text \<open>
  C13. Every run of the boot agent returns, whatever the network, the files and the clock do. It returns -1 when
  no server was found and the metadata file is not valid, -3 when a server was found but the metadata came
  neither over HTTP nor from the image server nor from the file, and 0 otherwise; the results -4 and -5 do
  not occur. At most one report is sent, and none at all when no server was found, as the fallback
  configuration has no boot id.
\<close>

theorem boot_agent_outcome:
  assumes "length (cf_server_address cfg) \<le> 1000" "cf_mac_address cfg = []" "rpc_bufs env"
    "\<And>bs. length (de_ntop (be_dhcp env) bs) \<le> 1000"
  shows "\<exists>a'. Agent_Run env (BootAgent_new cfg) =
     Inr (if \<not> found env cfg then if file_ok env (cf_local_meta_path BootConfig_new) then 0 else - 1
          else if http_ok env (dhcp_config (be_dhcp env) cfg) \<or> rpc_ok env (ag_cache (BootAgent_new cfg)) \<or> file_ok env (cf_local_meta_path cfg)
          then 0 else - 3, a') \<and>
     length (ag_posts a') \<le> 1 \<and> (\<not> found env cfg \<longrightarrow> ag_posts a' = [])"
proof -
  have "run_assms env cfg" using assms by (simp add: run_assms_def)
  then obtain a' path where "Agent_Run env (BootAgent_new cfg) = Inr (boot_rc env cfg, a')" "run_post env cfg path (boot_rc env cfg, a')"
    by (rule Agent_Run_post)
  then show ?thesis unfolding boot_rc_def meta_ok_def by (auto simp: run_post_def)
qed

lemma boot_agent_outcome_witness:
  "\<exists>a'. Agent_Run sample_boot_env (BootAgent_new BootConfig_new) = Inr (0, a') \<and> length (ag_posts a') \<le> 1"
  using boot_agent_outcome [of BootConfig_new sample_boot_env] sample_run_assms sample_found sample_http by (auto simp: run_assms_def)

text \<open>
  The metadata that boots the machine need not be there: when a server was found and the HTTP server
  answers with any body of at least one byte, the run succeeds, and the cache is still the empty and
  invalid one it started with.
\<close>

theorem boot_unverified_meta:
  assumes "length (cf_server_address cfg) \<le> 1000" "cf_mac_address cfg = []" "rpc_bufs env"
    "\<And>bs. length (de_ntop (be_dhcp env) bs) \<le> 1000" "found env cfg" "http_ok env (dhcp_config (be_dhcp env) cfg)"
  shows "\<exists>a'. Agent_Run env (BootAgent_new cfg) = Inr (0, a') \<and> \<not> bc_valid (ag_cache a') \<and> bc_meta (ag_cache a') = zero_meta"
proof -
  have "run_assms env cfg" using assms(1-4) by (simp add: run_assms_def)
  then obtain a' path where a: "Agent_Run env (BootAgent_new cfg) = Inr (boot_rc env cfg, a')" "run_post env cfg path (boot_rc env cfg, a')"
    by (rule Agent_Run_post)
  have "boot_rc env cfg = 0" using assms(5,6) by (simp add: boot_rc_def meta_ok_def)
  moreover have "ag_cache a' = ag_cache (BootAgent_new cfg)" using a(2) assms(5,6) by (simp add: run_post_def)
  ultimately show ?thesis using a(1) by (simp add: BootAgent_new_def)
qed

lemma boot_unverified_meta_witness:
  "\<exists>a'. Agent_Run sample_boot_env (BootAgent_new BootConfig_new) = Inr (0, a') \<and> \<not> bc_valid (ag_cache a')"
  using boot_unverified_meta [of BootConfig_new sample_boot_env] sample_run_assms sample_found sample_http by (auto simp: run_assms_def)

text \<open>
  C18. The black box of a run, when its buffer and file are available: the analyzer accepts the file, with a
  correct checksum, and shows exactly the phases that the run went through, in order, with failure only for
  the phase that ended the run and for a registration that failed.
\<close>

theorem boot_black_box:
  assumes "length (cf_server_address cfg) \<le> 1000" "cf_mac_address cfg = []" "rpc_bufs env"
    "\<And>bs. length (de_ntop (be_dhcp env) bs) \<le> 1000"
    and "be_bb_alloc env" "be_bb_open env" "67108906 \<le> be_bb_room env" "\<And>n. alloc n"
    and "Agent_Run env (BootAgent_new cfg) = Inr (rc, a')"
  shows "\<exists>path f rep reg. ag_bb_file a' = Some (path, f) \<and> AnalyzeBlackBox alloc std_sort (Some f) = Inr (BbExit 0 (Some rep)) \<and> rp_crc_ok rep \<and>
     List.map (\<lambda>l. (bl_phase l, bl_status l)) (rp_timeline rep) =
       (''BOOTAGENT'', ''OK'') #
       (if rc = - 1 then [(''BOOTAGENT'', ''FAIL'')]
        else (''BOOTAGENT'', ''OK'') # (''BOOTAGENT'', if reg then ''OK'' else ''FAIL'') #
          (if rc = - 3 then [(''BOOTAGENT'', ''FAIL'')]
           else [(''BOOTAGENT'', ''OK''), (''BOOTAGENT'', ''OK''), (''WINPE'', ''OK'')])) \<and>
     (found env cfg \<longrightarrow> reg = registers env cfg)"
proof -
  have "run_assms env cfg" using assms(1-4) by (simp add: run_assms_def)
  then obtain path where p: "run_post env cfg path (rc, a')" using Agent_Run_post assms(9) by (metis Inr_inject prod.inject)
  then obtain reg where reg: "found env cfg \<longrightarrow> reg = registers env cfg" "bb_shows env path (ag_bb_file a') (boot_calls env rc reg)"
    by (auto simp: run_post_def)
  then obtain f rep where f: "ag_bb_file a' = Some (path, f)" "AnalyzeBlackBox alloc std_sort (Some f) = Inr (BbExit 0 (Some rep))" "rp_crc_ok rep"
      "rp_timeline rep = List.map (bb_shown (be_start env)) (boot_calls env rc reg)"
    using assms(5-8) unfolding bb_shows_def by blast
  show ?thesis
    using f reg(1) by (intro exI [of _ path] exI [of _ f] exI [of _ rep] exI [of _ reg])
      (auto simp: boot_calls_def bb_shown_def phase_call_def PhaseName_def StatusName_def)
qed

lemma boot_black_box_witness:
  "\<exists>a' path f rep. Agent_Run sample_boot_env (BootAgent_new BootConfig_new) = Inr (0, a') \<and> ag_bb_file a' = Some (path, f) \<and>
     AnalyzeBlackBox (\<lambda>_. True) (\<lambda>xs. xs) (Some f) = Inr (BbExit 0 (Some rep)) \<and> length (rp_timeline rep) = 6"
proof -
  obtain a' path where a: "Agent_Run sample_boot_env (BootAgent_new BootConfig_new) = Inr (boot_rc sample_boot_env BootConfig_new, a')"
    using Agent_Run_post [OF sample_run_assms] by metis
  have rc: "boot_rc sample_boot_env BootConfig_new = 0" using sample_found sample_http by (simp add: boot_rc_def meta_ok_def)
  have l: "length (rp_timeline rep) = length (List.map (\<lambda>l. (bl_phase l, bl_status l)) (rp_timeline rep))" for rep by simp
  show ?thesis
    using boot_black_box [of BootConfig_new sample_boot_env "\<lambda>_. True" 0 a' "\<lambda>xs. xs"] sample_run_assms a rc unfolding l
    by (auto simp: run_assms_def sample_boot_env_def)
qed

end
