(* ===== verification/HD_BootTrace.thy ===== *)
theory HD_BootTrace
  imports HD_Prelude
begin

text \<open>
  The trace of boot I/O, \<^verbatim>\<open>client/common/hd_boot_trace.{h,cpp}\<close>: a ring of 65536 events with 32-bit
  counters, read by \<^verbatim>\<open>GetEvents\<close> into a buffer of the caller. The clock is a parameter; the operations run
  one after the other.
\<close>

section \<open>Definitions\<close>

definition BOOT_TRACE_BUF_SIZE :: u32 where "BOOT_TRACE_BUF_SIZE = 65536"

datatype BootIoType = TrRead | TrWrite | TrCacheHit | TrCacheMiss | TrNetSend | TrNetRecv | TrOverlayHit | TrPrefetch

record BootIoEvent =
  ev_timestamp_ns :: u64
  ev_io_type :: BootIoType
  ev_layer_id :: u8
  ev_cache_level :: u8
  ev_reserved :: u8
  ev_status :: u32
  ev_block_addr :: u64
  ev_block_count :: u32
  ev_latency_us :: u32
  ev_image_id :: u64
  ev_request_id :: u64

text \<open>The value of a zeroed event; the padding is left out.\<close>

definition zero_event :: BootIoEvent where
  "zero_event =
     \<lparr>ev_timestamp_ns = 0, ev_io_type = TrRead, ev_layer_id = 0, ev_cache_level = 0, ev_reserved = 0, ev_status = 0,
      ev_block_addr = 0, ev_block_count = 0, ev_latency_us = 0, ev_image_id = 0, ev_request_id = 0\<rparr>"

record BootIoTrace =
  tr_buffer :: "BootIoEvent list"
  tr_write_pos :: u32
  tr_count :: u32
  tr_next_request_id :: u64

definition BootIoTrace_new :: BootIoTrace where
  "BootIoTrace_new =
     \<lparr>tr_buffer = replicate (unat BOOT_TRACE_BUF_SIZE) zero_event, tr_write_pos = 0, tr_count = 0, tr_next_request_id = 1\<rparr>"

definition RecordEvent :: "BootIoEvent \<Rightarrow> BootIoTrace \<Rightarrow> BootIoTrace res" where
  "RecordEvent event t =
     (let pos = tr_write_pos t mod BOOT_TRACE_BUF_SIZE; t = t\<lparr>tr_write_pos := tr_write_pos t + 1\<rparr> in
      if unat pos < length (tr_buffer t)
      then Inr (t\<lparr>tr_buffer := (tr_buffer t)[unat pos := event], tr_count := tr_count t + 1\<rparr>)
      else Inl OutOfBounds)"

text \<open>The arguments of \<^verbatim>\<open>RecordIo\<close>, with the time of the call.\<close>

record trace_io =
  ti_now :: u64
  ti_type :: BootIoType
  ti_block_addr :: u64
  ti_block_count :: u32
  ti_latency_us :: u32
  ti_cache_level :: u8
  ti_status :: u32

definition trace_event :: "u64 \<Rightarrow> trace_io \<Rightarrow> BootIoEvent" where
  "trace_event request_id io =
     zero_event\<lparr>ev_timestamp_ns := ti_now io, ev_io_type := ti_type io, ev_block_addr := ti_block_addr io,
       ev_block_count := ti_block_count io, ev_latency_us := ti_latency_us io, ev_cache_level := ti_cache_level io,
       ev_status := ti_status io, ev_request_id := request_id\<rparr>"

definition trace_RecordIo :: "BootIoTrace \<Rightarrow> trace_io \<Rightarrow> BootIoTrace res" where
  "trace_RecordIo t io =
     RecordEvent (trace_event (tr_next_request_id t) io) (t\<lparr>tr_next_request_id := tr_next_request_id t + 1\<rparr>)"

text \<open>The number of events and the buffer of the caller after the copy.\<close>

definition trace_copy :: "BootIoTrace \<Rightarrow> u32 \<Rightarrow> u32 \<Rightarrow> BootIoEvent list \<Rightarrow> nat \<Rightarrow> BootIoEvent list res" where
  "trace_copy t pos to_copy out i =
     rbind (vec_at (tr_buffer t) (unat ((pos - to_copy + of_nat i) mod BOOT_TRACE_BUF_SIZE))) (\<lambda>e.
       mem_write out i [e])"

definition GetEvents :: "BootIoTrace \<Rightarrow> BootIoEvent list \<Rightarrow> u32 \<Rightarrow> (u32 \<times> BootIoEvent list) res" where
  "GetEvents t out_buffer max_count =
     (let total = tr_count t; to_copy = (if total < max_count then total else max_count) in
      rbind (res_fold (trace_copy t (tr_write_pos t) to_copy) out_buffer [0..<unat to_copy]) (\<lambda>out. Inr (to_copy, out)))"

definition trace_Reset :: "BootIoTrace \<Rightarrow> BootIoTrace" where
  "trace_Reset t = t\<lparr>tr_write_pos := 0, tr_count := 0\<rparr>"

definition trace_Count :: "BootIoTrace \<Rightarrow> u32" where
  "trace_Count t = tr_count t"

section \<open>Configuration\<close>

text \<open>\<^verbatim>\<open>client/common/hd_config.cpp\<close>: the file is not read, and every key has the default the caller gives.\<close>

definition Config_Load :: "string \<Rightarrow> bool" where "Config_Load path = True"
definition Config_GetString :: "string \<Rightarrow> string \<Rightarrow> string" where "Config_GetString key default_val = default_val"
definition Config_GetInt :: "string \<Rightarrow> 64 word \<Rightarrow> 64 word" where "Config_GetInt key default_val = default_val"

section \<open>What the ring holds\<close>

text \<open>The index of the last event, of \<open>n\<close>, that went to the slot of event \<open>j\<close>.\<close>

definition latest :: "nat \<Rightarrow> nat \<Rightarrow> nat" where
  "latest n j = j + 65536 * ((n - 1 - j) div 65536)"

definition trace_holds :: "BootIoTrace \<Rightarrow> BootIoEvent list \<Rightarrow> bool" where
  "trace_holds t es \<longleftrightarrow> length (tr_buffer t) = 65536 \<and> tr_write_pos t = of_nat (length es) \<and> tr_count t = of_nat (length es) \<and>
     length es < 2 ^ 32 \<and> (\<forall>j < length es. length es \<le> j + 65536 \<longrightarrow> tr_buffer t ! (j mod 65536) = es ! j)"

lemma trace_holds_reset: "length (tr_buffer t) = 65536 \<Longrightarrow> trace_holds (trace_Reset t) []"
  by (simp add: trace_holds_def trace_Reset_def)

lemma RecordEvent_holds:
  assumes h: "trace_holds t es" and "length es + 1 < 2 ^ 32"
  shows "\<exists>t'. RecordEvent e t = Inr t' \<and> trace_holds t' (es @ [e]) \<and> tr_next_request_id t' = tr_next_request_id t"
proof -
  let ?n = "length es"
  have pos: "unat (tr_write_pos t mod BOOT_TRACE_BUF_SIZE) = ?n mod 65536"
    using h unat_of_nat_u32 [of ?n] by (simp add: trace_holds_def BOOT_TRACE_BUF_SIZE_def unat_mod_distrib)
  define t' where "t' = t\<lparr>tr_write_pos := tr_write_pos t + 1, tr_buffer := (tr_buffer t)[?n mod 65536 := e], tr_count := tr_count t + 1\<rparr>"
  have r: "RecordEvent e t = Inr t'"
    using h pos by (simp add: RecordEvent_def Let_def trace_holds_def t'_def)
  have "tr_buffer t' ! (j mod 65536) = (es @ [e]) ! j" if "j < Suc ?n" "Suc ?n \<le> j + 65536" for j
  proof (cases "j = ?n")
    case True
    then show ?thesis using h by (simp add: t'_def trace_holds_def)
  next
    case False
    then have "j mod 65536 \<noteq> ?n mod 65536" using that mod_differs [of j ?n 65536] by simp
    then show ?thesis using h False that by (simp add: t'_def trace_holds_def nth_append)
  qed
  then show ?thesis using r h assms(2) by (simp add: trace_holds_def t'_def add.commute)
qed

lemma trace_Records:
  assumes "trace_holds t es" "length es + length ios < 2 ^ 32"
  shows "\<exists>t'. res_fold trace_RecordIo t ios = Inr t' \<and>
     trace_holds t' (es @ List.map (\<lambda>i. trace_event (tr_next_request_id t + of_nat i) (ios ! i)) [0..<length ios])"
  using assms
proof (induction ios arbitrary: t es)
  case (Cons io ios)
  have "trace_holds (t\<lparr>tr_next_request_id := tr_next_request_id t + 1\<rparr>) es" using Cons.prems(1) by (simp add: trace_holds_def)
  then obtain t1 where t1: "trace_RecordIo t io = Inr t1" "trace_holds t1 (es @ [trace_event (tr_next_request_id t) io])"
      "tr_next_request_id t1 = tr_next_request_id t + 1"
    using RecordEvent_holds [of _ es "trace_event (tr_next_request_id t) io"] Cons.prems(2) by (fastforce simp: trace_RecordIo_def)
  then show ?case using Cons.IH [OF t1(2)] Cons.prems(2) by (simp add: map_upt_Suc add.assoc del: upt_Suc)
qed simp

lemma latest_props:
  assumes "j < n"
  shows "latest n j < n" "n \<le> latest n j + 65536" "latest n j mod 65536 = j mod 65536"
proof -
  define d where "d = n - 1 - j"
  have "n = j + d + 1" using assms by (simp add: d_def)
  moreover have "65536 * (d div 65536) \<le> d" "d < 65536 * (d div 65536) + 65536"
    using times_div_less_eq_dividend [of 65536 d] dividend_less_times_div [of 65536 d] by simp_all
  ultimately show "latest n j < n" "n \<le> latest n j + 65536" by (simp_all add: latest_def flip: d_def)
  show "latest n j mod 65536 = j mod 65536" by (simp add: latest_def)
qed

lemma latest_recent: "j < n \<Longrightarrow> n \<le> j + 65536 \<Longrightarrow> latest n j = j"
  by (simp add: latest_def)

lemma trace_holds_latest:
  assumes "trace_holds t es" "j < length es"
  shows "tr_buffer t ! (j mod 65536) = es ! latest (length es) j"
proof -
  have "tr_buffer t ! (latest (length es) j mod 65536) = es ! latest (length es) j"
    using assms(1) latest_props(1,2) [OF assms(2)] unfolding trace_holds_def by blast
  then show ?thesis by (simp only: latest_props(3) [OF assms(2)])
qed

lemma trace_index:
  assumes "k \<le> n" "n < 2 ^ 32" "i < k"
  shows "unat ((of_nat n - of_nat k + of_nat i :: u32) mod BOOT_TRACE_BUF_SIZE) = (n - k + i) mod 65536"
proof -
  have w: "(of_nat n - of_nat k + of_nat i :: u32) = of_nat (n - k + i)" using assms(1) by (simp add: of_nat_diff)
  have "unat (of_nat (n - k + i) :: u32) = n - k + i" using assms by (intro unat_of_nat_u32) simp
  then show ?thesis unfolding w unat_mod_distrib by (simp add: BOOT_TRACE_BUF_SIZE_def)
qed

lemma copy_prefix:
  assumes "\<And>i. i < m \<Longrightarrow> vec_at buf (f i) = Inr (g i)" "m \<le> length out"
  shows "res_fold (\<lambda>out i. rbind (vec_at buf (f i)) (\<lambda>e. mem_write out i [e])) out [0..<m] =
     Inr (List.map g [0..<m] @ drop m out)"
  using assms
proof (induction m)
  case (Suc m)
  then show ?case by (simp add: res_fold_append mem_write_def)
qed simp

lemma GetEvents_holds:
  assumes h: "trace_holds t es" and out: "min (length es) (unat max_count) \<le> length out"
  defines "k \<equiv> min (length es) (unat max_count)"
  shows "GetEvents t out max_count =
     Inr (of_nat k, List.map (\<lambda>i. es ! latest (length es) (length es - k + i)) [0..<k] @ drop k out)"
proof -
  let ?n = "length es"
  have n: "?n < 2 ^ 32" "length (tr_buffer t) = 65536" using h by (simp_all add: trace_holds_def)
  have tot: "tr_count t = of_nat ?n" "tr_write_pos t = of_nat ?n" using h by (simp_all add: trace_holds_def)
  have un: "unat (of_nat ?n :: u32) = ?n" using n by (intro unat_of_nat_u32)
  have k: "(if tr_count t < max_count then tr_count t else max_count) = of_nat k"
    using un by (auto simp: tot k_def word_less_nat_alt min_def)
  have uk: "unat (of_nat k :: u32) = k" using n unat_of_nat_u32 [of k] by (simp add: k_def)
  have v: "vec_at (tr_buffer t) (unat ((tr_write_pos t - of_nat k + of_nat i) mod BOOT_TRACE_BUF_SIZE)) =
      Inr (es ! latest ?n (?n - k + i))" if "i < k" for i
  proof -
    have kn: "k \<le> ?n" by (simp add: k_def)
    have j: "?n - k + i < ?n" using that kn by linarith
    show ?thesis
      unfolding tot trace_index [OF kn n(1) that] using trace_holds_latest [OF h j] n(2) by (simp add: vec_at_def)
  qed
  have "res_fold (trace_copy t (tr_write_pos t) (of_nat k)) out [0..<k] =
      Inr (List.map (\<lambda>i. es ! latest ?n (?n - k + i)) [0..<k] @ drop k out)"
    unfolding trace_copy_def by (rule copy_prefix) (use v out in \<open>simp_all add: k_def\<close>)
  then show ?thesis unfolding GetEvents_def Let_def k uk by simp
qed

section \<open>Properties\<close>



end
