(* ===== verification/HD_Registry.thy ===== *)
theory HD_Registry
  imports HD_Prelude
begin

text \<open>
  Reading a string from the registry, \<^verbatim>\<open>driver/common/hd_registry.c\<close>. The registry and the pool are
  parameters: the status of each call, the size it asks for, and the bytes it delivers.
\<close>

section \<open>Definitions\<close>

record UNICODE_STRING =
  us_Length :: u16
  us_MaximumLength :: u16
  us_Buffer :: "u8 list option"

text \<open>
  \<open>rg_info\<close> is what the second query leaves in the allocated block: title index, type, length of the
  data, each of four bytes, and the data.
\<close>

record registry_env =
  rg_open :: NTSTATUS
  rg_probe :: NTSTATUS
  rg_needed :: u32
  rg_alloc :: bool
  rg_query :: NTSTATUS
  rg_info :: "u8 list"

text \<open>What a call leaves behind: open handles and allocated blocks.\<close>

record registry_use =
  ru_handles :: nat
  ru_blocks :: nat

definition REG_SZ :: u32 where "REG_SZ = 1"

definition HdReadRegistryString ::
  "registry_env \<Rightarrow> UNICODE_STRING \<Rightarrow> registry_use \<Rightarrow> (NTSTATUS \<times> UNICODE_STRING \<times> registry_use) res" where
  "HdReadRegistryString env Res u =
     (if \<not> NT_SUCCESS (rg_open env) then Inr (rg_open env, Res, u)
      else let u1 = u\<lparr>ru_handles := ru_handles u + 1\<rparr> in
        if rg_probe env \<noteq> STATUS_BUFFER_OVERFLOW \<and> rg_probe env \<noteq> STATUS_BUFFER_TOO_SMALL
        then Inr (rg_probe env, Res, u1\<lparr>ru_handles := ru_handles u1 - 1\<rparr>)
        else if \<not> rg_alloc env then Inr (STATUS_INSUFFICIENT_RESOURCES, Res, u1\<lparr>ru_handles := ru_handles u1 - 1\<rparr>)
        else let u2 = u1\<lparr>ru_blocks := ru_blocks u1 + 1, ru_handles := ru_handles u1 - 1\<rparr>;
                 info = take (unat (rg_needed env)) (rg_info env) in
          if \<not> NT_SUCCESS (rg_query env) then Inr (rg_query env, Res, u2\<lparr>ru_blocks := ru_blocks u2 - 1\<rparr>)
          else rbind (mem_read info 4 4) (\<lambda>t.
            if le_word 4 t = REG_SZ then
              rbind (mem_read info 8 4) (\<lambda>l.
                let DataLength = le_word 4 l :: u32 in
                Inr (rg_query env,
                     \<lparr>us_Length = ucast (DataLength - 2), us_MaximumLength = ucast DataLength, us_Buffer = Some (drop 12 info)\<rparr>, u2))
            else Inr (rg_query env, Res, u2\<lparr>ru_blocks := ru_blocks u2 - 1\<rparr>)))"

definition HdReadRegistryDword :: "u32 \<Rightarrow> NTSTATUS \<times> u32" where
  "HdReadRegistryDword Res = (STATUS_NOT_IMPLEMENTED, Res)"

section \<open>Properties\<close>

definition value_info :: "u32 \<Rightarrow> u32 \<Rightarrow> u8 list \<Rightarrow> u8 list" where
  "value_info title type data = le_bytes 4 title @ le_bytes 4 type @ le_bytes 4 (of_nat (length data) :: u32) @ data"

lemma value_info_parts:
  "take 4 (drop 4 (value_info title type data)) = le_bytes 4 type"
  "take 4 (drop 8 (value_info title type data)) = le_bytes 4 (of_nat (length data) :: u32)"
  "drop 12 (value_info title type data) = data" "length (value_info title type data) = 12 + length data"
  by (simp_all add: value_info_def)

lemma ucast_u16_nat: "unat (ucast (x :: u32) :: u16) = unat x mod 2 ^ 16"
  by (simp add: unsigned_ucast_eq take_bit_eq_mod)

lemma string_length_word:
  assumes "n < 65536"
  shows "unat (ucast (of_nat n - 2 :: u32) :: u16) = (n + 65534) mod 65536"
proof (cases "n < 2")
  case True
  then consider "n = 0" | "n = 1" by linarith
  then show ?thesis by cases (simp_all add: ucast_u16_nat unsigned_minus_1_eq_mask mask_eq_exp_minus_1 del: unsigned_ucast_eq)
next
  case False
  then obtain m where n: "n = m + 2" by (metis add.commute le_Suc_ex not_less)
  have "(of_nat n - 2 :: u32) = of_nat m" by (simp add: n)
  moreover have "unat (of_nat m :: u32) = m" using assms n by (intro unat_of_nat_u32) simp
  moreover have "(n + 65534) mod 65536 = m" using assms n by simp
  ultimately show ?thesis using assms n by (simp add: ucast_u16_nat)
qed

text \<open>
  When both queries agree on the value, the call returns within the block it allocated and closes its
  handle. A string is delivered with the block still allocated; its length is two less than its size, which
  for an empty value is 65534, beyond the maximum length. A value of another type is reported as a
  success, with the result unchanged.
\<close>

theorem registry_read_outcome:
  assumes "NT_SUCCESS (rg_open env)" "rg_probe env = STATUS_BUFFER_TOO_SMALL" "rg_alloc env" "NT_SUCCESS (rg_query env)"
    and "rg_info env = value_info title type data" "rg_needed env = of_nat (12 + length data)" "length data < 65536"
  shows "\<exists>Res' blocks. HdReadRegistryString env Res u = Inr (rg_query env, Res', u\<lparr>ru_blocks := blocks\<rparr>) \<and>
     (type = REG_SZ \<longrightarrow> blocks = ru_blocks u + 1 \<and> us_Buffer Res' = Some data \<and> unat (us_MaximumLength Res') = length data \<and>
        unat (us_Length Res') = (length data + 65534) mod 65536) \<and>
     (type \<noteq> REG_SZ \<longrightarrow> blocks = ru_blocks u \<and> Res' = Res)"
proof -
  let ?i = "value_info title type data"
  have un: "unat (of_nat (12 + length data) :: u32) = 12 + length data" using assms(7) by (intro unat_of_nat_u32) simp
  have i: "take (unat (rg_needed env)) (rg_info env) = ?i" unfolding assms(5,6) un by (simp add: value_info_parts)
  have r: "mem_read ?i 4 4 = Inr (le_bytes 4 type)" "mem_read ?i 8 4 = Inr (le_bytes 4 (of_nat (length data) :: u32))"
    by (simp_all add: mem_read_def value_info_parts)
  have w: "le_word 4 (le_bytes 4 type) = type" "le_word 4 (le_bytes 4 (of_nat (length data) :: u32)) = (of_nat (length data) :: u32)"
    by (simp_all add: le_word_le_bytes)
  have ud: "unat (of_nat (length data) :: u32) = length data" using assms(7) by (intro unat_of_nat_u32) simp
  have len: "unat (ucast (of_nat (length data) - 2 :: u32) :: u16) = (length data + 65534) mod 65536"
    using assms(7) by (rule string_length_word)
  show ?thesis
    unfolding HdReadRegistryString_def Let_def i r rbind_simps w
    using assms(1-4,7) ud len by (cases "type = REG_SZ") (simp_all add: value_info_parts(3) ucast_u16_nat)
qed

lemma registry_read_outcome_witness:
  "\<exists>Res'. HdReadRegistryString \<lparr>rg_open = STATUS_SUCCESS, rg_probe = STATUS_BUFFER_TOO_SMALL, rg_needed = 16, rg_alloc = True,
       rg_query = STATUS_SUCCESS, rg_info = value_info 0 1 [65, 0, 0, 0]\<rparr>
       \<lparr>us_Length = 0, us_MaximumLength = 0, us_Buffer = None\<rparr> \<lparr>ru_handles = 0, ru_blocks = 0\<rparr> =
       Inr (STATUS_SUCCESS, Res', \<lparr>ru_handles = 0, ru_blocks = 1\<rparr>) \<and> unat (us_Length Res') = 2"
  using registry_read_outcome [of "\<lparr>rg_open = STATUS_SUCCESS, rg_probe = STATUS_BUFFER_TOO_SMALL, rg_needed = 16, rg_alloc = True,
       rg_query = STATUS_SUCCESS, rg_info = value_info 0 1 [65, 0, 0, 0]\<rparr>" 0 1 "[65, 0, 0, 0]"
       "\<lparr>us_Length = 0, us_MaximumLength = 0, us_Buffer = None\<rparr>" "\<lparr>ru_handles = 0, ru_blocks = 0\<rparr>"]
  by (auto simp: REG_SZ_def)

end
