(* ===== verification/HD_Tools.thy ===== *)
theory HD_Tools
  imports HD_CString
begin

text \<open>
  The two command-line tools of the boot medium: \<^verbatim>\<open>tools/hd_dl.c\<close>, which downloads files over HTTP, and
  \<^verbatim>\<open>tools/hd_ld.c\<close>, which relaxes the code integrity options and loads drivers. The calls of the system
  are parameters; the text written to the error stream is left out.
\<close>

section \<open>hd_dl\<close>

text \<open>What the calls answer for one address; \<open>dl_chunks\<close> is what the reads deliver before one fails or is empty.\<close>

record dl_env =
  dl_crack :: bool
  dl_open :: bool
  dl_connect :: bool
  dl_request :: bool
  dl_send :: bool
  dl_status :: u32
  dl_fopen :: bool
  dl_chunks :: "u8 list list"

definition download :: "dl_env \<Rightarrow> int \<times> u8 list option" where
  "download env =
     (if \<not> dl_crack env \<or> \<not> dl_open env \<or> \<not> dl_connect env \<or> \<not> dl_request env \<or> \<not> dl_send env then (1, None)
      else if dl_status env \<noteq> 200 then (1, None)
      else if \<not> dl_fopen env then (1, None)
      else (0, Some (concat (takeWhile (\<lambda>c. c \<noteq> []) (dl_chunks env)))))"

text \<open>The loop over the pairs of an address and a file; the network answers by address and file.\<close>

fun dl_loop :: "(string \<Rightarrow> string \<Rightarrow> dl_env) \<Rightarrow> string list \<Rightarrow> int \<Rightarrow> (string \<Rightarrow> u8 list option) \<Rightarrow> int \<times> (string \<Rightarrow> u8 list option)" where
  "dl_loop env (url # outfile # rest) rc files =
     (case download (env url outfile) of (r, f) \<Rightarrow>
        dl_loop env rest (if r \<noteq> 0 then r else rc) (case f of None \<Rightarrow> files | Some bs \<Rightarrow> files(outfile \<mapsto> bs)))"
| "dl_loop env args rc files = (rc, files)"

definition dl_main :: "(string \<Rightarrow> string \<Rightarrow> dl_env) \<Rightarrow> string list \<Rightarrow> (string \<Rightarrow> u8 list option) \<Rightarrow> int \<times> (string \<Rightarrow> u8 list option)" where
  "dl_main env args files = (if length args < 2 then (1, files) else dl_loop env args 0 files)"

section \<open>hd_ld\<close>

definition CODEINTEGRITY_OPTION_ENABLED :: u32 where "CODEINTEGRITY_OPTION_ENABLED = 0x01"
definition CODEINTEGRITY_OPTION_TESTSIGN :: u32 where "CODEINTEGRITY_OPTION_TESTSIGN = 0x02"

record ci_env =
  ci_reg_create :: bool
  ci_ntdll :: bool
  ci_procs :: bool
  ci_query :: NTSTATUS
  ci_set :: NTSTATUS

text \<open>The policy values in the registry and the options of the kernel.\<close>

record ci_state =
  ci_policy :: "(u32 \<times> u32) option"
  ci_options :: u32

definition relax_ci :: "ci_env \<Rightarrow> ci_state \<Rightarrow> int \<times> ci_state" where
  "relax_ci env s =
     (let s1 = (if ci_reg_create env then s\<lparr>ci_policy := Some (0, 3)\<rparr> else s) in
      if \<not> ci_ntdll env then (- 1, s1)
      else if ci_procs env \<and> NT_SUCCESS (ci_query env) then
        let opts = (ci_options s1 AND NOT CODEINTEGRITY_OPTION_ENABLED) OR CODEINTEGRITY_OPTION_TESTSIGN
        in (0, if NT_SUCCESS (ci_set env) then s1\<lparr>ci_options := opts\<rparr> else s1)
      else (0, s1))"

text \<open>
  Loading one driver: the name is converted into a buffer of 512 characters, which stays undefined when
  the conversion fails.
\<close>

definition load_driver :: "bool \<Rightarrow> bool \<Rightarrow> (string \<Rightarrow> string option) \<Rightarrow> (string \<Rightarrow> NTSTATUS) \<Rightarrow> string \<Rightarrow> int res" where
  "load_driver ntdll procs wide NtLoadDriver name =
     (if \<not> ntdll \<or> \<not> procs then Inr 1
      else (case wide name of
              None \<Rightarrow> Inl OutOfBounds
            | Some w \<Rightarrow> Inr (if NtLoadDriver w \<noteq> 0 then 1 else 0)))"

text \<open>The integrity options are relaxed first; whether a driver loads may depend on them.\<close>

definition ld_main ::
  "ci_env \<Rightarrow> bool \<Rightarrow> (string \<Rightarrow> string option) \<Rightarrow> (ci_state \<Rightarrow> string \<Rightarrow> NTSTATUS) \<Rightarrow> string list \<Rightarrow> ci_state \<Rightarrow> (int \<times> ci_state) res" where
  "ld_main env procs wide NtLoadDriver args s =
     (if args = [] then Inr (1, s)
      else let s' = snd (relax_ci env s) in
        rbind (res_fold (\<lambda>rc a. rbind (load_driver (ci_ntdll env) procs wide (NtLoadDriver s') a) (\<lambda>r. Inr (if r \<noteq> 0 then r else rc))) 0 args)
          (\<lambda>rc. Inr (rc, s')))"

section \<open>Properties\<close>

fun arg_pairs :: "string list \<Rightarrow> (string \<times> string) list" where
  "arg_pairs (u # f # rest) = (u, f) # arg_pairs rest"
| "arg_pairs args = []"

lemma dl_loop_rc:
  "rc \<in> {0, 1} \<Longrightarrow> fst (dl_loop env args rc files) = (if rc = 0 \<and> (\<forall>(u, f) \<in> set (arg_pairs args). fst (download (env u f)) = 0) then 0 else 1)"
proof (induction args arbitrary: rc files rule: arg_pairs.induct)
  case (1 url outfile rest)
  have r: "fst (download (env url outfile)) \<in> {0, 1}" by (auto simp: download_def)
  show ?case using 1 r by (auto simp: case_prod_unfold)
qed auto

text \<open>
  The download tool reports success exactly when every pair of its arguments was downloaded, where a
  transfer that breaks off counts as downloaded with what arrived; a last argument without a file is ignored.
\<close>

theorem dl_exit_status:
  assumes "2 \<le> length args"
  shows "fst (dl_main env args files) = 0 \<longleftrightarrow>
     (\<forall>(u, f) \<in> set (arg_pairs args). dl_crack (env u f) \<and> dl_open (env u f) \<and> dl_connect (env u f) \<and> dl_request (env u f) \<and>
        dl_send (env u f) \<and> dl_status (env u f) = 200 \<and> dl_fopen (env u f))"
proof -
  have "fst (download e) = 0 \<longleftrightarrow> dl_crack e \<and> dl_open e \<and> dl_connect e \<and> dl_request e \<and> dl_send e \<and> dl_status e = 200 \<and> dl_fopen e" for e
    by (auto simp: download_def)
  then show ?thesis using assms dl_loop_rc [of 0 env args files] by (auto simp: dl_main_def case_prod_unfold)
qed

text \<open>Relaxing sets the test-signing option, clears the enabled one and leaves the others.\<close>

lemma relax_ci_options:
  assumes "ci_ntdll env" "ci_procs env" "NT_SUCCESS (ci_query env)" "NT_SUCCESS (ci_set env)"
  shows "bit (ci_options (snd (relax_ci env s))) k \<longleftrightarrow> (k = 1 \<or> k \<noteq> 0 \<and> bit (ci_options s) k)"
proof -
  have o: "ci_options (snd (relax_ci env s)) = (ci_options s AND NOT 1) OR 2"
    using assms by (simp add: relax_ci_def Let_def CODEINTEGRITY_OPTION_ENABLED_def CODEINTEGRITY_OPTION_TESTSIGN_def)
  have two: "bit (2 :: u32) k \<longleftrightarrow> k = 1" using bit_exp_iff [of 1 k, where 'a = u32] by auto
  show ?thesis unfolding o by (auto simp: bit_simps two dest: bit_imp_le_length)
qed

end
