(* ===== verification/HD_Gateway.thy ===== *)
theory HD_Gateway
  imports HD_Prelude "HOL-Library.List_Lexorder" "HOL-Library.Char_ord" "HOL-Library.Multiset"
begin

text \<open>
  The API gateway, \<^verbatim>\<open>server/api_gateway/src/main.rs\<close>: the reports of booting machines, kept in a list
  behind a mutex, and the requests on them. The clock, the start time, the order in which a hash map gives
  its values, and JSON and HTTP, which the framework handles, are parameters or left out. No handler panics
  while it holds the mutex, so it is never poisoned.
\<close>

section \<open>State and requests\<close>

record BootReport =
  br_boot_id :: string
  br_machine_id :: string
  br_mac :: string
  br_phase :: string
  br_duration_ms :: u32
  br_result :: string
  br_timestamp :: "string option"

record BootReportResponse =
  rsp_accepted :: bool
  rsp_boot_id :: string

record HealthResponse =
  hr_status :: string
  hr_version :: string
  hr_uptime_seconds :: u64

definition health_handler :: "string \<Rightarrow> u64 \<Rightarrow> HealthResponse" where
  "health_handler version elapsed = \<lparr>hr_status = ''ok'', hr_version = version, hr_uptime_seconds = elapsed\<rparr>"

text \<open>The list handlers have no data yet.\<close>

definition list_images :: "unit list" where "list_images = []"
definition list_terminals :: "unit list" where "list_terminals = []"

definition stamped :: "string \<Rightarrow> BootReport \<Rightarrow> BootReport" where
  "stamped now report = (if br_timestamp report = None then report\<lparr>br_timestamp := Some now\<rparr> else report)"

definition boot_report_handler :: "string \<Rightarrow> BootReport \<Rightarrow> BootReport list \<Rightarrow> BootReportResponse \<times> BootReport list" where
  "boot_report_handler now report reports =
     (let report = stamped now report; reports = reports @ [report] in
      (\<lparr>rsp_accepted = True, rsp_boot_id = br_boot_id report\<rparr>,
       if 10000 < length reports then drop 1000 reports else reports))"

definition boot_sessions_handler :: "BootReport list \<Rightarrow> nat \<times> BootReport list" where
  "boot_sessions_handler reports = (length reports, reports)"

definition boot_sessions_clear_handler :: "BootReport list \<Rightarrow> (nat \<times> nat) \<times> BootReport list" where
  "boot_sessions_clear_handler reports = ((length reports, 0), [])"

section \<open>Statistics\<close>

record BootStats =
  bs_machines :: nat
  bs_boots :: nat
  bs_success :: nat
  bs_failed :: nat
  bs_avg_duration_ms :: u64
  bs_min_duration_ms :: u32
  bs_max_duration_ms :: u32

text \<open>The variables of the loop.\<close>

record stats_acc =
  sa_machines :: "string list"
  sa_success :: nat
  sa_failed :: nat
  sa_total :: u64
  sa_min :: u32
  sa_max :: u32

definition is_success :: "string \<Rightarrow> bool" where
  "is_success s \<longleftrightarrow> s = ''ok'' \<or> s = ''success''"

definition stats_step :: "stats_acc \<Rightarrow> BootReport \<Rightarrow> stats_acc" where
  "stats_step a r =
     \<lparr>sa_machines = List.insert (br_machine_id r) (sa_machines a),
      sa_success = (if is_success (br_result r) then sa_success a + 1 else sa_success a),
      sa_failed = (if is_success (br_result r) then sa_failed a else sa_failed a + 1),
      sa_total = sa_total a + ucast (br_duration_ms r),
      sa_min = (if br_duration_ms r < sa_min a then br_duration_ms r else sa_min a),
      sa_max = (if sa_max a < br_duration_ms r then br_duration_ms r else sa_max a)\<rparr>"

definition boot_stats_handler :: "BootReport list \<Rightarrow> BootStats" where
  "boot_stats_handler reports =
     (let a = foldl stats_step \<lparr>sa_machines = [], sa_success = 0, sa_failed = 0, sa_total = 0, sa_min = - 1, sa_max = 0\<rparr> reports;
          boots = length reports in
      \<lparr>bs_machines = length (sa_machines a), bs_boots = boots, bs_success = sa_success a, bs_failed = sa_failed a,
       bs_avg_duration_ms = (if 0 < boots then sa_total a div of_nat boots else 0),
       bs_min_duration_ms = (if boots = 0 then 0 else sa_min a), bs_max_duration_ms = sa_max a\<rparr>)"

section \<open>Machines\<close>

record MachineInfo =
  mi_machine_id :: string
  mi_mac :: string
  mi_boots :: nat
  mi_success :: nat
  mi_failed :: nat
  mi_last_seen :: string
  mi_last_boot_id :: string

definition new_machine :: "BootReport \<Rightarrow> MachineInfo" where
  "new_machine r =
     \<lparr>mi_machine_id = br_machine_id r, mi_mac = br_mac r, mi_boots = 0, mi_success = 0, mi_failed = 0,
      mi_last_seen = [], mi_last_boot_id = []\<rparr>"

definition count_report :: "BootReport \<Rightarrow> MachineInfo \<Rightarrow> MachineInfo" where
  "count_report r m =
     (let m1 = m\<lparr>mi_boots := mi_boots m + 1\<rparr>;
          m2 = (if is_success (br_result r) then m1\<lparr>mi_success := mi_success m1 + 1\<rparr> else m1\<lparr>mi_failed := mi_failed m1 + 1\<rparr>)
      in (case br_timestamp r of
            None \<Rightarrow> m2
          | Some ts \<Rightarrow> if mi_last_seen m2 < ts then m2\<lparr>mi_last_seen := ts, mi_last_boot_id := br_boot_id r\<rparr> else m2))"

text \<open>The hash map as the list of its entries, in the order of first use.\<close>

fun machine_entry :: "BootReport \<Rightarrow> MachineInfo list \<Rightarrow> MachineInfo list" where
  "machine_entry r [] = [count_report r (new_machine r)]"
| "machine_entry r (m # ms) = (if mi_machine_id m = br_machine_id r then count_report r m # ms else m # machine_entry r ms)"

text \<open>\<open>into_values\<close> gives the values of the map in the order the hash map has; the sort is stable.\<close>

definition boot_machines_handler :: "(MachineInfo list \<Rightarrow> MachineInfo list) \<Rightarrow> BootReport list \<Rightarrow> MachineInfo list" where
  "boot_machines_handler into_values reports =
     sort_key (\<lambda>m. - int (mi_boots m)) (into_values (foldl (\<lambda>ms r. machine_entry r ms) [] reports))"

section \<open>The gateway as a sequence of requests\<close>

datatype gateway_request = GetHealth | GetSessions | GetStats | GetMachines | PostReport string BootReport | PostClear

definition gateway_step :: "BootReport list \<Rightarrow> gateway_request \<Rightarrow> BootReport list" where
  "gateway_step reports req =
     (case req of PostReport now r \<Rightarrow> snd (boot_report_handler now r reports)
      | PostClear \<Rightarrow> snd (boot_sessions_clear_handler reports) | _ \<Rightarrow> reports)"

text \<open>The reports posted since the last clear.\<close>

definition posted_step :: "BootReport list \<Rightarrow> gateway_request \<Rightarrow> BootReport list" where
  "posted_step p req = (case req of PostReport now r \<Rightarrow> p @ [stamped now r] | PostClear \<Rightarrow> [] | _ \<Rightarrow> p)"

definition posted :: "gateway_request list \<Rightarrow> BootReport list" where
  "posted reqs = foldl posted_step [] reqs"

definition dropped :: "nat \<Rightarrow> nat" where
  "dropped n = 1000 * ((n - 9001) div 1000)"

lemma dropped_Suc: "dropped (Suc n) = (if 10000 < Suc n - dropped n then dropped n + 1000 else dropped n)"
proof (cases "n < 9001")
  case True
  then show ?thesis by (simp add: dropped_def)
next
  case False
  then obtain m where n: "n = 9001 + m" using le_Suc_ex by (metis not_less)
  define q where "q = m div 1000"
  have m: "m = 1000 * q + m mod 1000" "m mod 1000 < 1000" by (simp_all add: q_def)
  have s: "Suc m div 1000 = (if m mod 1000 = 999 then q + 1 else q)" by (simp add: q_def div_Suc mod_Suc)
  have "Suc (9001 + m) - 1000 * q = 9002 + m mod 1000" using m(1) by linarith
  then show ?thesis using m(2) s by (auto simp: dropped_def n q_def [symmetric])
qed

lemma dropped_le: "dropped n \<le> n"
  by (simp add: dropped_def)

lemma posted_snoc: "posted (reqs @ [req]) = posted_step (posted reqs) req"
  by (simp add: posted_def)

lemma report_drops:
  "snd (boot_report_handler now r (drop (dropped (length p)) p)) = drop (dropped (Suc (length p))) (p @ [stamped now r])"
proof -
  have "Suc (length p - dropped (length p)) = Suc (length p) - dropped (length p)" using dropped_le [of "length p"] by linarith
  moreover have "drop (dropped (length p)) p @ [stamped now r] = drop (dropped (length p)) (p @ [stamped now r])"
    using dropped_le [of "length p"] by simp
  ultimately show ?thesis
    by (simp only: boot_report_handler_def Let_def snd_conv length_append length_drop list.size add_0 add_Suc_right add_0_right
        dropped_Suc drop_drop add.commute [of 1000] if_distrib [of "\<lambda>k. drop k (p @ [stamped now r])"])
qed

lemma gateway_holds: "foldl gateway_step [] reqs = drop (dropped (length (posted reqs))) (posted reqs)"
proof (induction reqs rule: rev_induct)
  case (snoc req reqs)
  then show ?case
    by (cases req) (simp_all add: gateway_step_def posted_snoc posted_step_def report_drops boot_sessions_clear_handler_def)
qed (simp add: posted_def)

lemma gateway_length: "length (foldl gateway_step [] reqs) \<le> 10000"
proof -
  let ?n = "length (posted reqs)"
  have "?n \<le> dropped ?n + 10000"
    using mod_less_divisor [of 1000 "?n - 9001"] minus_mod_eq_mult_div [of "?n - 9001" 1000] unfolding dropped_def by linarith
  then show ?thesis by (simp add: gateway_holds)
qed

section \<open>The statistics\<close>

definition stats_zero :: stats_acc where
  "stats_zero = \<lparr>sa_machines = [], sa_success = 0, sa_failed = 0, sa_total = 0, sa_min = - 1, sa_max = 0\<rparr>"

lemma stats_counts:
  "distinct (sa_machines (foldl stats_step stats_zero rs))"
  "set (sa_machines (foldl stats_step stats_zero rs)) = br_machine_id ` set rs"
  "sa_success (foldl stats_step stats_zero rs) = length (filter (\<lambda>r. is_success (br_result r)) rs)"
  "sa_failed (foldl stats_step stats_zero rs) = length (filter (\<lambda>r. \<not> is_success (br_result r)) rs)"
  "sa_total (foldl stats_step stats_zero rs) = of_nat (\<Sum>r \<leftarrow> rs. unat (br_duration_ms r))"
  by (induction rs rule: rev_induct) (auto simp: stats_zero_def stats_step_def)

lemma stats_step_min_max:
  "sa_min (stats_step a r) = min (br_duration_ms r) (sa_min a)" "sa_max (stats_step a r) = max (br_duration_ms r) (sa_max a)"
  by (auto simp: stats_step_def min_def max_def)

lemma stats_min_max:
  assumes "rs \<noteq> []"
  shows "sa_min (foldl stats_step stats_zero rs) = Min (br_duration_ms ` set rs)"
    "sa_max (foldl stats_step stats_zero rs) = Max (br_duration_ms ` set rs)"
  using assms
  by (induction rs rule: rev_nonempty_induct) (simp_all add: stats_zero_def stats_step_min_max min_absorb1 max_absorb1)

lemma duration_sum: "(\<Sum>r \<leftarrow> rs. unat (br_duration_ms r)) \<le> 2 ^ 32 * length rs"
proof (induction rs)
  case (Cons r rs)
  then show ?case using unat_less_u32 [of "br_duration_ms r"] by simp
qed simp

lemma stats_average:
  assumes "length rs \<le> 10000"
  shows "unat (bs_avg_duration_ms (boot_stats_handler rs)) = (\<Sum>r \<leftarrow> rs. unat (br_duration_ms r)) div length rs"
proof -
  let ?s = "\<Sum>r \<leftarrow> rs. unat (br_duration_ms r)"
  have "?s < 2 ^ 64" "length rs < 2 ^ 64" using duration_sum [of rs] assms by simp_all
  then have "unat (of_nat ?s :: u64) = ?s" "unat (of_nat (length rs) :: u64) = length rs" by (simp_all add: unat_of_nat)
  then show ?thesis by (simp add: boot_stats_handler_def Let_def stats_zero_def [symmetric] stats_counts unat_div_distrib)
qed

section \<open>The machines\<close>

lemma count_report_id [simp]: "mi_machine_id (count_report r m) = mi_machine_id m"
  and count_report_boots [simp]: "mi_boots (count_report r m) = Suc (mi_boots m)"
  by (simp_all add: count_report_def Let_def split: option.split)

lemma machine_entry_ids:
  "List.map mi_machine_id (machine_entry r ms) =
     (if br_machine_id r \<in> mi_machine_id ` set ms then List.map mi_machine_id ms else List.map mi_machine_id ms @ [br_machine_id r])"
  by (induction r ms rule: machine_entry.induct) (auto simp: new_machine_def)

lemma machine_entry_find:
  "find (\<lambda>m. mi_machine_id m = i) (machine_entry r ms) =
     (if i = br_machine_id r
      then Some (count_report r (case find (\<lambda>m. mi_machine_id m = i) ms of None \<Rightarrow> new_machine r | Some m \<Rightarrow> m))
      else find (\<lambda>m. mi_machine_id m = i) ms)"
  by (induction r ms rule: machine_entry.induct) (auto simp: new_machine_def)

lemma machine_entry_boots:
  "sum_list (List.map mi_boots (machine_entry r ms)) = Suc (sum_list (List.map mi_boots ms))"
  by (induction r ms rule: machine_entry.induct) (auto simp: new_machine_def)

text \<open>The time stamps a machine was seen at, and the summary of a list of reports for one machine.\<close>

definition seen :: "BootReport list \<Rightarrow> string \<Rightarrow> string set" where
  "seen rs i = set (List.map_filter (\<lambda>r. if br_machine_id r = i then br_timestamp r else None) rs)"

definition machine_ok :: "BootReport list \<Rightarrow> MachineInfo \<Rightarrow> bool" where
  "machine_ok rs m \<longleftrightarrow>
     (let mine = filter (\<lambda>r. br_machine_id r = mi_machine_id m) rs in
      mi_boots m = length mine \<and> mi_success m = length (filter (\<lambda>r. is_success (br_result r)) mine) \<and>
      mi_failed m = length (filter (\<lambda>r. \<not> is_success (br_result r)) mine) \<and> mi_last_seen m = Max (insert [] (seen rs (mi_machine_id m))))"

lemma seen_finite [simp]: "finite (seen rs i)"
  by (simp add: seen_def)

lemma seen_snoc:
  "seen (rs @ [r]) i = (if br_machine_id r = i then (case br_timestamp r of None \<Rightarrow> seen rs i | Some ts \<Rightarrow> insert ts (seen rs i)) else seen rs i)"
  by (auto simp: seen_def List.map_filter_def split: option.splits)

lemma last_seen_count:
  "mi_last_seen (count_report r m) = (case br_timestamp r of None \<Rightarrow> mi_last_seen m | Some ts \<Rightarrow> max ts (mi_last_seen m))"
  by (auto simp: count_report_def Let_def max_def split: option.split)

lemma machine_ok_other: "machine_ok rs m \<Longrightarrow> mi_machine_id m \<noteq> br_machine_id r \<Longrightarrow> machine_ok (rs @ [r]) m"
  by (auto simp: machine_ok_def Let_def seen_snoc)

lemma machine_ok_count:
  assumes "machine_ok rs m" "mi_machine_id m = br_machine_id r"
  shows "machine_ok (rs @ [r]) (count_report r m)"
proof -
  have "mi_last_seen (count_report r m) = Max (insert [] (seen (rs @ [r]) (mi_machine_id m)))"
    using assms by (auto simp: machine_ok_def Let_def last_seen_count seen_snoc insert_commute split: option.split)
  moreover have "mi_success (count_report r m) = (if is_success (br_result r) then Suc (mi_success m) else mi_success m)"
    "mi_failed (count_report r m) = (if is_success (br_result r) then mi_failed m else Suc (mi_failed m))"
    by (simp_all add: count_report_def Let_def split: option.split)
  ultimately show ?thesis using assms by (simp add: machine_ok_def Let_def)
qed

lemma machine_ok_new: "br_machine_id r \<notin> br_machine_id ` set rs \<Longrightarrow> machine_ok rs (new_machine r)"
proof -
  assume a: "br_machine_id r \<notin> br_machine_id ` set rs"
  then have f: "filter (\<lambda>x. br_machine_id x = br_machine_id r) rs = []"
    by (induction rs) auto
  have "seen rs (br_machine_id r) = {}"
    using a by (induction rs) (auto simp: seen_def)
  then show ?thesis by (simp add: machine_ok_def new_machine_def f)
qed

abbreviation machine_map :: "BootReport list \<Rightarrow> MachineInfo list" where
  "machine_map rs \<equiv> foldl (\<lambda>ms r. machine_entry r ms) [] rs"

lemma machine_map_ids:
  "distinct (List.map mi_machine_id (machine_map rs)) \<and> set (List.map mi_machine_id (machine_map rs)) = br_machine_id ` set rs"
proof (induction rs rule: rev_induct)
  case (snoc r rs)
  then show ?case by (simp add: machine_entry_ids insert_absorb del: set_map) auto
qed simp

lemma machine_map_boots: "sum_list (List.map mi_boots (machine_map rs)) = length rs"
  by (induction rs rule: rev_induct) (simp_all add: machine_entry_boots)

lemma machine_map_find:
  "find (\<lambda>m. mi_machine_id m = i) (machine_map rs) = Some m \<Longrightarrow> machine_ok rs m"
proof (induction rs arbitrary: m i rule: rev_induct)
  case (snoc r rs)
  show ?case
  proof (cases "i = br_machine_id r")
    case True
    show ?thesis
    proof (cases "find (\<lambda>m. mi_machine_id m = i) (machine_map rs)")
      case None
      then have "br_machine_id r \<notin> br_machine_id ` set rs" using machine_map_ids [of rs] True by (force simp: find_None_iff)
      then show ?thesis using snoc.prems True None machine_ok_count [OF machine_ok_new] by (auto simp: machine_entry_find new_machine_def)
    next
      case (Some k)
      then have "mi_machine_id k = i" by (auto simp: find_Some_iff)
      then show ?thesis using snoc.prems True Some machine_ok_count [OF snoc.IH [OF Some]] by (auto simp: machine_entry_find)
    qed
  next
    case False
    then have f: "find (\<lambda>m. mi_machine_id m = i) (machine_map rs) = Some m" using snoc.prems by (simp add: machine_entry_find)
    then have "mi_machine_id m \<noteq> br_machine_id r" using False by (auto simp: find_Some_iff)
    then show ?thesis using machine_ok_other snoc.IH [OF f] by blast
  qed
qed simp

lemma find_distinct: "distinct (List.map f xs) \<Longrightarrow> x \<in> set xs \<Longrightarrow> find (\<lambda>y. f y = f x) xs = Some x"
  by (induction xs) force+

lemma machine_map_ok: "m \<in> set (machine_map rs) \<Longrightarrow> machine_ok rs m"
  using machine_map_find find_distinct machine_map_ids by metis

section \<open>Properties\<close>

text \<open>C17. After any sequence of requests the gateway holds a suffix of the reports posted since the last clear, in
  the order of posting and stamped when the client gave no time: the oldest thousand go whenever the list passes ten
  thousand, so it never has more than that, and at least the latest 9001 are there.\<close>

theorem gateway_keeps_recent:
  "foldl gateway_step [] reqs = drop (1000 * ((length (posted reqs) - 9001) div 1000)) (posted reqs) \<and>
   length (foldl gateway_step [] reqs) \<le> 10000 \<and>
   min (length (posted reqs)) 9001 \<le> length (foldl gateway_step [] reqs)"
proof -
  have "dropped (length (posted reqs)) \<le> length (posted reqs) - 9001" by (simp add: dropped_def)
  then show ?thesis using gateway_length [of reqs] by (auto simp: gateway_holds dropped_def)
qed


text \<open>The machine list, whatever order the hash map gives its values in: every machine that reported is there exactly
  once, with its boots, successes and failures counted exactly and its latest time stamp; the list is in descending order
  of boots, and the boots add up to the reports.\<close>

theorem gateway_machines_exact:
  fixes into_values :: "MachineInfo list \<Rightarrow> MachineInfo list" and reports :: "BootReport list"
  assumes "\<And>ms. mset (into_values ms) = mset ms"
  defines "ms \<equiv> boot_machines_handler into_values reports"
  shows "distinct (List.map mi_machine_id ms) \<and> mi_machine_id ` set ms = br_machine_id ` set reports \<and>
    list_all (machine_ok reports) ms \<and> sorted_wrt (\<lambda>m m'. mi_boots m' \<le> mi_boots m) ms \<and>
    sum_list (List.map mi_boots ms) = length reports"
proof -
  have m: "mset ms = mset (machine_map reports)" by (simp add: ms_def boot_machines_handler_def assms(1))
  then have s: "set ms = set (machine_map reports)" by (rule mset_eq_setD)
  have "mset (List.map f ms) = mset (List.map f (machine_map reports))" for f :: "MachineInfo \<Rightarrow> 'b" by (simp add: m)
  note perm = this
  have "distinct (List.map mi_machine_id ms)" using perm machine_map_ids mset_eq_imp_distinct_iff by metis
  moreover have "sum_list (List.map mi_boots ms) = length reports" using perm machine_map_boots sum_mset_sum_list by metis
  moreover have "sorted (List.map (\<lambda>m. - int (mi_boots m)) ms)" by (simp add: ms_def boot_machines_handler_def)
  then have "sorted_wrt (\<lambda>m m'. mi_boots m' \<le> mi_boots m) ms" by (simp add: sorted_wrt_map)
  ultimately show ?thesis using s machine_map_ids [of reports] machine_map_ok by (auto simp: list_all_iff)
qed

theorem gateway_machines_exact_witness:
  "(\<forall>ms :: MachineInfo list. mset (rev ms) = mset ms) \<and>
   sum_list (List.map mi_boots (boot_machines_handler rev
     [\<lparr>br_boot_id = ''b'', br_machine_id = ''m'', br_mac = [], br_phase = [], br_duration_ms = 7, br_result = ''ok'', br_timestamp = None\<rparr>])) = 1"
  using gateway_machines_exact [of rev
    "[\<lparr>br_boot_id = ''b'', br_machine_id = ''m'', br_mac = [], br_phase = [], br_duration_ms = 7, br_result = ''ok'', br_timestamp = None\<rparr>]"]
  by simp

end
