(* ===== verification/HD_Metadata.thy ===== *)
theory HD_Metadata
  imports HD_Prelude
begin

text \<open>
  The metadata centre, \<^verbatim>\<open>server/metadata_center/src/store.rs\<close> and \<^verbatim>\<open>main.rs\<close>: the index that tells which
  node holds a block. RocksDB is a parameter, a record of its calls over an opaque database state, and what the code
  relies on of it is the predicate \<open>kv_laws\<close>. The lock around the store serialises the requests. The requests on
  images, layers and terminals answer constants.
\<close>

section \<open>The store\<close>

record ('db, 'cf) rocksdb =
  cf_handle :: "'db \<Rightarrow> string \<Rightarrow> 'cf option"
  put_cf :: "'db \<Rightarrow> 'cf \<Rightarrow> u8 list \<Rightarrow> u8 list \<Rightarrow> (string + unit) \<times> 'db"
  get_cf :: "'db \<Rightarrow> 'cf \<Rightarrow> u8 list \<Rightarrow> string + u8 list option"
  delete_cf :: "'db \<Rightarrow> 'cf \<Rightarrow> u8 list \<Rightarrow> (string + unit) \<times> 'db"

definition CF_BLOCK_INDEX :: string where "CF_BLOCK_INDEX = ''cf_block_index''"

definition ALL_CFS :: "string list" where
  "ALL_CFS =
     [CF_BLOCK_INDEX, ''cf_layer_manifest'', ''cf_dna_index'', ''cf_cache_meta'', ''cf_terminal_session'', ''cf_node_registry'']"

definition store_cf :: "('db, 'cf) rocksdb \<Rightarrow> 'db \<Rightarrow> string \<Rightarrow> string + 'cf" where
  "store_cf R db name =
     (case cf_handle R db name of None \<Rightarrow> Inl (''Column family '' @ [CHR 0x27] @ name @ [CHR 0x27] @ '' not found'') | Some cf \<Rightarrow> Inr cf)"

definition store_put :: "('db, 'cf) rocksdb \<Rightarrow> string \<Rightarrow> u8 list \<Rightarrow> u8 list \<Rightarrow> 'db \<Rightarrow> (string + unit) \<times> 'db" where
  "store_put R cf_name key val db =
     (case store_cf R db cf_name of Inl e \<Rightarrow> (Inl e, db) | Inr cf \<Rightarrow> put_cf R db cf key val)"

definition store_get :: "('db, 'cf) rocksdb \<Rightarrow> string \<Rightarrow> u8 list \<Rightarrow> 'db \<Rightarrow> string + u8 list option" where
  "store_get R cf_name key db = (case store_cf R db cf_name of Inl e \<Rightarrow> Inl e | Inr cf \<Rightarrow> get_cf R db cf key)"

definition store_delete :: "('db, 'cf) rocksdb \<Rightarrow> string \<Rightarrow> u8 list \<Rightarrow> 'db \<Rightarrow> (string + unit) \<times> 'db" where
  "store_delete R cf_name key db =
     (case store_cf R db cf_name of Inl e \<Rightarrow> (Inl e, db) | Inr cf \<Rightarrow> delete_cf R db cf key)"

section \<open>The block index\<close>

definition to_be_bytes :: "nat \<Rightarrow> 'a::len word \<Rightarrow> u8 list" where
  "to_be_bytes n x = rev (le_bytes n x)"

definition u32_from_be_bytes :: "u8 list \<Rightarrow> u32" where
  "u32_from_be_bytes bs = le_word 4 (rev bs)"

definition block_key :: "u64 \<Rightarrow> u64 \<Rightarrow> u8 \<Rightarrow> u8 list" where
  "block_key image_id block_offset layer_id = to_be_bytes 8 image_id @ to_be_bytes 8 block_offset @ to_be_bytes 1 layer_id"

definition service_lookup_block :: "('db, 'cf) rocksdb \<Rightarrow> u64 \<Rightarrow> u64 \<Rightarrow> u32 \<Rightarrow> u8 \<Rightarrow> 'db \<Rightarrow> string + u8 list option" where
  "service_lookup_block R image_id block_offset block_count layer_id db =
     store_get R CF_BLOCK_INDEX (block_key image_id block_offset layer_id) db"

definition service_register_block ::
  "('db, 'cf) rocksdb \<Rightarrow> u64 \<Rightarrow> u64 \<Rightarrow> u32 \<Rightarrow> u8 \<Rightarrow> u32 \<Rightarrow> 'db \<Rightarrow> (string + unit) \<times> 'db" where
  "service_register_block R image_id block_offset block_count layer_id node_id db =
     store_put R CF_BLOCK_INDEX (block_key image_id block_offset layer_id) (to_be_bytes 4 node_id) db"

section \<open>The requests\<close>

record LookupBlockRequest =
  lq_image_id :: u64
  lq_block_offset :: u64
  lq_block_count :: u32
  lq_layer_id :: u32

record LookupBlockResponse =
  lr_image_id :: u64
  lr_block_offset :: u64
  lr_block_count :: u32
  lr_node_id :: u32
  lr_cache_hit :: bool

record RegisterBlockRequest =
  rq_image_id :: u64
  rq_block_offset :: u64
  rq_block_count :: u32
  rq_layer_id :: u32
  rq_node_id :: u32

definition lookup_response :: "LookupBlockRequest \<Rightarrow> u32 \<Rightarrow> bool \<Rightarrow> LookupBlockResponse" where
  "lookup_response req node hit =
     \<lparr>lr_image_id = lq_image_id req, lr_block_offset = lq_block_offset req, lr_block_count = lq_block_count req,
      lr_node_id = node, lr_cache_hit = hit\<rparr>"

text \<open>The slice \<^verbatim>\<open>data[..4]\<close> panics when the value is shorter; an error of the store becomes an internal status.\<close>

definition lookup_block :: "('db, 'cf) rocksdb \<Rightarrow> LookupBlockRequest \<Rightarrow> 'db \<Rightarrow> (string + LookupBlockResponse) res" where
  "lookup_block R req db =
     (case service_lookup_block R (lq_image_id req) (lq_block_offset req) (lq_block_count req) (ucast (lq_layer_id req)) db of
        Inl e \<Rightarrow> Inr (Inl e)
      | Inr None \<Rightarrow> Inr (Inr (lookup_response req 0 False))
      | Inr (Some dat) \<Rightarrow>
          if length dat < 4 then Inl OutOfBounds else Inr (Inr (lookup_response req (u32_from_be_bytes (take 4 dat)) True)))"

definition register_block :: "('db, 'cf) rocksdb \<Rightarrow> RegisterBlockRequest \<Rightarrow> 'db \<Rightarrow> (string + bool) \<times> 'db" where
  "register_block R req db =
     (case service_register_block R (rq_image_id req) (rq_block_offset req) (rq_block_count req) (ucast (rq_layer_id req)) (rq_node_id req) db of
        (Inl e, db') \<Rightarrow> (Inl e, db')
      | (Inr _, db') \<Rightarrow> (Inr True, db'))"

text \<open>A sequence of registrations, and the answers.\<close>

fun register_all :: "('db, 'cf) rocksdb \<Rightarrow> RegisterBlockRequest list \<Rightarrow> 'db \<Rightarrow> (string + bool) list \<times> 'db" where
  "register_all R [] db = ([], db)"
| "register_all R (q # qs) db =
     (let (a, db1) = register_block R q db; (as, db2) = register_all R qs db1 in (a # as, db2))"

section \<open>The program\<close>

definition log_filter :: "string \<Rightarrow> string" where
  "log_filter level =
     (if level = ''trace'' then ''hd_metadata_center=trace,info''
      else if level = ''debug'' then ''hd_metadata_center=debug,info'' else ''info'')"

datatype 'e md_exit = Usage | LoadFailed 'e | OpenFailed 'e | BadAddress 'e | Serving string | ServeFailed 'e

text \<open>The reading of the configuration, the opening of the database, the parsing of the address and the server are parameters;
  \<open>serve\<close> gives \<open>None\<close> while the server runs and when it ends without an error. The configuration is what
  \<open>main\<close> uses of it: log level, address and database directory.\<close>

definition metadata_main ::
  "(string \<Rightarrow> 'e + (string \<times> string \<times> string)) \<Rightarrow> (string \<Rightarrow> 'e + 'db) \<Rightarrow> (string \<Rightarrow> 'e + 'addr) \<Rightarrow> ('db \<Rightarrow> 'addr \<Rightarrow> 'e option) \<Rightarrow>
   string list \<Rightarrow> 'e md_exit" where
  "metadata_main load open_db parse_addr serve args =
     (let config_path = (if 1 < length args then args ! 1 else ''--config'') in
      if config_path \<noteq> ''--config'' then Usage
      else let config_file = (if 2 < length args then args ! 2 else ''etc/metadata.toml'') in
        (case load config_file of
           Inl e \<Rightarrow> LoadFailed e
         | Inr (level, listen_addr, data_dir) \<Rightarrow>
             (case open_db data_dir of
                Inl e \<Rightarrow> OpenFailed e
              | Inr db \<Rightarrow>
                  (case parse_addr listen_addr of
                     Inl e \<Rightarrow> BadAddress e
                   | Inr addr \<Rightarrow> (case serve db addr of None \<Rightarrow> Serving (log_filter level) | Some e \<Rightarrow> ServeFailed e)))))"

section \<open>Keys\<close>

lemma length_to_be_bytes [hd_len, simp]: "length (to_be_bytes n x) = n"
  by (simp add: to_be_bytes_def)

lemma to_be_bytes_inj: "LENGTH('a::len) \<le> n * 8 \<Longrightarrow> to_be_bytes n x = to_be_bytes n (y :: 'a word) \<longleftrightarrow> x = y"
  by (auto simp: to_be_bytes_def dest: le_bytes_inj)

lemma block_key_inj: "block_key i b l = block_key i' b' l' \<longleftrightarrow> i = i' \<and> b = b' \<and> l = l'"
  by (simp add: block_key_def to_be_bytes_inj)

lemma u32_be_roundtrip: "u32_from_be_bytes (to_be_bytes 4 x) = x"
  by (simp add: u32_from_be_bytes_def to_be_bytes_def le_word_le_bytes)

section \<open>The index as a map\<close>

text \<open>What a key-value store promises, for some view \<open>contents\<close> of its state: a read that succeeds gives the contents, a write
  that succeeds changes one key of one column family, and column families stay. A failed write promises nothing.\<close>

definition kv_laws :: "('db, 'cf) rocksdb \<Rightarrow> ('db \<Rightarrow> 'cf \<Rightarrow> u8 list \<Rightarrow> u8 list option) \<Rightarrow> bool" where
  "kv_laws R contents \<longleftrightarrow>
     (\<forall>db cf k v. get_cf R db cf k = Inr v \<longrightarrow> v = contents db cf k) \<and>
     (\<forall>db cf k v db'. put_cf R db cf k v = (Inr (), db') \<longrightarrow>
        cf_handle R db' = cf_handle R db \<and> contents db' = (contents db)(cf := (contents db cf)(k \<mapsto> v)))"

text \<open>The specification: a block is an image, an offset and a layer, of which the index keeps the low eight bits.\<close>

type_synonym block_id = "u64 \<times> u64 \<times> u8"

definition reg_block :: "RegisterBlockRequest \<Rightarrow> block_id" where
  "reg_block q = (rq_image_id q, rq_block_offset q, ucast (rq_layer_id q))"

definition reg_spec :: "RegisterBlockRequest \<Rightarrow> (block_id \<rightharpoonup> u32) \<Rightarrow> (block_id \<rightharpoonup> u32)" where
  "reg_spec q m = m(reg_block q \<mapsto> rq_node_id q)"

definition index_rel :: "(u8 list \<Rightarrow> u8 list option) \<Rightarrow> (block_id \<rightharpoonup> u32) \<Rightarrow> bool" where
  "index_rel f m \<longleftrightarrow> (\<forall>i b l. f (block_key i b l) = map_option (to_be_bytes 4) (m (i, b, l)))"

lemma register_block_refines:
  assumes "kv_laws R contents" and cf: "cf_handle R db CF_BLOCK_INDEX = Some cf"
    and "index_rel (contents db cf) m" and "register_block R q db = (Inr ok, db')"
  shows "ok \<and> cf_handle R db' CF_BLOCK_INDEX = Some cf \<and> index_rel (contents db' cf) (reg_spec q m)"
proof -
  let ?k = "block_key (rq_image_id q) (rq_block_offset q) (ucast (rq_layer_id q))"
  have p: "put_cf R db cf ?k (to_be_bytes 4 (rq_node_id q)) = (Inr (), db')" and ok
    using assms(4) cf
    by (auto simp: register_block_def service_register_block_def store_put_def store_cf_def split: sum.splits prod.splits)
  from p assms(1) have "cf_handle R db' = cf_handle R db"
    and "contents db' = (contents db)(cf := (contents db cf)(?k \<mapsto> to_be_bytes 4 (rq_node_id q)))"
    unfolding kv_laws_def by blast+
  then show ?thesis
    using \<open>ok\<close> cf assms(3) by (auto simp: index_rel_def reg_spec_def reg_block_def block_key_inj)
qed

lemma register_all_refines:
  assumes "kv_laws R contents"
  shows "cf_handle R db CF_BLOCK_INDEX = Some cf \<Longrightarrow> index_rel (contents db cf) m \<Longrightarrow>
    register_all R qs db = (as, db') \<Longrightarrow> list_all (\<lambda>a. a = Inr True) as \<Longrightarrow>
    cf_handle R db' CF_BLOCK_INDEX = Some cf \<and> index_rel (contents db' cf) (fold reg_spec qs m)"
proof (induction qs arbitrary: db m as)
  case (Cons q qs)
  obtain a db1 where 1: "register_block R q db = (a, db1)" by fastforce
  obtain bs db2 where 2: "register_all R qs db1 = (bs, db2)" by fastforce
  have a: "a = Inr True" "list_all (\<lambda>a. a = Inr True) bs" "db2 = db'"
    using Cons.prems(3,4) 1 2 by auto
  have "cf_handle R db1 CF_BLOCK_INDEX = Some cf" "index_rel (contents db1 cf) (reg_spec q m)"
    using register_block_refines [OF assms Cons.prems(1,2)] 1 a(1) by auto
  then show ?case using Cons.IH 2 a(2,3) by simp
qed simp

lemma lookup_refines:
  fixes req :: LookupBlockRequest
  assumes "kv_laws R contents" and "cf_handle R db CF_BLOCK_INDEX = Some cf" and "index_rel (contents db cf) m"
  defines "key \<equiv> block_key (lq_image_id req) (lq_block_offset req) (ucast (lq_layer_id req))"
    and "entry \<equiv> m (lq_image_id req, lq_block_offset req, ucast (lq_layer_id req))"
  shows "lookup_block R req db =
    (case get_cf R db cf key of Inl e \<Rightarrow> Inr (Inl e)
     | Inr _ \<Rightarrow> Inr (Inr (lookup_response req (case entry of None \<Rightarrow> 0 | Some n \<Rightarrow> n) (entry \<noteq> None))))"
proof (cases "get_cf R db cf key")
  case (Inr v)
  then have "v = map_option (to_be_bytes 4) entry"
    using assms(1,3) unfolding kv_laws_def index_rel_def key_def entry_def by blast
  then show ?thesis
    using Inr assms(2) by (cases entry)
      (simp_all add: lookup_block_def service_lookup_block_def store_get_def store_cf_def key_def u32_be_roundtrip)
qed (use assms(2) in \<open>simp add: lookup_block_def service_lookup_block_def store_get_def store_cf_def key_def\<close>)

lemma fold_reg_spec: "fold reg_spec qs m b = (case find (\<lambda>q. reg_block q = b) (rev qs) of None \<Rightarrow> m b | Some q \<Rightarrow> Some (rq_node_id q))"
  by (induction qs arbitrary: m rule: rev_induct) (auto simp: reg_spec_def)

section \<open>Properties\<close>

text \<open>C16. The block index refines a map from blocks to nodes: after any registrations that succeed on an empty index, a lookup
  answers the node of the latest registration of that image, offset and layer, with no entry reported when there is none; it
  never panics on the value it reads, and an error of the database is passed on. Layers that agree in the low eight bits are
  one layer.\<close>

theorem metadata_latest_registration:
  fixes qs :: "RegisterBlockRequest list" and req :: LookupBlockRequest
  assumes "kv_laws R contents" and "cf_handle R db CF_BLOCK_INDEX = Some cf" and "contents db cf = Map.empty"
    and "register_all R qs db = (answers, db')" and "list_all (\<lambda>a. a = Inr True) answers"
  defines "latest \<equiv> find (\<lambda>q. rq_image_id q = lq_image_id req \<and> rq_block_offset q = lq_block_offset req \<and>
                              (ucast (rq_layer_id q) :: u8) = ucast (lq_layer_id req)) (rev qs)"
  shows "lookup_block R req db' =
    (case get_cf R db' cf (block_key (lq_image_id req) (lq_block_offset req) (ucast (lq_layer_id req))) of
       Inl e \<Rightarrow> Inr (Inl e)
     | Inr _ \<Rightarrow> Inr (Inr (case latest of None \<Rightarrow> lookup_response req 0 False | Some q \<Rightarrow> lookup_response req (rq_node_id q) True)))"
proof -
  have "index_rel (contents db cf) Map.empty" using assms(3) by (simp add: index_rel_def)
  from register_all_refines [OF assms(1,2) this assms(4,5)]
  have "cf_handle R db' CF_BLOCK_INDEX = Some cf" "index_rel (contents db' cf) (fold reg_spec qs Map.empty)" by simp_all
  from lookup_refines [OF assms(1) this] show ?thesis
    by (simp add: fold_reg_spec latest_def reg_block_def split: sum.split option.split)
qed

definition mem_rocksdb :: "(u8 list \<rightharpoonup> u8 list, unit) rocksdb" where
  "mem_rocksdb =
     \<lparr>cf_handle = (\<lambda>db name. if name \<in> set ALL_CFS then Some () else None), put_cf = (\<lambda>db cf k v. (Inr (), db(k \<mapsto> v))),
      get_cf = (\<lambda>db cf k. Inr (db k)), delete_cf = (\<lambda>db cf k. (Inr (), db(k := None)))\<rparr>"

theorem metadata_latest_registration_witness:
  "kv_laws mem_rocksdb (\<lambda>db cf. db) \<and>
   lookup_block mem_rocksdb \<lparr>lq_image_id = 1, lq_block_offset = 8, lq_block_count = 4, lq_layer_id = 2\<rparr>
     (snd (register_all mem_rocksdb
       [\<lparr>rq_image_id = 1, rq_block_offset = 8, rq_block_count = 4, rq_layer_id = 2, rq_node_id = 7\<rparr>,
        \<lparr>rq_image_id = 1, rq_block_offset = 8, rq_block_count = 4, rq_layer_id = 258, rq_node_id = 9\<rparr>] Map.empty)) =
   Inr (Inr \<lparr>lr_image_id = 1, lr_block_offset = 8, lr_block_count = 4, lr_node_id = 9, lr_cache_hit = True\<rparr>)"
proof -
  let ?qs = "[\<lparr>rq_image_id = 1, rq_block_offset = 8, rq_block_count = 4, rq_layer_id = 2, rq_node_id = 7\<rparr>,
              \<lparr>rq_image_id = 1, rq_block_offset = 8, rq_block_count = 4, rq_layer_id = 258, rq_node_id = 9\<rparr>]"
  have k: "kv_laws mem_rocksdb (\<lambda>db cf. db)" by (auto simp: kv_laws_def mem_rocksdb_def fun_eq_iff)
  have h: "cf_handle mem_rocksdb Map.empty CF_BLOCK_INDEX = Some ()" by (simp add: mem_rocksdb_def ALL_CFS_def)
  have "list_all (\<lambda>a. a = Inr True) (fst (register_all mem_rocksdb ?qs Map.empty))"
    by (simp add: register_block_def service_register_block_def store_put_def store_cf_def mem_rocksdb_def ALL_CFS_def)
  note m = metadata_latest_registration [where qs = ?qs and req = "\<lparr>lq_image_id = 1, lq_block_offset = 8, lq_block_count = 4, lq_layer_id = 2\<rparr>",
      OF k h _ prod.collapse [symmetric] this]
  have "get_cf mem_rocksdb db () key = Inr (db key)" for db key by (simp add: mem_rocksdb_def)
  with m k show ?thesis by (simp add: lookup_response_def del: register_all.simps)
qed

end
