(* ===== verification/Spec2Isabelle.thy ===== *)
theory Spec2Isabelle
  imports HD_Crc32c HD_FrameCodec HD_Protocol HD_Serial HD_Net HD_NetEntry HD_Recovery7b HD_IrpTracker HD_BlkDriver HD_BlkLocks HD_DiskIoctl HD_PnpDisk HD_WdmDisk HD_Bus HD_StorPort HD_Filters HD_FilterEntry HD_WalRefine HD_TinyLFU HD_Caches HD_ImageService HD_NetState HD_BootMeta HD_BootDiag HD_BlackBox HD_Replay HD_BootAgent HD_BootTrace HD_Registry HD_Tools HD_Gateway HD_Metadata
begin

text \<open>
  \<^bold>\<open>HyperDisk\<close>: a verification library for the diskless-boot system under \<^verbatim>\<open>src/\<close>.

  \<^bold>\<open>The system.\<close> A machine without a disk starts a boot agent (\<^verbatim>\<open>client/boot_agent\<close>), which finds the server by DHCP,
  downloads a script over HTTP, fetches and checks the boot metadata and records what it does in a black box. Windows
  then runs on disks that exist only as drivers (\<^verbatim>\<open>driver/\<close>): block, bus, network and filter drivers exchange request
  packets with the kernel and frames with the image server (\<^verbatim>\<open>server/image_server\<close>). Client services cache blocks
  (\<^verbatim>\<open>client/smart_cache\<close>), log writes ahead (\<^verbatim>\<open>client/overlay_mgr\<close>) and reconnect (\<^verbatim>\<open>client/disk_runtime\<close>); tools
  diagnose a boot and replay its I/O (\<^verbatim>\<open>tools/\<close>); services in Rust keep the boot reports and the index of blocks.

  \<^bold>\<open>How the code is modelled.\<close> A struct or class is a record with the members of the source, an enum a datatype, an unsigned
  integer a word of its width, an unordered map an association list with distinct keys. A function or method is one
  definition, which takes the state and returns it updated. Reads and writes of buffers are checked: what is undefined in
  C, a division by zero, a null pointer or a panic is a value of \<^typ>\<open>fault\<close>, so a theorem that gives \<^const>\<open>Inr\<close>
  shows that none occurs. The operating system, the network, the heap, clocks and hash orders are parameters; what is relied
  on of them is a hypothesis. Locks that serialise the operations of an object make a run a sequence of operations.

  \<^bold>\<open>Foundations.\<close>
  \<^item> \<open>HD_Prelude\<close>: machine types, status codes, faults, checked memory, little-endian layout; \<open>HD_CString\<close>: the string
    functions the sources use; \<open>HD_Assoc\<close>: association lists; \<open>HD_Posix\<close>: files under an environment that may fail or
    cut short any call; \<open>HD_Irp\<close>: request packets and the rule that each is completed or passed on once.
  \<^item> \<open>HD_Crc32c\<close>: the six copies of CRC-32C in the sources interpret one interface, \<open>crc_routine\<close>: they agree with the
    polynomial definition, and detect every error within four bytes.

  \<^bold>\<open>On the wire.\<close>
  \<^item> \<open>HD_FrameLayout\<close>, \<open>HD_FrameCodec\<close>, \<open>HD_Protocol\<close> (\<^verbatim>\<open>client/common/hd_frame_codec\<close>, \<^verbatim>\<open>client/include/hd_protocol.h\<close>):
    headers, frames and messages are read back as written; decoding received bytes never leaves a buffer.
  \<^item> \<open>HD_Net\<close>, \<open>HD_NetEntry\<close> (\<^verbatim>\<open>driver/net\<close>): the table of connections keeps its count exact and interprets
    \<open>slot_table\<close>; the driver's frames. This theory shows that the frames of driver and client exclude each other.
  \<^item> \<open>HD_NetState\<close> (\<^verbatim>\<open>client/disk_runtime/network_state_machine\<close>): the transitions that can occur; when every
    attempt fails, a client of one server goes offline after the configured number of attempts, and one of several never.

  \<^bold>\<open>Drivers.\<close>
  \<^item> \<open>HD_Serial\<close> (\<^verbatim>\<open>driver/common/hd_serial\<close>): the ring of the serial log holds the last 4095 bytes (\<open>bounded_log\<close>);
    \<open>HD_Registry\<close>: reading of values.
  \<^item> \<open>HD_IrpTracker\<close>, \<open>HD_BlkDriver\<close>, \<open>HD_BlkLocks\<close>, \<open>HD_Recovery7b\<close> (\<^verbatim>\<open>driver/blk/blk_*\<close>): exact counts and single
    completion of requests, the watchdog, freedom of deadlock of the lock callbacks, the recovery ladder.
  \<^item> \<open>HD_DiskIoctl\<close>, \<open>HD_PnpDisk\<close>, \<open>HD_WdmDisk\<close>, \<open>HD_Bus\<close>: three drivers interpret the contract \<open>disk_control\<close> of a
    device-control handler, from which this theory shows that none writes past the caller's buffer; the life cycle of a
    device and the identifiers of the children of the bus.
  \<^item> \<open>HD_StorPort\<close>: SCSI answers; \<open>HD_Filters\<close>, \<open>HD_FilterEntry\<close>: accounting of the overlay, and that the filters as
    registered pass every request on.

  \<^bold>\<open>Client services.\<close>
  \<^item> \<open>HD_WalEntry\<close>, \<open>HD_WalLog\<close>, \<open>HD_WalRefine\<close> (\<^verbatim>\<open>client/overlay_mgr/wal_enhanced\<close>): entries detect damage, what was acknowledged
    survives a crash, and the manager refines an append-only list.
  \<^item> \<open>HD_TinyLFU\<close>, \<open>HD_Caches\<close>: bounds of the frequency sketch and what the cache evicts; the L1 and L3 caches and the RAM
    overlay interpret \<open>block_cache\<close>, and the L3 cache evicts in the order of last use.
  \<^item> \<open>HD_BootMeta\<close>, \<open>HD_BootCom1\<close>, \<open>HD_Dhcp\<close>, \<open>HD_HttpBoot\<close>, \<open>HD_BlackBox\<close>, \<open>HD_BootAgent\<close>: the boot agent composed of its
    clients. Its run ends, with the result its environment determines, and the phases it recorded are those the analyzer
    of the black box reports. \<open>HD_BootTrace\<close>: the trace of boot I/O.

  \<^bold>\<open>Tools and servers.\<close>
  \<^item> \<open>HD_DiagChecks\<close>, \<open>HD_BootDiag\<close> (\<^verbatim>\<open>tools/bootdiag\<close>): the seven checks, the retries and the verdict; \<open>HD_Replay\<close>: the
    replay recorder and its analyzer; \<open>HD_Tools\<close>: the download and driver loading tools.
  \<^item> \<open>HD_ImageService\<close>: a block is read as it was written; \<open>HD_Gateway\<close>: the reports the API gateway keeps, and exact
    statistics; \<open>HD_Metadata\<close>: the block index refines a map.

  \<^bold>\<open>Loops and bounds.\<close> No definition has fuel. A loop whose length the data bounds is a recursion with a measure. Six loops that may run
  forever are options, where \<^const>\<open>None\<close> is not returning: the shutdown of the block driver, the retries of the
  diagnosis, the plug-and-play dispatch of the bus, the halt of the recovery, the dump of the serial log and the reading of a
  log segment; the theorems on them say when they return. The sizes are those of the sources (64 connections, 4095 bytes, 65536
  events, 10000 reports).

  \<^bold>\<open>Not modelled.\<close>
  \<^item> Floating point: hit rates, average latencies and the product of the back-off are parameters or left out of the
    reports, since what they compute is not stated by the sources beyond the operation.
  \<^item> Interleavings inside an operation on relaxed atomic variables (\<^verbatim>\<open>hd_boot_trace.cpp\<close>, the counters of the caches): the
    operations are taken one at a time.
  \<^item> Services without behaviour: \<^verbatim>\<open>server/dna_service\<close>, \<^verbatim>\<open>server/update_service\<close> and the files of \<^verbatim>\<open>client/\<close> and
    \<^verbatim>\<open>server/\<close> that are single lines or empty classes return constants; \<^verbatim>\<open>server/image_server/main.cpp\<close> and
    \<^verbatim>\<open>server/cache_engine/main.cpp\<close> construct a service and sleep.
  \<^item> Wrappers of one kernel call (\<^verbatim>\<open>hd_memory.c\<close>, \<^verbatim>\<open>hd_lock.c\<close>, \<^verbatim>\<open>hd_debug.c\<close>), destructors that only close a handle,
    the texts of usage and trace messages, and deployment files.
\<close>

section \<open>The driver and the client on one wire\<close>

text \<open>A codec looks at the magic number before it accepts anything.\<close>

lemma DecodeFrame_magic:
  assumes "DecodeFrame buf len h0 q mx l0 = Inr (ok, r)" and "(le_word 4 buf :: u32) \<noteq> FRAME_MAGIC"
  shows "\<not> ok"
proof (rule ccontr)
  assume "\<not> \<not> ok"
  then have c: "\<not> len < FRAME_HDR_SIZE" using assms(1) by (auto simp: DecodeFrame_def)
  then obtain hb where hb: "mem_read buf 0 (unat FRAME_HDR_SIZE) = Inr hb"
    using assms(1) by (cases "mem_read buf 0 (unat FRAME_HDR_SIZE)") (auto simp: DecodeFrame_def)
  then have "hb = take 40 buf" by (auto simp: mem_read_def split: if_splits)
  then have "fh_magic (frame_of_bytes hb) \<noteq> FRAME_MAGIC" using assms(2) by (simp add: frame_of_bytes_def le_word_take)
  then have "\<not> ValidateHeader (frame_of_bytes hb)" by (simp add: ValidateHeader_iff)
  then show False using assms(1) c hb \<open>\<not> \<not> ok\<close> by (simp add: DecodeFrame_def)
qed

lemma Deserialize_magic:
  assumes "HdNetDeserializeFrame (Some fr) len (Some h) pl pln = Inr (st, r)" and "(le_word 4 fr :: u32) \<noteq> HD_MAGIC"
  shows "st = STATUS_INVALID_PARAMETER \<or> st = STATUS_DATA_NOT_ACCEPTED"
proof (cases "len < HD_NET_FRAME_HDR_SIZE")
  case True
  then show ?thesis using assms(1) by (simp add: HdNetDeserializeFrame_def)
next
  case False
  then obtain hb where hb: "mem_read fr 0 (unat HD_NET_FRAME_HDR_SIZE) = Inr hb"
    using assms(1) by (cases "mem_read fr 0 (unat HD_NET_FRAME_HDR_SIZE)") (auto simp: HdNetDeserializeFrame_def)
  then have "hb = take 32 fr" by (auto simp: mem_read_def HD_NET_FRAME_HDR_SIZE_def split: if_splits)
  then have "(le_word 4 hb :: u32) \<noteq> HD_MAGIC" using assms(2) by (simp add: le_word_take)
  then show ?thesis using assms(1) False hb by (simp add: HdNetDeserializeFrame_def Let_def)
qed

lemma le_word_frame_bytes: "le_word 4 (frame_bytes h) = fh_magic h"
  using arg_cong [OF frame_of_frame_bytes [of h], of fh_magic] by (simp add: frame_of_bytes_def)

lemma mem_write_front: "mem_write buf 0 bs = Inr buf' \<Longrightarrow> take (length bs) buf' = bs"
  by (auto simp: mem_write_def split: if_splits)

lemma mem_write_behind: "mem_write buf off bs = Inr buf' \<Longrightarrow> n \<le> off \<Longrightarrow> take n buf' = take n buf"
  by (auto simp: mem_write_def min_absorb1 split: if_splits)

lemma magic_of_prefix:
  assumes "take 32 buf = take 32 (frame_bytes h)"
  shows "le_word 4 buf = fh_magic h"
proof -
  have "(le_word 4 (take 32 buf) :: u32) = le_word 4 buf" "(le_word 4 (take 32 (frame_bytes h)) :: u32) = le_word 4 (frame_bytes h)"
    by (simp_all add: le_word_take)
  then show ?thesis using assms by (simp add: le_word_frame_bytes)
qed

lemma Serialize_magic:
  assumes "HdNetSerializeFrame (Some hdr) p (Some out) (Some l) = Inr (st, Some out', l')"
  shows "le_word 4 out' = fh_magic hdr"
proof -
  obtain out1 where 1: "mem_write out 0 (take 32 (frame_bytes hdr)) = Inr out1"
    using assms by (cases "mem_write out 0 (take 32 (frame_bytes hdr))") (auto simp: HdNetSerializeFrame_def HD_NET_FRAME_HDR_SIZE_def Let_def)
  then have t: "take 32 out1 = take 32 (frame_bytes hdr)" using mem_write_front [OF 1] by simp
  have "take 32 out' = take 32 out1"
    using assms 1
    by (auto simp: HdNetSerializeFrame_def HD_NET_FRAME_HDR_SIZE_def Let_def rbind_Inr_iff split: option.splits if_splits
        intro: mem_write_behind)
  with t show ?thesis by (intro magic_of_prefix) simp
qed

lemma Encode_magic:
  assumes "EncodeFrame buffer n hdr p pn = Inr (True, buf, t)"
  shows "le_word 4 buf = fh_magic hdr"
proof -
  have c: "\<not> n < FRAME_HDR_SIZE + pn" using assms by (auto simp: EncodeFrame_def Let_def)
  then obtain buf1 where 1: "mem_write buffer 0 (frame_bytes hdr) = Inr buf1"
    using assms by (cases "mem_write buffer 0 (frame_bytes hdr)") (auto simp: EncodeFrame_def Let_def)
  have f: "take 40 buf1 = frame_bytes hdr" using mem_write_front [OF 1] by simp
  have "take 32 buf = take 32 buf1"
    using assms c 1
    by (auto simp: EncodeFrame_def Let_def rbind_Inr_iff split: option.splits if_splits intro: mem_write_behind)
  also have "\<dots> = take 32 (take 40 buf1)" by simp
  also have "\<dots> = take 32 (frame_bytes hdr)" unfolding f by (rule refl)
  finally show ?thesis by (rule magic_of_prefix)
qed

text \<open>C14. The network driver and the client codec reject each other: no block request or heartbeat that the driver builds and
  serialises is accepted by the client's decoder, and no frame the client encodes is accepted by the driver, whose answer is that the
  data is not accepted or, for fewer than 32 bytes, that the parameter is invalid. Their magic numbers differ.\<close>

theorem driver_and_client_reject_each_other:
  assumes "HdNetSendBlockRequest ext i req n = (s1, ext1, Some hdr) \<or> HdNetSendHeartbeat ext i tid = (s1, ext1, Some hdr)"
    and "HdNetSerializeFrame (Some hdr) p (Some out) (Some l) = Inr (s2, Some out', l')"
    and "DecodeFrame out' len h0 q mx l0 = Inr (ok, r)"
    and "EncodeFrame buffer bn (EncodeHeader opc fl rid pn img off cnt lay) pay pn = Inr (True, buf, t)"
    and "HdNetDeserializeFrame (Some buf) blen (Some h) pl pln = Inr (st, r')"
  shows "\<not> ok \<and> (st = STATUS_INVALID_PARAMETER \<or> st = STATUS_DATA_NOT_ACCEPTED)"
proof -
  have "fh_magic hdr = HD_MAGIC"
    using assms(1) by (auto simp: HdNetSendBlockRequest_def HdNetSendHeartbeat_def Let_def split: if_splits)
  then have "(le_word 4 out' :: u32) \<noteq> FRAME_MAGIC"
    using Serialize_magic [OF assms(2)] by (simp add: HD_MAGIC_def FRAME_MAGIC_def)
  moreover have "(le_word 4 buf :: u32) \<noteq> HD_MAGIC"
    using Encode_magic [OF assms(4)] by (simp add: EncodeHeader_def HD_MAGIC_def FRAME_MAGIC_def)
  ultimately show ?thesis using DecodeFrame_magic [OF assms(3)] Deserialize_magic [OF assms(5)] by simp
qed

theorem driver_and_client_reject_each_other_witness:
  "\<exists>hdr out' r buf r'. snd (snd (HdNetSendHeartbeat (empty_net\<lparr>Connections := [zero_connection\<lparr>IsActive := True\<rparr>]\<rparr>) 0 7)) = Some hdr
     \<and> HdNetSerializeFrame (Some hdr) None (Some (replicate 40 0)) (Some 0) = Inr (STATUS_SUCCESS, Some out', Some 32)
     \<and> DecodeFrame out' 40 hdr None 0 0 = Inr (False, r)
     \<and> EncodeFrame (replicate 40 0) 40 (EncodeHeader HEARTBEAT 0 1 0 7 0 0 0) None 0 = Inr (True, buf, 40)
     \<and> HdNetDeserializeFrame (Some buf) 40 (Some hdr) None None = Inr (STATUS_DATA_NOT_ACCEPTED, r')"
proof -
  let ?ext = "empty_net\<lparr>Connections := [zero_connection\<lparr>IsActive := True\<rparr>]\<rparr>"
  let ?eh = "EncodeHeader HEARTBEAT 0 1 0 7 0 0 0"
  obtain s1 ext1 hdr where 1: "HdNetSendHeartbeat ?ext 0 7 = (s1, ext1, Some hdr)" and z: "fh_payload_len hdr = 0"
    by (auto simp: HdNetSendHeartbeat_def conn_usable_def HD_NET_MAX_CONNECTIONS_def Let_def)
  obtain out' where 2: "HdNetSerializeFrame (Some hdr) None (Some (replicate 40 0)) (Some 0) = Inr (STATUS_SUCCESS, Some out', Some 32)"
    and l: "length out' = 40"
    using z by (auto simp: HdNetSerializeFrame_def HD_NET_FRAME_HDR_SIZE_def mem_write_def Let_def)
  have "DecodeFrame out' 40 hdr None 0 0 \<noteq> Inl f" for f using l by (simp add: DecodeFrame_def mem_read_def Let_def)
  then obtain ok r where 3: "DecodeFrame out' 40 hdr None 0 0 = Inr (ok, r)" by (cases "DecodeFrame out' 40 hdr None 0 0") auto
  obtain buf where 4: "EncodeFrame (replicate 40 0) 40 ?eh None 0 = Inr (True, buf, 40)" and lb: "length buf = 40"
    by (auto simp: EncodeFrame_def mem_write_def Let_def)
  let ?d = "HdNetDeserializeFrame (Some buf) 40 (Some hdr) None None"
  have "?d \<noteq> Inl f" "?d \<noteq> Inr (STATUS_INVALID_PARAMETER, x)" for f x
    using lb by (simp_all add: HdNetDeserializeFrame_def HD_NET_FRAME_HDR_SIZE_def mem_read_def Let_def)
  then obtain st r' where 5: "?d = Inr (st, r')" and n: "st \<noteq> STATUS_INVALID_PARAMETER" by (metis obj_sumE surj_pair)
  from driver_and_client_reject_each_other [OF disjI2 [OF 1] 2 3 4 5] n have "\<not> ok" "st = STATUS_DATA_NOT_ACCEPTED" by simp_all
  then show ?thesis using 1 2 3 4 5 by (intro exI conjI) auto
qed

section \<open>The control codes of the three disk drivers\<close>

text \<open>C15. A device-control request to any of the three disk drivers writes within the output buffer of the caller, and is
  completed or passed down exactly once; the plug-and-play and the WDM disk report as many bytes as they write.\<close>

theorem disk_controls_safe:
  "(case pnp_HdBlkDispatchDeviceControl sz pdev code in_len out_len irp of (st, out, irp') \<Rightarrow>
      out_bytes sz out \<le> unat out_len \<and> unat (IoStatus_Information irp') = out_bytes sz out \<and> handled_once irp irp') \<and>
   (case wdm_HdBlkDispatchDeviceControl sz wdev code in_len out_len irp of (st, out, irp') \<Rightarrow>
      out_bytes sz out \<le> unat out_len \<and> unat (IoStatus_Information irp') = out_bytes sz out \<and> handled_once irp irp') \<and>
   (case HdBusDispatchDeviceControl sz ext dev code in_len out_len irp of (st, out, irp') \<Rightarrow>
      out_bytes sz out \<le> unat out_len \<and> handled_once irp irp')"
proof (intro conjI)
  show "case pnp_HdBlkDispatchDeviceControl sz pdev code in_len out_len irp of (st, out, irp') \<Rightarrow>
      out_bytes sz out \<le> unat out_len \<and> unat (IoStatus_Information irp') = out_bytes sz out \<and> handled_once irp irp'"
    unfolding pnp_HdBlkDispatchDeviceControl_def using pnp_ctl.control_safe by (auto split: prod.split)
  show "case wdm_HdBlkDispatchDeviceControl sz wdev code in_len out_len irp of (st, out, irp') \<Rightarrow>
      out_bytes sz out \<le> unat out_len \<and> unat (IoStatus_Information irp') = out_bytes sz out \<and> handled_once irp irp'"
    unfolding wdm_HdBlkDispatchDeviceControl_def using wdm_ctl.control_safe by (auto split: prod.split)
  show "case HdBusDispatchDeviceControl sz ext dev code in_len out_len irp of (st, out, irp') \<Rightarrow>
      out_bytes sz out \<le> unat out_len \<and> handled_once irp irp'"
    unfolding HdBusDispatchDeviceControl_def using bus_ctl.control_safe
    by (auto simp: IoCompleteRequest_def handled_once_def split: prod.split option.split)
qed

end
